(* ===== verification/Prelude.thy ===== *)
theory Prelude
  imports Main "HOL-Library.Word"
begin

text \<open>
  What every component of the model shares.

  Go functions return a value and an error, or panic.  \<open>outcome\<close> has one constructor for each
  of the three ways a call can end; \<open>err\<close> names the error values the backend tests for or returns
  (the packages internal/service/service_errors, internal/user_errors and internal/storage).
  \<open>rerrors.Wrap\<close> adds a message and keeps the error's identity, so it has no counterpart here.

  A stateful operation is a function from a state to an outcome and a new state, put together with
  \<open>bindM\<close>.  The state of a service has a database part, which a transaction rolls back, a part
  held in memory or on disk, which it does not, and a schedule of faults: one boolean for each call
  that goes to the database or to the disk, True when that call fails.  A theorem that quantifies
  over all states quantifies over all schedules of failures as well.

  \<open>keeps\<close> and \<open>hoare\<close> with their rules carry the invariants through the operations.
\<close>

section \<open>Collections\<close>

named_theorems prog_simps \<open>unfolding rules of the state-passing combinators\<close>
named_theorems keeps_intros \<open>rules that split an invariant goal along the combinators\<close>

section \<open>Errors and outcomes\<close>

datatype err =
    ErrStorageFailure
  | ErrNotFound
  | ErrAlreadyExists
  | ErrContextCanceled
  | ErrUnexpected
  | ErrUnauthenticated
  | ErrPermissionDenied
  | ErrRefreshTokenNotFound
  | ErrAccessTokenNotFound
  | ErrAccessTokenExpired
  | ErrUnauthorized
  | ErrFileNotVerified
  | ErrPendingTrackLimitReached
  | ErrSongSizeLimitExceeded
  | ErrTotalUploadSizeLimitExceeded
  | ErrTrackMustHaveOneArtist
  | ErrUnsupportedUploadFormat
  | ErrInvalidImageFile
  | ErrInvalidAlbumVersion
  | ErrSongAlreadyInPlaylist
  | ErrSingleHoldsOneSong
  | ErrFileAlreadyUsed
  | ErrEmptySearchQuery
  | ErrTorrentClientUnavailable
  | ErrInvalidTorrentFile
  | ErrInvalidMagnet
  | ErrInvalidInfoHash
  | ErrTorrentMetadataTimeout
  | ErrTorrentMetadataPending
  | ErrTorrentHasNoAudioFiles
  | ErrTorrentConcurrencyLimitReached
  | ErrTorrentNotRegistered
  | ErrTorrentAlreadyExists int
  | ErrFilePathCollisionUnresolved
  | ErrTorrentUploadNotFound
  | ErrTorrentInvalidSelection
  | ErrStorageNotFound
  | ErrStorageNotEmpty
  | ErrStorageCannotDeleteLocal
  | ErrStorageCannotDeleteDefault
  | ErrStorageInvalidConfig
  | ErrStorageSecretsKeyMissing
  | ErrInvalidFolderName
  | ErrUnsupportedFormat
  | ErrKeyMissing
  | ErrCorrupted
  | ErrMalformed
  | ErrInvalidRequest
  | ErrInvalidToken
  | ErrAuthHeaderMissing
  | ErrEarlyAccessOnly
  | ErrMetadataMissing
  | ErrNoDebugAuth
  | ErrNotImplemented
  | ErrTelegramNotLinked
  | ErrTelegramRelayNotConfigured
  | ErrCsrf
  | ErrBucketRequired
  | ErrEndpointRequired
  | ErrUrlRequired
  | ErrProbeMismatch
  | ErrDriveNotConnected
  | ErrRemoteNotFound
  | ErrUnexpectedStatus int

datatype 'a outcome = Ok 'a | Err err | Panic

fun is_ok :: "'a outcome \<Rightarrow> bool" where
  "is_ok (Ok a) = True"
| "is_ok (Err e) = False"
| "is_ok Panic = False"

fun is_panic :: "'a outcome \<Rightarrow> bool" where
  "is_panic Panic = True"
| "is_panic (Ok a) = False"
| "is_panic (Err e) = False"

definition bindO :: "'a outcome \<Rightarrow> ('a \<Rightarrow> 'b outcome) \<Rightarrow> 'b outcome" where
  "bindO r f = (case r of Ok a \<Rightarrow> f a | Err e \<Rightarrow> Err e | Panic \<Rightarrow> Panic)"

lemma bindO_simps [simp]:
  "bindO (Ok a) f = f a"
  "bindO (Err e) f = Err e"
  "bindO Panic f = Panic"
  by (simp_all add: bindO_def)

lemma bindO_eq_Ok: "bindO r f = Ok b \<longleftrightarrow> (\<exists>a. r = Ok a \<and> f a = Ok b)"
  by (cases r) auto

lemma bindO_eq_Panic: "bindO r f = Panic \<longleftrightarrow> r = Panic \<or> (\<exists>a. r = Ok a \<and> f a = Panic)"
  by (cases r) auto

section \<open>Signed 64-bit arithmetic\<close>

text \<open>Go's int64 operations wrap around; \<open>i64\<close> is the value an int64 variable holds after an
  operation whose mathematical result is its argument.\<close>

definition i64 :: "int \<Rightarrow> int" where
  "i64 x = (x + 9223372036854775808) mod 18446744073709551616 - 9223372036854775808"

definition i64_range :: "int \<Rightarrow> bool" where
  "i64_range x \<longleftrightarrow> - 9223372036854775808 \<le> x \<and> x < 9223372036854775808"

lemma i64_id: "i64_range x \<Longrightarrow> i64 x = x"
  unfolding i64_def i64_range_def by (subst mod_pos_pos_trivial) auto

lemma i64_add_i64 [simp]: "i64 (i64 a + b) = i64 (a + b)" "i64 (a + i64 b) = i64 (a + b)"
  by (simp_all add: i64_def mod_simps algebra_simps)

lemma i64_in_range: "i64_range (i64 x)"
  unfolding i64_def i64_range_def
  using pos_mod_sign[of 18446744073709551616 "x + 9223372036854775808"]
    pos_mod_bound[of 18446744073709551616 "x + 9223372036854775808"] by simp

lemma i64_id_bounds: "- 9223372036854775808 \<le> x \<Longrightarrow> x < 9223372036854775808 \<Longrightarrow> i64 x = x"
  by (rule i64_id) (simp add: i64_range_def)

lemma i64_is_signed_word: "i64 x = sint (word_of_int x :: 64 word)"
  unfolding i64_def by (simp add: int_word_sint)

section \<open>Programs over a state\<close>

type_synonym ('s, 'a) prog = "'s \<Rightarrow> 'a outcome \<times> 's"

definition returnM :: "'a \<Rightarrow> ('s, 'a) prog" where
  "returnM a s = (Ok a, s)"

definition throwM :: "err \<Rightarrow> ('s, 'a) prog" where
  "throwM e s = (Err e, s)"

definition panicM :: "('s, 'a) prog" where
  "panicM s = (Panic, s)"

definition liftO :: "'a outcome \<Rightarrow> ('s, 'a) prog" where
  "liftO r s = (r, s)"

definition bindM :: "('s, 'a) prog \<Rightarrow> ('a \<Rightarrow> ('s, 'b) prog) \<Rightarrow> ('s, 'b) prog" where
  "bindM m f s = (case m s of
      (Ok a, s') \<Rightarrow> f a s'
    | (Err e, s') \<Rightarrow> (Err e, s')
    | (Panic, s') \<Rightarrow> (Panic, s'))"

text \<open>\<open>x, err := m()\<close> where the code goes on to look at err: a panic still ends the caller.\<close>

definition tryM :: "('s, 'a) prog \<Rightarrow> ('s, err + 'a) prog" where
  "tryM m s = (case m s of
      (Ok a, s') \<Rightarrow> (Ok (Inr a), s')
    | (Err e, s') \<Rightarrow> (Ok (Inl e), s')
    | (Panic, s') \<Rightarrow> (Panic, s'))"

definition getM :: "('s \<Rightarrow> 'a) \<Rightarrow> ('s, 'a) prog" where
  "getM f s = (Ok (f s), s)"

definition putM :: "('s \<Rightarrow> 's) \<Rightarrow> ('s, unit) prog" where
  "putM f s = (Ok (), f s)"

primrec forM :: "('x \<Rightarrow> ('s, 'b) prog) \<Rightarrow> 'x list \<Rightarrow> ('s, unit) prog" where
  "forM f [] = returnM ()"
| "forM f (x # xs) = bindM (f x) (\<lambda>_. forM f xs)"

primrec mapM :: "('x \<Rightarrow> ('s, 'b) prog) \<Rightarrow> 'x list \<Rightarrow> ('s, 'b list) prog" where
  "mapM f [] = returnM []"
| "mapM f (x # xs) = bindM (f x) (\<lambda>y. bindM (mapM f xs) (\<lambda>ys. returnM (y # ys)))"

lemma bindM_Ok [simp]: "m s = (Ok a, s') \<Longrightarrow> bindM m f s = f a s'"
  and bindM_Err [simp]: "m s = (Err e, s') \<Longrightarrow> bindM m f s = (Err e, s')"
  and bindM_Panic [simp]: "m s = (Panic, s') \<Longrightarrow> bindM m f s = (Panic, s')"
  by (simp_all add: bindM_def)

lemma tryM_Ok [simp]: "m s = (Ok a, s') \<Longrightarrow> tryM m s = (Ok (Inr a), s')"
  and tryM_Err [simp]: "m s = (Err e, s') \<Longrightarrow> tryM m s = (Ok (Inl e), s')"
  and tryM_Panic [simp]: "m s = (Panic, s') \<Longrightarrow> tryM m s = (Panic, s')"
  by (simp_all add: tryM_def)

lemma tryM_eq_Ok:
  "tryM m s = (Ok x, s') \<longleftrightarrow> (\<exists>a. x = Inr a \<and> m s = (Ok a, s')) \<or> (\<exists>e. x = Inl e \<and> m s = (Err e, s'))"
  by (auto simp: tryM_def split: prod.splits outcome.splits)

lemma bindM_cases:
  "bindM m f s = (r, s'') \<longleftrightarrow>
     (\<exists>a s'. m s = (Ok a, s') \<and> f a s' = (r, s'')) \<or>
     (\<exists>e. m s = (Err e, s'') \<and> r = Err e) \<or>
     (m s = (Panic, s'') \<and> r = Panic)"
  by (cases "m s"; cases "fst (m s)") (auto simp: bindM_def)

lemma bindM_eq_Ok:
  "bindM m f s = (Ok b, s'') \<longleftrightarrow> (\<exists>a s'. m s = (Ok a, s') \<and> f a s' = (Ok b, s''))"
  by (auto simp: bindM_cases)

lemma returnM_apply [simp, prog_simps]: "returnM a s = (Ok a, s)"
  and throwM_apply [simp, prog_simps]: "throwM e s = (Err e, s)"
  and panicM_apply [simp, prog_simps]: "panicM s = (Panic, s)"
  and liftO_apply [simp, prog_simps]: "liftO r s = (r, s)"
  and getM_apply [simp, prog_simps]: "getM f s = (Ok (f s), s)"
  and putM_apply [simp, prog_simps]: "putM g s = (Ok (), g s)"
  by (simp_all add: returnM_def throwM_def panicM_def liftO_def getM_def putM_def)

declare bindM_def [prog_simps] tryM_def [prog_simps]

lemma bindM_assoc: "bindM (bindM m f) g s = bindM m (\<lambda>a. bindM (f a) g) s"
  by (cases "m s"; cases "fst (m s)") (auto simp: bindM_def)

section \<open>Invariants and contracts\<close>

text \<open>\<open>keeps I m\<close>: whatever way \<open>m\<close> ends, it ends in a state with \<open>I\<close> when it starts in one.\<close>

definition keeps :: "('s \<Rightarrow> bool) \<Rightarrow> ('s, 'a) prog \<Rightarrow> bool" where
  "keeps I m \<longleftrightarrow> (\<forall>s. I s \<longrightarrow> I (snd (m s)))"

definition hoare :: "('s \<Rightarrow> bool) \<Rightarrow> ('s, 'a) prog \<Rightarrow> ('a outcome \<Rightarrow> 's \<Rightarrow> bool) \<Rightarrow> bool" where
  "hoare P m Q \<longleftrightarrow> (\<forall>s. P s \<longrightarrow> Q (fst (m s)) (snd (m s)))"

lemma keepsD: "keeps I m \<Longrightarrow> I s \<Longrightarrow> I (snd (m s))"
  by (simp add: keeps_def)

lemma keepsD_eq: "keeps I m \<Longrightarrow> m s = (r, s') \<Longrightarrow> I s \<Longrightarrow> I s'"
  by (metis keepsD snd_conv)

lemma keepsI: "(\<And>s r s'. I s \<Longrightarrow> m s = (r, s') \<Longrightarrow> I s') \<Longrightarrow> keeps I m"
  unfolding keeps_def by (metis prod.collapse)

lemma keeps_return [keeps_intros]: "keeps I (returnM a)"
  and keeps_throw [keeps_intros]: "keeps I (throwM e)"
  and keeps_panic [keeps_intros]: "keeps I panicM"
  and keeps_lift [keeps_intros]: "keeps I (liftO r)"
  and keeps_get [keeps_intros]: "keeps I (getM f)"
  by (simp_all add: keeps_def)

lemma keeps_put: "(\<And>s. I s \<Longrightarrow> I (g s)) \<Longrightarrow> keeps I (putM g)"
  by (simp add: keeps_def)

lemma keeps_bind [keeps_intros]:
  assumes "keeps I m" and "\<And>a. keeps I (f a)"
  shows "keeps I (bindM m f)"
proof (rule keepsI)
  fix s r s'
  assume "I s" "bindM m f s = (r, s')"
  then show "I s'"
    using assms by (auto simp: bindM_cases intro: keepsD_eq)
qed

lemma keeps_try [keeps_intros]: "keeps I m \<Longrightarrow> keeps I (tryM m)"
  unfolding keeps_def tryM_def by (auto split: prod.splits outcome.splits)

lemma keeps_if [keeps_intros]: "keeps I m \<Longrightarrow> keeps I n \<Longrightarrow> keeps I (if b then m else n)"
  by simp

lemma keeps_case_option [keeps_intros]:
  "keeps I m \<Longrightarrow> (\<And>x. keeps I (f x)) \<Longrightarrow> keeps I (case v of None \<Rightarrow> m | Some x \<Rightarrow> f x)"
  by (cases v) auto

lemma keeps_case_sum [keeps_intros]:
  "(\<And>x. keeps I (f x)) \<Longrightarrow> (\<And>x. keeps I (g x)) \<Longrightarrow> keeps I (case v of Inl x \<Rightarrow> f x | Inr x \<Rightarrow> g x)"
  by (cases v) auto

lemma keeps_case_prod [keeps_intros]:
  "(\<And>x y. keeps I (f x y)) \<Longrightarrow> keeps I (case v of (x, y) \<Rightarrow> f x y)"
  by (cases v) auto

lemma keeps_let [keeps_intros]: "(\<And>x. keeps I (f x)) \<Longrightarrow> keeps I (let x = v in f x)"
  by simp

lemma keeps_forM [keeps_intros]: "(\<And>x. keeps I (f x)) \<Longrightarrow> keeps I (forM f xs)"
  by (induction xs) (auto intro: keeps_intros)

lemma keeps_mapM [keeps_intros]: "(\<And>x. keeps I (f x)) \<Longrightarrow> keeps I (mapM f xs)"
  by (induction xs) (auto intro!: keeps_intros)

lemma keeps_bind_post:
  assumes "hoare I m (\<lambda>r s. I s \<and> (\<forall>a. r = Ok a \<longrightarrow> A a))" and "\<And>a. A a \<Longrightarrow> keeps I (f a)"
  shows "keeps I (bindM m f)"
proof (rule keepsI)
  fix s r s'
  assume I: "I s" and run: "bindM m f s = (r, s')"
  have post: "I s1 \<and> (\<forall>a. q = Ok a \<longrightarrow> A a)" if "m s = (q, s1)" for q s1
    using assms(1) I that unfolding hoare_def by (metis fst_conv snd_conv)
  from run show "I s'"
    unfolding bindM_cases
  proof (elim disjE exE conjE)
    fix a s1
    assume "m s = (Ok a, s1)" "f a s1 = (r, s')"
    then show ?thesis using post[of "Ok a" s1] assms(2)[of a] keepsD_eq by fast
  qed (use post in auto)
qed

lemma hoareD: "hoare P m Q \<Longrightarrow> P s \<Longrightarrow> m s = (r, s') \<Longrightarrow> Q r s'"
  unfolding hoare_def by (metis fst_conv snd_conv)

lemma hoareI: "(\<And>s r s'. P s \<Longrightarrow> m s = (r, s') \<Longrightarrow> Q r s') \<Longrightarrow> hoare P m Q"
  unfolding hoare_def by (metis prod.collapse)

lemma hoare_bind:
  assumes "hoare P m (\<lambda>r s. case r of Ok a \<Rightarrow> R a s | Err e \<Rightarrow> Q (Err e) s | Panic \<Rightarrow> Q Panic s)"
    and "\<And>a. hoare (R a) (f a) Q"
  shows "hoare P (bindM m f) Q"
proof (rule hoareI)
  fix s r s'
  assume "P s" and run: "bindM m f s = (r, s')"
  then show "Q r s'"
    using hoareD[OF assms(1)] hoareD[OF assms(2)]
    unfolding bindM_cases by fastforce
qed

text \<open>\<open>triple P m Q E\<close>: from a state with \<open>P\<close>, a return ends with \<open>Q\<close> and an error with \<open>E\<close>; a panic ends anyhow.\<close>

definition triple ::
  "('s \<Rightarrow> bool) \<Rightarrow> ('s, 'a) prog \<Rightarrow> ('a \<Rightarrow> 's \<Rightarrow> bool) \<Rightarrow> (err \<Rightarrow> 's \<Rightarrow> bool) \<Rightarrow> bool"
where
  "triple P m Q E \<longleftrightarrow> (\<forall>s. P s \<longrightarrow>
     (case m s of (Ok a, s') \<Rightarrow> Q a s' | (Err e, s') \<Rightarrow> E e s' | (Panic, s') \<Rightarrow> True))"

lemma tripleI:
  assumes "\<And>s a s'. P s \<Longrightarrow> m s = (Ok a, s') \<Longrightarrow> Q a s'" "\<And>s e s'. P s \<Longrightarrow> m s = (Err e, s') \<Longrightarrow> E e s'"
  shows "triple P m Q E"
  unfolding triple_def using assms by (auto split: prod.split outcome.split)

lemma triple_Ok: "triple P m Q E \<Longrightarrow> P s \<Longrightarrow> m s = (Ok a, s') \<Longrightarrow> Q a s'"
  and triple_Err: "triple P m Q E \<Longrightarrow> P s \<Longrightarrow> m s = (Err e, s') \<Longrightarrow> E e s'"
  unfolding triple_def by force+

lemma triple_conseq:
  "triple P' m Q' E' \<Longrightarrow> (\<And>s. P s \<Longrightarrow> P' s) \<Longrightarrow> (\<And>a s. Q' a s \<Longrightarrow> Q a s) \<Longrightarrow> (\<And>e s. E' e s \<Longrightarrow> E e s) \<Longrightarrow>
   triple P m Q E"
  by (rule tripleI) (blast dest: triple_Ok triple_Err)+

lemma triple_bind:
  "triple P m R E \<Longrightarrow> (\<And>a. triple (R a) (f a) Q E) \<Longrightarrow> triple P (bindM m f) Q E"
  by (rule tripleI) (auto simp: bindM_cases dest: triple_Ok triple_Err)

lemma triple_return: "triple (Q a) (returnM a) Q E"
  and triple_throw: "triple (E e) (throwM e) Q E"
  and triple_panic: "triple P panicM Q E"
  by (rule tripleI; simp)+

lemma triple_try:
  assumes "triple P m (\<lambda>a. Q (Inr a)) (\<lambda>e. Q (Inl e))"
  shows "triple P (tryM m) Q E"
proof (rule tripleI)
  fix s a s'
  assume "P s" "tryM m s = (Ok a, s')"
  then show "Q a s'"
    using triple_Ok[OF assms] triple_Err[OF assms] by (auto simp: tryM_def split: prod.splits outcome.splits)
qed (auto simp: tryM_def split: prod.splits outcome.splits)

lemma triple_if: "triple P m Q E \<Longrightarrow> triple P n Q E \<Longrightarrow> triple P (if b then m else n) Q E"
  and triple_case_option:
    "triple P m' Q E \<Longrightarrow> (\<And>x. triple P (f x) Q E) \<Longrightarrow> triple P (case v of None \<Rightarrow> m' | Some x \<Rightarrow> f x) Q E"
  by (simp, cases v, simp_all)

lemma triple_case_sum:
  "(\<And>x. v = Inl x \<Longrightarrow> triple P (f x) Q E) \<Longrightarrow> (\<And>x. v = Inr x \<Longrightarrow> triple P (g x) Q E) \<Longrightarrow>
   triple P (case v of Inl x \<Rightarrow> f x | Inr x \<Rightarrow> g x) Q E"
  by (cases v) auto

text \<open>A step that keeps \<open>P\<close>, in front of the rest.\<close>

lemma triple_keeps:
  "keeps P m \<Longrightarrow> (\<And>a s. P s \<Longrightarrow> Q a s) \<Longrightarrow> (\<And>e s. P s \<Longrightarrow> E e s) \<Longrightarrow> triple P m Q E"
  by (rule tripleI) (auto dest: keepsD_eq)

lemma triple_bind_keeps:
  "keeps P m \<Longrightarrow> (\<And>e s. P s \<Longrightarrow> E e s) \<Longrightarrow> (\<And>a. triple P (f a) Q E) \<Longrightarrow> triple P (bindM m f) Q E"
  by (rule triple_bind[where R = "\<lambda>_. P"]) (auto intro!: tripleI dest: keepsD_eq)

section \<open>Database, memory and faults\<close>

record ('d, 'm) st =
  faults :: "bool list"
  dbase :: 'd
  mem :: 'm

text \<open>A call to the database: a fault makes it return an error and change nothing.  An exhausted
  schedule has no more faults.\<close>

definition next_fault :: "('d, 'm, 'z) st_scheme \<Rightarrow> bool" where
  "next_fault s = (case faults s of [] \<Rightarrow> False | f # _ \<Rightarrow> f)"

definition dbcall :: "('d \<Rightarrow> 'a outcome \<times> 'd) \<Rightarrow> (('d, 'm) st, 'a) prog" where
  "dbcall f s =
     (let s1 = s\<lparr>faults := tl (faults s)\<rparr> in
      if next_fault s then (Err ErrStorageFailure, s1)
      else (case f (dbase s) of (r, d) \<Rightarrow> (r, s1\<lparr>dbase := d\<rparr>)))"

definition query :: "('d \<Rightarrow> 'a) \<Rightarrow> (('d, 'm) st, 'a) prog" where
  "query f = dbcall (\<lambda>d. (Ok (f d), d))"

definition exec :: "('d \<Rightarrow> 'd) \<Rightarrow> (('d, 'm) st, unit) prog" where
  "exec f = dbcall (\<lambda>d. (Ok (), f d))"

text \<open>A call to the disk or another service whose failure the model leaves open.\<close>

definition iocall :: "('m \<Rightarrow> 'a outcome \<times> 'm) \<Rightarrow> (('d, 'm) st, 'a) prog" where
  "iocall f s =
     (let s1 = s\<lparr>faults := tl (faults s)\<rparr> in
      if next_fault s then (Err ErrStorageFailure, s1)
      else (case f (mem s) of (r, m) \<Rightarrow> (r, s1\<lparr>mem := m\<rparr>)))"

definition get_mem :: "('m \<Rightarrow> 'a) \<Rightarrow> (('d, 'm) st, 'a) prog" where
  "get_mem f = getM (\<lambda>s. f (mem s))"

definition put_mem :: "('m \<Rightarrow> 'm) \<Rightarrow> (('d, 'm) st, unit) prog" where
  "put_mem f = putM (\<lambda>s. s\<lparr>mem := f (mem s)\<rparr>)"

lemma dbcall_no_fault [simp]:
  "faults s = [] \<Longrightarrow> dbcall f s = (fst (f (dbase s)), s\<lparr>dbase := snd (f (dbase s))\<rparr>)"
  by (cases "f (dbase s)") (simp add: dbcall_def next_fault_def Let_def)

lemma iocall_no_fault [simp]:
  "faults s = [] \<Longrightarrow> iocall f s = (fst (f (mem s)), s\<lparr>mem := snd (f (mem s))\<rparr>)"
  by (cases "f (mem s)") (simp add: iocall_def next_fault_def Let_def)

lemma query_no_fault [simp]: "faults s = [] \<Longrightarrow> query f s = (Ok (f (dbase s)), s)"
  by (simp add: query_def)

lemma exec_no_fault [simp]: "faults s = [] \<Longrightarrow> exec f s = (Ok (), s\<lparr>dbase := f (dbase s)\<rparr>)"
  by (simp add: exec_def)

lemma get_mem_apply [simp, prog_simps]: "get_mem f s = (Ok (f (mem s)), s)"
  by (simp add: get_mem_def)

lemma put_mem_apply [simp, prog_simps]: "put_mem f s = (Ok (), s\<lparr>mem := f (mem s)\<rparr>)"
  by (simp add: put_mem_def)

lemma dbcall_cases:
  "dbcall f s = (r, s') \<longleftrightarrow>
     (next_fault s \<and> r = Err ErrStorageFailure \<and> s' = s\<lparr>faults := tl (faults s)\<rparr>) \<or>
     (\<not> next_fault s \<and> r = fst (f (dbase s)) \<and>
      s' = s\<lparr>faults := tl (faults s), dbase := snd (f (dbase s))\<rparr>)"
  by (cases "f (dbase s)") (auto simp: dbcall_def Let_def)

lemma query_cases:
  "query f s = (r, s') \<longleftrightarrow>
     s' = s\<lparr>faults := tl (faults s)\<rparr> \<and>
     r = (if next_fault s then Err ErrStorageFailure else Ok (f (dbase s)))"
  by (auto simp: query_def dbcall_cases)

lemma exec_cases:
  "exec f s = (r, s') \<longleftrightarrow>
     (next_fault s \<and> r = Err ErrStorageFailure \<and> s' = s\<lparr>faults := tl (faults s)\<rparr>) \<or>
     (\<not> next_fault s \<and> r = Ok () \<and> s' = s\<lparr>faults := tl (faults s), dbase := f (dbase s)\<rparr>)"
  by (auto simp: exec_def dbcall_cases)

text \<open>Most invariants speak of the database and the memory and not of the fault schedule; the rules
  below reduce them to the pure table operation or memory update.\<close>

definition on_data :: "('d \<Rightarrow> 'm \<Rightarrow> bool) \<Rightarrow> ('d, 'm) st \<Rightarrow> bool" where
  "on_data I s \<longleftrightarrow> I (dbase s) (mem s)"

lemma on_data_simps [simp]:
  "on_data I (s\<lparr>faults := fs\<rparr>) = on_data I s"
  "on_data I (s\<lparr>dbase := d\<rparr>) = I d (mem s)"
  "on_data I (s\<lparr>mem := m\<rparr>) = I (dbase s) m"
  by (simp_all add: on_data_def)

lemma keeps_dbcall:
  "(\<And>d m. I d m \<Longrightarrow> I (snd (f d)) m) \<Longrightarrow> keeps (on_data I) (dbcall f)"
  by (rule keepsI) (auto simp: dbcall_cases on_data_def)

lemma keeps_query [keeps_intros]: "keeps (on_data I) (query f)"
  unfolding query_def by (rule keeps_dbcall) simp

lemma keeps_exec: "(\<And>d m. I d m \<Longrightarrow> I (f d) m) \<Longrightarrow> keeps (on_data I) (exec f)"
  unfolding exec_def by (rule keeps_dbcall) simp

lemma keeps_iocall:
  "(\<And>d m. I d m \<Longrightarrow> I d (snd (f m))) \<Longrightarrow> keeps (on_data I) (iocall f)"
  by (rule keepsI)
    (auto simp: iocall_def Let_def on_data_def split: prod.splits if_splits, metis snd_conv)

lemma keeps_get_mem [keeps_intros]: "keeps (on_data I) (get_mem f)"
  unfolding get_mem_def by (rule keeps_get)

lemma keeps_put_mem: "(\<And>d m. I d m \<Longrightarrow> I d (f m)) \<Longrightarrow> keeps (on_data I) (put_mem f)"
  by (simp add: keeps_def on_data_def)

section \<open>Transactions\<close>

text \<open>internal/storage/tx_manager, \<open>Execute\<close>: begin a transaction, run the callback in it, commit
  when it returns nil and roll back when it returns an error.  Begin and commit can fail like any
  other database call; a callback that panics leaves a transaction nobody commits.  Only the
  database part of the state is transactional.\<close>

definition tx_execute :: "(('d, 'm) st, 'a) prog \<Rightarrow> (('d, 'm) st, 'a) prog" where
  "tx_execute m s =
     (let s1 = s\<lparr>faults := tl (faults s)\<rparr> in
      if next_fault s then (Err ErrStorageFailure, s1)
      else (case m s1 of
          (Ok a, s2) \<Rightarrow>
            if next_fault s2
            then (Err ErrStorageFailure, s2\<lparr>faults := tl (faults s2), dbase := dbase s\<rparr>)
            else (Ok a, s2\<lparr>faults := tl (faults s2)\<rparr>)
        | (Err e, s2) \<Rightarrow> (Err e, s2\<lparr>dbase := dbase s\<rparr>)
        | (Panic, s2) \<Rightarrow> (Panic, s2\<lparr>dbase := dbase s\<rparr>)))"

lemma tx_execute_atomic:
  "tx_execute m s = (r, s') \<Longrightarrow> \<not> is_ok r \<Longrightarrow> dbase s' = dbase s"
  by (auto simp: tx_execute_def Let_def split: prod.splits outcome.splits if_splits)

lemma tx_execute_Ok:
  "tx_execute m s = (Ok a, s') \<longleftrightarrow>
     \<not> next_fault s \<and>
     (\<exists>s2. m (s\<lparr>faults := tl (faults s)\<rparr>) = (Ok a, s2) \<and> \<not> next_fault s2 \<and>
       s' = s2\<lparr>faults := tl (faults s2)\<rparr>)"
  by (auto simp: tx_execute_def Let_def split: prod.splits outcome.splits if_splits)

lemma keeps_tx_execute:
  assumes "keeps (on_data (\<lambda>d m. J d \<and> K m)) m"
  shows "keeps (on_data (\<lambda>d m. J d \<and> K m)) (tx_execute m)"
proof (rule keepsI)
  fix s r s'
  assume s: "on_data (\<lambda>d m. J d \<and> K m) s" and run: "tx_execute m s = (r, s')"
  have step: "J (dbase s2) \<and> K (mem s2)" if "m (s\<lparr>faults := tl (faults s)\<rparr>) = (q, s2)" for q s2
    using keepsD_eq[OF assms that] s by (simp add: on_data_def)
  show "on_data (\<lambda>d m. J d \<and> K m) s'"
    using run s
    by (auto simp: tx_execute_def Let_def on_data_def dest: step
        split: prod.splits outcome.splits if_splits)
qed

end
