(* ===== verification/GoStrings.thy ===== *)
theory GoStrings
  imports Prelude
begin

text \<open>
  Go strings as lists of bytes (an Isabelle \<open>char\<close> is one byte), with the functions of the Go
  packages strings and path/filepath that the backend calls: \<open>TrimSpace\<close>, \<open>ToLower\<close> on the
  characters that matter for the extensions it compares with, \<open>Split\<close>, \<open>Join\<close>, \<open>TrimSuffix\<close>, and
  \<open>Clean\<close>, \<open>Join\<close>, \<open>Dir\<close>, \<open>Base\<close>, \<open>Ext\<close>, \<open>Abs\<close>, \<open>Rel\<close> on slash-separated paths.

  \<open>Clean\<close> is given by the segments it keeps: empty and single-dot segments go, a double dot removes the segment
  before it, at the root it is ignored, and at the start of a relative path it stays.
\<close>

section \<open>Spaces\<close>

text \<open>Length in bytes of the white-space rune a byte list starts with, 0 when it starts with none:
  the runes of unicode.IsSpace in their UTF-8 encoding.\<close>

fun space_len :: "nat list \<Rightarrow> nat" where
  "space_len [] = 0"
| "space_len [b] = (if b = 32 \<or> (9 \<le> b \<and> b \<le> 13) then 1 else 0)"
| "space_len [b, c] =
     (if b = 32 \<or> (9 \<le> b \<and> b \<le> 13) then 1
      else if b = 194 \<and> (c = 133 \<or> c = 160) then 2 else 0)"
| "space_len (b # c # d # _) =
     (if b = 32 \<or> (9 \<le> b \<and> b \<le> 13) then 1
      else if b = 194 \<and> (c = 133 \<or> c = 160) then 2
      else if b = 225 \<and> c = 154 \<and> d = 128 then 3
      else if b = 226 \<and> c = 128 \<and> (128 \<le> d \<and> d \<le> 138 \<or> d = 168 \<or> d = 169 \<or> d = 175) then 3
      else if b = 226 \<and> c = 129 \<and> d = 159 then 3
      else if b = 227 \<and> c = 128 \<and> d = 128 then 3
      else 0)"

text \<open>The same for the end of a string: the longest of the last three, two or one bytes that is a
  white-space rune.  Decoding the last rune of a string goes back to the nearest byte that can start
  a rune, so looking at the suffixes is the same as decoding.\<close>

definition bytes_of :: "string \<Rightarrow> nat list" where
  "bytes_of s = List.map of_char s"

definition is_space_rune :: "nat list \<Rightarrow> bool" where
  "is_space_rune bs \<longleftrightarrow> bs \<noteq> [] \<and> space_len bs = length bs"

definition space_suffix_len :: "string \<Rightarrow> nat" where
  "space_suffix_len s =
     (let bs = bytes_of s; n = length bs in
      if 3 \<le> n \<and> is_space_rune (drop (n - 3) bs) then 3
      else if 2 \<le> n \<and> is_space_rune (drop (n - 2) bs) then 2
      else if 1 \<le> n \<and> is_space_rune (drop (n - 1) bs) then 1
      else 0)"

lemma space_len_le: "space_len bs \<le> length bs"
  by (induction bs rule: space_len.induct) auto

function trim_left_space :: "string \<Rightarrow> string" where
  "trim_left_space s =
     (let n = space_len (bytes_of s) in if n = 0 then s else trim_left_space (drop n s))"
  by auto
termination
proof (relation "measure length", simp)
  fix s :: string and n
  assume "n = space_len (bytes_of s)" "n \<noteq> 0"
  then show "(drop n s, s) \<in> measure length"
    using space_len_le[of "bytes_of s"] by (cases s) (auto simp: bytes_of_def)
qed

lemma space_suffix_len_le: "space_suffix_len s \<le> length s"
  by (auto simp: space_suffix_len_def Let_def bytes_of_def)

function trim_right_space :: "string \<Rightarrow> string" where
  "trim_right_space s =
     (let n = space_suffix_len s in if n = 0 then s else trim_right_space (take (length s - n) s))"
  by auto
termination
proof (relation "measure length", simp)
  fix s :: string and n
  assume "n = space_suffix_len s" "n \<noteq> 0"
  then show "(take (length s - n) s, s) \<in> measure length"
    using space_suffix_len_le[of s] by simp
qed

declare trim_left_space.simps [simp del] trim_right_space.simps [simp del]

definition TrimSpace :: "string \<Rightarrow> string" where
  "TrimSpace s = trim_right_space (trim_left_space s)"

lemma trim_left_space_stops: "space_len (bytes_of (trim_left_space s)) = 0"
  by (induction s rule: trim_left_space.induct) (subst trim_left_space.simps, simp add: Let_def)

lemma trim_right_space_stops: "space_suffix_len (trim_right_space s) = 0"
  by (induction s rule: trim_right_space.induct) (subst trim_right_space.simps, simp add: Let_def)

lemma trim_left_space_step:
  "trim_left_space s =
     (if space_len (bytes_of s) = 0 then s else trim_left_space (drop (space_len (bytes_of s)) s))"
  by (subst trim_left_space.simps) (simp add: Let_def)

lemma trim_right_space_step:
  "trim_right_space s =
     (if space_suffix_len s = 0 then s
      else trim_right_space (take (length s - space_suffix_len s) s))"
  by (subst trim_right_space.simps) (simp add: Let_def)

lemma trim_left_space_suffix: "\<exists>p. s = p @ trim_left_space s"
proof (induction s rule: trim_left_space.induct)
  case (1 s)
  let ?n = "space_len (bytes_of s)"
  show ?case
  proof (cases "?n = 0")
    case True
    then show ?thesis using trim_left_space_step[of s] by simp
  next
    case False
    then obtain p where "drop ?n s = p @ trim_left_space s"
      using 1 trim_left_space_step[of s] by auto
    then have "s = (take ?n s @ p) @ trim_left_space s"
      by (metis append_assoc append_take_drop_id)
    then show ?thesis by blast
  qed
qed

lemma trim_right_space_prefix: "\<exists>p. s = trim_right_space s @ p"
proof (induction s rule: trim_right_space.induct)
  case (1 s)
  let ?n = "space_suffix_len s" and ?t = "take (length s - space_suffix_len s) s"
  show ?case
  proof (cases "?n = 0")
    case True
    then show ?thesis using trim_right_space_step[of s] by simp
  next
    case False
    then obtain p where "?t = trim_right_space s @ p"
      using 1 trim_right_space_step[of s] by auto
    then have "s = trim_right_space s @ p @ drop (length s - ?n) s"
      by (metis append_assoc append_take_drop_id)
    then show ?thesis by blast
  qed
qed

text \<open>Cutting a suffix off a string does not make its first rune a space.\<close>

lemma space_len_prefix: "space_len (xs @ ys) = 0 \<Longrightarrow> space_len xs = 0"
  by (cases xs rule: space_len.cases; cases ys rule: space_len.cases) (auto split: if_splits)

lemma TrimSpace_stops:
  "space_len (bytes_of (TrimSpace s)) = 0" "space_suffix_len (TrimSpace s) = 0"
proof -
  let ?l = "trim_left_space s"
  obtain p where p: "?l = trim_right_space ?l @ p"
    using trim_right_space_prefix by blast
  have "space_len (bytes_of (trim_right_space ?l @ p)) = 0"
    using trim_left_space_stops[of s] p by simp
  then show "space_len (bytes_of (TrimSpace s)) = 0"
    by (auto simp: TrimSpace_def bytes_of_def intro: space_len_prefix)
  show "space_suffix_len (TrimSpace s) = 0"
    by (simp add: TrimSpace_def trim_right_space_stops)
qed

lemma TrimSpace_idem: "TrimSpace (TrimSpace s) = TrimSpace s"
proof -
  have "trim_left_space (TrimSpace s) = TrimSpace s"
    using TrimSpace_stops(1)[of s] by (subst trim_left_space.simps) simp
  moreover have "trim_right_space (TrimSpace s) = TrimSpace s"
    using TrimSpace_stops(2)[of s] by (subst trim_right_space.simps) simp
  ultimately show ?thesis by (simp add: TrimSpace_def[of "TrimSpace s"])
qed

lemma set_TrimSpace: "set (TrimSpace s) \<subseteq> set s"
proof -
  obtain p where p: "s = p @ trim_left_space s"
    using trim_left_space_suffix by blast
  obtain q where q: "trim_left_space s = TrimSpace s @ q"
    using trim_right_space_prefix unfolding TrimSpace_def by blast
  have "s = p @ TrimSpace s @ q"
    using p q by simp
  then show ?thesis
    by (metis Un_upper1 Un_upper2 order_trans set_append)
qed

section \<open>Lower case\<close>

text \<open>The bytes \<open>strings.ToLower\<close> yields, for a string that is compared with plain ASCII text: ASCII
  letters go to lower case, and the two other runes whose lower case is ASCII, the dotted capital I and the
  Kelvin sign, go to it.  Other bytes are left as they are, which never makes a string equal to an
  ASCII one.\<close>

definition lower_byte :: "char \<Rightarrow> char" where
  "lower_byte c = (let n = of_char c :: nat in if 65 \<le> n \<and> n \<le> 90 then char_of (n + 32) else c)"

fun ascii_lower :: "string \<Rightarrow> string" where
  "ascii_lower [] = []"
| "ascii_lower (a # b # c # s) =
     (if bytes_of [a, b, c] = [226, 132, 170] then CHR ''k'' # ascii_lower s
      else if bytes_of [a, b] = [196, 176] then CHR ''i'' # ascii_lower (c # s)
      else lower_byte a # ascii_lower (b # c # s))"
| "ascii_lower [a, b] =
     (if bytes_of [a, b] = [196, 176] then ''i'' else [lower_byte a, lower_byte b])"
| "ascii_lower [a] = [lower_byte a]"

section \<open>Split, join, prefixes\<close>

fun split_on :: "char \<Rightarrow> string \<Rightarrow> string list" where
  "split_on c [] = [[]]"
| "split_on c (x # xs) =
     (if x = c then [] # split_on c xs
      else (x # hd (split_on c xs)) # tl (split_on c xs))"

fun join_with :: "string \<Rightarrow> string list \<Rightarrow> string" where
  "join_with sep [] = []"
| "join_with sep [x] = x"
| "join_with sep (x # y # ys) = x @ sep @ join_with sep (y # ys)"

definition has_prefix :: "string \<Rightarrow> string \<Rightarrow> bool" where
  "has_prefix s p \<longleftrightarrow> take (length p) s = p"

definition has_suffix :: "string \<Rightarrow> string \<Rightarrow> bool" where
  "has_suffix s p \<longleftrightarrow> length p \<le> length s \<and> drop (length s - length p) s = p"

definition trim_suffix :: "string \<Rightarrow> string \<Rightarrow> string" where
  "trim_suffix s p = (if has_suffix s p then take (length s - length p) s else s)"

lemma has_prefix_append: "has_prefix s p \<longleftrightarrow> (\<exists>r. s = p @ r)"
  by (metis append_eq_conv_conj has_prefix_def append_take_drop_id)

lemma split_on_ne [simp]: "split_on c s \<noteq> []"
  by (cases s) auto

text \<open>An equation that evaluates the rest once.\<close>

lemma split_on_code [code]:
  "split_on c [] = [[]]"
  "split_on c (x # xs) = (case split_on c xs of
      [] \<Rightarrow> [] | y # ys \<Rightarrow> if x = c then [] # y # ys else (x # y) # ys)"
  by (simp_all split: list.split)

lemma split_on_no_sep: "c \<notin> set s \<Longrightarrow> split_on c s = [s]"
  by (induction s) auto

lemma split_on_append: "c \<notin> set x \<Longrightarrow> split_on c (x @ c # s) = x # split_on c s"
  by (induction x) auto

lemma split_on_segs: "seg \<in> set (split_on c s) \<Longrightarrow> c \<notin> set seg"
proof (induction s arbitrary: seg)
  case (Cons x s)
  then show ?case
    by (cases "split_on c s") (auto split: if_splits)
qed simp

lemma split_on_join:
  "xs \<noteq> [] \<Longrightarrow> (\<And>x. x \<in> set xs \<Longrightarrow> c \<notin> set x) \<Longrightarrow> split_on c (join_with [c] xs) = xs"
proof (induction "[c]" xs rule: join_with.induct)
  case (2 x)
  then show ?case by (simp add: split_on_no_sep)
next
  case (3 x y ys)
  then show ?case by (simp add: split_on_append)
qed simp

lemma join_split_on: "join_with [c] (split_on c s) = s"
proof (induction s)
  case (Cons x s)
  then show ?case
    by (cases "split_on c s"; cases "tl (split_on c s)") auto
qed simp

lemma join_with_append:
  "xs \<noteq> [] \<Longrightarrow> ys \<noteq> [] \<Longrightarrow> join_with sep (xs @ ys) = join_with sep xs @ sep @ join_with sep ys"
proof (induction sep xs rule: join_with.induct)
  case (2 sep x)
  then show ?case by (cases ys) auto
qed auto

lemma join_with_inj:
  assumes "xs \<noteq> []" "ys \<noteq> []"
    and "\<And>x. x \<in> set xs \<Longrightarrow> c \<notin> set x" "\<And>x. x \<in> set ys \<Longrightarrow> c \<notin> set x"
    and "join_with [c] xs = join_with [c] ys"
  shows "xs = ys"
  using assms by (metis split_on_join)

section \<open>Numbers\<close>

text \<open>\<open>strconv.FormatInt(n, 10)\<close>.\<close>

fun digits :: "nat \<Rightarrow> string" where
  "digits n = (if n < 10 then [char_of (48 + n)] else digits (n div 10) @ [char_of (48 + n mod 10)])"

definition FormatInt :: "int \<Rightarrow> string" where
  "FormatInt n = (if n < 0 then CHR ''-'' # digits (nat (- n)) else digits (nat n))"

declare digits.simps [simp del]

text \<open>The value of a string of decimal digits, and \<open>strconv.ParseInt(s, 10, 64)\<close>.\<close>

definition is_digit :: "char \<Rightarrow> bool" where
  "is_digit c \<longleftrightarrow> (48 :: nat) \<le> of_char c \<and> of_char c \<le> (57 :: nat)"

definition digits_value :: "string \<Rightarrow> int" where
  "digits_value s = foldl (\<lambda>a c. 10 * a + (of_char c - 48)) 0 s"

definition parse_digits :: "bool \<Rightarrow> string \<Rightarrow> int option" where
  "parse_digits negative s =
     (if s = [] \<or> \<not> list_all is_digit s then None
      else let n = (if negative then - digits_value s else digits_value s) in
           if i64_range n then Some n else None)"

definition ParseInt :: "string \<Rightarrow> int option" where
  "ParseInt s =
     (if s \<noteq> [] \<and> hd s = CHR ''-'' then parse_digits True (tl s)
      else if s \<noteq> [] \<and> hd s = CHR ''+'' then parse_digits False (tl s)
      else parse_digits False s)"

lemma digits_step:
  "digits n = (if n < 10 then [char_of (48 + n)] else digits (n div 10) @ [char_of (48 + n mod 10)])"
  by (subst digits.simps) simp

lemma digit_char: "n < 10 \<Longrightarrow> is_digit (char_of (48 + n :: nat))"
  by (simp add: is_digit_def)

lemma code_digit: "n < 10 \<Longrightarrow> (of_char (char_of (48 + n :: nat)) :: int) = 48 + int n"
  by (subst of_nat_of_char [symmetric]) simp

lemma list_all_digits: "list_all is_digit (digits n)"
proof (induction n rule: digits.induct)
  case (1 n)
  then show ?case using digits_step[of n] digit_char[of "n mod 10"] digit_char[of n] by simp
qed

lemma digits_ne [simp]: "digits n \<noteq> []"
  using digits_step[of n] by simp

lemma hd_digits: "is_digit (hd (digits n)) \<and> (hd (digits n) = CHR ''0'' \<longrightarrow> n = 0)"
proof (induction n rule: digits.induct)
  case (1 n)
  have "char_of (48 + n) = CHR ''0'' \<longrightarrow> n = 0" if "n < 10"
    using that code_digit[of n] by auto
  then show ?case using 1 digits_step[of n] digit_char[of n] by (auto simp: div_eq_0_iff)
qed

lemma digits_value_snoc: "digits_value (s @ [c]) = 10 * digits_value s + (of_char c - 48)"
  by (simp add: digits_value_def)

lemma digits_value_digits: "digits_value (digits n) = int n"
proof (induction n rule: digits.induct)
  case (1 n)
  show ?case
  proof (cases "n < 10")
    case True
    then show ?thesis using digits_step[of n] code_digit[of n] by (simp add: digits_value_def)
  next
    case False
    have "int n = 10 * int (n div 10) + int (n mod 10)" by presburger
    then show ?thesis
      using False 1 digits_step[of n] code_digit[of "n mod 10"] by (simp add: digits_value_snoc)
  qed
qed

lemma ParseInt_FormatInt:
  assumes "i64_range n"
  shows "ParseInt (FormatInt n) = Some n"
proof -
  have "hd (digits (nat n)) \<noteq> CHR ''-'' \<and> hd (digits (nat n)) \<noteq> CHR ''+''"
    using hd_digits[of "nat n"] by (auto simp: is_digit_def)
  then show ?thesis
    using assms by (auto simp: ParseInt_def FormatInt_def parse_digits_def list_all_digits digits_value_digits Let_def)
qed

end
