(* ===== verification/GoPath.thy ===== *)
theory GoPath
  imports GoStrings
begin

text \<open>
  The functions of path and path/filepath the backend calls, on slash-separated paths, and what makes
  a path stay under a directory: \<open>path_segments\<close> is the list of segments \<open>Clean\<close> leaves,
  \<open>under_dir d p\<close> says that those of p extend those of d.
\<close>

abbreviation slash :: char where "slash \<equiv> CHR ''/''"

definition is_abs :: "string \<Rightarrow> bool" where
  "is_abs p \<longleftrightarrow> (case p of [] \<Rightarrow> False | c # _ \<Rightarrow> c = slash)"

text \<open>One segment of the path, with the segments kept so far in reverse order.\<close>

definition clean_step :: "bool \<Rightarrow> string list \<Rightarrow> string \<Rightarrow> string list" where
  "clean_step rooted out seg =
     (if seg = [] \<or> seg = ''.'' then out
      else if seg = ''..'' then
        (case out of
           [] \<Rightarrow> if rooted then [] else [''..'']
         | o1 # os \<Rightarrow> if o1 = ''..'' then ''..'' # out else os)
      else seg # out)"

definition clean_segments :: "bool \<Rightarrow> string list \<Rightarrow> string list" where
  "clean_segments rooted segs = rev (foldl (clean_step rooted) [] segs)"

definition path_segments :: "string \<Rightarrow> string list" where
  "path_segments p = clean_segments (is_abs p) (split_on slash p)"

definition build_path :: "bool \<Rightarrow> string list \<Rightarrow> string" where
  "build_path rooted segs =
     (if rooted then slash # join_with [slash] segs
      else if segs = [] then ''.'' else join_with [slash] segs)"

definition path_Clean :: "string \<Rightarrow> string" where
  "path_Clean p = build_path (is_abs p) (path_segments p)"

definition path_Join :: "string list \<Rightarrow> string" where
  "path_Join elems =
     (let es = List.filter (\<lambda>e. e \<noteq> []) elems in
      if es = [] then [] else path_Clean (join_with [slash] es))"

text \<open>Split at the last slash: the directory part keeps it.\<close>

definition path_Split :: "string \<Rightarrow> string \<times> string" where
  "path_Split p =
     (let file = rev (takeWhile (\<lambda>c. c \<noteq> slash) (rev p)) in
      (take (length p - length file) p, file))"

definition path_Dir :: "string \<Rightarrow> string" where
  "path_Dir p = path_Clean (fst (path_Split p))"

definition path_Base :: "string \<Rightarrow> string" where
  "path_Base p =
     (if p = [] then ''.''
      else let q = rev (dropWhile (\<lambda>c. c = slash) (rev p));
               b = snd (path_Split q)
           in if b = [] then [slash] else b)"

definition path_Ext :: "string \<Rightarrow> string" where
  "path_Ext p =
     (let file = snd (path_Split p);
          e = rev (takeWhile (\<lambda>c. c \<noteq> CHR ''.'') (rev file))
      in if CHR ''.'' \<in> set file then CHR ''.'' # e else [])"

text \<open>\<open>filepath.Abs\<close> with the working directory as an argument, and \<open>filepath.Rel\<close>.\<close>

definition filepath_Abs :: "string outcome \<Rightarrow> string \<Rightarrow> string outcome" where
  "filepath_Abs getwd p =
     (if is_abs p then Ok (path_Clean p) else bindO getwd (\<lambda>wd. Ok (path_Join [wd, p])))"

fun drop_common :: "string list \<Rightarrow> string list \<Rightarrow> string list \<times> string list" where
  "drop_common (x # xs) (y # ys) = (if x = y then drop_common xs ys else (x # xs, y # ys))"
| "drop_common xs ys = (xs, ys)"

definition filepath_Rel :: "string \<Rightarrow> string \<Rightarrow> string outcome" where
  "filepath_Rel base targ =
     (if path_Clean base = path_Clean targ then Ok ''.''
      else if is_abs (path_Clean base) \<noteq> is_abs (path_Clean targ) then Err ErrUnexpected
      else case drop_common (path_segments base) (path_segments targ) of
        (rb, rt) \<Rightarrow>
          if rb \<noteq> [] \<and> hd rb = ''..'' then Err ErrUnexpected
          else Ok (join_with [slash] (replicate (length rb) ''..'' @ rt)))"

section \<open>Safe segments\<close>

definition safe_segment :: "string \<Rightarrow> bool" where
  "safe_segment s \<longleftrightarrow> s \<noteq> [] \<and> s \<noteq> ''.'' \<and> s \<noteq> ''..'' \<and> slash \<notin> set s"

lemma clean_step_safe: "safe_segment s \<Longrightarrow> clean_step r out s = s # out"
  by (simp add: clean_step_def safe_segment_def)

lemma clean_step_empty [simp]: "clean_step r out [] = out"
  by (simp add: clean_step_def)

lemma foldl_clean_safe:
  "(\<And>s. s \<in> set segs \<Longrightarrow> safe_segment s) \<Longrightarrow> foldl (clean_step r) out segs = rev segs @ out"
  by (induction segs arbitrary: out) (auto simp: clean_step_safe)

lemma clean_segments_append_safe:
  "(\<And>s. s \<in> set ys \<Longrightarrow> safe_segment s) \<Longrightarrow>
   clean_segments r (xs @ ys) = clean_segments r xs @ ys"
  by (simp add: clean_segments_def foldl_clean_safe)

lemma clean_segments_safe:
  "(\<And>s. s \<in> set ys \<Longrightarrow> safe_segment s) \<Longrightarrow> clean_segments r ys = ys"
  using clean_segments_append_safe[of ys r "[]"] by (simp add: clean_segments_def)

text \<open>The segments of a rooted path are all safe.\<close>

lemma clean_step_rooted_safe:
  "slash \<notin> set a \<Longrightarrow> \<forall>s\<in>set out. safe_segment s \<Longrightarrow> \<forall>s\<in>set (clean_step True out a). safe_segment s"
  by (cases out) (auto simp: clean_step_def, auto simp: safe_segment_def)

lemma foldl_clean_rooted_safe:
  "\<forall>s\<in>set segs. slash \<notin> set s \<Longrightarrow> \<forall>s\<in>set out. safe_segment s \<Longrightarrow>
   \<forall>s\<in>set (foldl (clean_step True) out segs). safe_segment s"
proof (induction segs arbitrary: out)
  case (Cons a segs)
  have "\<forall>s\<in>set (clean_step True out a). safe_segment s"
    by (rule clean_step_rooted_safe) (use Cons.prems in auto)
  then show ?case
    using Cons.IH[of "clean_step True out a"] Cons.prems by simp
qed simp

lemma path_segments_abs_safe:
  "is_abs p \<Longrightarrow> s \<in> set (path_segments p) \<Longrightarrow> safe_segment s"
  using foldl_clean_rooted_safe[of "split_on slash p" "[]"] split_on_segs[of _ slash p]
  by (simp add: path_segments_def clean_segments_def)

lemma is_abs_Cons [simp]: "is_abs (c # p) \<longleftrightarrow> c = slash"
  and is_abs_Nil [simp]: "\<not> is_abs []"
  by (simp_all add: is_abs_def)

lemma path_segments_build_abs:
  "(\<And>s. s \<in> set segs \<Longrightarrow> safe_segment s) \<Longrightarrow> path_segments (build_path True segs) = segs"
proof -
  assume safe: "\<And>s. s \<in> set segs \<Longrightarrow> safe_segment s"
  have "split_on slash (build_path True segs) = [] # (if segs = [] then [[]] else segs)"
    using safe split_on_join[of segs slash]
    by (auto simp: build_path_def safe_segment_def)
  then show ?thesis
    using clean_segments_append_safe[of segs True "[[]]"] safe
    by (auto simp: path_segments_def build_path_def clean_segments_def split: if_splits)
qed

lemma path_segments_Clean_abs: "is_abs p \<Longrightarrow> path_segments (path_Clean p) = path_segments p"
  using path_segments_build_abs[of "path_segments p"] path_segments_abs_safe
  by (simp add: path_Clean_def)

lemma path_Clean_abs [simp]: "is_abs p \<Longrightarrow> is_abs (path_Clean p)"
  by (simp add: path_Clean_def build_path_def)

lemma path_Clean_idem_abs: "is_abs p \<Longrightarrow> path_Clean (path_Clean p) = path_Clean p"
  using path_Clean_abs[of p] path_segments_Clean_abs[of p] path_Clean_def[of "path_Clean p"]
  by (simp add: path_Clean_def[of p])

lemma path_Clean_inj_abs:
  assumes "is_abs p" "is_abs q" "path_segments p = path_segments q"
  shows "path_Clean p = path_Clean q"
  using assms by (simp add: path_Clean_def)

section \<open>Staying under a directory\<close>

text \<open>Strictly under: the segments of \<open>p\<close> are those of \<open>d\<close> and at least one more.\<close>

definition strictly_under :: "string \<Rightarrow> string \<Rightarrow> bool" where
  "strictly_under d p \<longleftrightarrow> is_abs p \<and> (\<exists>rest. rest \<noteq> [] \<and> path_segments p = path_segments d @ rest)"

definition under_dir :: "string \<Rightarrow> string \<Rightarrow> bool" where
  "under_dir d p \<longleftrightarrow> is_abs p \<and> (\<exists>rest. path_segments p = path_segments d @ rest)"

lemma strictly_under_imp_under: "strictly_under d p \<Longrightarrow> under_dir d p"
  by (auto simp: strictly_under_def under_dir_def)

lemma path_Clean_eq_segments:
  assumes "is_abs p" "is_abs d" "path_Clean p = path_Clean d"
  shows "path_segments p = path_segments d"
  using path_segments_Clean_abs[OF assms(1)] path_segments_Clean_abs[OF assms(2)] assms(3) by simp

lemma strictly_under_neq:
  assumes "strictly_under d p" "is_abs d"
  shows "path_Clean p \<noteq> path_Clean d"
proof
  assume "path_Clean p = path_Clean d"
  moreover obtain rest where "rest \<noteq> []" "path_segments p = path_segments d @ rest" "is_abs p"
    using assms(1) unfolding strictly_under_def by blast
  ultimately show False
    using path_Clean_eq_segments[of p d] assms(2) by simp
qed

lemma drop_common_prefix:
  "drop_common xs ys = (rx, ry) \<Longrightarrow> \<exists>p. xs = p @ rx \<and> ys = p @ ry"
proof (induction xs ys arbitrary: rx ry rule: drop_common.induct)
  case (1 x xs y ys)
  show ?case
  proof (cases "x = y")
    case True
    with 1 obtain p where "xs = p @ rx \<and> ys = p @ ry" by auto
    with True show ?thesis by (intro exI[of _ "x # p"]) simp
  qed (use 1 in auto)
qed auto

lemma drop_common_append: "drop_common xs (xs @ ys) = ([], ys)"
  by (induction xs) auto

end
