(* ===== verification/PathSafety.thy ===== *)
theory PathSafety
  imports GoPath
begin

text \<open>
  internal/utils/path_safety.go: the validation of a client-supplied folder name; and the facts on
  joining safe segments to a directory that the users of the validation need.
\<close>

definition maxFolderNameBytes :: nat where
  "maxFolderNameBytes = 255"

fun check_bytes :: "string \<Rightarrow> string \<Rightarrow> string outcome" where
  "check_bytes trimmed [] = Ok trimmed"
| "check_bytes trimmed (b # bs) =
     (if of_char b = (0 :: nat) then Err ErrInvalidFolderName
      else if of_char b < (32 :: nat) \<or> of_char b = (127 :: nat) then Err ErrInvalidFolderName
      else check_bytes trimmed bs)"

definition SanitizeFolderName :: "string \<Rightarrow> string outcome" where
  "SanitizeFolderName name =
     (let trimmed = TrimSpace name in
      if trimmed = [] then Err ErrInvalidFolderName
      else if trimmed = ''.'' \<or> trimmed = ''..'' then Err ErrInvalidFolderName
      else if \<exists>c \<in> set trimmed. c = CHR ''/'' \<or> c = CHR 0x5C then Err ErrInvalidFolderName
      else if length trimmed > maxFolderNameBytes then Err ErrInvalidFolderName
      else check_bytes trimmed trimmed)"

definition control_byte :: "char \<Rightarrow> bool" where
  "control_byte c \<longleftrightarrow> of_char c < (32 :: nat) \<or> of_char c = (127 :: nat)"

text \<open>The folder an entry point is given: none, or one that must be safe.\<close>

definition sanitizedFolder :: "string \<Rightarrow> string outcome" where
  "sanitizedFolder folderName = (if folderName \<noteq> [] then SanitizeFolderName folderName else Ok [])"

lemma check_bytes_eq:
  "check_bytes t bs = (if \<exists>b \<in> set bs. control_byte b then Err ErrInvalidFolderName else Ok t)"
  by (induction bs) (auto simp: control_byte_def)

definition safe_folder_name :: "string \<Rightarrow> bool" where
  "safe_folder_name t \<longleftrightarrow>
     safe_segment t \<and> CHR 0x5C \<notin> set t \<and> length t \<le> 255 \<and> (\<forall>b \<in> set t. \<not> control_byte b)"

lemma sanitize_checks:
  "(if t = [] then Err ErrInvalidFolderName
    else if t = ''.'' \<or> t = ''..'' then Err ErrInvalidFolderName
    else if \<exists>c \<in> set t. c = CHR ''/'' \<or> c = CHR 0x5C then Err ErrInvalidFolderName
    else if length t > maxFolderNameBytes then Err ErrInvalidFolderName
    else check_bytes t t) =
   (if safe_folder_name t then Ok t else Err ErrInvalidFolderName)"
  unfolding check_bytes_eq safe_folder_name_def safe_segment_def maxFolderNameBytes_def
  by auto

lemma SanitizeFolderName_eq:
  "SanitizeFolderName name =
     (if safe_folder_name (TrimSpace name) then Ok (TrimSpace name) else Err ErrInvalidFolderName)"
  unfolding SanitizeFolderName_def Let_def by (rule sanitize_checks)

lemma SanitizeFolderName_Ok:
  "SanitizeFolderName name = Ok r \<Longrightarrow> r = TrimSpace name \<and> safe_folder_name r"
  unfolding SanitizeFolderName_eq by (simp split: if_splits)

lemma SanitizeFolderName_safe: "SanitizeFolderName name = Ok r \<Longrightarrow> safe_segment r"
  using SanitizeFolderName_Ok[of name r] unfolding safe_folder_name_def by blast

text \<open>A folder name is accepted exactly when what is left after trimming white space is a single
  path segment (not empty, neither of the dot segments, no slash, no backslash) of at most 255 bytes without
  control bytes; the accepted value is the trimmed name, and validating it again gives it back.\<close>
theorem SanitizeFolderName_correct:
  "SanitizeFolderName name =
     (let t = TrimSpace name in
      if safe_segment t \<and> CHR 0x5C \<notin> set t \<and> length t \<le> 255 \<and> \<not> (\<exists>b \<in> set t. control_byte b)
      then Ok t else Err ErrInvalidFolderName)
   \<and> SanitizeFolderName (TrimSpace name) = SanitizeFolderName name"
  unfolding SanitizeFolderName_eq safe_folder_name_def Let_def TrimSpace_idem by simp

section \<open>Joining safe segments\<close>

lemma split_on_append_sep: "split_on c (x @ c # y) = split_on c x @ split_on c y"
proof (induction x)
  case (Cons a x)
  then show ?case by (cases "split_on c x") auto
qed simp

lemma is_abs_append [simp]: "is_abs a \<Longrightarrow> is_abs (a @ b)"
  by (cases a) auto

lemma clean_segments_append_join:
  assumes "\<forall>s\<in>set segs. safe_segment s" "segs \<noteq> []" "is_abs a"
  shows "path_segments (a @ slash # join_with [slash] segs) = path_segments a @ segs"
proof -
  have "split_on slash (join_with [slash] segs) = segs"
    using assms by (intro split_on_join) (auto simp: safe_segment_def)
  then have "split_on slash (a @ slash # join_with [slash] segs) = split_on slash a @ segs"
    by (simp only: split_on_append_sep)
  moreover have "clean_segments True (split_on slash a @ segs) =
      clean_segments True (split_on slash a) @ segs"
    using assms(1) by (intro clean_segments_append_safe) simp
  ultimately show ?thesis
    using assms(3) is_abs_append[OF assms(3)] unfolding path_segments_def by simp
qed

lemma join_with_Nil_iff:
  "\<forall>s\<in>set segs. s \<noteq> [] \<Longrightarrow> join_with sep segs = [] \<longleftrightarrow> segs = []"
  by (induction sep segs rule: join_with.induct) auto

lemma is_abs_join_safe: "\<forall>s\<in>set segs. safe_segment s \<Longrightarrow> \<not> is_abs (join_with [slash] segs)"
proof (induction "[slash]" segs rule: join_with.induct)
  case (2 x)
  then show ?case by (cases x) (auto simp: safe_segment_def)
next
  case (3 x y ys)
  then show ?case by (cases x) (auto simp: safe_segment_def)
qed simp

lemma safe_segment_ne: "safe_segment s \<Longrightarrow> s \<noteq> []"
  by (simp add: safe_segment_def)

lemma path_Clean_join_safe:
  assumes "\<forall>s\<in>set segs. safe_segment s" "segs \<noteq> []"
  shows "path_Clean (join_with [slash] segs) = join_with [slash] segs"
proof -
  have "split_on slash (join_with [slash] segs) = segs"
    using assms by (intro split_on_join) (auto simp: safe_segment_def)
  then show ?thesis
    using assms clean_segments_safe[of segs False] is_abs_join_safe[of segs]
    by (simp add: path_Clean_def path_segments_def build_path_def)
qed

lemma filter_nonempty_safe: "\<forall>s\<in>set segs. safe_segment s \<Longrightarrow> List.filter (\<lambda>e. e \<noteq> []) segs = segs"
  by (induction segs) (auto simp: safe_segment_def)

lemma path_Join_safe:
  assumes "\<forall>s\<in>set segs. safe_segment s"
  shows "path_Join segs = join_with [slash] segs"
  using assms path_Clean_join_safe[OF assms]
  by (cases "segs = []") (simp_all add: path_Join_def filter_nonempty_safe Let_def)

lemma path_Join_abs_safe:
  assumes a: "is_abs a" and safe: "\<forall>s\<in>set segs. safe_segment s"
  shows "path_segments (path_Join [a, join_with [slash] segs]) = path_segments a @ segs"
    and "is_abs (path_Join [a, join_with [slash] segs])"
proof -
  have ne: "a \<noteq> []" using a by auto
  show "path_segments (path_Join [a, join_with [slash] segs]) = path_segments a @ segs"
  proof (cases "segs = []")
    case True
    then show ?thesis
      using a ne by (simp add: path_Join_def path_segments_Clean_abs)
  next
    case False
    then have "join_with [slash] segs \<noteq> []"
      using safe join_with_Nil_iff[of segs] safe_segment_ne by blast
    then show ?thesis
      using a ne clean_segments_append_join[OF safe False a]
      by (simp add: path_Join_def path_segments_Clean_abs)
  qed
  show "is_abs (path_Join [a, join_with [slash] segs])"
    using a ne by (simp add: path_Join_def Let_def)
qed

lemma path_Join_under:
  "is_abs a \<Longrightarrow> \<forall>s\<in>set segs. safe_segment s \<Longrightarrow> under_dir a (path_Join [a, join_with [slash] segs])"
  using path_Join_abs_safe[of a segs] by (auto simp: under_dir_def)

end
