(* ===== verification/AudioFormat.thy ===== *)
theory AudioFormat
  imports GoPath
begin

text \<open>
  Which files the backend accepts, by extension: internal/audio_parsers/audio_info.go
  (\<open>IsSupported\<close>) and the upload checks of internal/service/v1/file_service.go.
\<close>

definition supportedExtensions :: "string set" where
  "supportedExtensions = {''.mp3'', ''.flac'', ''.aac'', ''.m4a''}"

definition coverImageExtensions :: "string set" where
  "coverImageExtensions = {''.jpg'', ''.jpeg'', ''.png'', ''.webp'', ''.gif''}"

definition IsSupported :: "string \<Rightarrow> bool" where
  "IsSupported filePath = (let ext = ascii_lower (path_Ext filePath) in ext \<in> supportedExtensions)"

definition isSupportedUpload :: "string \<Rightarrow> bool" where
  "isSupportedUpload name =
     (if IsSupported name then True
      else let ext = ascii_lower (path_Ext name) in ext \<in> coverImageExtensions)"

definition isCoverImageUpload :: "string \<Rightarrow> bool" where
  "isCoverImageUpload name = (let ext = ascii_lower (path_Ext name) in ext \<in> coverImageExtensions)"

datatype TorrentFileKind = TorrentFileKindOther | TorrentFileKindTrack | TorrentFileKindCover

definition torrentFileKindOf :: "string \<Rightarrow> TorrentFileKind" where
  "torrentFileKindOf name =
     (if IsSupported name then TorrentFileKindTrack
      else if isCoverImageUpload name then TorrentFileKindCover
      else TorrentFileKindOther)"

lemma audio_not_cover: "IsSupported name \<Longrightarrow> \<not> isCoverImageUpload name"
  by (auto simp: IsSupported_def isCoverImageUpload_def supportedExtensions_def coverImageExtensions_def Let_def)

lemma supported_iff_kind: "isSupportedUpload name \<longleftrightarrow> torrentFileKindOf name \<noteq> TorrentFileKindOther"
  by (simp add: isSupportedUpload_def torrentFileKindOf_def isCoverImageUpload_def Let_def)

end
