(* ===== verification/Tables.thy ===== *)
theory Tables
  imports Prelude
begin

text \<open>
  Database tables with a serial primary key: the rows in insertion order and the next value of the
  sequence.  The operations take the functions that read and write the key of a row; the locale
  \<open>keyed_rows\<close> states what those two must satisfy and proves, once for every table of the model, how
  the rows are found again after an insert, an update or a delete, and that keys stay unique.
\<close>

record 'r table =
  rows :: "'r list"
  next_id :: int

definition empty_table :: "'r table" where
  "empty_table = \<lparr>rows = [], next_id = 1\<rparr>"

definition tbl_insert :: "(int \<Rightarrow> 'r \<Rightarrow> 'r) \<Rightarrow> 'r \<Rightarrow> 'r table \<Rightarrow> 'r table" where
  "tbl_insert setk r t = t\<lparr>rows := rows t @ [setk (next_id t) r], next_id := next_id t + 1\<rparr>"

definition tbl_update :: "('r \<Rightarrow> bool) \<Rightarrow> ('r \<Rightarrow> 'r) \<Rightarrow> 'r table \<Rightarrow> 'r table" where
  "tbl_update p f t = t\<lparr>rows := List.map (\<lambda>r. if p r then f r else r) (rows t)\<rparr>"

definition tbl_delete :: "('r \<Rightarrow> bool) \<Rightarrow> 'r table \<Rightarrow> 'r table" where
  "tbl_delete p t = t\<lparr>rows := List.filter (\<lambda>r. \<not> p r) (rows t)\<rparr>"

definition tbl_find :: "('r \<Rightarrow> bool) \<Rightarrow> 'r table \<Rightarrow> 'r option" where
  "tbl_find p t = List.find p (rows t)"

definition table_wf :: "('r \<Rightarrow> int) \<Rightarrow> 'r table \<Rightarrow> bool" where
  "table_wf key t \<longleftrightarrow> distinct (List.map key (rows t)) \<and> (\<forall>r \<in> set (rows t). key r < next_id t)"

lemma rows_tbl_insert [simp]: "rows (tbl_insert setk r t) = rows t @ [setk (next_id t) r]"
  and next_id_tbl_insert [simp]: "next_id (tbl_insert setk r t) = next_id t + 1"
  and rows_tbl_update [simp]: "rows (tbl_update p f t) = List.map (\<lambda>r. if p r then f r else r) (rows t)"
  and next_id_tbl_update [simp]: "next_id (tbl_update p f t) = next_id t"
  and rows_tbl_delete [simp]: "rows (tbl_delete p t) = List.filter (\<lambda>r. \<not> p r) (rows t)"
  and next_id_tbl_delete [simp]: "next_id (tbl_delete p t) = next_id t"
  by (simp_all add: tbl_insert_def tbl_update_def tbl_delete_def)

lemma table_wf_cong:
  assumes "List.map key (rows t') = List.map key (rows t)" "next_id t' = next_id t"
  shows "table_wf key t' = table_wf key t"
proof -
  have "key ` set (rows t') = key ` set (rows t)"
    using assms(1) by (metis list.set_map)
  then have "(\<forall>r \<in> set (rows t'). key r < n) = (\<forall>r \<in> set (rows t). key r < n)" for n
    by (metis (no_types, lifting) image_iff)
  then show ?thesis
    using assms by (simp add: table_wf_def)
qed

lemma find_Some_mem: "List.find p xs = Some x \<Longrightarrow> x \<in> set xs \<and> p x"
  by (induction xs) (auto split: if_splits)

lemma find_None: "List.find p xs = None \<longleftrightarrow> (\<forall>x \<in> set xs. \<not> p x)"
  by (induction xs) auto

lemma find_snoc:
  "List.find p (xs @ [x]) =
     (case List.find p xs of Some y \<Rightarrow> Some y | None \<Rightarrow> if p x then Some x else None)"
  by (induction xs) auto

lemma tbl_find_Some: "tbl_find p t = Some r \<Longrightarrow> r \<in> set (rows t) \<and> p r"
  by (simp add: tbl_find_def find_Some_mem)

lemma tbl_find_None: "tbl_find p t = None \<longleftrightarrow> (\<forall>r \<in> set (rows t). \<not> p r)"
  by (simp add: tbl_find_def find_None)

lemma table_wf_empty [simp]: "table_wf key empty_table"
  by (simp add: table_wf_def empty_table_def)

lemma table_wf_delete: "table_wf key t \<Longrightarrow> table_wf key (tbl_delete p t)"
  by (auto simp: table_wf_def distinct_map_filter)

lemma table_wf_key_inj:
  "table_wf key t \<Longrightarrow> r \<in> set (rows t) \<Longrightarrow> r' \<in> set (rows t) \<Longrightarrow> key r = key r' \<Longrightarrow> r = r'"
  by (auto simp: table_wf_def distinct_map inj_on_def)

lemma distinct_find_key:
  "distinct (List.map key xs) \<Longrightarrow> r \<in> set xs \<Longrightarrow> List.find (\<lambda>x. key x = key r) xs = Some r"
  by (induction xs) (auto simp: image_iff)

lemma tbl_find_key:
  "table_wf key t \<Longrightarrow> r \<in> set (rows t) \<Longrightarrow> tbl_find (\<lambda>x. key x = key r) t = Some r"
  by (simp add: tbl_find_def table_wf_def distinct_find_key)

locale keyed_rows =
  fixes key :: "'r \<Rightarrow> int"
    and setk :: "int \<Rightarrow> 'r \<Rightarrow> 'r"
  assumes key_setk [simp]: "key (setk i r) = i"
begin

lemma wf_insert: "table_wf key t \<Longrightarrow> table_wf key (tbl_insert setk r t)"
  by (auto simp: table_wf_def)

lemma wf_update:
  assumes "table_wf key t" and "\<And>r. key (f r) = key r"
  shows "table_wf key (tbl_update p f t)"
proof -
  have "key \<circ> (\<lambda>r. if p r then f r else r) = key"
    using assms(2) by (auto simp: comp_def)
  then have "List.map key (rows (tbl_update p f t)) = List.map key (rows t)"
    by simp
  then show ?thesis
    using assms(1) table_wf_cong[of key "tbl_update p f t" t] by simp
qed

lemma find_inserted:
  assumes "table_wf key t"
  shows "tbl_find (\<lambda>x. key x = next_id t) (tbl_insert setk r t) = Some (setk (next_id t) r)"
proof -
  have "List.find (\<lambda>x. key x = next_id t) (rows t) = None"
    using assms by (auto simp: table_wf_def find_None)
  then show ?thesis by (simp add: tbl_find_def find_snoc)
qed

lemma find_insert_other:
  "i \<noteq> next_id t \<Longrightarrow> tbl_find (\<lambda>x. key x = i) (tbl_insert setk r t) = tbl_find (\<lambda>x. key x = i) t"
  by (auto simp: tbl_find_def find_snoc split: option.split)

lemma find_update_key:
  assumes "\<And>r. key (f r) = key r"
  shows "tbl_find (\<lambda>x. key x = i) (tbl_update (\<lambda>x. key x = j) f t) =
    map_option (\<lambda>r. if i = j then f r else r) (tbl_find (\<lambda>x. key x = i) t)"
proof -
  have "List.find (\<lambda>x. key x = i) (List.map (\<lambda>r. if key r = j then f r else r) xs) =
      map_option (\<lambda>r. if i = j then f r else r) (List.find (\<lambda>x. key x = i) xs)" for xs
    using assms by (induction xs) auto
  then show ?thesis by (simp add: tbl_find_def)
qed

lemma find_delete_key:
  "tbl_find (\<lambda>x. key x = i) (tbl_delete (\<lambda>x. key x = j) t) =
    (if i = j then None else tbl_find (\<lambda>x. key x = i) t)"
proof -
  have "List.find (\<lambda>x. key x = i) (List.filter (\<lambda>r. key r \<noteq> j) xs) =
      (if i = j then None else List.find (\<lambda>x. key x = i) xs)" for xs
    by (induction xs) auto
  then show ?thesis by (simp add: tbl_find_def)
qed

end

end
