(* ===== verification/TorrentStore.thy ===== *)
theory TorrentStore
  imports Tables
begin

text \<open>
  The torrent job rows (internal/domain/torrent.go) and the storage operations on them
  (internal/storage/pg/torrent_downloads.go with queries/torrent_downloads).  A job's byte counts are
  int64 values kept as integers.  The unique partial index on (user_id, info_hash) over the four
  unfinished statuses is part of insert and of the status update; every other operation leaves the
  indexed columns alone.  Creation times come from the database clock, an argument here.
\<close>

datatype TorrentDownloadStatus =
  Queued | Downloading | Importing | Seeding | Done | Failed | Canceled | Paused

definition ActiveTorrentDownloadStatuses :: "TorrentDownloadStatus list" where
  "ActiveTorrentDownloadStatuses = [Queued, Downloading, Importing, Paused]"

record TorrentFileProgress =
  fp_Path :: string
  fp_DownloadedBytes :: int
  fp_TotalBytes :: int

record TorrentDownload =
  td_Id :: int
  td_UserId :: int
  td_FolderName :: string
  td_InfoHash :: string
  td_TorrentName :: string
  td_Status :: TorrentDownloadStatus
  td_TotalBytes :: int
  td_DownloadedBytes :: int
  td_ImportedFiles :: "string list"
  td_Files :: "TorrentFileProgress list"
  td_Trackers :: "string list"
  td_IsPrivate :: bool
  td_Error :: string
  td_CreatedAt :: int
  td_UpdatedAt :: int

interpretation td_rows: keyed_rows td_Id "\<lambda>i r. r\<lparr>td_Id := i\<rparr>"
  by unfold_locales simp

type_synonym torrent_table = "TorrentDownload table"

text \<open>The status lists of the SQL text.\<close>

definition indexed_status :: "TorrentDownloadStatus \<Rightarrow> bool" where
  "indexed_status st \<longleftrightarrow> st \<in> {Queued, Downloading, Importing, Paused}"

definition polled_status :: "TorrentDownloadStatus \<Rightarrow> bool" where
  "polled_status st \<longleftrightarrow> st \<in> {Queued, Downloading, Importing}"

definition td_conflict :: "int \<Rightarrow> int \<Rightarrow> string \<Rightarrow> torrent_table \<Rightarrow> bool" where
  "td_conflict i user h t \<longleftrightarrow>
     (\<exists>r \<in> set (rows t). td_Id r \<noteq> i \<and> td_UserId r = user \<and> td_InfoHash r = h \<and>
       indexed_status (td_Status r))"

section \<open>Operations\<close>

definition td_Add :: "int \<Rightarrow> TorrentDownload \<Rightarrow> torrent_table \<Rightarrow> TorrentDownload outcome \<times> torrent_table" where
  "td_Add now dl t =
     (let row = \<lparr>td_Id = next_id t, td_UserId = td_UserId dl, td_FolderName = td_FolderName dl,
                 td_InfoHash = td_InfoHash dl, td_TorrentName = td_TorrentName dl,
                 td_Status = Queued, td_TotalBytes = 0, td_DownloadedBytes = 0,
                 td_ImportedFiles = [], td_Files = [], td_Trackers = td_Trackers dl,
                 td_IsPrivate = td_IsPrivate dl, td_Error = [],
                 td_CreatedAt = now, td_UpdatedAt = now\<rparr>
      in if td_conflict (next_id t) (td_UserId dl) (td_InfoHash dl) t
         then (Err ErrAlreadyExists, t\<lparr>next_id := next_id t + 1\<rparr>)
         else (Ok row, tbl_insert (\<lambda>i r. r\<lparr>td_Id := i\<rparr>) row t))"

definition td_Get :: "int \<Rightarrow> int \<Rightarrow> torrent_table \<Rightarrow> TorrentDownload outcome" where
  "td_Get i user t =
     (case tbl_find (\<lambda>r. td_Id r = i) t of
        Some r \<Rightarrow> if td_UserId r = user then Ok r else Err ErrNotFound
      | None \<Rightarrow> Err ErrNotFound)"

definition td_GetByUserAndInfoHash :: "int \<Rightarrow> string \<Rightarrow> torrent_table \<Rightarrow> TorrentDownload option" where
  "td_GetByUserAndInfoHash user h t =
     tbl_find (\<lambda>r. td_UserId r = user \<and> td_InfoHash r = h \<and> indexed_status (td_Status r)) t"

text \<open>ORDER BY created_at DESC; rows created at the same instant keep the order of insertion, which
  SQL leaves open.\<close>

definition td_ListByUser :: "int \<Rightarrow> string \<Rightarrow> torrent_table \<Rightarrow> TorrentDownload list" where
  "td_ListByUser user folder t =
     sort_key (\<lambda>r. - td_CreatedAt r)
       (List.filter (\<lambda>r. td_UserId r = user \<and> (folder = [] \<or> td_FolderName r = folder)) (rows t))"

definition td_ListActive :: "torrent_table \<Rightarrow> TorrentDownload list" where
  "td_ListActive t = sort_key td_CreatedAt (List.filter (\<lambda>r. polled_status (td_Status r)) (rows t))"

definition td_UpdateProgress ::
  "int \<Rightarrow> int \<Rightarrow> int \<Rightarrow> int \<Rightarrow> TorrentFileProgress list \<Rightarrow> torrent_table \<Rightarrow> torrent_table" where
  "td_UpdateProgress now i downloaded totalBytes files =
     tbl_update (\<lambda>r. td_Id r = i)
       (\<lambda>r. r\<lparr>td_DownloadedBytes := downloaded, td_TotalBytes := totalBytes, td_Files := files,
             td_UpdatedAt := now\<rparr>)"

definition td_UpdateStatus ::
  "int \<Rightarrow> int \<Rightarrow> TorrentDownloadStatus \<Rightarrow> torrent_table \<Rightarrow> unit outcome \<times> torrent_table" where
  "td_UpdateStatus now i st t =
     (case tbl_find (\<lambda>r. td_Id r = i) t of
        None \<Rightarrow> (Ok (), t)
      | Some r \<Rightarrow>
          if indexed_status st \<and> td_conflict i (td_UserId r) (td_InfoHash r) t
          then (Err ErrAlreadyExists, t)
          else (Ok (), tbl_update (\<lambda>r. td_Id r = i) (\<lambda>r. r\<lparr>td_Status := st, td_UpdatedAt := now\<rparr>) t))"

definition td_SetError :: "int \<Rightarrow> int \<Rightarrow> string \<Rightarrow> torrent_table \<Rightarrow> torrent_table" where
  "td_SetError now i msg =
     tbl_update (\<lambda>r. td_Id r = i)
       (\<lambda>r. r\<lparr>td_Status := Failed, td_Error := msg, td_UpdatedAt := now\<rparr>)"

definition td_SetImportedFiles :: "int \<Rightarrow> int \<Rightarrow> string list \<Rightarrow> torrent_table \<Rightarrow> torrent_table" where
  "td_SetImportedFiles now i files =
     tbl_update (\<lambda>r. td_Id r = i) (\<lambda>r. r\<lparr>td_ImportedFiles := files, td_UpdatedAt := now\<rparr>)"

definition td_Delete :: "int \<Rightarrow> int \<Rightarrow> torrent_table \<Rightarrow> torrent_table" where
  "td_Delete i user = tbl_delete (\<lambda>r. td_Id r = i \<and> td_UserId r = user)"

definition td_ListImportedInfoHashes :: "string list \<Rightarrow> torrent_table \<Rightarrow> string list" where
  "td_ListImportedInfoHashes hs t =
     remdups (List.map td_InfoHash
       (List.filter (\<lambda>r. td_InfoHash r \<in> set hs \<and> td_Status r \<notin> {Failed, Canceled}) (rows t)))"

section \<open>Invariant\<close>

text \<open>Keys are unique, and the partial index holds: a user has at most one unfinished job for an
  info hash.\<close>

definition td_clash :: "TorrentDownload \<Rightarrow> TorrentDownload \<Rightarrow> bool" where
  "td_clash r r' \<longleftrightarrow>
     td_Id r \<noteq> td_Id r' \<and> td_UserId r = td_UserId r' \<and> td_InfoHash r = td_InfoHash r' \<and>
     indexed_status (td_Status r) \<and> indexed_status (td_Status r')"

definition td_unique_active :: "torrent_table \<Rightarrow> bool" where
  "td_unique_active t \<longleftrightarrow> (\<forall>r \<in> set (rows t). \<forall>r' \<in> set (rows t). \<not> td_clash r r')"

definition td_inv :: "torrent_table \<Rightarrow> bool" where
  "td_inv t \<longleftrightarrow> table_wf td_Id t \<and> td_unique_active t"

lemma td_clash_sym: "td_clash r r' \<longleftrightarrow> td_clash r' r"
  by (auto simp: td_clash_def)

lemma td_unique_activeD:
  "td_unique_active t \<Longrightarrow> r \<in> set (rows t) \<Longrightarrow> r' \<in> set (rows t) \<Longrightarrow> \<not> td_clash r r'"
  by (simp add: td_unique_active_def)

lemma td_unique_activeI:
  "(\<And>r r'. r \<in> set (rows t) \<Longrightarrow> r' \<in> set (rows t) \<Longrightarrow> \<not> td_clash r r') \<Longrightarrow> td_unique_active t"
  by (simp add: td_unique_active_def)

lemma td_unique_active_subset:
  "td_unique_active t \<Longrightarrow> set (rows t') \<subseteq> set (rows t) \<Longrightarrow> td_unique_active t'"
  by (meson subsetD td_unique_active_def)

lemma td_conflict_clash:
  "indexed_status (td_Status r) \<Longrightarrow>
   td_conflict (td_Id r) (td_UserId r) (td_InfoHash r) t \<longleftrightarrow> (\<exists>r' \<in> set (rows t). td_clash r r')"
  unfolding td_conflict_def td_clash_def by (rule bex_cong) auto

lemma td_inv_no_clash:
  "td_inv t \<Longrightarrow> r \<in> set (rows t) \<Longrightarrow> r' \<in> set (rows t) \<Longrightarrow> \<not> td_clash r r'"
  unfolding td_inv_def by (elim conjE) (rule td_unique_activeD)

lemma indexed_is_active: "indexed_status st \<longleftrightarrow> st \<in> set ActiveTorrentDownloadStatuses"
  by (auto simp: indexed_status_def ActiveTorrentDownloadStatuses_def)

lemma td_inv_empty [simp]: "td_inv empty_table"
  by (simp add: td_inv_def td_unique_active_def empty_table_def table_wf_def)

text \<open>An update that keeps key, owner, hash and does not turn a finished row into an unfinished one.\<close>

lemma td_inv_update:
  assumes inv: "td_inv t"
    and same: "\<And>r. td_Id (f r) = td_Id r" "\<And>r. td_UserId (f r) = td_UserId r"
      "\<And>r. td_InfoHash (f r) = td_InfoHash r"
    and st: "\<And>r. indexed_status (td_Status (f r)) \<Longrightarrow> indexed_status (td_Status r)"
  shows "td_inv (tbl_update p f t)"
proof -
  let ?g = "\<lambda>r. if p r then f r else r"
  have clash: "td_clash (?g r) (?g r') \<Longrightarrow> td_clash r r'" for r r'
    using same st[of r] st[of r'] unfolding td_clash_def by (simp split: if_splits)
  have "td_unique_active (tbl_update p f t)"
  proof (rule td_unique_activeI)
    fix x y
    assume "x \<in> set (rows (tbl_update p f t))" "y \<in> set (rows (tbl_update p f t))"
    then obtain r r' where rs: "r \<in> set (rows t)" "x = ?g r" "r' \<in> set (rows t)" "y = ?g r'"
      by auto
    have "\<not> td_clash r r'"
      using td_inv_no_clash[OF inv] rs by blast
    then show "\<not> td_clash x y"
      using clash rs by blast
  qed
  then show ?thesis
    using inv td_rows.wf_update[of t f p] same by (simp add: td_inv_def)
qed

lemma td_inv_Add:
  assumes inv: "td_inv t"
  shows "td_inv (snd (td_Add now dl t))"
proof (cases "td_conflict (next_id t) (td_UserId dl) (td_InfoHash dl) t")
  case True
  then have "snd (td_Add now dl t) = t\<lparr>next_id := next_id t + 1\<rparr>"
    by (simp add: td_Add_def Let_def)
  moreover have "table_wf td_Id (t\<lparr>next_id := next_id t + 1\<rparr>)"
    using inv by (auto simp: td_inv_def table_wf_def)
  ultimately show ?thesis
    using inv by (simp add: td_inv_def td_unique_active_def)
next
  case False
  define row where "row = the (case fst (td_Add now dl t) of Ok r \<Rightarrow> Some r | _ \<Rightarrow> None)"
  have row: "td_Id row = next_id t" "td_UserId row = td_UserId dl" "td_InfoHash row = td_InfoHash dl"
      "td_Status row = Queued"
    and t': "rows (snd (td_Add now dl t)) = rows t @ [row]"
      "snd (td_Add now dl t) = tbl_insert (\<lambda>i r. r\<lparr>td_Id := i\<rparr>) row t"
    using False by (simp_all add: row_def td_Add_def Let_def)
  have new: "\<not> td_clash row r" if "r \<in> set (rows t)" for r
    using False that row td_conflict_clash[of row t] by (auto simp: indexed_status_def)
  have self: "\<not> td_clash row row" by (simp add: td_clash_def)
  have old: "\<not> td_clash r r'" if "r \<in> set (rows t)" "r' \<in> set (rows t)" for r r'
    using td_inv_no_clash[OF inv] that by blast
  have "td_unique_active (snd (td_Add now dl t))"
  proof (rule td_unique_activeI)
    fix x y
    assume "x \<in> set (rows (snd (td_Add now dl t)))" "y \<in> set (rows (snd (td_Add now dl t)))"
    then have "x = row \<or> x \<in> set (rows t)" "y = row \<or> y \<in> set (rows t)"
      unfolding t'(1) by auto
    then show "\<not> td_clash x y"
      using new self old td_clash_sym by metis
  qed
  moreover have "table_wf td_Id (snd (td_Add now dl t))"
    using inv by (simp add: t' td_inv_def td_rows.wf_insert)
  ultimately show ?thesis by (simp add: td_inv_def)
qed

lemma td_inv_UpdateStatus:
  assumes inv: "td_inv t"
  shows "td_inv (snd (td_UpdateStatus now i st t))"
proof (cases "tbl_find (\<lambda>r. td_Id r = i) t")
  case None
  then show ?thesis using inv by (simp add: td_UpdateStatus_def)
next
  case (Some r)
  then have r: "r \<in> set (rows t)" "td_Id r = i"
    using tbl_find_Some by fastforce+
  show ?thesis
  proof (cases "indexed_status st \<and> td_conflict i (td_UserId r) (td_InfoHash r) t")
    case True
    then show ?thesis using inv Some by (simp add: td_UpdateStatus_def)
  next
    case False
    let ?f = "\<lambda>r. r\<lparr>td_Status := st, td_UpdatedAt := now\<rparr>"
    let ?t' = "tbl_update (\<lambda>r. td_Id r = i) ?f t"
    have mem: "x = ?f r \<or> x \<in> set (rows t) \<and> td_Id x \<noteq> i" if mx: "x \<in> set (rows ?t')" for x
    proof -
      obtain y where y: "y \<in> set (rows t)" "x = (if td_Id y = i then ?f y else y)"
        using mx by auto
      have "td_Id y = i \<Longrightarrow> y = r"
        using y(1) r inv table_wf_key_inj[of td_Id t y r] unfolding td_inv_def by simp
      then show ?thesis using y by (cases "td_Id y = i") simp_all
    qed
    have new: "\<not> td_clash (?f r) x" if "x \<in> set (rows t)" "td_Id x \<noteq> i" for x
      using False that r by (auto simp: td_clash_def td_conflict_def)
    have self: "\<not> td_clash (?f r) (?f r)" by (simp add: td_clash_def)
    have old: "\<not> td_clash x y" if "x \<in> set (rows t)" "y \<in> set (rows t)" for x y
      using td_inv_no_clash[OF inv] that by blast
    have "td_unique_active ?t'"
    proof (rule td_unique_activeI)
      fix x y
      assume "x \<in> set (rows ?t')" "y \<in> set (rows ?t')"
      then show "\<not> td_clash x y"
        using mem[of x] mem[of y] new self old td_clash_sym by metis
    qed
    moreover have "table_wf td_Id ?t'"
      using inv by (auto simp: td_inv_def intro: td_rows.wf_update)
    ultimately show ?thesis using Some False by (auto simp: td_UpdateStatus_def td_inv_def)
  qed
qed

lemma td_inv_ops:
  "td_inv t \<Longrightarrow> td_inv (td_UpdateProgress now i d n fs t)"
  "td_inv t \<Longrightarrow> td_inv (td_SetError now i msg t)"
  "td_inv t \<Longrightarrow> td_inv (td_SetImportedFiles now i files t)"
  by (auto simp: td_UpdateProgress_def td_SetError_def td_SetImportedFiles_def indexed_status_def
      intro!: td_inv_update)

lemma td_inv_Delete: "td_inv t \<Longrightarrow> td_inv (td_Delete i user t)"
  unfolding td_inv_def td_Delete_def
  by (auto intro: table_wf_delete td_unique_active_subset)

lemmas td_inv_intros = td_inv_Add td_inv_UpdateStatus td_inv_ops td_inv_Delete

section \<open>Reading back\<close>

lemma td_Get_Ok: "td_Get i user t = Ok r \<Longrightarrow> r \<in> set (rows t) \<and> td_Id r = i \<and> td_UserId r = user"
  by (auto simp: td_Get_def split: option.splits if_splits dest!: tbl_find_Some)

lemma td_Get_not_panic [simp]: "td_Get i user t \<noteq> Panic"
  by (simp add: td_Get_def split: option.split)

lemma td_Get_iff:
  assumes "td_inv t"
  shows "td_Get i user t = Ok r \<longleftrightarrow> r \<in> set (rows t) \<and> td_Id r = i \<and> td_UserId r = user"
proof
  assume r: "r \<in> set (rows t) \<and> td_Id r = i \<and> td_UserId r = user"
  then have "tbl_find (\<lambda>x. td_Id x = i) t = Some r"
    using assms tbl_find_key[of td_Id t r] by (simp add: td_inv_def)
  then show "td_Get i user t = Ok r"
    using r by (simp add: td_Get_def)
qed (rule td_Get_Ok)

lemma td_Get_after_Delete: "td_Get i user (td_Delete i user t) = Err ErrNotFound"
proof -
  have "td_Get i user (td_Delete i user t) \<noteq> Ok r" for r
    using td_Get_Ok[of i user "td_Delete i user t" r] by (auto simp: td_Delete_def)
  then show ?thesis
    by (cases "td_Get i user (td_Delete i user t)")
      (auto simp: td_Get_def split: option.splits if_splits)
qed

lemma td_ListActive_mem:
  "r \<in> set (td_ListActive t) \<longleftrightarrow> r \<in> set (rows t) \<and> polled_status (td_Status r)"
  by (auto simp: td_ListActive_def)

lemma td_ListByUser_mem:
  "r \<in> set (td_ListByUser user folder t) \<longleftrightarrow>
     r \<in> set (rows t) \<and> td_UserId r = user \<and> (folder = [] \<or> td_FolderName r = folder)"
  by (auto simp: td_ListByUser_def)

lemma td_GetByUserAndInfoHash_None:
  "td_GetByUserAndInfoHash user h t = None \<longleftrightarrow> \<not> (\<exists>r \<in> set (rows t).
     td_UserId r = user \<and> td_InfoHash r = h \<and> indexed_status (td_Status r))"
  by (auto simp: td_GetByUserAndInfoHash_def tbl_find_None)

end
