(* ===== verification/FileStore.thy ===== *)
theory FileStore
  imports Tables
begin

text \<open>
  The files_meta rows (internal/domain, internal/storage/pg/file_meta.go with queries/file.sql and
  queries/file_meta).  Durations are nanoseconds in the domain and whole seconds in the table.  The
  column file_path has a unique index.  A storage id is the 128-bit value of its UUID; 0 is
  \<open>uuid.Nil\<close> and 1 is the id of the built-in local storage.
\<close>

type_synonym uuid = "128 word"

definition uuid_Nil :: uuid where
  "uuid_Nil = 0"

definition LocalStorageUuid :: uuid where
  "LocalStorageUuid = 1"

record File =
  f_FilePath :: string
  f_SizeBytes :: int
  f_Duration :: int
  f_Verified :: bool
  f_ContentHash :: string

record FileMeta =
  fm_Id :: int
  fm_File :: File
  fm_AddedById :: int
  fm_StorageId :: uuid

interpretation fm_rows: keyed_rows fm_Id "\<lambda>i r. r\<lparr>fm_Id := i\<rparr>"
  by unfold_locales simp

type_synonym file_table = "FileMeta table"

text \<open>\<open>int64(d.Seconds())\<close>, which the column keeps, and back to a duration: truncation towards zero.\<close>

definition whole_seconds :: "int \<Rightarrow> int" where
  "whole_seconds d = (if d < 0 then - ((- d) div 1000000000) else d div 1000000000) * 1000000000"

definition fm_path_taken :: "int \<Rightarrow> string \<Rightarrow> file_table \<Rightarrow> bool" where
  "fm_path_taken i p t \<longleftrightarrow> (\<exists>r \<in> set (rows t). fm_Id r \<noteq> i \<and> f_FilePath (fm_File r) = p)"

definition fm_Add :: "FileMeta \<Rightarrow> file_table \<Rightarrow> int outcome \<times> file_table" where
  "fm_Add req t =
     (let storageId = if fm_StorageId req = uuid_Nil then LocalStorageUuid else fm_StorageId req;
          row = req\<lparr>fm_File := (fm_File req)\<lparr>f_Duration := whole_seconds (f_Duration (fm_File req))\<rparr>,
                    fm_StorageId := storageId\<rparr>
      in if fm_path_taken (next_id t) (f_FilePath (fm_File req)) t
         then (Err ErrAlreadyExists, t\<lparr>next_id := next_id t + 1\<rparr>)
         else (Ok (next_id t), tbl_insert (\<lambda>i r. r\<lparr>fm_Id := i\<rparr>) row t))"

definition fm_Get :: "int \<Rightarrow> file_table \<Rightarrow> FileMeta outcome" where
  "fm_Get i t = (case tbl_find (\<lambda>r. fm_Id r = i) t of Some r \<Rightarrow> Ok r | None \<Rightarrow> Err ErrNotFound)"

definition fm_GetByPath :: "string \<Rightarrow> file_table \<Rightarrow> FileMeta outcome" where
  "fm_GetByPath p t =
     (case tbl_find (\<lambda>r. f_FilePath (fm_File r) = p) t of Some r \<Rightarrow> Ok r | None \<Rightarrow> Err ErrNotFound)"

definition fm_GetByHash :: "string \<Rightarrow> int \<Rightarrow> file_table \<Rightarrow> FileMeta outcome" where
  "fm_GetByHash h user t =
     (case tbl_find (\<lambda>r. f_ContentHash (fm_File r) = h \<and> fm_AddedById r = user) t of
        Some r \<Rightarrow> Ok r | None \<Rightarrow> Err ErrNotFound)"

text \<open>\<open>COALESCE(SUM(size_bytes), 0)::BIGINT\<close>: the cast fails when the sum does not fit.\<close>

definition user_total :: "int \<Rightarrow> file_table \<Rightarrow> int" where
  "user_total user t =
     sum_list (List.map (\<lambda>r. f_SizeBytes (fm_File r)) (List.filter (\<lambda>r. fm_AddedById r = user) (rows t)))"

definition fm_GetTotalSizeByUser :: "int \<Rightarrow> file_table \<Rightarrow> int outcome" where
  "fm_GetTotalSizeByUser user t =
     (let n = user_total user t in if i64_range n then Ok n else Err ErrStorageFailure)"

definition fm_ExistingIds :: "int list \<Rightarrow> file_table \<Rightarrow> int set" where
  "fm_ExistingIds ids t =
     (if ids = [] then {} else set (List.filter (\<lambda>i. i \<in> set ids) (List.map fm_Id (rows t))))"

definition fm_Update :: "int \<Rightarrow> File \<Rightarrow> file_table \<Rightarrow> unit outcome \<times> file_table" where
  "fm_Update i f t =
     (if tbl_find (\<lambda>r. fm_Id r = i) t \<noteq> None \<and> fm_path_taken i (f_FilePath f) t
      then (Err ErrAlreadyExists, t)
      else (Ok (), tbl_update (\<lambda>r. fm_Id r = i)
             (\<lambda>r. r\<lparr>fm_File := f\<lparr>f_Duration := whole_seconds (f_Duration f)\<rparr>\<rparr>) t))"

definition fm_UpdateLocation :: "int \<Rightarrow> uuid \<Rightarrow> string \<Rightarrow> file_table \<Rightarrow> unit outcome \<times> file_table" where
  "fm_UpdateLocation i sid p t =
     (if tbl_find (\<lambda>r. fm_Id r = i) t \<noteq> None \<and> fm_path_taken i p t
      then (Err ErrAlreadyExists, t)
      else (Ok (), tbl_update (\<lambda>r. fm_Id r = i)
             (\<lambda>r. r\<lparr>fm_StorageId := sid, fm_File := (fm_File r)\<lparr>f_FilePath := p\<rparr>\<rparr>) t))"

definition fm_Delete :: "int \<Rightarrow> file_table \<Rightarrow> file_table" where
  "fm_Delete i = tbl_delete (\<lambda>r. fm_Id r = i)"

section \<open>Invariant: keys and paths are unique\<close>

definition fm_inv :: "file_table \<Rightarrow> bool" where
  "fm_inv t \<longleftrightarrow> table_wf fm_Id t \<and> inj_on (\<lambda>r. f_FilePath (fm_File r)) (set (rows t))"

lemma fm_inv_empty [simp]: "fm_inv empty_table"
  by (simp add: fm_inv_def empty_table_def table_wf_def)

lemma fm_path_free:
  "\<not> fm_path_taken i p t \<Longrightarrow> r \<in> set (rows t) \<Longrightarrow> fm_Id r \<noteq> i \<Longrightarrow> f_FilePath (fm_File r) \<noteq> p"
  unfolding fm_path_taken_def by blast

lemma fm_inv_insert:
  assumes inv: "fm_inv t" and free: "\<not> fm_path_taken (next_id t) (f_FilePath (fm_File row)) t"
  shows "fm_inv (tbl_insert (\<lambda>i r. r\<lparr>fm_Id := i\<rparr>) row t)"
proof -
  have "fm_Id r \<noteq> next_id t" if "r \<in> set (rows t)" for r
    using inv that by (auto simp: fm_inv_def table_wf_def)
  then have new: "f_FilePath (fm_File r) \<noteq> f_FilePath (fm_File row)" if "r \<in> set (rows t)" for r
    using fm_path_free[OF free that] that by blast
  have "inj_on (\<lambda>r. f_FilePath (fm_File r)) (set (rows (tbl_insert (\<lambda>i r. r\<lparr>fm_Id := i\<rparr>) row t)))"
    using inv new unfolding fm_inv_def inj_on_def by (auto, metis)
  then show ?thesis
    using inv by (auto simp: fm_inv_def intro: fm_rows.wf_insert)
qed

lemma fm_inv_update_path:
  assumes inv: "fm_inv t"
    and free: "tbl_find (\<lambda>r. fm_Id r = i) t \<noteq> None \<longrightarrow> \<not> fm_path_taken i p t"
    and key: "\<And>r. fm_Id (g r) = fm_Id r" and path: "\<And>r. f_FilePath (fm_File (g r)) = p"
  shows "fm_inv (tbl_update (\<lambda>r. fm_Id r = i) g t)"
proof -
  let ?t' = "tbl_update (\<lambda>r. fm_Id r = i) g t"
  have one: "r = r'" if "r \<in> set (rows t)" "r' \<in> set (rows t)" "fm_Id r = i" "fm_Id r' = i" for r r'
    using inv that table_wf_key_inj[of fm_Id t r r'] by (simp add: fm_inv_def)
  have "inj_on (\<lambda>r. f_FilePath (fm_File r)) (set (rows ?t'))"
  proof (rule inj_onI)
    fix x y
    assume mem: "x \<in> set (rows ?t')" "y \<in> set (rows ?t')"
      and eq: "f_FilePath (fm_File x) = f_FilePath (fm_File y)"
    obtain r where r: "r \<in> set (rows t)" "x = (if fm_Id r = i then g r else r)"
      using mem(1) by auto
    obtain q where q: "q \<in> set (rows t)" "y = (if fm_Id q = i then g q else q)"
      using mem(2) by auto
    have found: "tbl_find (\<lambda>r. fm_Id r = i) t \<noteq> None" if "z \<in> set (rows t)" "fm_Id z = i" for z
      using that by (auto simp: tbl_find_None)
    have taken: "f_FilePath (fm_File z) \<noteq> p"
      if "w \<in> set (rows t)" "fm_Id w = i" "z \<in> set (rows t)" "fm_Id z \<noteq> i" for w z
      using free found[OF that(1,2)] fm_path_free[OF _ that(3,4)] by blast
    show "x = y"
    proof (cases "fm_Id r = i"; cases "fm_Id q = i")
      assume "fm_Id r = i" "fm_Id q = i"
      then show ?thesis using one[OF r(1) q(1)] r(2) q(2) by simp
    next
      assume "fm_Id r = i" "fm_Id q \<noteq> i"
      then show ?thesis using taken[OF r(1) _ q(1)] r q eq path by simp
    next
      assume "fm_Id r \<noteq> i" "fm_Id q = i"
      then show ?thesis using taken[OF q(1) _ r(1)] r q eq path by simp
    next
      assume "fm_Id r \<noteq> i" "fm_Id q \<noteq> i"
      then show ?thesis using r q eq inv by (simp add: fm_inv_def inj_on_def)
    qed
  qed
  then show ?thesis
    using inv key by (simp add: fm_inv_def fm_rows.wf_update)
qed

lemma fm_inv_Add: "fm_inv t \<Longrightarrow> fm_inv (snd (fm_Add req t))"
proof (cases "fm_path_taken (next_id t) (f_FilePath (fm_File req)) t")
  case True
  assume "fm_inv t"
  then show ?thesis
    using True by (auto simp: fm_Add_def Let_def fm_inv_def table_wf_def)
next
  case False
  assume "fm_inv t"
  then show ?thesis
    using False by (simp add: fm_Add_def Let_def fm_inv_insert)
qed

lemma fm_inv_Update: "fm_inv t \<Longrightarrow> fm_inv (snd (fm_Update i f t))"
  using fm_inv_update_path[of t i "f_FilePath f"] by (auto simp: fm_Update_def)

lemma fm_inv_UpdateLocation: "fm_inv t \<Longrightarrow> fm_inv (snd (fm_UpdateLocation i sid p t))"
  using fm_inv_update_path[of t i p] by (auto simp: fm_UpdateLocation_def)

lemma fm_inv_Delete: "fm_inv t \<Longrightarrow> fm_inv (fm_Delete i t)"
  unfolding fm_inv_def fm_Delete_def by (auto intro: table_wf_delete inj_on_subset)

lemmas fm_inv_intros = fm_inv_Add fm_inv_Update fm_inv_UpdateLocation fm_inv_Delete

section \<open>Reading back\<close>

lemma fm_Get_Ok: "fm_Get i t = Ok r \<Longrightarrow> r \<in> set (rows t) \<and> fm_Id r = i"
  by (auto simp: fm_Get_def split: option.splits dest!: tbl_find_Some)

lemma fm_Get_cases: "fm_Get i t = Err ErrNotFound \<or> (\<exists>r. fm_Get i t = Ok r)"
  by (auto simp: fm_Get_def split: option.split)

lemma fm_GetByPath_NotFound:
  "fm_GetByPath p t = Err ErrNotFound \<longleftrightarrow> (\<forall>r \<in> set (rows t). f_FilePath (fm_File r) \<noteq> p)"
  by (auto simp: fm_GetByPath_def tbl_find_None split: option.splits dest!: tbl_find_Some)

lemma fm_GetByPath_cases: "fm_GetByPath p t = Err ErrNotFound \<or> (\<exists>r. fm_GetByPath p t = Ok r)"
  by (auto simp: fm_GetByPath_def split: option.split)

lemma fm_GetByHash_cases: "fm_GetByHash h u t = Err ErrNotFound \<or> (\<exists>r. fm_GetByHash h u t = Ok r)"
  by (auto simp: fm_GetByHash_def split: option.split)

lemma fm_GetByHash_Ok:
  "fm_GetByHash h u t = Ok r \<Longrightarrow> r \<in> set (rows t) \<and> f_ContentHash (fm_File r) = h \<and> fm_AddedById r = u"
  by (auto simp: fm_GetByHash_def split: option.splits dest!: tbl_find_Some)

lemma fm_Add_fresh_path:
  assumes "\<forall>r \<in> set (rows t). f_FilePath (fm_File r) \<noteq> f_FilePath (fm_File req)"
  shows "fst (fm_Add req t) = Ok (next_id t)"
proof -
  have "\<not> fm_path_taken (next_id t) (f_FilePath (fm_File req)) t"
    using assms by (auto simp: fm_path_taken_def)
  then show ?thesis by (simp add: fm_Add_def Let_def)
qed

lemma user_total_insert:
  "user_total u (tbl_insert setk r t) =
     user_total u t + (if fm_AddedById (setk (next_id t) r) = u then f_SizeBytes (fm_File (setk (next_id t) r)) else 0)"
  by (simp add: user_total_def)

end
