(* ===== verification/GoJson.thy ===== *)
theory GoJson
  imports GoStrings
begin

text \<open>
  The part of Go's encoding/json the backend uses: writing strings, integers and booleans as a compact object, and
  reading an object back into a struct.  A Go string is a list of bytes.  Writing replaces a byte that
  is not part of a valid UTF-8 sequence by U+FFFD and escapes quotes, control characters, the HTML characters
  \<open><\<close>, \<open>>\<close>, \<open>&\<close> and the line separators U+2028 and U+2029.  Reading takes any JSON text: white space, escapes with
  surrogate pairs, unknown keys, keys that differ in case, null for an absent value.

  The reader recurses on a fuel; each call that spends one unit has consumed a byte of the text, so the length of the
  text plus one is enough.

  Facts: what is read back after writing is the string with its invalid bytes replaced, hence the string itself when it is valid
  UTF-8; the same for integers.
\<close>

section \<open>UTF-8\<close>

abbreviation code :: "char \<Rightarrow> nat" where
  "code c \<equiv> of_char c"

definition is_cont :: "char \<Rightarrow> bool" where
  "is_cont c \<longleftrightarrow> 128 \<le> code c \<and> code c < 192"

text \<open>The length of the valid sequence a byte list starts with, 0 when \<open>utf8.DecodeRune\<close> reports an error.\<close>

definition utf8_len2 :: "char \<Rightarrow> char \<Rightarrow> bool" where
  "utf8_len2 b c \<longleftrightarrow> 194 \<le> code b \<and> code b < 224 \<and> is_cont c"

definition utf8_len3 :: "char \<Rightarrow> char \<Rightarrow> char \<Rightarrow> bool" where
  "utf8_len3 b c d \<longleftrightarrow> 224 \<le> code b \<and> code b < 240 \<and> is_cont c \<and> is_cont d \<and>
     (code b = 224 \<longrightarrow> 160 \<le> code c) \<and> (code b = 237 \<longrightarrow> code c < 160)"

definition utf8_len4 :: "char \<Rightarrow> char \<Rightarrow> char \<Rightarrow> char \<Rightarrow> bool" where
  "utf8_len4 b c d e \<longleftrightarrow> 240 \<le> code b \<and> code b < 245 \<and> is_cont c \<and> is_cont d \<and> is_cont e \<and>
     (code b = 240 \<longrightarrow> 144 \<le> code c) \<and> (code b = 244 \<longrightarrow> code c < 144)"

fun utf8_len :: "string \<Rightarrow> nat" where
  "utf8_len [] = 0"
| "utf8_len (b # bs) =
     (if code b < 128 then 1
      else case bs of
        [] \<Rightarrow> 0
      | c # cs \<Rightarrow> if utf8_len2 b c then 2
          else case cs of
            [] \<Rightarrow> 0
          | d # ds \<Rightarrow> if utf8_len3 b c d then 3
              else case ds of [] \<Rightarrow> 0 | e # _ \<Rightarrow> if utf8_len4 b c d e then 4 else 0)"

lemma utf8_len_le: "utf8_len s \<le> length s"
  by (cases s) (auto split: list.split)

lemma utf8_len_take: "utf8_len s = n \<Longrightarrow> n \<noteq> 0 \<Longrightarrow> utf8_len (take n s @ r) = n"
  by (cases s) (auto split: list.splits if_splits)

definition replacement :: string where
  "replacement = [CHR 0xEF, CHR 0xBF, CHR 0xBD]"

text \<open>A string with every byte outside a valid sequence replaced by U+FFFD.\<close>

function to_valid :: "string \<Rightarrow> string" where
  "to_valid [] = []"
| "to_valid (c # cs) =
     (let n = utf8_len (c # cs) in
      if n = 0 then replacement @ to_valid cs else take n (c # cs) @ to_valid (drop n (c # cs)))"
  by pat_completeness auto

termination to_valid
  by (relation "measure length") (auto simp: neq0_conv)

definition valid_utf8 :: "string \<Rightarrow> bool" where
  "valid_utf8 s \<longleftrightarrow> to_valid s = s"

text \<open>\<open>utf8.AppendRune\<close> for a rune that is not a surrogate.\<close>

definition utf8_encode :: "nat \<Rightarrow> string" where
  "utf8_encode r =
     (if r < 128 then [char_of r]
      else if r < 2048 then [char_of (192 + r div 64), char_of (128 + r mod 64)]
      else if r < 65536 then [char_of (224 + r div 4096), char_of (128 + r div 64 mod 64), char_of (128 + r mod 64)]
      else [char_of (240 + r div 262144), char_of (128 + r div 4096 mod 64), char_of (128 + r div 64 mod 64),
            char_of (128 + r mod 64)])"

section \<open>Writing strings\<close>

definition hexdigit :: "nat \<Rightarrow> char" where
  "hexdigit n = char_of (if n < 10 then 48 + n else 87 + n)"

definition html_unsafe :: "char \<Rightarrow> bool" where
  "html_unsafe c \<longleftrightarrow> c = CHR ''<'' \<or> c = CHR ''>'' \<or> c = CHR ''&''"

text \<open>The escape of an ASCII character.\<close>

definition escape_ascii :: "char \<Rightarrow> string" where
  "escape_ascii c =
     (if c = CHR 0x22 \<or> c = CHR 0x5C then [CHR 0x5C, c]
      else if c = CHR 0x08 then [CHR 0x5C, CHR ''b'']
      else if c = CHR 0x0C then [CHR 0x5C, CHR ''f'']
      else if c = CHR 0x0A then [CHR 0x5C, CHR ''n'']
      else if c = CHR 0x0D then [CHR 0x5C, CHR ''r'']
      else if c = CHR 0x09 then [CHR 0x5C, CHR ''t'']
      else if code c < 32 \<or> html_unsafe c
        then [CHR 0x5C, CHR ''u'', CHR ''0'', CHR ''0'', hexdigit (code c div 16), hexdigit (code c mod 16)]
      else [c])"

definition line_separator :: "string \<Rightarrow> bool" where
  "line_separator s \<longleftrightarrow> s = [CHR 0xE2, CHR 0x80, CHR 0xA8] \<or> s = [CHR 0xE2, CHR 0x80, CHR 0xA9]"

definition escape_rune :: "string \<Rightarrow> string" where
  "escape_rune s =
     (if line_separator s then [CHR 0x5C, CHR ''u'', CHR ''2'', CHR ''0'', CHR ''2'', hexdigit (code (s ! 2) mod 16)] else s)"

function json_escape :: "string \<Rightarrow> string" where
  "json_escape [] = []"
| "json_escape (c # cs) =
     (if code c < 128 then escape_ascii c @ json_escape cs
      else let n = utf8_len (c # cs) in
        if n = 0 then [CHR 0x5C] @ ''ufffd'' @ json_escape cs
        else escape_rune (take n (c # cs)) @ json_escape (drop n (c # cs)))"
  by pat_completeness auto

termination json_escape
  by (relation "measure length") (auto simp: neq0_conv)

definition json_quote :: "string \<Rightarrow> string" where
  "json_quote s = CHR 0x22 # json_escape s @ [CHR 0x22]"

section \<open>Reading strings\<close>

definition hex_val :: "char \<Rightarrow> nat option" where
  "hex_val c =
     (let n = code c in
      if 48 \<le> n \<and> n \<le> 57 then Some (n - 48)
      else if 97 \<le> n \<and> n \<le> 102 then Some (n - 87)
      else if 65 \<le> n \<and> n \<le> 70 then Some (n - 55)
      else None)"

text \<open>Four hexadecimal digits and the rest.\<close>

fun hex4 :: "string \<Rightarrow> (nat \<times> string) option" where
  "hex4 (a # b # c # d # r) =
     (case (hex_val a, hex_val b, hex_val c, hex_val d) of
        (Some w, Some x, Some y, Some z) \<Rightarrow> Some (w * 4096 + x * 256 + y * 16 + z, r)
      | _ \<Rightarrow> None)"
| "hex4 _ = None"

text \<open>The low surrogate an escape \<open>\u....\<close> at the head of a text stands for.\<close>

fun low_surrogate :: "string \<Rightarrow> (nat \<times> string) option" where
  "low_surrogate (a # b # r) =
     (if a = CHR 0x5C \<and> b = CHR ''u''
      then (case hex4 r of
          Some (n, r') \<Rightarrow> if 56320 \<le> n \<and> n < 57344 then Some (n, r') else None
        | None \<Rightarrow> None)
      else None)"
| "low_surrogate _ = None"

text \<open>The bytes of an escape and what follows it; the argument is the text after the backslash.\<close>

fun json_unescape :: "string \<Rightarrow> (string \<times> string) option" where
  "json_unescape [] = None"
| "json_unescape (e # cs) =
     (if e = CHR 0x22 \<or> e = CHR 0x5C \<or> e = CHR ''/'' then Some ([e], cs)
      else if e = CHR ''b'' then Some ([CHR 0x08], cs)
      else if e = CHR ''f'' then Some ([CHR 0x0C], cs)
      else if e = CHR ''n'' then Some ([CHR 0x0A], cs)
      else if e = CHR ''r'' then Some ([CHR 0x0D], cs)
      else if e = CHR ''t'' then Some ([CHR 0x09], cs)
      else if e = CHR ''u'' then
        (case hex4 cs of
           None \<Rightarrow> None
         | Some (r, cs') \<Rightarrow>
             if 55296 \<le> r \<and> r < 57344 then
               (case low_surrogate cs' of
                  Some (r2, cs'') \<Rightarrow>
                    if r < 56320 then Some (utf8_encode ((r - 55296) * 1024 + (r2 - 56320) + 65536), cs'')
                    else Some (replacement, cs')
                | None \<Rightarrow> Some (replacement, cs'))
             else Some (utf8_encode r, cs'))
      else None)"

lemma hex4_length: "hex4 s = Some (n, r) \<Longrightarrow> length r < length s"
  by (cases s rule: hex4.cases) (auto split: option.splits)

lemma low_surrogate_length: "low_surrogate s = Some (n, r) \<Longrightarrow> length r < length s"
  by (cases s rule: low_surrogate.cases) (auto split: option.splits if_splits dest: hex4_length)

lemma json_unescape_length: "json_unescape s = Some (b, r) \<Longrightarrow> length r < length s"
  by (cases s rule: json_unescape.cases)
    (auto split: option.splits if_splits dest!: hex4_length low_surrogate_length)

text \<open>The text after the opening quote: the string read and the rest after the closing quote.\<close>

function json_string :: "string \<Rightarrow> (string \<times> string) option" where
  "json_string [] = None"
| "json_string (c # cs) =
     (if c = CHR 0x22 then Some ([], cs)
      else if c = CHR 0x5C then
        (case json_unescape cs of
           None \<Rightarrow> None
         | Some (b, r) \<Rightarrow> (case json_string r of None \<Rightarrow> None | Some (s, r') \<Rightarrow> Some (b @ s, r')))
      else if code c < 32 then None
      else
        let n = utf8_len (c # cs) in
        if n = 0 then (case json_string cs of None \<Rightarrow> None | Some (s, r) \<Rightarrow> Some (replacement @ s, r))
        else (case json_string (drop n (c # cs)) of
            None \<Rightarrow> None | Some (s, r) \<Rightarrow> Some (take n (c # cs) @ s, r)))"
  by pat_completeness auto

termination json_string
  by (relation "measure length") (auto simp: neq0_conv dest: json_unescape_length)

declare json_string.simps(2) [simp del] json_escape.simps(2) [simp del] to_valid.simps(2) [simp del]

lemma utf8_len_ascii: "code c < 128 \<Longrightarrow> utf8_len (c # cs) = 1"
  by simp

declare utf8_len.simps(2) [simp del]

section \<open>Reading what was written\<close>

lemma hex_val_hexdigit: "n < 16 \<Longrightarrow> hex_val (hexdigit n) = Some n"
  by (simp add: hex_val_def hexdigit_def Let_def)

lemma hex4_two: "n < 256 \<Longrightarrow>
  hex4 (CHR ''0'' # CHR ''0'' # hexdigit (n div 16) # hexdigit (n mod 16) # r) = Some (n, r)"
  by (simp add: hex_val_hexdigit div_mult_mod_eq) (simp add: hex_val_def)

lemma code_less: "code c < 256"
  using of_char_mod_256[where 'a = nat, of c] by (metis mod_less_divisor zero_less_numeral)

lemma char_constants:
  "char_of (239 :: nat) = CHR 0xEF" "char_of (191 :: nat) = CHR 0xBF" "char_of (189 :: nat) = CHR 0xBD"
  "char_of (226 :: nat) = CHR 0xE2" "char_of (128 :: nat) = CHR 0x80" "char_of (168 :: nat) = CHR 0xA8"
  "char_of (169 :: nat) = CHR 0xA9" "char_of (48 :: nat) = CHR ''0''" "char_of (56 :: nat) = CHR ''8''"
  "char_of (57 :: nat) = CHR ''9''"
  by code_simp+

lemma unescape_control:
  assumes "code c < 128"
  shows "json_unescape (CHR ''u'' # CHR ''0'' # CHR ''0'' # hexdigit (code c div 16) # hexdigit (code c mod 16) # r) =
    Some ([c], r)"
  using assms code_less[of c] by (simp add: hex4_two utf8_encode_def del: hex4.simps)

definition prepend :: "string \<Rightarrow> (string \<times> string) option \<Rightarrow> (string \<times> string) option" where
  "prepend b p = (case p of None \<Rightarrow> None | Some (s, r) \<Rightarrow> Some (b @ s, r))"

lemma json_string_escape:
  "json_unescape cs = Some (b, r) \<Longrightarrow> json_string (CHR 0x5C # cs) = prepend b (json_string r)"
  by (simp add: json_string.simps(2) prepend_def)

lemma json_string_ascii:
  assumes "code c < 128"
  shows "json_string (escape_ascii c @ r) = prepend [c] (json_string r)"
proof (cases "c \<in> {CHR 0x22, CHR 0x5C, CHR 0x08, CHR 0x0C, CHR 0x0A, CHR 0x0D, CHR 0x09}")
  case True
  then show ?thesis by (elim insertE emptyE) (simp_all add: escape_ascii_def json_string_escape)
next
  case False
  show ?thesis
  proof (cases "code c < 32 \<or> html_unsafe c")
    case True
    then have "escape_ascii c =
        CHR 0x5C # CHR ''u'' # CHR ''0'' # CHR ''0'' # hexdigit (code c div 16) # hexdigit (code c mod 16) # []"
      using False by (simp add: escape_ascii_def)
    then show ?thesis using json_string_escape[OF unescape_control[OF assms]] by simp
  next
    case plain: False
    then have "escape_ascii c = [c]" using False by (simp add: escape_ascii_def)
    then show ?thesis
      using False plain assms by (simp add: json_string.simps(2) utf8_len_ascii prepend_def split: option.split)
  qed
qed

lemma json_string_invalid:
  "json_string (CHR 0x5C # ''ufffd'' @ r) = prepend replacement (json_string r)"
  by (rule json_string_escape) (simp add: hex_val_def utf8_encode_def replacement_def char_constants)

lemma json_string_copy:
  assumes "128 \<le> code c" "utf8_len (c # cs) = n" "n \<noteq> 0"
  shows "json_string (take n (c # cs) @ r) = prepend (take n (c # cs)) (json_string r)"
proof -
  obtain m where m: "n = Suc m" using assms(3) by (cases n) auto
  have "utf8_len (c # take m cs @ r) = Suc m" using utf8_len_take[OF assms(2,3), of r] m by simp
  moreover have "m \<le> length cs" using utf8_len_le[of "c # cs"] assms(2) m by simp
  ultimately show ?thesis
    using assms(1) m by (auto simp: json_string.simps(2) prepend_def split: option.splits)
qed

lemma json_string_separator:
  assumes "line_separator s"
  shows "json_string (escape_rune s @ r) = prepend s (json_string r)"
  using assms unfolding line_separator_def escape_rune_def
  by (elim disjE) (auto simp: json_string_escape hex_val_def hexdigit_def utf8_encode_def char_constants)

lemma json_string_rune:
  assumes "128 \<le> code c" "utf8_len (c # cs) = n" "n \<noteq> 0"
  shows "json_string (escape_rune (take n (c # cs)) @ r) = prepend (take n (c # cs)) (json_string r)"
  using json_string_copy[OF assms] json_string_separator by (cases "line_separator (take n (c # cs))") (auto simp: escape_rune_def)

text \<open>What is read back is the string with its invalid bytes replaced.\<close>

theorem json_string_of_quote: "json_string (json_escape s @ CHR 0x22 # r) = Some (to_valid s, r)"
proof (induction s rule: json_escape.induct)
  case 1
  then show ?case by (simp add: json_string.simps(2))
next
  case (2 c cs)
  let ?n = "utf8_len (c # cs)"
  consider "code c < 128" | "128 \<le> code c" "?n = 0" | "128 \<le> code c" "?n \<noteq> 0" by linarith
  then show ?case
  proof cases
    case 1
    then show ?thesis
      using 2(1) by (simp add: json_escape.simps(2) to_valid.simps(2) json_string_ascii prepend_def utf8_len_ascii)
  next
    case 2
    then show ?thesis
      using "2.IH"(2) json_string_invalid by (simp add: json_escape.simps(2) to_valid.simps(2) prepend_def)
  next
    case 3
    then show ?thesis
      using "2.IH"(3) json_string_rune[of c cs ?n] by (simp add: json_escape.simps(2) to_valid.simps(2) prepend_def Let_def)
  qed
qed

section \<open>Values\<close>

datatype json =
    JNull
  | JBool bool
  | JNum string
  | JStr string
  | JArr "json list"
  | JObj "(string \<times> json) list"

definition json_space :: "char \<Rightarrow> bool" where
  "json_space c \<longleftrightarrow> c = CHR '' '' \<or> c = CHR 0x09 \<or> c = CHR 0x0A \<or> c = CHR 0x0D"

definition skip_ws :: "string \<Rightarrow> string" where
  "skip_ws s = dropWhile json_space s"

text \<open>The parts of a number literal; each gives what it read and the rest.\<close>

definition num_sign :: "string \<Rightarrow> string \<times> string" where
  "num_sign s = (if s \<noteq> [] \<and> hd s = CHR ''-'' then (''-'', tl s) else ([], s))"

definition num_int :: "string \<Rightarrow> (string \<times> string) option" where
  "num_int s =
     (if s = [] \<or> \<not> is_digit (hd s) then None
      else if hd s = CHR ''0'' then Some (''0'', tl s)
      else Some (takeWhile is_digit s, dropWhile is_digit s))"

definition num_frac :: "string \<Rightarrow> (string \<times> string) option" where
  "num_frac s =
     (if s \<noteq> [] \<and> hd s = CHR ''.''
      then (if takeWhile is_digit (tl s) = [] then None
            else Some (CHR ''.'' # takeWhile is_digit (tl s), dropWhile is_digit (tl s)))
      else Some ([], s))"

definition num_exp :: "string \<Rightarrow> (string \<times> string) option" where
  "num_exp s =
     (if s \<noteq> [] \<and> (hd s = CHR ''e'' \<or> hd s = CHR ''E'')
      then let t = tl s;
               (sign, u) = (if t \<noteq> [] \<and> (hd t = CHR ''+'' \<or> hd t = CHR ''-'') then ([hd t], tl t) else ([], t))
           in if takeWhile is_digit u = [] then None
              else Some (hd s # sign @ takeWhile is_digit u, dropWhile is_digit u)
      else Some ([], s))"

definition json_number :: "string \<Rightarrow> (string \<times> string) option" where
  "json_number s =
     (let (sign, s1) = num_sign s in
      case num_int s1 of None \<Rightarrow> None
      | Some (i, s2) \<Rightarrow> (case num_frac s2 of None \<Rightarrow> None
          | Some (f, s3) \<Rightarrow> (case num_exp s3 of None \<Rightarrow> None
              | Some (e, r) \<Rightarrow> Some (sign @ i @ f @ e, r))))"

definition json_literal :: "string \<Rightarrow> json \<Rightarrow> string \<Rightarrow> (json \<times> string) option" where
  "json_literal w v s = (if take (length w) s = w then Some (v, drop (length w) s) else None)"

fun json_value :: "nat \<Rightarrow> string \<Rightarrow> (json \<times> string) option"
  and json_elements :: "nat \<Rightarrow> string \<Rightarrow> (json list \<times> string) option"
  and json_members :: "nat \<Rightarrow> string \<Rightarrow> ((string \<times> json) list \<times> string) option"
where
  "json_value 0 s = None"
| "json_value (Suc n) s =
     (case skip_ws s of
        [] \<Rightarrow> None
      | c # cs \<Rightarrow>
          if c = CHR ''{'' then
            (if skip_ws cs \<noteq> [] \<and> hd (skip_ws cs) = CHR ''}'' then Some (JObj [], tl (skip_ws cs))
             else map_option (\<lambda>(ms, r). (JObj ms, r)) (json_members n cs))
          else if c = CHR ''['' then
            (if skip_ws cs \<noteq> [] \<and> hd (skip_ws cs) = CHR '']'' then Some (JArr [], tl (skip_ws cs))
             else map_option (\<lambda>(vs, r). (JArr vs, r)) (json_elements n cs))
          else if c = CHR 0x22 then map_option (\<lambda>(s, r). (JStr s, r)) (json_string cs)
          else if c = CHR ''t'' then json_literal ''true'' (JBool True) (c # cs)
          else if c = CHR ''f'' then json_literal ''false'' (JBool False) (c # cs)
          else if c = CHR ''n'' then json_literal ''null'' JNull (c # cs)
          else map_option (\<lambda>(l, r). (JNum l, r)) (json_number (c # cs)))"
| "json_elements 0 s = None"
| "json_elements (Suc n) s =
     (case json_value n s of
        None \<Rightarrow> None
      | Some (v, r) \<Rightarrow>
          (case skip_ws r of
             [] \<Rightarrow> None
           | c # r' \<Rightarrow>
               if c = CHR '']'' then Some ([v], r')
               else if c = CHR '','' then map_option (\<lambda>(vs, q). (v # vs, q)) (json_elements n r')
               else None))"
| "json_members 0 s = None"
| "json_members (Suc n) s =
     (case skip_ws s of
        [] \<Rightarrow> None
      | q # cs \<Rightarrow> if q \<noteq> CHR 0x22 then None else
          (case json_string cs of
             None \<Rightarrow> None
           | Some (k, r) \<Rightarrow>
               (case skip_ws r of
                  [] \<Rightarrow> None
                | d # r1 \<Rightarrow> if d \<noteq> CHR '':'' then None else
                    (case json_value n r1 of
                       None \<Rightarrow> None
                     | Some (v, r2) \<Rightarrow>
                         (case skip_ws r2 of
                            [] \<Rightarrow> None
                          | c # r3 \<Rightarrow>
                              if c = CHR ''}'' then Some ([(k, v)], r3)
                              else if c = CHR '','' then map_option (\<lambda>(ms, p). ((k, v) # ms, p)) (json_members n r3)
                              else None)))))"

text \<open>The nesting of a value: Go refuses a text nested deeper than 10000.\<close>

fun json_depth :: "json \<Rightarrow> nat" where
  "json_depth (JArr vs) = Suc (foldr (\<lambda>v. max (json_depth v)) vs 0)"
| "json_depth (JObj ms) = Suc (foldr (\<lambda>(k, v). max (json_depth v)) ms 0)"
| "json_depth _ = 0"

definition json_parse :: "string \<Rightarrow> json option" where
  "json_parse s =
     (case json_value (length s + 1) s of
        Some (v, r) \<Rightarrow> if skip_ws r = [] \<and> json_depth v \<le> 10000 then Some v else None
      | None \<Rightarrow> None)"

section \<open>Writing objects\<close>

definition json_bool :: "bool \<Rightarrow> string" where
  "json_bool b = (if b then ''true'' else ''false'')"

text \<open>The members of an object; their values are already written.\<close>

fun json_fields :: "(string \<times> string) list \<Rightarrow> string" where
  "json_fields [] = []"
| "json_fields [(k, x)] = json_quote k @ CHR '':'' # x"
| "json_fields ((k, x) # fs) = json_quote k @ CHR '':'' # x @ CHR '','' # json_fields fs"

definition json_object :: "(string \<times> string) list \<Rightarrow> string" where
  "json_object fs = CHR ''{'' # json_fields fs @ ''}''"

section \<open>Reading what was written\<close>

text \<open>\<open>reads x v\<close>: wherever \<open>x\<close> stands in a text, reading a value there gives \<open>v\<close> and stops after it.\<close>

definition stops :: "string \<Rightarrow> bool" where
  "stops r \<longleftrightarrow> r = [] \<or> hd r = CHR '','' \<or> hd r = CHR ''}''"

definition reads :: "string \<Rightarrow> json \<Rightarrow> bool" where
  "reads x v \<longleftrightarrow> x \<noteq> [] \<and> (\<forall>n r. length x \<le> n \<longrightarrow> stops r \<longrightarrow> json_value n (x @ r) = Some (v, r))"

lemma readsI:
  assumes "x \<noteq> []" "\<And>n r. length x \<le> Suc n \<Longrightarrow> stops r \<Longrightarrow> json_value (Suc n) (x @ r) = Some (v, r)"
  shows "reads x v"
  unfolding reads_def
proof (intro conjI allI impI assms(1))
  fix n r assume "length x \<le> n" "stops r"
  then show "json_value n (x @ r) = Some (v, r)" using assms by (cases n) auto
qed

lemma skip_ws_plain: "\<not> json_space c \<Longrightarrow> skip_ws (c # s) = c # s"
  by (simp add: skip_ws_def)

lemma json_space_consts:
  "\<not> json_space (CHR 0x22)" "\<not> json_space (CHR ''{'')" "\<not> json_space (CHR ''}'')" "\<not> json_space (CHR '','')"
  "\<not> json_space (CHR '':'')" "\<not> json_space (CHR ''t'')" "\<not> json_space (CHR ''f'')"
  by (simp_all add: json_space_def)

lemma reads_quote: "reads (json_quote s) (JStr (to_valid s))"
  by (rule readsI) (simp_all add: json_quote_def skip_ws_plain json_space_consts json_string_of_quote)

lemma reads_bool: "reads (json_bool b) (JBool b)"
  by (rule readsI) (simp_all add: json_bool_def skip_ws_plain json_space_consts json_literal_def)

lemma digit_not_stop: "stops r \<Longrightarrow> takeWhile is_digit r = [] \<and> dropWhile is_digit r = r"
  by (cases r) (auto simp: stops_def is_digit_def)

lemma span_digits:
  "stops r \<Longrightarrow> takeWhile is_digit (digits n @ r) = digits n \<and> dropWhile is_digit (digits n @ r) = r"
  using list_all_digits[of n] digit_not_stop[of r] by (simp add: takeWhile_append dropWhile_append list_all_iff)

lemma num_int_digits:
  assumes "stops r"
  shows "num_int (digits n @ r) = Some (digits n, r)"
proof (cases "n = 0")
  case True
  then show ?thesis using digits_step[of 0] by (simp add: num_int_def is_digit_def char_constants)
next
  case False
  then show ?thesis
    using hd_digits[of n] span_digits[OF assms, of n] by (simp add: num_int_def)
qed

lemma num_rest: "stops r \<Longrightarrow> num_frac r = Some ([], r) \<and> num_exp r = Some ([], r)"
  by (auto simp: stops_def num_frac_def num_exp_def)

lemma digits_Cons: obtains c cs where "digits n = c # cs" "is_digit c"
  using hd_digits[of n] by (cases "digits n") auto

lemma json_number_int:
  assumes "stops r"
  shows "json_number (FormatInt n @ r) = Some (FormatInt n, r)"
proof -
  obtain c cs where d: "digits (nat n) = c # cs" "is_digit c" by (rule digits_Cons)
  have "c \<noteq> CHR ''-''" using d(2) by (auto simp: is_digit_def)
  then have plain: "num_sign (digits (nat n) @ r) = ([], digits (nat n) @ r)" by (simp add: num_sign_def d(1))
  have minus: "num_sign (CHR ''-'' # digits (nat (- n)) @ r) = (''-'', digits (nat (- n)) @ r)"
    by (simp add: num_sign_def)
  show ?thesis
    using num_int_digits[OF assms] num_rest[OF assms] plain minus
    by (simp add: json_number_def FormatInt_def)
qed

lemma number_start:
  assumes "is_digit c \<or> c = CHR ''-''"
  shows "json_value (Suc n) (c # s) = map_option (\<lambda>(l, r). (JNum l, r)) (json_number (c # s))"
proof -
  have "\<not> json_space c" "c \<noteq> CHR ''{''" "c \<noteq> CHR ''[''" "c \<noteq> CHR 0x22" "c \<noteq> CHR ''t''" "c \<noteq> CHR ''f''" "c \<noteq> CHR ''n''"
    using assms by (auto simp: is_digit_def json_space_def)
  then show ?thesis by (simp add: skip_ws_plain)
qed

lemma FormatInt_Cons: obtains c cs where "FormatInt n = c # cs" "is_digit c \<or> c = CHR ''-''"
  using hd_digits[of "nat n"] that by (cases "n < 0"; cases "digits (nat n)") (auto simp: FormatInt_def)

lemma reads_int: "reads (FormatInt n) (JNum (FormatInt n))"
proof (rule readsI)
  obtain c cs where f: "FormatInt n = c # cs" "is_digit c \<or> c = CHR ''-''" by (rule FormatInt_Cons)
  then show "FormatInt n \<noteq> []" by simp
  fix m r assume "stops r"
  then show "json_value (Suc m) (FormatInt n @ r) = Some (JNum (FormatInt n), r)"
    using number_start[OF f(2), of m "cs @ r"] json_number_int[of r n] f(1) by simp
qed

lemma json_members_written:
  assumes "fs \<noteq> []" "list_all2 (\<lambda>(k, x) (k', v). k' = to_valid k \<and> reads x v) fs ms"
    and "length (json_fields fs) \<le> n"
  shows "json_members n (json_fields fs @ CHR ''}'' # r) = Some (ms, r)"
  using assms
proof (induction fs arbitrary: ms n rule: json_fields.induct)
  case 1
  then show ?case by simp
next
  case (2 k x)
  then obtain v m where "ms = [(to_valid k, v)]" "reads x v" "n = Suc m" "length x \<le> m"
    by (cases n) (auto simp: list_all2_Cons1 json_quote_def)
  then show ?case
    by (simp add: json_quote_def skip_ws_plain json_space_consts json_string_of_quote reads_def stops_def)
next
  case (3 k x f fs)
  then obtain v m ms' where m: "ms = (to_valid k, v) # ms'" "reads x v" "n = Suc m" "length x \<le> m"
      "length (json_fields (f # fs)) \<le> m"
      "list_all2 (\<lambda>(k, x) (k', v). k' = to_valid k \<and> reads x v) (f # fs) ms'"
    by (cases n) (auto simp: list_all2_Cons1 json_quote_def)
  then show ?case
    using 3(1)[of ms' m]
    by (simp add: json_quote_def skip_ws_plain json_space_consts json_string_of_quote reads_def stops_def)
qed

lemma reads_object:
  assumes "list_all2 (\<lambda>(k, x) (k', v). k' = to_valid k \<and> reads x v) fs ms"
  shows "reads (json_object fs) (JObj ms)"
proof (rule readsI)
  fix n r assume n: "length (json_object fs) \<le> Suc n"
  show "json_value (Suc n) (json_object fs @ r) = Some (JObj ms, r)"
  proof (cases fs rule: json_fields.cases)
    case 1
    then show ?thesis using assms by (simp add: json_object_def skip_ws_plain json_space_consts)
  next
    case 2
    then show ?thesis
      using json_members_written[of fs ms n r] n assms
      by (simp add: json_object_def skip_ws_plain json_space_consts json_quote_def)
  next
    case 3
    then show ?thesis
      using json_members_written[of fs ms n r] n assms
      by (simp add: json_object_def skip_ws_plain json_space_consts json_quote_def)
  qed
qed (simp add: json_object_def)

lemma json_parse_written:
  assumes "reads x v" "json_depth v \<le> 10000"
  shows "json_parse x = Some v"
proof -
  have "json_value (length x + 1) (x @ []) = Some (v, [])"
    using assms(1) unfolding reads_def stops_def by (metis le_add1)
  then show ?thesis using assms(2) by (simp add: json_parse_def skip_ws_def del: json_value.simps)
qed

section \<open>Structs\<close>

text \<open>A key selects the field whose name it equals up to letter case; the letters K and s have each a non-ASCII
  variant (the Kelvin sign, the long s) that counts as the letter.\<close>

function fold_key :: "string \<Rightarrow> string" where
  "fold_key [] = []"
| "fold_key (c # cs) =
     (if code c = 197 \<and> List.map code (take 1 cs) = [191] then CHR ''s'' # fold_key (drop 1 cs)
      else if code c = 226 \<and> List.map code (take 2 cs) = [132, 170] then CHR ''k'' # fold_key (drop 2 cs)
      else lower_byte c # fold_key cs)"
  by pat_completeness auto

termination fold_key
  by (relation "measure length") auto

declare fold_key.simps(2) [simp del]

text \<open>What a value does to a field of a type: null leaves the field as it is, a value of another type is an error.\<close>

definition str_field :: "(string \<Rightarrow> 'r) \<Rightarrow> 'r \<Rightarrow> json \<Rightarrow> 'r option" where
  "str_field upd old v = (case v of JStr s \<Rightarrow> Some (upd s) | JNull \<Rightarrow> Some old | _ \<Rightarrow> None)"

definition bool_field :: "(bool \<Rightarrow> 'r) \<Rightarrow> 'r \<Rightarrow> json \<Rightarrow> 'r option" where
  "bool_field upd old v = (case v of JBool b \<Rightarrow> Some (upd b) | JNull \<Rightarrow> Some old | _ \<Rightarrow> None)"

definition int_field :: "(int \<Rightarrow> 'r) \<Rightarrow> 'r \<Rightarrow> json \<Rightarrow> 'r option" where
  "int_field upd old v =
     (case v of JNum l \<Rightarrow> map_option upd (ParseInt l) | JNull \<Rightarrow> Some old | _ \<Rightarrow> None)"

fun assign_fields :: "(string \<Rightarrow> json \<Rightarrow> 'r \<Rightarrow> 'r option) \<Rightarrow> (string \<times> json) list \<Rightarrow> 'r \<Rightarrow> 'r option" where
  "assign_fields f [] r = Some r"
| "assign_fields f ((k, v) # ms) r = (case f (fold_key k) v r of None \<Rightarrow> None | Some r' \<Rightarrow> assign_fields f ms r')"

text \<open>\<open>json.Unmarshal\<close> into a struct that holds \<open>r\<close>.\<close>

definition unmarshal_object :: "(string \<Rightarrow> json \<Rightarrow> 'r \<Rightarrow> 'r option) \<Rightarrow> 'r \<Rightarrow> json \<Rightarrow> 'r option" where
  "unmarshal_object f r v = (case v of JNull \<Rightarrow> Some r | JObj ms \<Rightarrow> assign_fields f ms r | _ \<Rightarrow> None)"

definition Unmarshal :: "(string \<Rightarrow> json \<Rightarrow> 'r \<Rightarrow> 'r option) \<Rightarrow> 'r \<Rightarrow> string \<Rightarrow> 'r option" where
  "Unmarshal f r text = (case json_parse text of None \<Rightarrow> None | Some v \<Rightarrow> unmarshal_object f r v)"

text \<open>A member left out when its value is the zero of its type (omitempty).\<close>

definition omit_if :: "bool \<Rightarrow> string \<Rightarrow> string \<Rightarrow> (string \<times> string) list" where
  "omit_if is_empty k x = (if is_empty then [] else [(k, x)])"

lemma to_valid_ascii: "list_all (\<lambda>c. code c < 128) s \<Longrightarrow> to_valid s = s"
  by (induction s) (simp_all add: to_valid.simps(2) utf8_len_ascii)

lemma valid_utf8_ascii: "list_all (\<lambda>c. code c < 128) s \<Longrightarrow> valid_utf8 s"
  by (simp add: valid_utf8_def to_valid_ascii)

lemma json_depth_flat: "list_all (\<lambda>(k, v). json_depth v = 0) ms \<Longrightarrow> json_depth (JObj ms) \<le> 1"
  by (induction ms) auto

text \<open>Members written and members read, one by one.\<close>

definition fields_read :: "(string \<times> string) list \<Rightarrow> (string \<times> json) list \<Rightarrow> bool" where
  "fields_read = list_all2 (\<lambda>(k, x) (k', v). k' = to_valid k \<and> reads x v)"

lemma fields_read_Nil: "fields_read [] []"
  and fields_read_one: "reads x v \<Longrightarrow> list_all (\<lambda>c. code c < 128) k \<Longrightarrow> fields_read [(k, x)] [(k, v)]"
  and fields_read_omit: "reads x v \<Longrightarrow> list_all (\<lambda>c. code c < 128) k \<Longrightarrow>
    fields_read (omit_if b k x) (if b then [] else [(k, v)])"
  and fields_read_append: "fields_read fs ms \<Longrightarrow> fields_read fs' ms' \<Longrightarrow> fields_read (fs @ fs') (ms @ ms')"
  by (auto simp: fields_read_def omit_if_def to_valid_ascii intro: list_all2_appendI)

lemma Unmarshal_written:
  assumes "fields_read fs ms" "json_depth (JObj ms) \<le> 10000"
  shows "Unmarshal f r (json_object fs) = assign_fields f ms r"
  using json_parse_written[OF reads_object[OF assms(1)[unfolded fields_read_def]] assms(2)]
  by (simp add: Unmarshal_def unmarshal_object_def)

lemma assign_fields_append:
  "assign_fields f (ms @ ms') r = (case assign_fields f ms r of None \<Rightarrow> None | Some r' \<Rightarrow> assign_fields f ms' r')"
  by (induction ms arbitrary: r) (auto split: option.split)

end
