(* ===== verification/StorageConfigs.thy ===== *)
theory StorageConfigs
  imports FileStore GoJson
begin

text \<open>
  The configuration of a remote storage (internal/domain/storage.go), the rules of the storage service about it
  (internal/service/v1/storage_service.go: which kind it is, whether it is complete, merging an edit into it, hiding its
  secrets), and its stored form (internal/storage/storage_config, internal/utils/secretbox): a JSON object sealed with AES-GCM
  under the hash of the secrets key.  SHA-256 and AES-GCM are arguments; \<open>aead_laws\<close> is what the code relies on.

  Facts: an edit with empty secrets keeps the stored ones and never takes those of another kind; decoding an encoded
  configuration gives it back.
\<close>

section \<open>Configurations\<close>

datatype StorageKind = StorageKindLocal | StorageKindS3 | StorageKindWebdav | StorageKindGoogleDrive

record S3Config =
  s3_Endpoint :: string
  s3_Region :: string
  s3_Bucket :: string
  s3_AccessKeyId :: string
  s3_SecretAccessKey :: string
  s3_IsPathStyle :: bool

record WebdavConfig =
  wd_Url :: string
  wd_Username :: string
  wd_Password :: string
  wd_RootPath :: string

record GoogleDriveConfig =
  gd_ClientId :: string
  gd_ClientSecret :: string
  gd_RootFolderId :: string
  gd_RefreshToken :: string

record StorageConfig =
  cfg_S3 :: "S3Config option"
  cfg_Webdav :: "WebdavConfig option"
  cfg_GoogleDrive :: "GoogleDriveConfig option"

definition no_config :: StorageConfig where
  "no_config = \<lparr>cfg_S3 = None, cfg_Webdav = None, cfg_GoogleDrive = None\<rparr>"

definition isConfigConnected :: "StorageKind \<Rightarrow> StorageConfig \<Rightarrow> bool" where
  "isConfigConnected kind cfg =
     (if kind \<noteq> StorageKindGoogleDrive then True
      else (case cfg_GoogleDrive cfg of None \<Rightarrow> False | Some drive \<Rightarrow> gd_RefreshToken drive \<noteq> []))"

definition redactSecrets :: "StorageConfig \<Rightarrow> StorageConfig" where
  "redactSecrets cfg =
     \<lparr>cfg_S3 = map_option (\<lambda>c. c\<lparr>s3_SecretAccessKey := []\<rparr>) (cfg_S3 cfg),
      cfg_Webdav = map_option (\<lambda>c. c\<lparr>wd_Password := []\<rparr>) (cfg_Webdav cfg),
      cfg_GoogleDrive = map_option (\<lambda>c. c\<lparr>gd_ClientSecret := [], gd_RefreshToken := []\<rparr>) (cfg_GoogleDrive cfg)\<rparr>"

text \<open>None when the configuration is not of exactly one kind.\<close>

definition kindOfConfig :: "StorageConfig \<Rightarrow> StorageKind option" where
  "kindOfConfig cfg =
     (let kinds = (if cfg_S3 cfg \<noteq> None then [StorageKindS3] else []) @
                  (if cfg_Webdav cfg \<noteq> None then [StorageKindWebdav] else []) @
                  (if cfg_GoogleDrive cfg \<noteq> None then [StorageKindGoogleDrive] else [])
      in if length kinds \<noteq> 1 then None else Some (kinds ! 0))"

definition complete_config :: "StorageConfig \<Rightarrow> StorageKind \<Rightarrow> bool" where
  "complete_config cfg kind =
     (case kind of
        StorageKindLocal \<Rightarrow> False
      | StorageKindS3 \<Rightarrow> (case cfg_S3 cfg of None \<Rightarrow> False | Some c \<Rightarrow>
          s3_Endpoint c \<noteq> [] \<and> s3_Bucket c \<noteq> [] \<and> s3_AccessKeyId c \<noteq> [] \<and> s3_SecretAccessKey c \<noteq> [])
      | StorageKindWebdav \<Rightarrow> (case cfg_Webdav cfg of None \<Rightarrow> False | Some c \<Rightarrow> wd_Url c \<noteq> [])
      | StorageKindGoogleDrive \<Rightarrow> (case cfg_GoogleDrive cfg of None \<Rightarrow> False | Some c \<Rightarrow>
          gd_ClientId c \<noteq> [] \<and> gd_ClientSecret c \<noteq> []))"

definition validateConfig :: "StorageConfig \<Rightarrow> StorageKind outcome" where
  "validateConfig cfg =
     (case kindOfConfig cfg of
        None \<Rightarrow> Err ErrStorageInvalidConfig
      | Some kind \<Rightarrow> if \<not> complete_config cfg kind then Err ErrStorageInvalidConfig else Ok kind)"

text \<open>An edit merged into what is stored: an empty secret keeps the stored one; the refresh token of a Google Drive
  storage, and its client secret, are kept only while the client id stays.\<close>

definition merge_s3 :: "S3Config option \<Rightarrow> S3Config \<Rightarrow> S3Config" where
  "merge_s3 stored c =
     (case stored of
        Some old \<Rightarrow> if s3_SecretAccessKey c = [] then c\<lparr>s3_SecretAccessKey := s3_SecretAccessKey old\<rparr> else c
      | None \<Rightarrow> c)"

definition merge_webdav :: "WebdavConfig option \<Rightarrow> WebdavConfig \<Rightarrow> WebdavConfig" where
  "merge_webdav stored c =
     (case stored of
        Some old \<Rightarrow> if wd_Password c = [] then c\<lparr>wd_Password := wd_Password old\<rparr> else c
      | None \<Rightarrow> c)"

definition merge_drive :: "GoogleDriveConfig option \<Rightarrow> GoogleDriveConfig \<Rightarrow> GoogleDriveConfig" where
  "merge_drive stored c0 =
     (let c = c0\<lparr>gd_RefreshToken := []\<rparr> in
      case stored of
        None \<Rightarrow> c
      | Some old \<Rightarrow>
          let isClientChanged = gd_ClientId c \<noteq> gd_ClientId old;
              c1 = (if gd_ClientSecret c = [] \<and> \<not> isClientChanged
                    then c\<lparr>gd_ClientSecret := gd_ClientSecret old\<rparr> else c)
          in if \<not> isClientChanged then c1\<lparr>gd_RefreshToken := gd_RefreshToken old\<rparr> else c1)"

definition mergeConfig :: "StorageKind \<Rightarrow> StorageConfig \<Rightarrow> StorageConfig \<Rightarrow> StorageConfig outcome" where
  "mergeConfig kind stored incoming =
     (if kindOfConfig incoming \<noteq> Some kind then Err ErrStorageInvalidConfig
      else if kind = StorageKindLocal then Err ErrStorageInvalidConfig
      else
        let merged =
          (case kind of
             StorageKindS3 \<Rightarrow> no_config\<lparr>cfg_S3 := map_option (merge_s3 (cfg_S3 stored)) (cfg_S3 incoming)\<rparr>
           | StorageKindWebdav \<Rightarrow>
               no_config\<lparr>cfg_Webdav := map_option (merge_webdav (cfg_Webdav stored)) (cfg_Webdav incoming)\<rparr>
           | StorageKindGoogleDrive \<Rightarrow>
               no_config\<lparr>cfg_GoogleDrive := map_option (merge_drive (cfg_GoogleDrive stored)) (cfg_GoogleDrive incoming)\<rparr>
           | StorageKindLocal \<Rightarrow> no_config)
        in bindO (validateConfig merged) (\<lambda>_. Ok merged))"

lemma validateConfig_Ok: "validateConfig cfg = Ok kind \<longleftrightarrow> kindOfConfig cfg = Some kind \<and> complete_config cfg kind"
  by (auto simp: validateConfig_def split: option.splits)

lemma kindOfConfig_eq:
  "kindOfConfig cfg = Some StorageKindS3 \<longleftrightarrow> cfg_S3 cfg \<noteq> None \<and> cfg_Webdav cfg = None \<and> cfg_GoogleDrive cfg = None"
  "kindOfConfig cfg = Some StorageKindWebdav \<longleftrightarrow> cfg_S3 cfg = None \<and> cfg_Webdav cfg \<noteq> None \<and> cfg_GoogleDrive cfg = None"
  "kindOfConfig cfg = Some StorageKindGoogleDrive \<longleftrightarrow>
     cfg_S3 cfg = None \<and> cfg_Webdav cfg = None \<and> cfg_GoogleDrive cfg \<noteq> None"
  "kindOfConfig cfg \<noteq> Some StorageKindLocal"
  by (auto simp: kindOfConfig_def Let_def)

text \<open>What a client is shown of a configuration, sent back unchanged, changes nothing.\<close>

lemma mergeConfig_redacted:
  assumes "validateConfig stored = Ok kind"
  shows "mergeConfig kind stored (redactSecrets stored) = Ok stored"
proof -
  have k: "kindOfConfig stored = Some kind" "kind \<noteq> StorageKindLocal"
    using assms by (auto simp: validateConfig_Ok complete_config_def)
  then show ?thesis
    using assms
    by (cases kind; cases stored)
      (auto simp: mergeConfig_def kindOfConfig_eq redactSecrets_def no_config_def merge_s3_def merge_webdav_def
        merge_drive_def Let_def)
qed

section \<open>The sealed form\<close>

record crypto =
  cr_Sha256 :: "string \<Rightarrow> string"
  cr_Seal :: "string \<Rightarrow> string \<Rightarrow> string \<Rightarrow> string"
  cr_Open :: "string \<Rightarrow> string \<Rightarrow> string \<Rightarrow> string option"

definition nonceSize :: nat where "nonceSize = 12"
definition gcmOverhead :: nat where "gcmOverhead = 16"

text \<open>AES-GCM opens what it sealed under the same key and nonce, and adds its tag of 16 bytes.\<close>

definition aead_laws :: "crypto \<Rightarrow> bool" where
  "aead_laws C \<longleftrightarrow>
     (\<forall>key nonce plain. cr_Open C key nonce (cr_Seal C key nonce plain) = Some plain \<and>
        length (cr_Seal C key nonce plain) = length plain + gcmOverhead)"

text \<open>The key of the cipher, the hash of the secret; None when no secret is configured.\<close>

definition newGcm :: "crypto \<Rightarrow> string \<Rightarrow> string option" where
  "newGcm C key = (if key = [] then None else Some (cr_Sha256 C key))"

text \<open>The random nonce is an argument.\<close>

definition Encrypt :: "crypto \<Rightarrow> string \<Rightarrow> string \<Rightarrow> string \<Rightarrow> string outcome" where
  "Encrypt C nonce key plain =
     (case newGcm C key of None \<Rightarrow> Err ErrKeyMissing | Some k \<Rightarrow> Ok (nonce @ cr_Seal C k nonce plain))"

definition Decrypt :: "crypto \<Rightarrow> string \<Rightarrow> string \<Rightarrow> string outcome" where
  "Decrypt C key blob =
     (case newGcm C key of
        None \<Rightarrow> Err ErrKeyMissing
      | Some k \<Rightarrow>
          if length blob < nonceSize + gcmOverhead then Err ErrCorrupted
          else (case cr_Open C k (take nonceSize blob) (drop nonceSize blob) of
              None \<Rightarrow> Err ErrCorrupted | Some plain \<Rightarrow> Ok plain))"

lemma Decrypt_Encrypt:
  assumes "aead_laws C" "length nonce = nonceSize" "Encrypt C nonce key plain = Ok blob"
  shows "Decrypt C key blob = Ok plain"
  using assms by (auto simp: Encrypt_def Decrypt_def aead_laws_def split: option.splits)

section \<open>The stored form\<close>

definition s3_json :: "S3Config \<Rightarrow> string" where
  "s3_json c = json_object
     [(''endpoint'', json_quote (s3_Endpoint c)), (''region'', json_quote (s3_Region c)),
      (''bucket'', json_quote (s3_Bucket c)), (''access_key_id'', json_quote (s3_AccessKeyId c)),
      (''secret_access_key'', json_quote (s3_SecretAccessKey c)), (''is_path_style'', json_bool (s3_IsPathStyle c))]"

definition webdav_json :: "WebdavConfig \<Rightarrow> string" where
  "webdav_json c = json_object
     [(''url'', json_quote (wd_Url c)), (''username'', json_quote (wd_Username c)),
      (''password'', json_quote (wd_Password c)), (''root_path'', json_quote (wd_RootPath c))]"

definition drive_json :: "GoogleDriveConfig \<Rightarrow> string" where
  "drive_json c = json_object
     [(''client_id'', json_quote (gd_ClientId c)), (''client_secret'', json_quote (gd_ClientSecret c)),
      (''root_folder_id'', json_quote (gd_RootFolderId c)), (''refresh_token'', json_quote (gd_RefreshToken c))]"

definition opt_member :: "string \<Rightarrow> ('a \<Rightarrow> string) \<Rightarrow> 'a option \<Rightarrow> (string \<times> string) list" where
  "opt_member k f v = (case v of None \<Rightarrow> [] | Some x \<Rightarrow> [(k, f x)])"

definition toJson :: "StorageConfig \<Rightarrow> string" where
  "toJson cfg = json_object
     (opt_member ''s3'' s3_json (cfg_S3 cfg) @ opt_member ''webdav'' webdav_json (cfg_Webdav cfg) @
      opt_member ''google_drive'' drive_json (cfg_GoogleDrive cfg))"

definition s3_field :: "string \<Rightarrow> json \<Rightarrow> S3Config \<Rightarrow> S3Config option" where
  "s3_field k v c =
     (if k = ''endpoint'' then str_field (\<lambda>s. c\<lparr>s3_Endpoint := s\<rparr>) c v
      else if k = ''region'' then str_field (\<lambda>s. c\<lparr>s3_Region := s\<rparr>) c v
      else if k = ''bucket'' then str_field (\<lambda>s. c\<lparr>s3_Bucket := s\<rparr>) c v
      else if k = ''access_key_id'' then str_field (\<lambda>s. c\<lparr>s3_AccessKeyId := s\<rparr>) c v
      else if k = ''secret_access_key'' then str_field (\<lambda>s. c\<lparr>s3_SecretAccessKey := s\<rparr>) c v
      else if k = ''is_path_style'' then bool_field (\<lambda>b. c\<lparr>s3_IsPathStyle := b\<rparr>) c v
      else Some c)"

definition webdav_field :: "string \<Rightarrow> json \<Rightarrow> WebdavConfig \<Rightarrow> WebdavConfig option" where
  "webdav_field k v c =
     (if k = ''url'' then str_field (\<lambda>s. c\<lparr>wd_Url := s\<rparr>) c v
      else if k = ''username'' then str_field (\<lambda>s. c\<lparr>wd_Username := s\<rparr>) c v
      else if k = ''password'' then str_field (\<lambda>s. c\<lparr>wd_Password := s\<rparr>) c v
      else if k = ''root_path'' then str_field (\<lambda>s. c\<lparr>wd_RootPath := s\<rparr>) c v
      else Some c)"

definition drive_field :: "string \<Rightarrow> json \<Rightarrow> GoogleDriveConfig \<Rightarrow> GoogleDriveConfig option" where
  "drive_field k v c =
     (if k = ''client_id'' then str_field (\<lambda>s. c\<lparr>gd_ClientId := s\<rparr>) c v
      else if k = ''client_secret'' then str_field (\<lambda>s. c\<lparr>gd_ClientSecret := s\<rparr>) c v
      else if k = ''root_folder_id'' then str_field (\<lambda>s. c\<lparr>gd_RootFolderId := s\<rparr>) c v
      else if k = ''refresh_token'' then str_field (\<lambda>s. c\<lparr>gd_RefreshToken := s\<rparr>) c v
      else Some c)"

text \<open>A pointer to a struct: null makes it nil, an object is read into the struct it points to, or a new one.\<close>

definition ptr_field ::
  "(string \<Rightarrow> json \<Rightarrow> 'a \<Rightarrow> 'a option) \<Rightarrow> 'a \<Rightarrow> ('a option \<Rightarrow> 'r) \<Rightarrow> 'a option \<Rightarrow> json \<Rightarrow> 'r option"
where
  "ptr_field f zero upd old v =
     (if v = JNull then Some (upd None)
      else map_option (\<lambda>x. upd (Some x)) (unmarshal_object f (case old of None \<Rightarrow> zero | Some x \<Rightarrow> x) v))"

definition zero_s3 :: S3Config where
  "zero_s3 = \<lparr>s3_Endpoint = [], s3_Region = [], s3_Bucket = [], s3_AccessKeyId = [], s3_SecretAccessKey = [],
     s3_IsPathStyle = False\<rparr>"

definition zero_webdav :: WebdavConfig where
  "zero_webdav = \<lparr>wd_Url = [], wd_Username = [], wd_Password = [], wd_RootPath = []\<rparr>"

definition zero_drive :: GoogleDriveConfig where
  "zero_drive = \<lparr>gd_ClientId = [], gd_ClientSecret = [], gd_RootFolderId = [], gd_RefreshToken = []\<rparr>"

definition config_field :: "string \<Rightarrow> json \<Rightarrow> StorageConfig \<Rightarrow> StorageConfig option" where
  "config_field k v cfg =
     (if k = ''s3'' then ptr_field s3_field zero_s3 (\<lambda>x. cfg\<lparr>cfg_S3 := x\<rparr>) (cfg_S3 cfg) v
      else if k = ''webdav'' then ptr_field webdav_field zero_webdav (\<lambda>x. cfg\<lparr>cfg_Webdav := x\<rparr>) (cfg_Webdav cfg) v
      else if k = ''google_drive'' then
        ptr_field drive_field zero_drive (\<lambda>x. cfg\<lparr>cfg_GoogleDrive := x\<rparr>) (cfg_GoogleDrive cfg) v
      else Some cfg)"

definition fromJson :: "string \<Rightarrow> StorageConfig outcome" where
  "fromJson text = (case Unmarshal config_field no_config text of None \<Rightarrow> Err ErrMalformed | Some cfg \<Rightarrow> Ok cfg)"

definition Encode :: "crypto \<Rightarrow> string \<Rightarrow> string \<Rightarrow> StorageConfig \<Rightarrow> string outcome" where
  "Encode C nonce key cfg = Encrypt C nonce key (toJson cfg)"

definition Decode :: "crypto \<Rightarrow> string \<Rightarrow> string \<Rightarrow> StorageConfig outcome" where
  "Decode C key blob =
     (if blob = [] then Ok no_config else bindO (Decrypt C key blob) (\<lambda>plain. fromJson plain))"

section \<open>Round trip\<close>

definition valid_s3 :: "S3Config \<Rightarrow> S3Config" where
  "valid_s3 c = c\<lparr>s3_Endpoint := to_valid (s3_Endpoint c), s3_Region := to_valid (s3_Region c),
     s3_Bucket := to_valid (s3_Bucket c), s3_AccessKeyId := to_valid (s3_AccessKeyId c),
     s3_SecretAccessKey := to_valid (s3_SecretAccessKey c)\<rparr>"

definition valid_webdav :: "WebdavConfig \<Rightarrow> WebdavConfig" where
  "valid_webdav c = c\<lparr>wd_Url := to_valid (wd_Url c), wd_Username := to_valid (wd_Username c),
     wd_Password := to_valid (wd_Password c), wd_RootPath := to_valid (wd_RootPath c)\<rparr>"

definition valid_drive :: "GoogleDriveConfig \<Rightarrow> GoogleDriveConfig" where
  "valid_drive c = c\<lparr>gd_ClientId := to_valid (gd_ClientId c), gd_ClientSecret := to_valid (gd_ClientSecret c),
     gd_RootFolderId := to_valid (gd_RootFolderId c), gd_RefreshToken := to_valid (gd_RefreshToken c)\<rparr>"

definition valid_config :: "StorageConfig \<Rightarrow> StorageConfig" where
  "valid_config cfg = \<lparr>cfg_S3 = map_option valid_s3 (cfg_S3 cfg), cfg_Webdav = map_option valid_webdav (cfg_Webdav cfg),
     cfg_GoogleDrive = map_option valid_drive (cfg_GoogleDrive cfg)\<rparr>"

definition s3_members :: "S3Config \<Rightarrow> (string \<times> json) list" where
  "s3_members c =
     [(''endpoint'', JStr (to_valid (s3_Endpoint c))), (''region'', JStr (to_valid (s3_Region c))),
      (''bucket'', JStr (to_valid (s3_Bucket c))), (''access_key_id'', JStr (to_valid (s3_AccessKeyId c))),
      (''secret_access_key'', JStr (to_valid (s3_SecretAccessKey c))), (''is_path_style'', JBool (s3_IsPathStyle c))]"

definition webdav_members :: "WebdavConfig \<Rightarrow> (string \<times> json) list" where
  "webdav_members c =
     [(''url'', JStr (to_valid (wd_Url c))), (''username'', JStr (to_valid (wd_Username c))),
      (''password'', JStr (to_valid (wd_Password c))), (''root_path'', JStr (to_valid (wd_RootPath c)))]"

definition drive_members :: "GoogleDriveConfig \<Rightarrow> (string \<times> json) list" where
  "drive_members c =
     [(''client_id'', JStr (to_valid (gd_ClientId c))), (''client_secret'', JStr (to_valid (gd_ClientSecret c))),
      (''root_folder_id'', JStr (to_valid (gd_RootFolderId c))), (''refresh_token'', JStr (to_valid (gd_RefreshToken c)))]"

lemma reads_struct: "fields_read fs ms \<Longrightarrow> reads (json_object fs) (JObj ms)"
  unfolding fields_read_def by (rule reads_object)

lemma fields_read_Cons:
  "reads x v \<Longrightarrow> list_all (\<lambda>c. code c < 128) k \<Longrightarrow> fields_read fs ms \<Longrightarrow> fields_read ((k, x) # fs) ((k, v) # ms)"
  by (simp add: fields_read_def to_valid_ascii)

lemma reads_configs:
  "reads (s3_json a) (JObj (s3_members a))"
  "reads (webdav_json b) (JObj (webdav_members b))"
  "reads (drive_json c) (JObj (drive_members c))"
  unfolding s3_json_def s3_members_def webdav_json_def webdav_members_def drive_json_def drive_members_def
  by (rule reads_struct; intro fields_read_Cons fields_read_Nil reads_quote reads_bool; simp)+

lemma config_names:
  "fold_key ''endpoint'' = ''endpoint''" "fold_key ''region'' = ''region''" "fold_key ''bucket'' = ''bucket''"
  "fold_key ''access_key_id'' = ''access_key_id''" "fold_key ''secret_access_key'' = ''secret_access_key''"
  "fold_key ''is_path_style'' = ''is_path_style''" "fold_key ''url'' = ''url''" "fold_key ''username'' = ''username''"
  "fold_key ''password'' = ''password''" "fold_key ''root_path'' = ''root_path''"
  "fold_key ''client_id'' = ''client_id''" "fold_key ''client_secret'' = ''client_secret''"
  "fold_key ''root_folder_id'' = ''root_folder_id''" "fold_key ''refresh_token'' = ''refresh_token''"
  "fold_key ''s3'' = ''s3''" "fold_key ''webdav'' = ''webdav''" "fold_key ''google_drive'' = ''google_drive''"
  by code_simp+

lemma configs_assigned:
  "unmarshal_object s3_field zero_s3 (JObj (s3_members a)) = Some (valid_s3 a)"
  "unmarshal_object webdav_field zero_webdav (JObj (webdav_members b)) = Some (valid_webdav b)"
  "unmarshal_object drive_field zero_drive (JObj (drive_members c)) = Some (valid_drive c)"
  by (simp_all add: unmarshal_object_def s3_members_def webdav_members_def drive_members_def config_names s3_field_def
      webdav_field_def drive_field_def str_field_def bool_field_def zero_s3_def zero_webdav_def zero_drive_def
      valid_s3_def valid_webdav_def valid_drive_def)

definition opt_json :: "string \<Rightarrow> ('a \<Rightarrow> (string \<times> json) list) \<Rightarrow> 'a option \<Rightarrow> (string \<times> json) list" where
  "opt_json k f v = (case v of None \<Rightarrow> [] | Some x \<Rightarrow> [(k, JObj (f x))])"

definition config_members :: "StorageConfig \<Rightarrow> (string \<times> json) list" where
  "config_members cfg = opt_json ''s3'' s3_members (cfg_S3 cfg) @ opt_json ''webdav'' webdav_members (cfg_Webdav cfg) @
     opt_json ''google_drive'' drive_members (cfg_GoogleDrive cfg)"

lemma fields_read_opt:
  "(\<And>x. reads (f x) (JObj (g x))) \<Longrightarrow> list_all (\<lambda>c. code c < 128) k \<Longrightarrow> fields_read (opt_member k f v) (opt_json k g v)"
  by (cases v) (simp_all add: opt_member_def opt_json_def fields_read_Nil fields_read_one)

lemma struct_depths:
  "json_depth (JObj (s3_members a)) \<le> 1" "json_depth (JObj (webdav_members b)) \<le> 1"
  "json_depth (JObj (drive_members c)) \<le> 1"
  by (rule json_depth_flat; simp add: s3_members_def webdav_members_def drive_members_def)+

lemma config_depth: "json_depth (JObj (config_members cfg)) \<le> 2"
  using struct_depths
  by (auto simp: config_members_def opt_json_def simp del: json_depth.simps(1) split: option.split)

lemma fromJson_toJson: "fromJson (toJson cfg) = Ok (valid_config cfg)"
proof -
  have depth: "json_depth (JObj (config_members cfg)) \<le> 10000" using config_depth[of cfg] by linarith
  have "Unmarshal config_field no_config (toJson cfg) = assign_fields config_field (config_members cfg) no_config"
    unfolding toJson_def
    by (rule Unmarshal_written[OF _ depth], unfold config_members_def)
      (intro fields_read_append fields_read_opt reads_configs; simp)
  also have "\<dots> = Some (valid_config cfg)"
    unfolding config_members_def opt_json_def
    by (cases "cfg_S3 cfg"; cases "cfg_Webdav cfg"; cases "cfg_GoogleDrive cfg")
      (simp_all add: config_names config_field_def ptr_field_def configs_assigned no_config_def valid_config_def)
  finally show ?thesis by (simp add: fromJson_def)
qed

lemma Decode_Encode:
  assumes "aead_laws C" "length nonce = nonceSize" "Encode C nonce key cfg = Ok blob"
  shows "Decode C key blob = Ok (valid_config cfg)"
proof -
  have "blob \<noteq> []" using assms(2,3) by (auto simp: Encode_def Encrypt_def nonceSize_def split: option.splits)
  then show ?thesis
    using Decrypt_Encrypt[OF assms(1,2)] assms(3) by (simp add: Encode_def Decode_def fromJson_toJson)
qed

definition holds_no_secret :: "StorageConfig \<Rightarrow> bool" where
  "holds_no_secret cfg \<longleftrightarrow> (\<forall>c. cfg_S3 cfg = Some c \<longrightarrow> s3_SecretAccessKey c = []) \<and>
     (\<forall>c. cfg_Webdav cfg = Some c \<longrightarrow> wd_Password c = []) \<and>
     (\<forall>c. cfg_GoogleDrive cfg = Some c \<longrightarrow> gd_ClientSecret c = [] \<and> gd_RefreshToken c = [])"

lemma redacted_no_secret: "holds_no_secret (redactSecrets cfg)"
  by (auto simp: holds_no_secret_def redactSecrets_def)

text \<open>C24: A storage configuration that was encrypted under the secrets key is decoded from the stored blob exactly as it was
  (bytes that are not valid UTF-8 replaced), whatever the nonce; without a secrets key nothing can be encoded, and no blob
  but the empty one decoded.  What an administrator is shown of a configuration holds none of its secrets (the secret access
  key of S3, the password of WebDAV, the client secret and the refresh token of Google Drive), and what he is shown of a valid
  one, sent back unedited, leaves the stored configuration, secrets included, as it is.\<close>
theorem storage_config_roundtrip:
  assumes laws: "aead_laws C" and nonce: "length nonce = nonceSize"
  shows "(key \<noteq> [] \<longrightarrow> (\<exists>blob. Encode C nonce key cfg = Ok blob \<and> Decode C key blob = Ok (valid_config cfg))) \<and>
    Encode C nonce [] cfg = Err ErrKeyMissing \<and>
    (\<forall>blob. blob \<noteq> [] \<longrightarrow> Decode C [] blob = Err ErrKeyMissing) \<and>
    holds_no_secret (redactSecrets cfg) \<and>
    (\<forall>kind. validateConfig cfg = Ok kind \<longrightarrow> mergeConfig kind cfg (redactSecrets cfg) = Ok cfg)"
proof (intro conjI impI allI)
  assume "key \<noteq> []"
  then obtain blob where "Encode C nonce key cfg = Ok blob" by (simp add: Encode_def Encrypt_def newGcm_def)
  then show "\<exists>blob. Encode C nonce key cfg = Ok blob \<and> Decode C key blob = Ok (valid_config cfg)"
    using Decode_Encode[OF laws nonce] by blast
qed (simp_all add: Encode_def Encrypt_def Decode_def Decrypt_def newGcm_def mergeConfig_redacted redacted_no_secret)

definition ex_crypto :: crypto where
  "ex_crypto = \<lparr>cr_Sha256 = (\<lambda>s. s), cr_Seal = (\<lambda>k n p. p @ replicate gcmOverhead (CHR ''t'')),
     cr_Open = (\<lambda>k n c. Some (take (length c - gcmOverhead) c))\<rparr>"

definition ex_drive :: GoogleDriveConfig where
  "ex_drive = \<lparr>gd_ClientId = ''id'', gd_ClientSecret = ''sec'', gd_RootFolderId = [], gd_RefreshToken = ''tok''\<rparr>"

definition ex_config :: StorageConfig where
  "ex_config = no_config\<lparr>cfg_GoogleDrive := Some ex_drive\<rparr>"

lemma ex_crypto_laws: "aead_laws ex_crypto"
  by (simp add: aead_laws_def ex_crypto_def)

theorem storage_config_roundtrip_witness:
  "\<exists>blob. Encode ex_crypto (replicate 12 (CHR ''n'')) ''key'' ex_config = Ok blob \<and>
     Decode ex_crypto ''key'' blob = Ok ex_config \<and>
     holds_no_secret (redactSecrets ex_config) \<and> \<not> holds_no_secret ex_config \<and>
     mergeConfig StorageKindGoogleDrive ex_config (redactSecrets ex_config) = Ok ex_config"
proof -
  have "valid_config ex_config = ex_config"
    by (simp add: valid_config_def ex_config_def no_config_def valid_drive_def ex_drive_def to_valid_ascii)
  moreover have "validateConfig ex_config = Ok StorageKindGoogleDrive"
    by (simp add: validateConfig_def kindOfConfig_def complete_config_def ex_config_def no_config_def ex_drive_def)
  moreover have "\<not> holds_no_secret ex_config"
    by (simp add: holds_no_secret_def ex_config_def no_config_def ex_drive_def)
  ultimately show ?thesis
    using storage_config_roundtrip[of ex_crypto "replicate 12 (CHR ''n'')" "''key''" ex_config, OF ex_crypto_laws]
    by (simp add: nonceSize_def)
qed

end
