(* ===== verification/StorageRows.thy ===== *)
theory StorageRows
  imports StorageConfigs
begin

text \<open>
  The storages rows (internal/storage/pg/storages.go with queries/storages and the migration that creates the table).
  The table holds the rows in the order of their creation; names are unique, and at most one row is the default.
  The row of the built-in local storage is there from the start.  The id of a new row (gen_random_uuid) is
  an argument.  The configuration is an opaque blob here.
\<close>

record StorageRow =
  sr_Uuid :: uuid
  sr_Name :: string
  sr_Kind :: StorageKind
  sr_ConfigEnc :: string
  sr_IsDefault :: bool
  sr_OwnerUserId :: "int option"
  sr_QuotaBytes :: "int option"
  sr_UsedBytes :: int

definition local_storage_row :: StorageRow where
  "local_storage_row = \<lparr>sr_Uuid = LocalStorageUuid, sr_Name = ''local'', sr_Kind = StorageKindLocal,
     sr_ConfigEnc = [], sr_IsDefault = True, sr_OwnerUserId = None, sr_QuotaBytes = None, sr_UsedBytes = 0\<rparr>"

definition storage_used :: "uuid \<Rightarrow> file_table \<Rightarrow> int" where
  "storage_used i files =
     sum_list (List.map (\<lambda>r. f_SizeBytes (fm_File r)) (List.filter (\<lambda>r. fm_StorageId r = i) (rows files)))"

text \<open>Each with the bytes its files use; the cast to BIGINT fails when a sum does not fit.\<close>

definition st_List :: "file_table \<Rightarrow> StorageRow list \<Rightarrow> StorageRow list outcome" where
  "st_List files t =
     (if \<exists>r \<in> set t. \<not> i64_range (storage_used (sr_Uuid r) files) then Err ErrStorageFailure
      else Ok (List.map (\<lambda>r. r\<lparr>sr_UsedBytes := storage_used (sr_Uuid r) files\<rparr>) t))"

definition st_Get :: "uuid \<Rightarrow> StorageRow list \<Rightarrow> StorageRow option" where
  "st_Get i t = find (\<lambda>r. sr_Uuid r = i) t"

definition st_GetDefault :: "StorageRow list \<Rightarrow> StorageRow outcome" where
  "st_GetDefault t = (case find sr_IsDefault t of Some r \<Rightarrow> Ok r | None \<Rightarrow> Err ErrNotFound)"

definition st_Create :: "uuid \<Rightarrow> string \<Rightarrow> StorageKind \<Rightarrow> string \<Rightarrow> StorageRow list \<Rightarrow> StorageRow outcome \<times> StorageRow list" where
  "st_Create newId name kind configEnc t =
     (let row = \<lparr>sr_Uuid = newId, sr_Name = name, sr_Kind = kind, sr_ConfigEnc = configEnc, sr_IsDefault = False,
                 sr_OwnerUserId = None, sr_QuotaBytes = None, sr_UsedBytes = 0\<rparr>
      in if \<exists>r \<in> set t. sr_Name r = name \<or> sr_Uuid r = newId then (Err ErrAlreadyExists, t)
         else (Ok row, t @ [row]))"

definition st_Update :: "uuid \<Rightarrow> string \<Rightarrow> string \<Rightarrow> StorageRow list \<Rightarrow> unit outcome \<times> StorageRow list" where
  "st_Update i name configEnc t =
     (if st_Get i t \<noteq> None \<and> (\<exists>r \<in> set t. sr_Uuid r \<noteq> i \<and> sr_Name r = name) then (Err ErrAlreadyExists, t)
      else (Ok (), List.map (\<lambda>r. if sr_Uuid r = i then r\<lparr>sr_Name := name, sr_ConfigEnc := configEnc\<rparr> else r) t))"

text \<open>The foreign key of files_meta refuses to delete a row files refer to.\<close>

definition st_Delete :: "file_table \<Rightarrow> uuid \<Rightarrow> StorageRow list \<Rightarrow> unit outcome \<times> StorageRow list" where
  "st_Delete files i t =
     (if st_Get i t \<noteq> None \<and> (\<exists>f \<in> set (rows files). fm_StorageId f = i) then (Err ErrStorageFailure, t)
      else (Ok (), List.filter (\<lambda>r. sr_Uuid r \<noteq> i) t))"

definition st_ClearDefault :: "StorageRow list \<Rightarrow> StorageRow list" where
  "st_ClearDefault t = List.map (\<lambda>r. r\<lparr>sr_IsDefault := False\<rparr>) t"

definition st_SetDefaultById :: "uuid \<Rightarrow> StorageRow list \<Rightarrow> unit outcome \<times> StorageRow list" where
  "st_SetDefaultById i t =
     (if st_Get i t \<noteq> None \<and> (\<exists>r \<in> set t. sr_Uuid r \<noteq> i \<and> sr_IsDefault r) then (Err ErrAlreadyExists, t)
      else (Ok (), List.map (\<lambda>r. if sr_Uuid r = i then r\<lparr>sr_IsDefault := True\<rparr> else r) t))"

definition st_CountFiles :: "uuid \<Rightarrow> file_table \<Rightarrow> int" where
  "st_CountFiles i files = int (length (List.filter (\<lambda>r. fm_StorageId r = i) (rows files)))"

definition st_GetUsedBytes :: "uuid \<Rightarrow> file_table \<Rightarrow> int outcome" where
  "st_GetUsedBytes i files =
     (if i64_range (storage_used i files) then Ok (storage_used i files) else Err ErrStorageFailure)"

section \<open>Invariant\<close>

definition storages_ok :: "StorageRow list \<Rightarrow> bool" where
  "storages_ok t \<longleftrightarrow>
     distinct (List.map sr_Uuid t) \<and> distinct (List.map sr_Name t) \<and>
     (\<forall>r \<in> set t. sr_Kind r = StorageKindLocal \<longleftrightarrow> sr_Uuid r = LocalStorageUuid) \<and>
     LocalStorageUuid \<in> sr_Uuid ` set t \<and>
     length (List.filter sr_IsDefault t) \<le> 1"

definition files_placed :: "file_table \<Rightarrow> StorageRow list \<Rightarrow> bool" where
  "files_placed files t \<longleftrightarrow> (\<forall>f \<in> set (rows files). fm_StorageId f \<in> sr_Uuid ` set t)"

lemma storages_ok_start [simp]: "storages_ok [local_storage_row]"
  by (simp add: storages_ok_def local_storage_row_def)

lemma files_placed_empty [simp]: "files_placed empty_table t"
  by (simp add: files_placed_def empty_table_def)

lemma st_Get_None: "st_Get i t = None \<longleftrightarrow> i \<notin> sr_Uuid ` set t"
  by (auto simp: st_Get_def find_None_iff)

lemma st_Get_Some: "st_Get i t = Some r \<Longrightarrow> r \<in> set t \<and> sr_Uuid r = i"
  by (auto simp: st_Get_def find_Some_iff)

lemma storage_unique: "storages_ok t \<Longrightarrow> r \<in> set t \<Longrightarrow> r' \<in> set t \<Longrightarrow> sr_Uuid r = sr_Uuid r' \<Longrightarrow> r = r'"
  by (auto simp: storages_ok_def distinct_map inj_on_def)

lemma st_Get_eq: "storages_ok t \<Longrightarrow> r \<in> set t \<Longrightarrow> st_Get (sr_Uuid r) t = Some r"
  by (metis st_Get_None st_Get_Some image_eqI option.exhaust storage_unique)

text \<open>Changing rows in place keeps the invariant when names stay apart and the keys and kinds stay.\<close>

lemma storages_ok_map:
  assumes "storages_ok t" "\<And>r. r \<in> set t \<Longrightarrow> sr_Uuid (f r) = sr_Uuid r \<and> sr_Kind (f r) = sr_Kind r"
    and "distinct (List.map (\<lambda>r. sr_Name (f r)) t)" "length (List.filter (\<lambda>r. sr_IsDefault (f r)) t) \<le> 1"
  shows "storages_ok (List.map f t)"
  unfolding storages_ok_def
proof (intro conjI)
  have ids: "List.map sr_Uuid (List.map f t) = List.map sr_Uuid t" using assms(2) by simp
  show "distinct (List.map sr_Uuid (List.map f t))" unfolding ids using assms(1) by (simp add: storages_ok_def)
  have "sr_Uuid ` set (List.map f t) = sr_Uuid ` set t" using ids by (metis list.set_map)
  then show "LocalStorageUuid \<in> sr_Uuid ` set (List.map f t)" using assms(1) by (simp add: storages_ok_def)
  show "\<forall>r \<in> set (List.map f t). sr_Kind r = StorageKindLocal \<longleftrightarrow> sr_Uuid r = LocalStorageUuid"
    using assms(1,2) by (simp add: storages_ok_def)
  show "distinct (List.map sr_Name (List.map f t))" using assms(3) by (simp add: comp_def)
  show "length (List.filter sr_IsDefault (List.map f t)) \<le> 1" using assms(4) by (simp add: filter_map comp_def)
qed

lemma storages_ok_Create:
  assumes "storages_ok t" "newId \<noteq> LocalStorageUuid" "kind \<noteq> StorageKindLocal"
  shows "storages_ok (snd (st_Create newId name kind c t))"
  using assms by (auto simp: st_Create_def Let_def storages_ok_def)

lemma storages_ok_Update:
  assumes "storages_ok t"
  shows "storages_ok (snd (st_Update i name c t))"
proof (cases "st_Get i t \<noteq> None \<and> (\<exists>r \<in> set t. sr_Uuid r \<noteq> i \<and> sr_Name r = name)")
  case True
  then show ?thesis using assms by (simp add: st_Update_def)
next
  case False
  let ?f = "\<lambda>r. if sr_Uuid r = i then r\<lparr>sr_Name := name, sr_ConfigEnc := c\<rparr> else r"
  have "distinct t" "inj_on sr_Name (set t)" using assms by (auto simp: storages_ok_def distinct_map)
  moreover have "r = r'" if "r \<in> set t" "r' \<in> set t" "sr_Name (?f r) = sr_Name (?f r')" for r r'
  proof -
    have "st_Get i t \<noteq> None" if "sr_Uuid x = i" "x \<in> set t" for x using st_Get_None[of i t] that by auto
    then have other: "sr_Name x \<noteq> name" if "x \<in> set t" "y \<in> set t" "sr_Uuid y = i" "sr_Uuid x \<noteq> i" for x y
      using False that by blast
    show ?thesis
      using that other[of r r'] other[of r' r] storage_unique[OF assms that(1,2)] calculation(2)
      by (auto simp: inj_on_def split: if_splits)
  qed
  ultimately have "distinct (List.map (\<lambda>r. sr_Name (?f r)) t)" by (auto simp: distinct_map inj_on_def)
  moreover have "List.filter (\<lambda>r. sr_IsDefault (?f r)) t = List.filter sr_IsDefault t" by (rule filter_cong) auto
  ultimately have "storages_ok (List.map ?f t)"
    using assms by (intro storages_ok_map) (auto simp: storages_ok_def)
  then show ?thesis unfolding st_Update_def if_not_P[OF False] by simp
qed

lemma length_filter_filter: "length (List.filter P (List.filter Q xs)) \<le> length (List.filter P xs)"
  by (induction xs) auto

lemma storages_ok_Delete:
  assumes "storages_ok t" "i \<noteq> LocalStorageUuid"
  shows "storages_ok (snd (st_Delete files i t))"
proof -
  have "storages_ok (List.filter (\<lambda>r. sr_Uuid r \<noteq> i) t)"
    using assms length_filter_filter[of sr_IsDefault "\<lambda>r. sr_Uuid r \<noteq> i" t]
    by (auto simp: storages_ok_def distinct_map intro: inj_on_subset)
  then show ?thesis using assms(1) by (simp add: st_Delete_def)
qed

lemma filter_key_one: "distinct (List.map k t) \<Longrightarrow> length (List.filter (\<lambda>r. k r = i) t) \<le> 1"
proof (induction t)
  case (Cons r t)
  have "List.filter (\<lambda>x. k x = k r) t = []" using Cons(2) by (auto simp: filter_empty_conv image_iff)
  then show ?case using Cons by (cases "k r = i") auto
qed simp

lemma storages_ok_SetDefault:
  assumes "storages_ok t"
  shows "storages_ok (snd (st_SetDefaultById i (st_ClearDefault t)))"
proof -
  let ?f = "\<lambda>r. if sr_Uuid r = i then r\<lparr>sr_IsDefault := True\<rparr> else r\<lparr>sr_IsDefault := False\<rparr>"
  have "List.filter (\<lambda>r. sr_IsDefault (?f r)) t = List.filter (\<lambda>r. sr_Uuid r = i) t"
    by (rule filter_cong) auto
  then have one: "length (List.filter (\<lambda>r. sr_IsDefault (?f r)) t) \<le> 1"
    using filter_key_one[of sr_Uuid t i] assms by (simp add: storages_ok_def)
  have names: "List.map (\<lambda>r. sr_Name (?f r)) t = List.map sr_Name t" by simp
  have "distinct (List.map (\<lambda>r. sr_Name (?f r)) t)" unfolding names using assms by (simp add: storages_ok_def)
  then have "storages_ok (List.map ?f t)"
    by (intro storages_ok_map[OF assms _ _ one]) auto
  moreover have "snd (st_SetDefaultById i (st_ClearDefault t)) = List.map ?f t"
    by (auto simp: st_SetDefaultById_def st_ClearDefault_def comp_def)
  ultimately show ?thesis by simp
qed

end
