(* ===== verification/JobStore.thy ===== *)
theory JobStore
  imports Tables FileStore
begin

text \<open>
  The background job rows and the queue operations on them (internal/storage/pg/jobs.go with
  queries/jobs/jobs.sql).  A payload is the value its JSON text denotes.  Times are nanoseconds of the database clock; a lease
  lasts five minutes.
\<close>

datatype job_status = JobPending | JobProcessing | JobCompleted | JobFailed

datatype JobPayload =
    GarbageFilePayload string string
  | AudioParsePayload int string
  | OtherPayload string

record Job =
  job_ID :: int
  job_QueueName :: string
  job_Payload :: JobPayload
  job_Status :: job_status
  job_Attempts :: int
  job_MaxAttempts :: int
  job_CreatedAt :: int
  job_ScheduledAt :: int
  job_ProcessingUntil :: "int option"
  job_LastError :: "string option"

interpretation job_rows: keyed_rows job_ID "\<lambda>i r. r\<lparr>job_ID := i\<rparr>"
  by unfold_locales simp

type_synonym job_table = "Job table"

definition second :: int where
  "second = 1000000000"

definition lease :: int where
  "lease = 300 * second"

definition QueueNameGarbageCollector :: string where
  "QueueNameGarbageCollector = ''garbage_collector''"

definition QueueNameAudioParser :: string where
  "QueueNameAudioParser = ''audio_parser''"

definition job_Enqueue :: "int \<Rightarrow> string \<Rightarrow> JobPayload \<Rightarrow> int \<Rightarrow> job_table \<Rightarrow> job_table" where
  "job_Enqueue now queue payload maxAttempts =
     tbl_insert (\<lambda>i r. r\<lparr>job_ID := i\<rparr>)
       \<lparr>job_ID = 0, job_QueueName = queue, job_Payload = payload, job_Status = JobPending,
        job_Attempts = 0, job_MaxAttempts = maxAttempts, job_CreatedAt = now, job_ScheduledAt = now,
        job_ProcessingUntil = None, job_LastError = None\<rparr>"

text \<open>\<open>storageId.String()\<close> is injective; the payload keeps the id itself behind a function that
  renders it, an argument of the model.\<close>

definition job_EnqueueGarbageFile ::
  "(uuid \<Rightarrow> string) \<Rightarrow> int \<Rightarrow> uuid \<Rightarrow> string \<Rightarrow> job_table \<Rightarrow> job_table" where
  "job_EnqueueGarbageFile uuid_String now storageId filePath =
     job_Enqueue now QueueNameGarbageCollector (GarbageFilePayload (uuid_String storageId) filePath) 3"

definition job_EnqueueAudioParseJob :: "int \<Rightarrow> int \<Rightarrow> string \<Rightarrow> job_table \<Rightarrow> job_table" where
  "job_EnqueueAudioParseJob now fileId filePath =
     job_Enqueue now QueueNameAudioParser (AudioParsePayload fileId filePath) 3"

definition job_claimable :: "int \<Rightarrow> string \<Rightarrow> Job \<Rightarrow> bool" where
  "job_claimable now queue j \<longleftrightarrow>
     job_QueueName j = queue \<and> job_Status j = JobPending \<and> job_ScheduledAt j \<le> now"

definition job_claim_ids :: "int \<Rightarrow> string \<Rightarrow> nat \<Rightarrow> job_table \<Rightarrow> int list" where
  "job_claim_ids now queue limit t =
     List.map job_ID (take limit (sort_key job_ScheduledAt (List.filter (job_claimable now queue) (rows t))))"

definition job_take :: "int \<Rightarrow> Job \<Rightarrow> Job" where
  "job_take now j = j\<lparr>job_Status := JobProcessing, job_Attempts := job_Attempts j + 1,
     job_ProcessingUntil := Some (now + lease)\<rparr>"

definition job_Claim :: "int \<Rightarrow> string \<Rightarrow> nat \<Rightarrow> job_table \<Rightarrow> Job list \<times> job_table" where
  "job_Claim now queue limit t =
     (let ids = job_claim_ids now queue limit t;
          t' = tbl_update (\<lambda>j. job_ID j \<in> set ids) (job_take now) t
      in (List.filter (\<lambda>j. job_ID j \<in> set ids) (rows t'), t'))"

definition job_Complete :: "int \<Rightarrow> job_table \<Rightarrow> job_table" where
  "job_Complete i = tbl_update (\<lambda>j. job_ID j = i)
     (\<lambda>j. j\<lparr>job_Status := JobCompleted, job_ProcessingUntil := None\<rparr>)"

definition job_Fail :: "int \<Rightarrow> int \<Rightarrow> string \<Rightarrow> int \<Rightarrow> job_table \<Rightarrow> job_table" where
  "job_Fail now i lastError backoffSeconds = tbl_update (\<lambda>j. job_ID j = i)
     (\<lambda>j. j\<lparr>job_Status := (if job_Attempts j \<ge> job_MaxAttempts j then JobFailed else JobPending),
           job_LastError := Some lastError,
           job_ProcessingUntil := None,
           job_ScheduledAt := (if job_Attempts j \<ge> job_MaxAttempts j then job_ScheduledAt j
                               else now + backoffSeconds * second)\<rparr>)"

definition job_RequeueStalled :: "int \<Rightarrow> job_table \<Rightarrow> job_table" where
  "job_RequeueStalled now = tbl_update
     (\<lambda>j. job_Status j = JobProcessing \<and> (case job_ProcessingUntil j of Some u \<Rightarrow> u < now | None \<Rightarrow> False))
     (\<lambda>j. j\<lparr>job_Status := JobPending, job_ProcessingUntil := None\<rparr>)"

section \<open>Invariant\<close>

text \<open>Keys are unique, a lease is recorded exactly while a job is being processed, and the attempt
  counter is not negative.\<close>

definition job_ok :: "Job \<Rightarrow> bool" where
  "job_ok j \<longleftrightarrow>
     (job_Status j = JobProcessing \<longleftrightarrow> job_ProcessingUntil j \<noteq> None) \<and> 0 \<le> job_Attempts j"

definition job_inv :: "job_table \<Rightarrow> bool" where
  "job_inv t \<longleftrightarrow> table_wf job_ID t \<and> (\<forall>j \<in> set (rows t). job_ok j)"

lemma job_inv_empty [simp]: "job_inv empty_table"
  by (simp add: job_inv_def empty_table_def table_wf_def)

lemma job_inv_update:
  assumes "job_inv t" and "\<And>j. job_ID (f j) = job_ID j"
    and "\<And>j. j \<in> set (rows t) \<Longrightarrow> p j \<Longrightarrow> job_ok j \<Longrightarrow> job_ok (f j)"
  shows "job_inv (tbl_update p f t)"
  using assms job_rows.wf_update[of t f p] by (auto simp: job_inv_def)

lemma job_inv_Enqueue: "job_inv t \<Longrightarrow> job_inv (job_Enqueue now q p m t)"
  by (auto simp: job_inv_def job_Enqueue_def job_ok_def intro!: job_rows.wf_insert)

lemma job_inv_Claim: "job_inv t \<Longrightarrow> job_inv (snd (job_Claim now q n t))"
  unfolding job_Claim_def Let_def snd_conv
  by (rule job_inv_update) (auto simp: job_take_def job_ok_def)

lemma job_inv_RequeueStalled: "job_inv t \<Longrightarrow> job_inv (job_RequeueStalled now t)"
  unfolding job_RequeueStalled_def by (rule job_inv_update) (auto simp: job_ok_def)

lemma job_inv_Complete: "job_inv t \<Longrightarrow> job_inv (job_Complete i t)"
  unfolding job_Complete_def by (rule job_inv_update) (auto simp: job_ok_def)

lemma job_inv_Fail: "job_inv t \<Longrightarrow> job_inv (job_Fail now i msg b t)"
  unfolding job_Fail_def by (rule job_inv_update) (auto simp: job_ok_def)

lemmas job_inv_intros = job_inv_Enqueue job_inv_Claim job_inv_RequeueStalled job_inv_Complete job_inv_Fail

lemma job_claim_ids_mem:
  assumes "i \<in> set (job_claim_ids now q n t)"
  obtains j where "j \<in> set (rows t)" "job_ID j = i" "job_claimable now q j"
  using assms by (auto simp: job_claim_ids_def dest!: in_set_takeD)

lemma length_job_claim_ids: "length (job_claim_ids now q n t) \<le> n"
  by (simp add: job_claim_ids_def)

text \<open>What \<open>Claim\<close> returns: rows of the table that were waiting, now marked as being processed.\<close>

lemma job_Claim_mem:
  assumes inv: "job_inv t" and c: "job_Claim now q n t = (js, t')" and j: "j \<in> set js"
  shows "\<exists>j0 \<in> set (rows t). job_claimable now q j0 \<and> j = job_take now j0" "j \<in> set (rows t')"
proof -
  let ?ids = "job_claim_ids now q n t"
  have t': "t' = tbl_update (\<lambda>j. job_ID j \<in> set ?ids) (job_take now) t"
    and js: "js = List.filter (\<lambda>j. job_ID j \<in> set ?ids) (rows t')"
    using c by (auto simp: job_Claim_def Let_def)
  show "j \<in> set (rows t')" using j js by simp
  obtain j0 where j0: "j0 \<in> set (rows t)" "j = (if job_ID j0 \<in> set ?ids then job_take now j0 else j0)"
    using j js t' by auto
  then have ids: "job_ID j0 \<in> set ?ids" "j = job_take now j0"
    using j js by (auto simp: job_take_def split: if_splits)
  obtain j1 where "j1 \<in> set (rows t)" "job_ID j1 = job_ID j0" "job_claimable now q j1"
    using ids(1) by (rule job_claim_ids_mem)
  moreover have "j1 = j0" if "j1 \<in> set (rows t)" "job_ID j1 = job_ID j0" for j1
    using inv that j0(1) table_wf_key_inj[of job_ID t j1 j0] by (simp add: job_inv_def)
  ultimately show "\<exists>j0 \<in> set (rows t). job_claimable now q j0 \<and> j = job_take now j0"
    using j0(1) ids(2) by blast
qed

end
