(* ===== verification/Users.thy ===== *)
theory Users
  imports Prelude
begin

text \<open>
  Who calls a service (internal/middleware/user_context) and what he may do: the permissions of
  internal/domain/user.go and their rows (internal/storage/pg/user.go, \<open>GetPermissions\<close>,
  \<open>SavePermissions\<close>).  A user with no permission row has Go's zero permissions.  Saving a row leaves out
  can_edit_artists, and saving over an existing row leaves out is_administrator as well: a new row cannot edit
  artists, an existing one keeps the two flags it has.
\<close>

record UserPermissions =
  perm_CanUpload :: bool
  perm_EarlyAccess :: bool
  perm_CanCreatePlaylist :: bool
  perm_CanEditArtists :: bool
  perm_MaxPendingTracks :: int
  perm_MaxSongSizeBytes :: int
  perm_MaxTotalUploadBytes :: int
  perm_IsAdministrator :: bool

record UserContext =
  uc_UserId :: int
  uc_Permissions :: UserPermissions

definition zero_permissions :: UserPermissions where
  "zero_permissions = \<lparr>perm_CanUpload = False, perm_EarlyAccess = False, perm_CanCreatePlaylist = False,
     perm_CanEditArtists = False, perm_MaxPendingTracks = 0, perm_MaxSongSizeBytes = 0,
     perm_MaxTotalUploadBytes = 0, perm_IsAdministrator = False\<rparr>"

type_synonym permission_table = "(int \<times> UserPermissions) list"

definition up_GetPermissions :: "int \<Rightarrow> permission_table \<Rightarrow> UserPermissions" where
  "up_GetPermissions i t = (case map_of t i of Some p \<Rightarrow> p | None \<Rightarrow> zero_permissions)"

definition up_SavePermissions :: "int \<Rightarrow> UserPermissions \<Rightarrow> permission_table \<Rightarrow> permission_table" where
  "up_SavePermissions i p t =
     (case map_of t i of
        None \<Rightarrow> (i, p\<lparr>perm_CanEditArtists := False\<rparr>) # t
      | Some old \<Rightarrow> (i, p\<lparr>perm_CanEditArtists := perm_CanEditArtists old,
                          perm_IsAdministrator := perm_IsAdministrator old\<rparr>) # t)"

lemma up_GetPermissions_after_Save:
  "j \<noteq> i \<Longrightarrow> up_GetPermissions j (up_SavePermissions i p t) = up_GetPermissions j t"
  "perm_MaxSongSizeBytes (up_GetPermissions i (up_SavePermissions i p t)) = perm_MaxSongSizeBytes p"
  "perm_MaxTotalUploadBytes (up_GetPermissions i (up_SavePermissions i p t)) = perm_MaxTotalUploadBytes p"
  by (simp_all add: up_SavePermissions_def up_GetPermissions_def split: option.split)

section \<open>Entry checks\<close>

text \<open>The checks the entry points of the services start with.\<close>

definition authenticated :: "UserContext option \<Rightarrow> (UserContext \<Rightarrow> ('s, 'a) prog) \<Rightarrow> ('s, 'a) prog" where
  "authenticated uCtx f = (case uCtx of None \<Rightarrow> throwM ErrUnauthenticated | Some uc \<Rightarrow> f uc)"

definition uploader :: "UserContext option \<Rightarrow> (UserContext \<Rightarrow> ('s, 'a) prog) \<Rightarrow> ('s, 'a) prog" where
  "uploader uCtx f = authenticated uCtx (\<lambda>uc.
     if \<not> perm_CanUpload (uc_Permissions uc) then throwM ErrPermissionDenied else f uc)"

text \<open>\<open>requireAdministrator\<close>.\<close>

definition administrator :: "UserContext option \<Rightarrow> ('s, 'a) prog \<Rightarrow> ('s, 'a) prog" where
  "administrator uCtx m = authenticated uCtx (\<lambda>uc.
     if \<not> perm_IsAdministrator (uc_Permissions uc) then throwM ErrUnauthorized else m)"

lemma keeps_checks [keeps_intros]:
  "(\<And>uc. keeps I (f uc)) \<Longrightarrow> keeps I (authenticated uCtx f)"
  "(\<And>uc. keeps I (f uc)) \<Longrightarrow> keeps I (uploader uCtx f)"
  "keeps I m \<Longrightarrow> keeps I (administrator uCtx m)"
  by (auto simp: authenticated_def uploader_def administrator_def intro!: keeps_intros split: option.split)

end
