(* ===== verification/AccountStore.thy ===== *)
theory AccountStore
  imports FileStore Users "HOL-Library.AList"
begin

text \<open>
  The account rows (internal/storage/pg: user.go, session.go, identity_telegram.go, identity_zpotify.go, user_settings.go with
  their queries): users, the identities they sign in with, their sessions and settings.  The row of a user is the domain value
  \<open>UserBaseInfo\<close>; its liked playlist id is the UUID itself, none where the domain has the empty string.  Times
  are nanoseconds of one clock that the service and the database share; \<open>last_logged_at\<close>, which nothing reads, is left out.

  Facts: access tokens are unique, and so are refresh tokens; a session belongs to a user there is.
\<close>

section \<open>Users\<close>

record UserBaseInfo =
  ub_Id :: int
  ub_Username :: string
  ub_PhotoUrl :: "string option"
  ub_LikedPlaylistId :: "uuid option"

interpretation user_rows: keyed_rows ub_Id "\<lambda>i r. r\<lparr>ub_Id := i\<rparr>"
  by unfold_locales simp

type_synonym user_table = "UserBaseInfo table"

definition us_known :: "int \<Rightarrow> user_table \<Rightarrow> bool" where
  "us_known i t \<longleftrightarrow> (\<exists>u \<in> set (rows t). ub_Id u = i)"

definition us_GetUserById :: "int \<Rightarrow> user_table \<Rightarrow> UserBaseInfo outcome" where
  "us_GetUserById i t = (case tbl_find (\<lambda>u. ub_Id u = i) t of Some u \<Rightarrow> Ok u | None \<Rightarrow> Err ErrNotFound)"

definition us_CreateUser :: "UserBaseInfo \<Rightarrow> user_table \<Rightarrow> int outcome \<times> user_table" where
  "us_CreateUser user t =
     (Ok (next_id t), tbl_insert (\<lambda>i r. r\<lparr>ub_Id := i\<rparr>) (user\<lparr>ub_LikedPlaylistId := None\<rparr>) t)"

definition us_SetLikedPlaylistId :: "int \<Rightarrow> uuid \<Rightarrow> user_table \<Rightarrow> user_table" where
  "us_SetLikedPlaylistId i playlist = tbl_update (\<lambda>u. ub_Id u = i) (\<lambda>u. u\<lparr>ub_LikedPlaylistId := Some playlist\<rparr>)"

section \<open>Identities\<close>

record TelegramIdentity =
  ti_UserId :: int
  ti_TelegramId :: int
  ti_Login :: string

definition ti_GetByTgId :: "int \<Rightarrow> TelegramIdentity list \<Rightarrow> TelegramIdentity option" where
  "ti_GetByTgId tgId t = List.find (\<lambda>r. ti_TelegramId r = tgId) t"

definition ti_GetByUserId :: "int \<Rightarrow> TelegramIdentity list \<Rightarrow> TelegramIdentity option" where
  "ti_GetByUserId userId t = List.find (\<lambda>r. ti_UserId r = userId) t"

text \<open>On a conflict the user of the row stays; the statement returns it.\<close>

definition ti_Upsert :: "int \<Rightarrow> int \<Rightarrow> string \<Rightarrow> TelegramIdentity list \<Rightarrow> int \<times> TelegramIdentity list" where
  "ti_Upsert tgId userId login t =
     (case ti_GetByTgId tgId t of
        None \<Rightarrow> (userId, t @ [\<lparr>ti_UserId = userId, ti_TelegramId = tgId, ti_Login = login\<rparr>])
      | Some r \<Rightarrow> (ti_UserId r, List.map (\<lambda>r. if ti_TelegramId r = tgId then r\<lparr>ti_Login := login\<rparr> else r) t))"

record ZpotifyIdentity =
  zi_UserId :: int
  zi_Login :: string
  zi_Password :: string

text \<open>\<open>GetByLogoPass\<close> does not look at the table: it returns Go's zero identity for every login and password.\<close>

definition zi_GetByLogoPass :: "string \<Rightarrow> string \<Rightarrow> ZpotifyIdentity outcome" where
  "zi_GetByLogoPass login password = Ok \<lparr>zi_UserId = 0, zi_Login = [], zi_Password = []\<rparr>"

section \<open>Settings\<close>

datatype Locale = LocaleEn | LocaleRu

definition parseLocaleOrUseDefault :: "string \<Rightarrow> Locale" where
  "parseLocaleOrUseDefault s = (if s = ''en'' then LocaleEn else if s = ''ru'' then LocaleRu else LocaleEn)"

definition locale_text :: "Locale \<Rightarrow> string" where
  "locale_text l = (case l of LocaleEn \<Rightarrow> ''en'' | LocaleRu \<Rightarrow> ''ru'')"

definition se_SaveSettings :: "int \<Rightarrow> string \<Rightarrow> (int \<times> Locale) list \<Rightarrow> (int \<times> Locale) list" where
  "se_SaveSettings userId localeText t = AList.update userId (parseLocaleOrUseDefault localeText) t"

definition se_GetUiSettings :: "int \<Rightarrow> (int \<times> Locale) list \<Rightarrow> string outcome" where
  "se_GetUiSettings userId t = (case map_of t userId of Some l \<Rightarrow> Ok (locale_text l) | None \<Rightarrow> Err ErrNotFound)"

text \<open>A home segment: its JSON value and its place; the one type there is, \<open>playlist\<close>, is not stored.\<close>

record UserHomeSegment =
  uh_UserId :: int
  uh_Segment :: string
  uh_OrderNumber :: int

definition se_GetHomeSegments :: "int \<Rightarrow> UserHomeSegment list \<Rightarrow> UserHomeSegment list" where
  "se_GetHomeSegments userId t = sort_key uh_OrderNumber (List.filter (\<lambda>s. uh_UserId s = userId) t)"

definition se_SetHomeSegment :: "int \<Rightarrow> UserHomeSegment \<Rightarrow> UserHomeSegment list \<Rightarrow> unit outcome \<times> UserHomeSegment list" where
  "se_SetHomeSegment userId segment t =
     (if \<exists>s \<in> set t. uh_UserId s = userId \<and> uh_OrderNumber s = uh_OrderNumber segment then (Err ErrAlreadyExists, t)
      else (Ok (), t @ [segment\<lparr>uh_UserId := userId\<rparr>]))"

definition DefaultSegments :: "int \<Rightarrow> UserHomeSegment list" where
  "DefaultSegments userID =
     [\<lparr>uh_UserId = userID, uh_Segment = ''{\"playlist_id\":\"00000000-0000-0000-0000-000000000000\"}'', uh_OrderNumber = 1\<rparr>]"

section \<open>Sessions\<close>

record UserSession =
  ss_UserId :: int
  ss_AccessToken :: string
  ss_AccessExpiresAt :: int
  ss_RefreshToken :: string
  ss_RefreshExpiresAt :: int

type_synonym session_table = "UserSession list"

definition ss_GetByAccessToken :: "string \<Rightarrow> session_table \<Rightarrow> UserSession outcome" where
  "ss_GetByAccessToken token t =
     (case List.find (\<lambda>r. ss_AccessToken r = token) t of Some r \<Rightarrow> Ok r | None \<Rightarrow> Err ErrNotFound)"

definition ss_GetByRefreshToken :: "string \<Rightarrow> session_table \<Rightarrow> UserSession outcome" where
  "ss_GetByRefreshToken token t =
     (case List.find (\<lambda>r. ss_RefreshToken r = token) t of Some r \<Rightarrow> Ok r | None \<Rightarrow> Err ErrNotFound)"

text \<open>A plain INSERT: a user there is not, or a token there is, makes it fail.\<close>

definition ss_Upsert :: "user_table \<Rightarrow> UserSession \<Rightarrow> session_table \<Rightarrow> unit outcome \<times> session_table" where
  "ss_Upsert users sess t =
     (if us_known (ss_UserId sess) users \<and>
         (\<forall>r \<in> set t. ss_AccessToken r \<noteq> ss_AccessToken sess \<and> ss_RefreshToken r \<noteq> ss_RefreshToken sess)
      then (Ok (), t @ [sess]) else (Err ErrStorageFailure, t))"

definition ss_Delete :: "string list \<Rightarrow> session_table \<Rightarrow> session_table" where
  "ss_Delete tokens t = List.filter (\<lambda>r. ss_AccessToken r \<notin> set tokens) t"

definition ss_ListByUserId :: "int \<Rightarrow> session_table \<Rightarrow> UserSession list" where
  "ss_ListByUserId userId t =
     rev (sort_key ss_RefreshExpiresAt (List.filter (\<lambda>r. ss_UserId r = userId) t))"

definition ss_DeleteExpired :: "int \<Rightarrow> session_table \<Rightarrow> session_table" where
  "ss_DeleteExpired now t = List.filter (\<lambda>r. \<not> ss_RefreshExpiresAt r < now) t"

section \<open>What the constraints of the tables keep\<close>

definition sessions_wf :: "session_table \<Rightarrow> bool" where
  "sessions_wf t \<longleftrightarrow> distinct (List.map ss_AccessToken t) \<and> distinct (List.map ss_RefreshToken t)"

definition accounts_wf :: "user_table \<Rightarrow> TelegramIdentity list \<Rightarrow> session_table \<Rightarrow> bool" where
  "accounts_wf users tgs t \<longleftrightarrow> table_wf ub_Id users \<and> (\<forall>u \<in> set (rows users). 0 < ub_Id u) \<and> 0 < next_id users \<and>
     distinct (List.map ti_TelegramId tgs) \<and> (\<forall>r \<in> set tgs. us_known (ti_UserId r) users) \<and>
     sessions_wf t \<and> (\<forall>r \<in> set t. us_known (ss_UserId r) users)"

lemma sessions_wf_filter: "sessions_wf t \<Longrightarrow> sessions_wf (List.filter P t)"
  by (simp add: sessions_wf_def distinct_map_filter)

lemma accounts_wf_filter: "accounts_wf users tgs t \<Longrightarrow> accounts_wf users tgs (List.filter P t)"
  by (simp add: accounts_wf_def sessions_wf_filter)

lemma accounts_wf_deletes:
  "accounts_wf users tgs t \<Longrightarrow> accounts_wf users tgs (ss_Delete tokens t)"
  "accounts_wf users tgs t \<Longrightarrow> accounts_wf users tgs (ss_DeleteExpired now t)"
  by (simp_all add: ss_Delete_def ss_DeleteExpired_def accounts_wf_filter)

lemma sessions_wf_Upsert: "sessions_wf t \<Longrightarrow> sessions_wf (snd (ss_Upsert users sess t))"
  by (auto simp: sessions_wf_def ss_Upsert_def)

lemma accounts_wf_Upsert: "accounts_wf users tgs t \<Longrightarrow> accounts_wf users tgs (snd (ss_Upsert users sess t))"
  using sessions_wf_Upsert[of t users sess] by (auto simp: accounts_wf_def ss_Upsert_def)

lemma us_known_insert: "us_known i (tbl_insert f u t) \<longleftrightarrow> us_known i t \<or> i = ub_Id (f (next_id t) u)"
  by (auto simp: us_known_def)

lemma accounts_wf_CreateUser: "accounts_wf users tgs t \<Longrightarrow> accounts_wf (snd (us_CreateUser user users)) tgs t"
  by (auto simp: accounts_wf_def us_CreateUser_def us_known_insert intro: user_rows.wf_insert)

lemma us_known_update: "(\<And>u. ub_Id (f u) = ub_Id u) \<Longrightarrow> us_known i (tbl_update p f t) \<longleftrightarrow> us_known i t"
  by (auto simp: us_known_def)

lemma accounts_wf_SetLiked: "accounts_wf users tgs t \<Longrightarrow> accounts_wf (us_SetLikedPlaylistId i pl users) tgs t"
  by (auto simp: accounts_wf_def us_SetLikedPlaylistId_def us_known_update intro: user_rows.wf_update)

lemma ti_Get_None: "ti_GetByTgId i t = None \<longleftrightarrow> (\<forall>r \<in> set t. ti_TelegramId r \<noteq> i)"
  by (simp add: ti_GetByTgId_def find_None)

lemma accounts_wf_tg_Upsert:
  assumes "accounts_wf users tgs t" "us_known userId users"
  shows "accounts_wf users (snd (ti_Upsert tgId userId login tgs)) t"
proof (cases "ti_GetByTgId tgId tgs")
  case None
  note new = None[unfolded ti_Get_None]
  have "ti_Upsert tgId userId login tgs =
      (userId, tgs @ [\<lparr>ti_UserId = userId, ti_TelegramId = tgId, ti_Login = login\<rparr>])"
    using None by (simp add: ti_Upsert_def)
  then show ?thesis using assms new by (auto simp: accounts_wf_def)
next
  case (Some r)
  let ?tgs = "List.map (\<lambda>r. if ti_TelegramId r = tgId then r\<lparr>ti_Login := login\<rparr> else r) tgs"
  have "ti_TelegramId \<circ> (\<lambda>r. if ti_TelegramId r = tgId then r\<lparr>ti_Login := login\<rparr> else r) = ti_TelegramId" by auto
  then have "List.map ti_TelegramId ?tgs = List.map ti_TelegramId tgs" by simp
  moreover have "ti_Upsert tgId userId login tgs = (ti_UserId r, ?tgs)" using Some by (simp add: ti_Upsert_def)
  ultimately show ?thesis using assms by (auto simp: accounts_wf_def simp del: map_map)
qed

text \<open>Lookups by token.\<close>

lemma find_token:
  assumes "distinct (List.map f t)"
  shows "List.find (\<lambda>r. f r = k) t = Some r \<longleftrightarrow> r \<in> set t \<and> f r = k"
  using assms distinct_find_key[of f t r] find_Some_mem by fastforce

lemma ss_GetByAccessToken_Ok:
  "sessions_wf t \<Longrightarrow> ss_GetByAccessToken token t = Ok r \<longleftrightarrow> r \<in> set t \<and> ss_AccessToken r = token"
  using find_token[of ss_AccessToken t token r] by (auto simp: ss_GetByAccessToken_def sessions_wf_def split: option.split)

lemma ss_GetByRefreshToken_Ok:
  "sessions_wf t \<Longrightarrow> ss_GetByRefreshToken token t = Ok r \<longleftrightarrow> r \<in> set t \<and> ss_RefreshToken r = token"
  using find_token[of ss_RefreshToken t token r] by (auto simp: ss_GetByRefreshToken_def sessions_wf_def split: option.split)

end
