(* ===== verification/PlaylistStore.thy ===== *)
theory PlaylistStore
  imports FileStore
begin

text \<open>
  The rows of playlists (internal/storage/pg: playlist.go, and the user_playlists part of user.go, with queries/playlist.sql and
  queries/user_playlist.sql): playlists and what hangs on them, the songs they hold, their artists and tags, and the
  permissions of users.  The id of a new row (gen_random_uuid) is an argument.  An artist is his id and name where he is only referred to.

  Facts: the rows that belong to one playlist are untouched by an operation on another.
\<close>

section \<open>Rows\<close>

datatype PlaylistKind = PlaylistKindPLAYLIST | PlaylistKindSINGLE

datatype AlbumTagKind =
    AlbumTagKindGenre | AlbumTagKindMood | AlbumTagKindEra | AlbumTagKindVibe | AlbumTagKindLanguage
  | AlbumTagKindTheme | AlbumTagKindHit | AlbumTagKindAlbumVersion

datatype AlbumVersionKind =
    AlbumVersionKindDeluxe | AlbumVersionKindExtended | AlbumVersionKindRemaster | AlbumVersionKindAnniversary
  | AlbumVersionKindLive

record PlaylistRow =
  pl_Uuid :: uuid
  pl_Name :: string
  pl_Description :: string
  pl_IsPublic :: bool
  pl_OwnerId :: int
  pl_CoverFileId :: "int option"
  pl_SongCount :: int
  pl_Year :: "int option"
  pl_Kind :: PlaylistKind

record PlaylistPermissions =
  pp_CanDeleteSongs :: bool
  pp_CanAddSongs :: bool
  pp_CanEdit :: bool
  pp_IsSaved :: bool

record UserPlaylistRow =
  up_UserId :: int
  up_PlaylistId :: uuid
  up_OrderId :: int
  up_Permissions :: PlaylistPermissions

record PlaylistSongRow =
  ps_PlaylistUuid :: uuid
  ps_SongId :: int
  ps_OrderNumber :: int

record PlaylistArtistRow =
  pa_PlaylistUuid :: uuid
  pa_ArtistUuid :: uuid
  pa_OrderId :: int

record AlbumTagRow =
  at_PlaylistUuid :: uuid
  at_Kind :: AlbumTagKind
  at_Value :: string
  at_VersionKind :: "AlbumVersionKind option"
  at_ParentPlaylistUuid :: "uuid option"
  at_OrderId :: int

record ArtistsBase =
  ar_Uuid :: uuid
  ar_Name :: string

record ArtistRow = ArtistsBase +
  ar_AvatarFileId :: "int option"
  ar_BackgroundCoverFileId :: "int option"

record SongArtistRow =
  sa_SongId :: int
  sa_ArtistUuid :: uuid
  sa_OrderId :: int

record playlist_tables =
  pt_Playlists :: "PlaylistRow list"
  pt_UserPlaylists :: "UserPlaylistRow list"
  pt_Songs :: "PlaylistSongRow list"
  pt_PlaylistArtists :: "PlaylistArtistRow list"
  pt_Tags :: "AlbumTagRow list"
  pt_Artists :: "ArtistRow list"
  pt_SongArtists :: "SongArtistRow list"

text \<open>The global queue is there from the start.\<close>

definition GlobalPlaylistUuid :: uuid where
  "GlobalPlaylistUuid = 0"

definition global_queue :: PlaylistRow where
  "global_queue = \<lparr>pl_Uuid = GlobalPlaylistUuid, pl_Name = ''Global queue'', pl_Description = [], pl_IsPublic = False,
     pl_OwnerId = 1, pl_CoverFileId = None, pl_SongCount = 0, pl_Year = None, pl_Kind = PlaylistKindPLAYLIST\<rparr>"

definition empty_playlists :: playlist_tables where
  "empty_playlists = \<lparr>pt_Playlists = [global_queue], pt_UserPlaylists = [], pt_Songs = [], pt_PlaylistArtists = [],
     pt_Tags = [], pt_Artists = [], pt_SongArtists = []\<rparr>"

section \<open>Playlists\<close>

definition find_playlist :: "uuid \<Rightarrow> playlist_tables \<Rightarrow> PlaylistRow option" where
  "find_playlist p t = List.find (\<lambda>r. pl_Uuid r = p) (pt_Playlists t)"

definition find_user_playlist :: "int \<Rightarrow> uuid \<Rightarrow> playlist_tables \<Rightarrow> UserPlaylistRow option" where
  "find_user_playlist userId p t =
     List.find (\<lambda>r. up_UserId r = userId \<and> up_PlaylistId r = p) (pt_UserPlaylists t)"

definition set_playlist :: "uuid \<Rightarrow> (PlaylistRow \<Rightarrow> PlaylistRow) \<Rightarrow> playlist_tables \<Rightarrow> playlist_tables" where
  "set_playlist p f t = t\<lparr>pt_Playlists := List.map (\<lambda>r. if pl_Uuid r = p then f r else r) (pt_Playlists t)\<rparr>"

text \<open>\<open>(SELECT COALESCE(MAX(x), 0) + 1)\<close>.\<close>

definition next_order :: "int list \<Rightarrow> int" where
  "next_order xs = (if xs = [] then 0 else Max (set xs)) + 1"

definition user_order :: "int \<Rightarrow> playlist_tables \<Rightarrow> int" where
  "user_order userId t =
     next_order (List.map up_OrderId (List.filter (\<lambda>r. up_UserId r = userId) (pt_UserPlaylists t)))"

record CreatePlaylistParams =
  cp_Name :: string
  cp_Description :: string
  cp_IsPublic :: bool
  cp_Year :: "int option"
  cp_Kind :: string

text \<open>The column is an enum: the statement fails for a text that names none of its values, the empty one included.\<close>

definition playlist_kind_of :: "string \<Rightarrow> PlaylistKind option" where
  "playlist_kind_of s =
     (if s = ''PLAYLIST'' then Some PlaylistKindPLAYLIST else if s = ''SINGLE'' then Some PlaylistKindSINGLE else None)"

definition all_permissions :: PlaylistPermissions where
  "all_permissions = \<lparr>pp_CanDeleteSongs = True, pp_CanAddSongs = True, pp_CanEdit = True, pp_IsSaved = True\<rparr>"

definition no_permissions :: PlaylistPermissions where
  "no_permissions = \<lparr>pp_CanDeleteSongs = False, pp_CanAddSongs = False, pp_CanEdit = False, pp_IsSaved = False\<rparr>"

definition pl_Create ::
  "bool \<Rightarrow> uuid \<Rightarrow> CreatePlaylistParams \<Rightarrow> int \<Rightarrow> playlist_tables \<Rightarrow> uuid outcome \<times> playlist_tables" where
  "pl_Create userKnown newId params userId t =
     (case playlist_kind_of (cp_Kind params) of
        None \<Rightarrow> (Err ErrStorageFailure, t)
      | Some kind \<Rightarrow>
          if \<not> userKnown \<or> find_playlist newId t \<noteq> None then (Err ErrStorageFailure, t)
          else (Ok newId, t\<lparr>
            pt_Playlists := pt_Playlists t @ [\<lparr>pl_Uuid = newId, pl_Name = cp_Name params,
              pl_Description = cp_Description params, pl_IsPublic = cp_IsPublic params, pl_OwnerId = userId,
              pl_CoverFileId = None, pl_SongCount = 0, pl_Year = cp_Year params, pl_Kind = kind\<rparr>],
            pt_UserPlaylists := pt_UserPlaylists t @ [\<lparr>up_UserId = userId, up_PlaylistId = newId,
              up_OrderId = user_order userId t, up_Permissions = all_permissions\<rparr>]\<rparr>))"

text \<open>\<open>GetPlaylistWithAuth\<close>: a public playlist, or one the user has a row for.\<close>

definition can_see :: "int \<Rightarrow> playlist_tables \<Rightarrow> PlaylistRow \<Rightarrow> bool" where
  "can_see userId t r \<longleftrightarrow> pl_IsPublic r \<or> find_user_playlist userId (pl_Uuid r) t \<noteq> None"

definition pl_Get :: "int \<Rightarrow> uuid \<Rightarrow> playlist_tables \<Rightarrow> PlaylistRow outcome" where
  "pl_Get userId p t =
     (case find_playlist p t of
        Some r \<Rightarrow> if can_see userId t r then Ok r else Err ErrNotFound
      | None \<Rightarrow> Err ErrNotFound)"

record playlist_update =
  pu_Name :: string
  pu_Description :: string
  pu_IsPublic :: "bool option"
  pu_Year :: "int option"

definition pl_Update :: "uuid \<Rightarrow> playlist_update \<Rightarrow> playlist_tables \<Rightarrow> playlist_tables" where
  "pl_Update p req = set_playlist p (\<lambda>r. r\<lparr>
     pl_Name := if pu_Name req \<noteq> [] then pu_Name req else pl_Name r,
     pl_Description := if pu_Description req \<noteq> [] then pu_Description req else pl_Description r,
     pl_IsPublic := case pu_IsPublic req of Some b \<Rightarrow> b | None \<Rightarrow> pl_IsPublic r,
     pl_Year := case pu_Year req of Some y \<Rightarrow> Some y | None \<Rightarrow> pl_Year r\<rparr>)"

definition pl_UpdateCoverFileId :: "bool \<Rightarrow> uuid \<Rightarrow> int \<Rightarrow> playlist_tables \<Rightarrow> unit outcome \<times> playlist_tables" where
  "pl_UpdateCoverFileId fileKnown p fileId t =
     (if find_playlist p t \<noteq> None \<and> \<not> fileKnown then (Err ErrStorageFailure, t)
      else (Ok (), set_playlist p (\<lambda>r. r\<lparr>pl_CoverFileId := Some fileId\<rparr>) t))"

definition pl_GetOwnerAndVisibility :: "uuid \<Rightarrow> playlist_tables \<Rightarrow> (int \<times> bool) outcome" where
  "pl_GetOwnerAndVisibility p t =
     (case find_playlist p t of Some r \<Rightarrow> Ok (pl_OwnerId r, pl_IsPublic r) | None \<Rightarrow> Err ErrNotFound)"

section \<open>Songs of a playlist\<close>

definition songs_of :: "uuid \<Rightarrow> playlist_tables \<Rightarrow> PlaylistSongRow list" where
  "songs_of p t = List.filter (\<lambda>r. ps_PlaylistUuid r = p) (pt_Songs t)"

definition pl_AddSong :: "bool \<Rightarrow> uuid \<Rightarrow> int \<Rightarrow> playlist_tables \<Rightarrow> unit outcome \<times> playlist_tables" where
  "pl_AddSong songKnown p songId t =
     (if \<exists>r \<in> set (pt_Songs t). ps_PlaylistUuid r = p \<and> ps_SongId r = songId then (Err ErrAlreadyExists, t)
      else if \<not> songKnown \<or> find_playlist p t = None then (Err ErrStorageFailure, t)
      else (Ok (), set_playlist p (\<lambda>r. r\<lparr>pl_SongCount := pl_SongCount r + 1\<rparr>)
        (t\<lparr>pt_Songs := pt_Songs t @ [\<lparr>ps_PlaylistUuid = p, ps_SongId = songId,
           ps_OrderNumber = next_order (List.map ps_OrderNumber (songs_of p t))\<rparr>]\<rparr>)))"

text \<open>The count goes down whether or not a row was deleted.\<close>

definition pl_RemoveSong :: "uuid \<Rightarrow> int \<Rightarrow> playlist_tables \<Rightarrow> playlist_tables" where
  "pl_RemoveSong p songId t =
     set_playlist p (\<lambda>r. r\<lparr>pl_SongCount := max (pl_SongCount r - 1) 0\<rparr>)
       (t\<lparr>pt_Songs := List.filter (\<lambda>r. \<not> (ps_PlaylistUuid r = p \<and> ps_SongId r = songId)) (pt_Songs t)\<rparr>)"

definition pl_SetSongOrder :: "uuid \<Rightarrow> int \<Rightarrow> int \<Rightarrow> playlist_tables \<Rightarrow> playlist_tables" where
  "pl_SetSongOrder p songId orderNum t =
     t\<lparr>pt_Songs := List.map (\<lambda>r. if ps_PlaylistUuid r = p \<and> ps_SongId r = songId
        then r\<lparr>ps_OrderNumber := orderNum\<rparr> else r) (pt_Songs t)\<rparr>"

section \<open>Artists and tags of a playlist\<close>

definition artist_of :: "uuid \<Rightarrow> playlist_tables \<Rightarrow> ArtistsBase option" where
  "artist_of a t = map_option ArtistsBase.truncate (List.find (\<lambda>r. ar_Uuid r = a) (pt_Artists t))"

definition pl_GetPlaylistArtists :: "uuid \<Rightarrow> playlist_tables \<Rightarrow> ArtistsBase list" where
  "pl_GetPlaylistArtists p t =
     List.map_filter (\<lambda>r. artist_of (pa_ArtistUuid r) t)
       (sort_key pa_OrderId (List.filter (\<lambda>r. pa_PlaylistUuid r = p) (pt_PlaylistArtists t)))"

definition artists_of_song :: "int \<Rightarrow> playlist_tables \<Rightarrow> ArtistsBase list" where
  "artists_of_song songId t =
     List.map_filter (\<lambda>r. artist_of (sa_ArtistUuid r) t)
       (sort_key sa_OrderId (List.filter (\<lambda>r. sa_SongId r = songId) (pt_SongArtists t)))"

definition pl_AddPlaylistArtist :: "uuid \<Rightarrow> uuid \<Rightarrow> int \<Rightarrow> playlist_tables \<Rightarrow> unit outcome \<times> playlist_tables" where
  "pl_AddPlaylistArtist p a orderId t =
     (if \<exists>r \<in> set (pt_PlaylistArtists t). pa_PlaylistUuid r = p \<and> pa_ArtistUuid r \<noteq> a \<and> pa_OrderId r = orderId
      then (Err ErrAlreadyExists, t)
      else if \<exists>r \<in> set (pt_PlaylistArtists t). pa_PlaylistUuid r = p \<and> pa_ArtistUuid r = a
      then (Ok (), t\<lparr>pt_PlaylistArtists := List.map (\<lambda>r. if pa_PlaylistUuid r = p \<and> pa_ArtistUuid r = a
             then r\<lparr>pa_OrderId := orderId\<rparr> else r) (pt_PlaylistArtists t)\<rparr>)
      else if artist_of a t = None \<or> find_playlist p t = None then (Err ErrStorageFailure, t)
      else (Ok (), t\<lparr>pt_PlaylistArtists := pt_PlaylistArtists t @
             [\<lparr>pa_PlaylistUuid = p, pa_ArtistUuid = a, pa_OrderId = orderId\<rparr>]\<rparr>))"

definition pl_ClearPlaylistArtists :: "uuid \<Rightarrow> playlist_tables \<Rightarrow> playlist_tables" where
  "pl_ClearPlaylistArtists p t =
     t\<lparr>pt_PlaylistArtists := List.filter (\<lambda>r. pa_PlaylistUuid r \<noteq> p) (pt_PlaylistArtists t)\<rparr>"

definition pl_GetAlbumTags :: "uuid \<Rightarrow> playlist_tables \<Rightarrow> AlbumTagRow list" where
  "pl_GetAlbumTags p t = sort_key at_OrderId (List.filter (\<lambda>r. at_PlaylistUuid r = p) (pt_Tags t))"

text \<open>A tag of the same kind and value is left as it is.\<close>

definition pl_InsertAlbumTag :: "AlbumTagRow \<Rightarrow> playlist_tables \<Rightarrow> unit outcome \<times> playlist_tables" where
  "pl_InsertAlbumTag tag t =
     (if \<exists>r \<in> set (pt_Tags t). at_PlaylistUuid r = at_PlaylistUuid tag \<and> at_Kind r = at_Kind tag \<and> at_Value r = at_Value tag
      then (Ok (), t)
      else if find_playlist (at_PlaylistUuid tag) t = None \<or>
              (\<exists>p. at_ParentPlaylistUuid tag = Some p \<and> find_playlist p t = None)
      then (Err ErrStorageFailure, t)
      else (Ok (), t\<lparr>pt_Tags := pt_Tags t @ [tag]\<rparr>))"

definition pl_ClearAlbumTags :: "uuid \<Rightarrow> playlist_tables \<Rightarrow> playlist_tables" where
  "pl_ClearAlbumTags p t = t\<lparr>pt_Tags := List.filter (\<lambda>r. at_PlaylistUuid r \<noteq> p) (pt_Tags t)\<rparr>"

section \<open>Permissions of a user on a playlist\<close>

definition us_GetPermissionsOnPlaylist :: "int \<Rightarrow> uuid \<Rightarrow> playlist_tables \<Rightarrow> PlaylistPermissions" where
  "us_GetPermissionsOnPlaylist userId p t =
     (case find_user_playlist userId p t of Some r \<Rightarrow> up_Permissions r | None \<Rightarrow> no_permissions)"

definition us_FollowPlaylist :: "bool \<Rightarrow> int \<Rightarrow> uuid \<Rightarrow> playlist_tables \<Rightarrow> unit outcome \<times> playlist_tables" where
  "us_FollowPlaylist userKnown userId p t =
     (let perms = no_permissions\<lparr>pp_IsSaved := True\<rparr> in
      if find_user_playlist userId p t \<noteq> None
      then (Ok (), t\<lparr>pt_UserPlaylists := List.map (\<lambda>r. if up_UserId r = userId \<and> up_PlaylistId r = p
             then r\<lparr>up_Permissions := perms\<rparr> else r) (pt_UserPlaylists t)\<rparr>)
      else if \<not> userKnown \<or> find_playlist p t = None then (Err ErrStorageFailure, t)
      else (Ok (), t\<lparr>pt_UserPlaylists := pt_UserPlaylists t @ [\<lparr>up_UserId = userId, up_PlaylistId = p,
             up_OrderId = user_order userId t, up_Permissions = perms\<rparr>]\<rparr>))"

definition us_UnfollowPlaylist :: "int \<Rightarrow> uuid \<Rightarrow> playlist_tables \<Rightarrow> playlist_tables" where
  "us_UnfollowPlaylist userId p t =
     t\<lparr>pt_UserPlaylists := List.filter (\<lambda>r. \<not> (up_UserId r = userId \<and> up_PlaylistId r = p)) (pt_UserPlaylists t)\<rparr>"

section \<open>What the deletion of a song or a file takes along\<close>

text \<open>Rows of deleted songs go; covers and images of artists that were deleted are unset.  The counts of the playlists stay.\<close>

definition unset :: "(int \<Rightarrow> bool) \<Rightarrow> int option \<Rightarrow> int option" where
  "unset deleted f = (case f of Some i \<Rightarrow> if deleted i then None else Some i | None \<Rightarrow> None)"

definition pl_cascade :: "(int \<Rightarrow> bool) \<Rightarrow> (int \<Rightarrow> bool) \<Rightarrow> playlist_tables \<Rightarrow> playlist_tables" where
  "pl_cascade songDeleted fileDeleted t =
     t\<lparr>pt_Songs := List.filter (\<lambda>r. \<not> songDeleted (ps_SongId r)) (pt_Songs t),
       pt_SongArtists := List.filter (\<lambda>r. \<not> songDeleted (sa_SongId r)) (pt_SongArtists t),
       pt_Playlists := List.map (\<lambda>r. r\<lparr>pl_CoverFileId := unset fileDeleted (pl_CoverFileId r)\<rparr>) (pt_Playlists t),
       pt_Artists := List.map (\<lambda>r. r\<lparr>ar_AvatarFileId := unset fileDeleted (ar_AvatarFileId r),
         ar_BackgroundCoverFileId := unset fileDeleted (ar_BackgroundCoverFileId r)\<rparr>) (pt_Artists t)\<rparr>"

end
