(* ===== verification/CatalogStore.thy ===== *)
theory CatalogStore
  imports PlaylistStore
begin

text \<open>
  The rows of artists and what hangs on songs (internal/storage/pg: artists.go and the artists, tags and Telegram ids of song.go, with
  queries/artists and queries/songs).  The rows of artists and of the artists of a song are in the tables of PlaylistStore, whose views join
  them.  A list query without an order returns the rows in the order of the table.
\<close>

section \<open>Artists of a song, its tags, its Telegram file\<close>

definition so_AddArtist :: "bool \<Rightarrow> int \<Rightarrow> uuid \<Rightarrow> int \<Rightarrow> playlist_tables \<Rightarrow> unit outcome \<times> playlist_tables" where
  "so_AddArtist songKnown songId a orderId t =
     (if \<exists>r \<in> set (pt_SongArtists t). sa_SongId r = songId \<and> sa_ArtistUuid r \<noteq> a \<and> sa_OrderId r = orderId
      then (Err ErrAlreadyExists, t)
      else if \<exists>r \<in> set (pt_SongArtists t). sa_SongId r = songId \<and> sa_ArtistUuid r = a
      then (Ok (), t\<lparr>pt_SongArtists := List.map (\<lambda>r. if sa_SongId r = songId \<and> sa_ArtistUuid r = a
             then r\<lparr>sa_OrderId := orderId\<rparr> else r) (pt_SongArtists t)\<rparr>)
      else if artist_of a t = None \<or> \<not> songKnown then (Err ErrStorageFailure, t)
      else (Ok (), t\<lparr>pt_SongArtists := pt_SongArtists t @
             [\<lparr>sa_SongId = songId, sa_ArtistUuid = a, sa_OrderId = orderId\<rparr>]\<rparr>))"

definition so_ClearArtists :: "int \<Rightarrow> playlist_tables \<Rightarrow> playlist_tables" where
  "so_ClearArtists songId t = t\<lparr>pt_SongArtists := List.filter (\<lambda>r. sa_SongId r \<noteq> songId) (pt_SongArtists t)\<rparr>"

datatype SongTagKind = SongTagKindSingle

record SongTag =
  stg_Kind :: SongTagKind
  stg_Value :: string

record SongTagRow = SongTag +
  stg_SongId :: int
  stg_OrderId :: int

record catalog_tables =
  ct_SongTags :: "SongTagRow list"
  ct_TgAudioFileIds :: "(int \<times> string) list"
  ct_UserArtists :: "(int \<times> uuid) list"

definition empty_catalog :: catalog_tables where
  "empty_catalog = \<lparr>ct_SongTags = [], ct_TgAudioFileIds = [], ct_UserArtists = []\<rparr>"

definition so_GetSongTags :: "int \<Rightarrow> catalog_tables \<Rightarrow> SongTag list" where
  "so_GetSongTags songId t =
     List.map SongTag.truncate (sort_key stg_OrderId (List.filter (\<lambda>r. stg_SongId r = songId) (ct_SongTags t)))"

text \<open>A tag of the same kind and value is left as it is.\<close>

definition so_InsertSongTag :: "bool \<Rightarrow> int \<Rightarrow> SongTag \<Rightarrow> int \<Rightarrow> catalog_tables \<Rightarrow> unit outcome \<times> catalog_tables" where
  "so_InsertSongTag songKnown songId tag orderId t =
     (if \<exists>r \<in> set (ct_SongTags t). stg_SongId r = songId \<and> stg_Kind r = stg_Kind tag \<and> stg_Value r = stg_Value tag
      then (Ok (), t)
      else if \<not> songKnown then (Err ErrStorageFailure, t)
      else (Ok (), t\<lparr>ct_SongTags := ct_SongTags t @ [\<lparr>stg_Kind = stg_Kind tag, stg_Value = stg_Value tag,
             stg_SongId = songId, stg_OrderId = orderId\<rparr>]\<rparr>))"

definition so_ClearSongTags :: "int \<Rightarrow> catalog_tables \<Rightarrow> catalog_tables" where
  "so_ClearSongTags songId t = t\<lparr>ct_SongTags := List.filter (\<lambda>r. stg_SongId r \<noteq> songId) (ct_SongTags t)\<rparr>"

definition so_GetTgAudioFileId :: "bool \<Rightarrow> int \<Rightarrow> catalog_tables \<Rightarrow> string option outcome" where
  "so_GetTgAudioFileId songKnown songId t =
     (if songKnown then Ok (map_of (ct_TgAudioFileIds t) songId) else Err ErrNotFound)"

definition so_SetTgAudioFileId :: "bool \<Rightarrow> int \<Rightarrow> string \<Rightarrow> catalog_tables \<Rightarrow> catalog_tables" where
  "so_SetTgAudioFileId songKnown songId fileId t =
     (if songKnown then t\<lparr>ct_TgAudioFileIds := (songId, fileId) # ct_TgAudioFileIds t\<rparr> else t)"

section \<open>Artists\<close>

record ListArtists =
  la_Uuid :: "string list"
  la_Name :: "string list"
  la_Search :: string
  la_UserId :: int
  la_OnlyLiked :: bool
  la_Limit :: nat
  la_Offset :: nat

text \<open>An artist of a list, and whether the user of the request likes him.\<close>

record ListedArtist = ArtistsBase +
  ar_Liked :: bool

definition liked :: "int \<Rightarrow> uuid \<Rightarrow> catalog_tables \<Rightarrow> bool" where
  "liked userId a c \<longleftrightarrow> (userId, a) \<in> set (ct_UserArtists c)"

text \<open>\<open>uuids\<close>: the ids of the request as Postgres reads them; \<open>ilike s\<close>: what \<open>ILIKE %s%\<close> matches.  A limit of 0 is none.\<close>

definition ar_List ::
  "(string \<Rightarrow> string \<Rightarrow> bool) \<Rightarrow> uuid list \<Rightarrow> ListArtists \<Rightarrow> playlist_tables \<Rightarrow> catalog_tables \<Rightarrow> ListedArtist list" where
  "ar_List ilike uuids req t c =
     (let matched = List.filter (\<lambda>r.
            (la_Uuid req = [] \<or> ar_Uuid r \<in> set uuids) \<and> (la_Name req = [] \<or> ar_Name r \<in> set (la_Name req)) \<and>
            (la_Search req = [] \<or> ilike (la_Search req) (ar_Name r)) \<and>
            (la_UserId req = 0 \<or> \<not> la_OnlyLiked req \<or> liked (la_UserId req) (ar_Uuid r) c)) (pt_Artists t);
          page = drop (la_Offset req) matched
      in List.map (\<lambda>r. \<lparr>ar_Uuid = ar_Uuid r, ar_Name = ar_Name r,
            ar_Liked = (la_UserId req \<noteq> 0 \<and> liked (la_UserId req) (ar_Uuid r) c)\<rparr>)
          (if la_Limit req = 0 then page else take (la_Limit req) page))"

definition find_artist :: "uuid \<Rightarrow> playlist_tables \<Rightarrow> ArtistRow option" where
  "find_artist a t = List.find (\<lambda>r. ar_Uuid r = a) (pt_Artists t)"

definition set_artist :: "uuid \<Rightarrow> (ArtistRow \<Rightarrow> ArtistRow) \<Rightarrow> playlist_tables \<Rightarrow> playlist_tables" where
  "set_artist a f t = t\<lparr>pt_Artists := List.map (\<lambda>r. if ar_Uuid r = a then f r else r) (pt_Artists t)\<rparr>"

definition ar_Update :: "uuid \<Rightarrow> string \<Rightarrow> playlist_tables \<Rightarrow> playlist_tables" where
  "ar_Update a name = set_artist a (\<lambda>r. r\<lparr>ar_Name := name\<rparr>)"

definition ar_UpdateAvatarFileId :: "bool \<Rightarrow> uuid \<Rightarrow> int \<Rightarrow> playlist_tables \<Rightarrow> unit outcome \<times> playlist_tables" where
  "ar_UpdateAvatarFileId fileKnown a fileId t =
     (if find_artist a t \<noteq> None \<and> \<not> fileKnown then (Err ErrStorageFailure, t)
      else (Ok (), set_artist a (\<lambda>r. r\<lparr>ar_AvatarFileId := Some fileId\<rparr>) t))"

definition ar_UpdateBackgroundCoverFileId :: "bool \<Rightarrow> uuid \<Rightarrow> int \<Rightarrow> playlist_tables \<Rightarrow> unit outcome \<times> playlist_tables" where
  "ar_UpdateBackgroundCoverFileId fileKnown a fileId t =
     (if find_artist a t \<noteq> None \<and> \<not> fileKnown then (Err ErrStorageFailure, t)
      else (Ok (), set_artist a (\<lambda>r. r\<lparr>ar_BackgroundCoverFileId := Some fileId\<rparr>) t))"

text \<open>\<open>newIds\<close>: the ids the database gives to the new rows.  A statement without values is refused.\<close>

definition ar_Upsert :: "uuid list \<Rightarrow> string list \<Rightarrow> playlist_tables \<Rightarrow> ListedArtist list outcome \<times> playlist_tables" where
  "ar_Upsert newIds names t =
     (let new = List.map (\<lambda>(i, n). \<lparr>ar_Uuid = i, ar_Name = n, ar_AvatarFileId = None, ar_BackgroundCoverFileId = None\<rparr>)
                  (zip newIds names) in
      if names = [] then (Err ErrStorageFailure, t)
      else if length newIds < length names \<or> \<not> distinct newIds \<or> (\<exists>i \<in> set newIds. find_artist i t \<noteq> None)
      then (Err ErrStorageFailure, t)
      else (Ok (List.map (\<lambda>r. \<lparr>ar_Uuid = ar_Uuid r, ar_Name = ar_Name r, ar_Liked = False\<rparr>) new),
        t\<lparr>pt_Artists := pt_Artists t @ new\<rparr>))"

text \<open>The errors of these two statements are not translated.\<close>

definition ar_LikeArtist :: "bool \<Rightarrow> int \<Rightarrow> uuid \<Rightarrow> playlist_tables \<Rightarrow> catalog_tables \<Rightarrow> unit outcome \<times> catalog_tables" where
  "ar_LikeArtist userKnown userId a t c =
     (if liked userId a c then (Ok (), c)
      else if \<not> userKnown \<or> find_artist a t = None then (Err ErrStorageFailure, c)
      else (Ok (), c\<lparr>ct_UserArtists := ct_UserArtists c @ [(userId, a)]\<rparr>))"

definition ar_UnlikeArtist :: "int \<Rightarrow> uuid \<Rightarrow> catalog_tables \<Rightarrow> catalog_tables" where
  "ar_UnlikeArtist userId a c = c\<lparr>ct_UserArtists := List.filter (\<lambda>x. x \<noteq> (userId, a)) (ct_UserArtists c)\<rparr>"

section \<open>What the deletion of a song takes along\<close>

definition ct_cascade :: "(int \<Rightarrow> bool) \<Rightarrow> catalog_tables \<Rightarrow> catalog_tables" where
  "ct_cascade songDeleted c =
     c\<lparr>ct_SongTags := List.filter (\<lambda>r. \<not> songDeleted (stg_SongId r)) (ct_SongTags c),
       ct_TgAudioFileIds := List.filter (\<lambda>(i, _). \<not> songDeleted i) (ct_TgAudioFileIds c)\<rparr>"

end
