(* ===== verification/HistoryStore.thy ===== *)
theory HistoryStore
  imports Tables
begin

text \<open>
  The search history of users (internal/storage/pg/search_history.go with queries/search_history) and their notifications
  (notification.go with queries/notification).  Rows of the same time come newest first in the order they were written.
\<close>

section \<open>Search history\<close>

text \<open>Empty strings are stored as NULL and read back as empty strings.\<close>

record SearchHistoryEntry =
  sh_Query :: string
  sh_FindingType :: string
  sh_FindingID :: string
  sh_FindingName :: string
  sh_FindingCoverUrl :: string
  sh_CreatedAt :: int

record SearchHistoryRow =
  sh_Id :: int
  sh_UserId :: int
  sh_Entry :: SearchHistoryEntry

interpretation history_rows: keyed_rows sh_Id "\<lambda>i r. r\<lparr>sh_Id := i\<rparr>"
  by unfold_locales simp

type_synonym history_table = "SearchHistoryRow table"

definition no_finding :: "string \<Rightarrow> int \<Rightarrow> SearchHistoryEntry" where
  "no_finding searched now = \<lparr>sh_Query = searched, sh_FindingType = [], sh_FindingID = [], sh_FindingName = [],
     sh_FindingCoverUrl = [], sh_CreatedAt = now\<rparr>"

definition newest_first :: "SearchHistoryRow list \<Rightarrow> SearchHistoryRow list" where
  "newest_first rs = rev (sort_key (\<lambda>r. sh_CreatedAt (sh_Entry r)) rs)"

definition sh_InsertQuery :: "int \<Rightarrow> int \<Rightarrow> string \<Rightarrow> history_table \<Rightarrow> history_table" where
  "sh_InsertQuery now userId searched =
     tbl_insert (\<lambda>i r. r\<lparr>sh_Id := i\<rparr>) \<lparr>sh_Id = 0, sh_UserId = userId, sh_Entry = no_finding searched now\<rparr>"

definition sh_matches :: "int \<Rightarrow> string \<Rightarrow> history_table \<Rightarrow> SearchHistoryRow list" where
  "sh_matches userId searched t =
     newest_first (List.filter (\<lambda>r. sh_UserId r = userId \<and> sh_Query (sh_Entry r) = searched) (rows t))"

definition sh_AttachFinding ::
  "int \<Rightarrow> string \<Rightarrow> SearchHistoryEntry \<Rightarrow> history_table \<Rightarrow> bool \<times> history_table" where
  "sh_AttachFinding userId searched finding t =
     (case sh_matches userId searched t of
        [] \<Rightarrow> (False, t)
      | latest # _ \<Rightarrow> (True, tbl_update (\<lambda>r. sh_Id r = sh_Id latest)
          (\<lambda>r. r\<lparr>sh_Entry := (sh_Entry r)\<lparr>sh_FindingType := sh_FindingType finding, sh_FindingID := sh_FindingID finding,
             sh_FindingName := sh_FindingName finding, sh_FindingCoverUrl := sh_FindingCoverUrl finding\<rparr>\<rparr>) t))"

definition sh_latest :: "int \<Rightarrow> history_table \<Rightarrow> SearchHistoryRow list" where
  "sh_latest userId t = take 5 (newest_first (List.filter (\<lambda>r. sh_UserId r = userId) (rows t)))"

definition sh_List :: "int \<Rightarrow> history_table \<Rightarrow> SearchHistoryEntry list" where
  "sh_List userId t = List.map sh_Entry (sh_latest userId t)"

definition sh_Trim :: "int \<Rightarrow> history_table \<Rightarrow> history_table" where
  "sh_Trim userId t =
     tbl_delete (\<lambda>r. sh_UserId r = userId \<and> sh_Id r \<notin> sh_Id ` set (sh_latest userId t)) t"

section \<open>Notifications\<close>

record NotificationRow =
  n_Id :: int
  n_Title :: string
  n_BodyMarkdown :: string
  n_RequiresConsent :: bool
  n_CreatedAt :: int

record Notification = NotificationRow +
  n_IsRead :: bool
  n_Consented :: bool

interpretation notification_rows: keyed_rows n_Id "\<lambda>i r. r\<lparr>n_Id := i\<rparr>"
  by unfold_locales simp

record RecipientRow =
  nr_NotificationId :: int
  nr_UserId :: int
  nr_ReadAt :: "int option"
  nr_ConsentedAt :: "int option"

record notification_tables =
  nt_Notifications :: "NotificationRow table"
  nt_Recipients :: "RecipientRow list"

definition empty_notifications :: notification_tables where
  "empty_notifications = \<lparr>nt_Notifications = empty_table, nt_Recipients = []\<rparr>"

definition no_Create :: "int \<Rightarrow> string \<Rightarrow> string \<Rightarrow> bool \<Rightarrow> notification_tables \<Rightarrow> int \<times> notification_tables" where
  "no_Create now title body requiresConsent t =
     (next_id (nt_Notifications t), t\<lparr>nt_Notifications := tbl_insert (\<lambda>i r. r\<lparr>n_Id := i\<rparr>)
       \<lparr>n_Id = 0, n_Title = title, n_BodyMarkdown = body, n_RequiresConsent = requiresConsent, n_CreatedAt = now\<rparr>
       (nt_Notifications t)\<rparr>)"

text \<open>\<open>users\<close>: the ids of the users there are.\<close>

definition no_SnapshotRecipients :: "int list \<Rightarrow> int \<Rightarrow> notification_tables \<Rightarrow> unit outcome \<times> notification_tables" where
  "no_SnapshotRecipients users i t =
     (if \<exists>r \<in> set (nt_Recipients t). nr_NotificationId r = i \<and> nr_UserId r \<in> set users then (Err ErrAlreadyExists, t)
      else if users \<noteq> [] \<and> tbl_find (\<lambda>r. n_Id r = i) (nt_Notifications t) = None then (Err ErrStorageFailure, t)
      else (Ok (), t\<lparr>nt_Recipients := nt_Recipients t @
        List.map (\<lambda>u. \<lparr>nr_NotificationId = i, nr_UserId = u, nr_ReadAt = None, nr_ConsentedAt = None\<rparr>) users\<rparr>))"

definition shown :: "NotificationRow \<Rightarrow> RecipientRow \<Rightarrow> Notification" where
  "shown n r = \<lparr>n_Id = n_Id n, n_Title = n_Title n, n_BodyMarkdown = n_BodyMarkdown n, n_RequiresConsent = n_RequiresConsent n,
     n_CreatedAt = n_CreatedAt n, n_IsRead = (nr_ReadAt r \<noteq> None), n_Consented = (nr_ConsentedAt r \<noteq> None)\<rparr>"

definition no_of_user :: "int \<Rightarrow> notification_tables \<Rightarrow> Notification list" where
  "no_of_user userId t = concat (List.map (\<lambda>n. List.map (shown n)
     (List.filter (\<lambda>r. nr_NotificationId r = n_Id n \<and> nr_UserId r = userId) (nt_Recipients t))) (rows (nt_Notifications t)))"

text \<open>The page of a request is converted to \<open>int32\<close>; Postgres refuses a negative one.\<close>

definition int32_of :: "nat \<Rightarrow> int" where
  "int32_of n = sint (word_of_nat n :: 32 word)"

definition no_List :: "int \<Rightarrow> nat \<Rightarrow> nat \<Rightarrow> notification_tables \<Rightarrow> Notification list outcome" where
  "no_List userId limit offset t =
     (if int32_of limit < 0 \<or> int32_of offset < 0 then Err ErrStorageFailure
      else Ok (take (nat (int32_of limit)) (drop (nat (int32_of offset)) (rev (sort_key n_CreatedAt (no_of_user userId t))))))"

definition no_Count :: "int \<Rightarrow> notification_tables \<Rightarrow> int" where
  "no_Count userId t = int (length (no_of_user userId t))"

definition no_GetUnreadCount :: "int \<Rightarrow> notification_tables \<Rightarrow> int" where
  "no_GetUnreadCount userId t =
     int (length (List.filter (\<lambda>r. nr_UserId r = userId \<and> nr_ReadAt r = None) (nt_Recipients t)))"

definition no_MarkRead :: "int \<Rightarrow> int \<Rightarrow> int \<Rightarrow> notification_tables \<Rightarrow> notification_tables" where
  "no_MarkRead now userId i t = t\<lparr>nt_Recipients := List.map (\<lambda>r.
     if nr_NotificationId r = i \<and> nr_UserId r = userId \<and> nr_ReadAt r = None then r\<lparr>nr_ReadAt := Some now\<rparr> else r)
     (nt_Recipients t)\<rparr>"

definition no_Consent :: "int \<Rightarrow> int \<Rightarrow> int \<Rightarrow> notification_tables \<Rightarrow> notification_tables" where
  "no_Consent now userId i t = t\<lparr>nt_Recipients := List.map (\<lambda>r.
     if nr_NotificationId r = i \<and> nr_UserId r = userId
     then r\<lparr>nr_ConsentedAt := Some now, nr_ReadAt := (case nr_ReadAt r of Some a \<Rightarrow> Some a | None \<Rightarrow> Some now)\<rparr> else r)
     (nt_Recipients t)\<rparr>"

end
