(* ===== verification/Database.thy ===== *)
theory Database
  imports TorrentStore StorageRows JobStore AccountStore CatalogStore HistoryStore
begin

text \<open>
  The database: its clock and the tables the modelled services share, and the storage calls lifted to
  it.  Each lifted call is one statement: it takes the next fault of the schedule and otherwise
  applies the table operation.  Deleting a files_meta row deletes the songs made from it, and those their places in playlists, artists and tags, as the
  foreign keys' ON DELETE CASCADE does.  The foreign keys to users are modelled where a user's id comes from outside (sessions,
  identities, permissions, playlists); elsewhere it is the caller's, whose row no code deletes.
\<close>

record Song =
  song_Id :: int
  song_FileId :: int
  song_Title :: string
  song_CreatedAt :: int

interpretation song_rows: keyed_rows song_Id "\<lambda>i r. r\<lparr>song_Id := i\<rparr>"
  by unfold_locales simp

type_synonym song_table = "Song table"

record database =
  db_clock :: int
  db_torrents :: torrent_table
  db_files :: file_table
  db_jobs :: job_table
  db_songs :: song_table
  db_permissions :: permission_table
  db_storages :: "StorageRow list"
  db_users :: user_table
  db_telegram :: "TelegramIdentity list"
  db_sessions :: session_table
  db_settings :: "(int \<times> Locale) list"
  db_segments :: "UserHomeSegment list"
  db_playlists :: playlist_tables
  db_catalog :: catalog_tables
  db_history :: history_table
  db_notifications :: notification_tables

definition empty_database :: database where
  "empty_database = \<lparr>db_clock = 0, db_torrents = empty_table, db_files = empty_table,
     db_jobs = empty_table, db_songs = empty_table, db_permissions = [],
     db_storages = [local_storage_row], db_users = empty_table, db_telegram = [], db_sessions = [], db_settings = [],
     db_segments = [], db_playlists = empty_playlists, db_catalog = empty_catalog, db_history = empty_table,
     db_notifications = empty_notifications\<rparr>"

definition db_inv :: "database \<Rightarrow> bool" where
  "db_inv d \<longleftrightarrow> td_inv (db_torrents d) \<and> fm_inv (db_files d) \<and> job_inv (db_jobs d) \<and>
     table_wf song_Id (db_songs d) \<and> storages_ok (db_storages d) \<and> files_placed (db_files d) (db_storages d)"

lemma db_inv_empty [simp]: "db_inv empty_database"
  by (simp add: db_inv_def empty_database_def)

section \<open>Torrent rows\<close>

type_synonym ('m, 'a) dbprog = "((database, 'm) st, 'a) prog"

definition on_torrents :: "(int \<Rightarrow> torrent_table \<Rightarrow> 'a outcome \<times> torrent_table) \<Rightarrow> ('m, 'a) dbprog" where
  "on_torrents f = dbcall (\<lambda>d. case f (db_clock d) (db_torrents d) of (r, t) \<Rightarrow> (r, d\<lparr>db_torrents := t\<rparr>))"

definition TD_Add :: "TorrentDownload \<Rightarrow> ('m, TorrentDownload) dbprog" where
  "TD_Add dl = on_torrents (\<lambda>now. td_Add now dl)"

definition TD_Get :: "int \<Rightarrow> int \<Rightarrow> ('m, TorrentDownload) dbprog" where
  "TD_Get i user = dbcall (\<lambda>d. (td_Get i user (db_torrents d), d))"

definition TD_GetByUserAndInfoHash :: "int \<Rightarrow> string \<Rightarrow> ('m, TorrentDownload option) dbprog" where
  "TD_GetByUserAndInfoHash user h = query (\<lambda>d. td_GetByUserAndInfoHash user h (db_torrents d))"

definition TD_ListByUser :: "int \<Rightarrow> string \<Rightarrow> ('m, TorrentDownload list) dbprog" where
  "TD_ListByUser user folder = query (\<lambda>d. td_ListByUser user folder (db_torrents d))"

definition TD_ListActive :: "('m, TorrentDownload list) dbprog" where
  "TD_ListActive = query (\<lambda>d. td_ListActive (db_torrents d))"

definition TD_UpdateProgress ::
  "int \<Rightarrow> int \<Rightarrow> int \<Rightarrow> TorrentFileProgress list \<Rightarrow> ('m, unit) dbprog" where
  "TD_UpdateProgress i downloaded totalBytes files =
     on_torrents (\<lambda>now t. (Ok (), td_UpdateProgress now i downloaded totalBytes files t))"

definition TD_UpdateStatus :: "int \<Rightarrow> TorrentDownloadStatus \<Rightarrow> ('m, unit) dbprog" where
  "TD_UpdateStatus i st = on_torrents (\<lambda>now. td_UpdateStatus now i st)"

definition TD_SetError :: "int \<Rightarrow> string \<Rightarrow> ('m, unit) dbprog" where
  "TD_SetError i msg = on_torrents (\<lambda>now t. (Ok (), td_SetError now i msg t))"

definition TD_SetImportedFiles :: "int \<Rightarrow> string list \<Rightarrow> ('m, unit) dbprog" where
  "TD_SetImportedFiles i files = on_torrents (\<lambda>now t. (Ok (), td_SetImportedFiles now i files t))"

definition TD_Delete :: "int \<Rightarrow> int \<Rightarrow> ('m, unit) dbprog" where
  "TD_Delete i user = on_torrents (\<lambda>now t. (Ok (), td_Delete i user t))"

section \<open>File rows\<close>

definition on_files :: "(file_table \<Rightarrow> 'a outcome \<times> file_table) \<Rightarrow> ('m, 'a) dbprog" where
  "on_files f = dbcall (\<lambda>d. case f (db_files d) of (r, t) \<Rightarrow> (r, d\<lparr>db_files := t\<rparr>))"

text \<open>A row that names a storage needs the row of that storage (a foreign key).  A refused insert has still
  taken its id from the sequence.\<close>

definition storage_known :: "uuid \<Rightarrow> database \<Rightarrow> bool" where
  "storage_known i d \<longleftrightarrow> st_Get i (db_storages d) \<noteq> None"

definition db_add_file :: "FileMeta \<Rightarrow> database \<Rightarrow> int outcome \<times> database" where
  "db_add_file req d =
     (let sid = if fm_StorageId req = uuid_Nil then LocalStorageUuid else fm_StorageId req in
      case fm_Add req (db_files d) of
        (Ok i, t) \<Rightarrow>
          if storage_known sid d then (Ok i, d\<lparr>db_files := t\<rparr>)
          else (Err ErrStorageFailure, d\<lparr>db_files := (db_files d)\<lparr>next_id := next_id t\<rparr>\<rparr>)
      | (r, t) \<Rightarrow> (r, d\<lparr>db_files := t\<rparr>))"

definition FM_Add :: "FileMeta \<Rightarrow> ('m, int) dbprog" where
  "FM_Add req = dbcall (db_add_file req)"

definition FM_Get :: "int \<Rightarrow> ('m, FileMeta) dbprog" where
  "FM_Get i = dbcall (\<lambda>d. (fm_Get i (db_files d), d))"

definition FM_GetByPath :: "string \<Rightarrow> ('m, FileMeta) dbprog" where
  "FM_GetByPath p = dbcall (\<lambda>d. (fm_GetByPath p (db_files d), d))"

definition FM_GetByHash :: "string \<Rightarrow> int \<Rightarrow> ('m, FileMeta) dbprog" where
  "FM_GetByHash h user = dbcall (\<lambda>d. (fm_GetByHash h user (db_files d), d))"

definition FM_GetTotalSizeByUser :: "int \<Rightarrow> ('m, int) dbprog" where
  "FM_GetTotalSizeByUser user = dbcall (\<lambda>d. (fm_GetTotalSizeByUser user (db_files d), d))"

definition FM_ExistingIds :: "int list \<Rightarrow> ('m, int set) dbprog" where
  "FM_ExistingIds ids = (if ids = [] then returnM {} else query (\<lambda>d. fm_ExistingIds ids (db_files d)))"

definition FM_Update :: "int \<Rightarrow> File \<Rightarrow> ('m, unit) dbprog" where
  "FM_Update i f = on_files (fm_Update i f)"

definition db_update_location :: "int \<Rightarrow> uuid \<Rightarrow> string \<Rightarrow> database \<Rightarrow> unit outcome \<times> database" where
  "db_update_location i sid p d =
     (case fm_UpdateLocation i sid p (db_files d) of
        (Ok u, t) \<Rightarrow>
          if storage_known sid d \<or> tbl_find (\<lambda>r. fm_Id r = i) (db_files d) = None then (Ok u, d\<lparr>db_files := t\<rparr>)
          else (Err ErrStorageFailure, d)
      | (r, t) \<Rightarrow> (r, d\<lparr>db_files := t\<rparr>))"

definition FM_UpdateLocation :: "int \<Rightarrow> uuid \<Rightarrow> string \<Rightarrow> ('m, unit) dbprog" where
  "FM_UpdateLocation i sid p = dbcall (db_update_location i sid p)"

definition song_of_file :: "int \<Rightarrow> database \<Rightarrow> int \<Rightarrow> bool" where
  "song_of_file i d song \<longleftrightarrow> (\<exists>s \<in> set (rows (db_songs d)). song_Id s = song \<and> song_FileId s = i)"

definition db_delete_file :: "int \<Rightarrow> database \<Rightarrow> database" where
  "db_delete_file i d =
     d\<lparr>db_files := fm_Delete i (db_files d),
       db_songs := tbl_delete (\<lambda>s. song_FileId s = i) (db_songs d),
       db_playlists := pl_cascade (song_of_file i d) (\<lambda>f. f = i) (db_playlists d),
       db_catalog := ct_cascade (song_of_file i d) (db_catalog d)\<rparr>"

definition FM_Delete :: "int \<Rightarrow> ('m, unit) dbprog" where
  "FM_Delete i = exec (db_delete_file i)"

section \<open>Jobs\<close>

definition on_jobs :: "(int \<Rightarrow> job_table \<Rightarrow> 'a outcome \<times> job_table) \<Rightarrow> ('m, 'a) dbprog" where
  "on_jobs f = dbcall (\<lambda>d. case f (db_clock d) (db_jobs d) of (r, t) \<Rightarrow> (r, d\<lparr>db_jobs := t\<rparr>))"

definition JOB_EnqueueGarbageFile :: "(uuid \<Rightarrow> string) \<Rightarrow> uuid \<Rightarrow> string \<Rightarrow> ('m, unit) dbprog" where
  "JOB_EnqueueGarbageFile uuid_String sid p =
     on_jobs (\<lambda>now t. (Ok (), job_EnqueueGarbageFile uuid_String now sid p t))"

definition JOB_EnqueueAudioParseJob :: "int \<Rightarrow> string \<Rightarrow> ('m, unit) dbprog" where
  "JOB_EnqueueAudioParseJob i p = on_jobs (\<lambda>now t. (Ok (), job_EnqueueAudioParseJob now i p t))"

definition JOB_Claim :: "string \<Rightarrow> nat \<Rightarrow> ('m, Job list) dbprog" where
  "JOB_Claim queue limit = on_jobs (\<lambda>now t. case job_Claim now queue limit t of (js, t') \<Rightarrow> (Ok js, t'))"

definition JOB_Complete :: "int \<Rightarrow> ('m, unit) dbprog" where
  "JOB_Complete i = on_jobs (\<lambda>now t. (Ok (), job_Complete i t))"

definition JOB_Fail :: "int \<Rightarrow> string \<Rightarrow> int \<Rightarrow> ('m, unit) dbprog" where
  "JOB_Fail i msg backoffSeconds = on_jobs (\<lambda>now t. (Ok (), job_Fail now i msg backoffSeconds t))"

definition JOB_RequeueStalled :: "('m, unit) dbprog" where
  "JOB_RequeueStalled = on_jobs (\<lambda>now t. (Ok (), job_RequeueStalled now t))"

section \<open>Permissions\<close>

definition USER_GetPermissions :: "int \<Rightarrow> ('m, UserPermissions) dbprog" where
  "USER_GetPermissions i = query (\<lambda>d. up_GetPermissions i (db_permissions d))"

text \<open>A row needs its user.\<close>

definition USER_SavePermissions :: "int \<Rightarrow> UserPermissions \<Rightarrow> ('m, unit) dbprog" where
  "USER_SavePermissions i p = dbcall (\<lambda>d.
     if us_known i (db_users d) then (Ok (), d\<lparr>db_permissions := up_SavePermissions i p (db_permissions d)\<rparr>)
     else (Err ErrStorageFailure, d))"

section \<open>Songs\<close>

definition SONG_GetByFileId :: "int \<Rightarrow> ('m, Song) dbprog" where
  "SONG_GetByFileId fid = dbcall (\<lambda>d.
     (case tbl_find (\<lambda>s. song_FileId s = fid) (db_songs d) of
        Some s \<Rightarrow> Ok s | None \<Rightarrow> Err ErrNotFound, d))"

section \<open>Storages\<close>

definition on_storages :: "(StorageRow list \<Rightarrow> 'a outcome \<times> StorageRow list) \<Rightarrow> ('m, 'a) dbprog" where
  "on_storages f = dbcall (\<lambda>d. case f (db_storages d) of (r, t) \<Rightarrow> (r, d\<lparr>db_storages := t\<rparr>))"

definition ST_List :: "('m, StorageRow list) dbprog" where
  "ST_List = dbcall (\<lambda>d. (st_List (db_files d) (db_storages d), d))"

definition ST_Get :: "uuid \<Rightarrow> ('m, StorageRow option) dbprog" where
  "ST_Get i = query (\<lambda>d. st_Get i (db_storages d))"

definition ST_GetDefault :: "('m, StorageRow) dbprog" where
  "ST_GetDefault = dbcall (\<lambda>d. (st_GetDefault (db_storages d), d))"

definition ST_Create :: "uuid \<Rightarrow> string \<Rightarrow> StorageKind \<Rightarrow> string \<Rightarrow> ('m, StorageRow) dbprog" where
  "ST_Create newId name kind configEnc = on_storages (st_Create newId name kind configEnc)"

definition ST_Update :: "uuid \<Rightarrow> string \<Rightarrow> string \<Rightarrow> ('m, unit) dbprog" where
  "ST_Update i name configEnc = on_storages (st_Update i name configEnc)"

definition ST_Delete :: "uuid \<Rightarrow> ('m, unit) dbprog" where
  "ST_Delete i = dbcall (\<lambda>d. case st_Delete (db_files d) i (db_storages d) of (r, t) \<Rightarrow> (r, d\<lparr>db_storages := t\<rparr>))"

text \<open>Two statements; the callers wrap them in a transaction.\<close>

definition ST_SetDefault :: "uuid \<Rightarrow> ('m, unit) dbprog" where
  "ST_SetDefault i =
     bindM (on_storages (\<lambda>t. (Ok (), st_ClearDefault t))) (\<lambda>_. on_storages (st_SetDefaultById i))"

definition ST_CountFiles :: "uuid \<Rightarrow> ('m, int) dbprog" where
  "ST_CountFiles i = query (\<lambda>d. st_CountFiles i (db_files d))"

definition ST_GetUsedBytes :: "uuid \<Rightarrow> ('m, int) dbprog" where
  "ST_GetUsedBytes i = dbcall (\<lambda>d. (st_GetUsedBytes i (db_files d), d))"

section \<open>The calls keep the database invariant\<close>

text \<open>The rules are stated for an invariant over the database alone and any predicate on the memory.\<close>

abbreviation dbI :: "('m \<Rightarrow> bool) \<Rightarrow> (database, 'm) st \<Rightarrow> bool" where
  "dbI K \<equiv> on_data (\<lambda>d m. db_inv d \<and> K m)"

lemma keeps_on_torrents:
  "(\<And>now t. td_inv t \<Longrightarrow> td_inv (snd (f now t))) \<Longrightarrow> keeps (dbI K) (on_torrents f)"
  unfolding on_torrents_def
  by (rule keeps_dbcall) (auto simp: db_inv_def split: prod.split, metis snd_conv)

lemma keeps_on_files:
  assumes "\<And>t. fm_inv t \<Longrightarrow> fm_inv (snd (f t))" "\<And>t ss. files_placed t ss \<Longrightarrow> files_placed (snd (f t)) ss"
  shows "keeps (dbI K) (on_files f)"
  unfolding on_files_def
proof (rule keeps_dbcall)
  fix d m
  assume "db_inv d \<and> K m"
  then show "db_inv (snd (case f (db_files d) of (r, t) \<Rightarrow> (r, d\<lparr>db_files := t\<rparr>))) \<and> K m"
    using assms(1)[of "db_files d"] assms(2)[of "db_files d" "db_storages d"]
    by (cases "f (db_files d)") (simp add: db_inv_def)
qed

lemma files_placed_Update: "files_placed t ss \<Longrightarrow> files_placed (snd (fm_Update i f t)) ss"
  by (auto simp: files_placed_def fm_Update_def)

lemma db_inv_add_file:
  assumes "db_inv d"
  shows "db_inv (snd (db_add_file req d))"
proof -
  have "fm_inv (snd (fm_Add req (db_files d)))" using assms fm_inv_Add by (simp add: db_inv_def)
  moreover have "fm_inv ((db_files d)\<lparr>next_id := next_id (db_files d) + 1\<rparr>)"
    using assms by (auto simp: db_inv_def fm_inv_def table_wf_def)
  ultimately show ?thesis
    using assms
    by (auto simp: db_add_file_def db_inv_def fm_Add_def Let_def files_placed_def storage_known_def st_Get_None
        split: if_splits)
qed

lemma db_inv_update_location:
  assumes "db_inv d"
  shows "db_inv (snd (db_update_location i sid p d))"
proof -
  have "fm_inv (snd (fm_UpdateLocation i sid p (db_files d)))" using assms fm_inv_UpdateLocation by (simp add: db_inv_def)
  moreover have "sid \<in> sr_Uuid ` set (db_storages d)" if "fm_Id r = i" "r \<in> set (rows (db_files d))"
      "storage_known sid d \<or> tbl_find (\<lambda>r. fm_Id r = i) (db_files d) = None" for r
    using that st_Get_None[of sid "db_storages d"] tbl_find_None[of "\<lambda>r. fm_Id r = i" "db_files d"]
    by (auto simp: storage_known_def)
  ultimately show ?thesis
    using assms
    by (auto simp: db_update_location_def db_inv_def fm_UpdateLocation_def files_placed_def split: if_splits)
qed

lemma keeps_on_jobs:
  "(\<And>now t. job_inv t \<Longrightarrow> job_inv (snd (f now t))) \<Longrightarrow> keeps (dbI K) (on_jobs f)"
  unfolding on_jobs_def
  by (rule keeps_dbcall) (auto simp: db_inv_def split: prod.split, metis snd_conv)

lemma keeps_TD [keeps_intros]:
  "keeps (dbI K) (TD_Add dl)"
  "keeps (dbI K) (TD_Get i u)"
  "keeps (dbI K) (TD_GetByUserAndInfoHash u h)"
  "keeps (dbI K) (TD_ListByUser u folder)"
  "keeps (dbI K) TD_ListActive"
  "keeps (dbI K) (TD_UpdateProgress i dn n fs)"
  "keeps (dbI K) (TD_UpdateStatus i st)"
  "keeps (dbI K) (TD_SetError i msg)"
  "keeps (dbI K) (TD_SetImportedFiles i files)"
  "keeps (dbI K) (TD_Delete i u)"
  by (auto simp: TD_Add_def TD_Get_def TD_GetByUserAndInfoHash_def TD_ListByUser_def TD_ListActive_def
      TD_UpdateProgress_def TD_UpdateStatus_def TD_SetError_def TD_SetImportedFiles_def TD_Delete_def
      intro!: keeps_on_torrents keeps_query keeps_dbcall td_inv_intros)

lemma keeps_FM [keeps_intros]:
  "keeps (dbI K) (FM_Add req)"
  "keeps (dbI K) (FM_Get i)"
  "keeps (dbI K) (FM_GetByPath p)"
  "keeps (dbI K) (FM_GetByHash h u)"
  "keeps (dbI K) (FM_GetTotalSizeByUser u)"
  "keeps (dbI K) (FM_ExistingIds ids)"
  "keeps (dbI K) (FM_Update i f)"
  "keeps (dbI K) (FM_UpdateLocation i sid p)"
  by (auto simp: FM_Add_def FM_Get_def FM_GetByPath_def FM_GetByHash_def FM_GetTotalSizeByUser_def
      FM_ExistingIds_def FM_Update_def FM_UpdateLocation_def
      intro!: keeps_on_files keeps_query keeps_dbcall keeps_return fm_inv_intros files_placed_Update
        db_inv_add_file db_inv_update_location)

lemma keeps_FM_Delete [keeps_intros]: "keeps (dbI K) (FM_Delete i)"
  unfolding FM_Delete_def
  by (rule keeps_exec) (auto simp: db_inv_def db_delete_file_def files_placed_def fm_Delete_def
      intro: fm_inv_Delete [unfolded fm_Delete_def] table_wf_delete)

lemma keeps_SONG [keeps_intros]: "keeps (dbI K) (SONG_GetByFileId fid)"
  unfolding SONG_GetByFileId_def by (rule keeps_dbcall) simp

lemma keeps_USER [keeps_intros]:
  "keeps (dbI K) (USER_GetPermissions i)" "keeps (dbI K) (USER_SavePermissions i p)"
  by (auto simp: USER_GetPermissions_def USER_SavePermissions_def db_inv_def intro!: keeps_query keeps_dbcall)

lemma keeps_JOB [keeps_intros]:
  "keeps (dbI K) (JOB_EnqueueGarbageFile us sid p)"
  "keeps (dbI K) (JOB_EnqueueAudioParseJob i p)"
  "keeps (dbI K) (JOB_Complete i)"
  "keeps (dbI K) (JOB_Fail i msg b)"
  "keeps (dbI K) JOB_RequeueStalled"
  by (auto simp: JOB_EnqueueGarbageFile_def JOB_EnqueueAudioParseJob_def job_EnqueueGarbageFile_def
      job_EnqueueAudioParseJob_def JOB_Complete_def JOB_Fail_def JOB_RequeueStalled_def
      intro!: keeps_on_jobs job_inv_intros)

lemma keeps_JOB_Claim [keeps_intros]: "keeps (dbI K) (JOB_Claim queue limit)"
  unfolding JOB_Claim_def
proof (rule keeps_on_jobs)
  fix now t
  assume "job_inv t"
  then show "job_inv (snd (case job_Claim now queue limit t of (js, t') \<Rightarrow> (Ok js, t')))"
    using job_inv_Claim[of t now queue limit] by (cases "job_Claim now queue limit t") simp
qed

lemma keeps_ST_reads [keeps_intros]:
  "keeps (dbI K) ST_List" "keeps (dbI K) (ST_Get i)" "keeps (dbI K) ST_GetDefault" "keeps (dbI K) (ST_CountFiles i)"
  "keeps (dbI K) (ST_GetUsedBytes i)"
  by (auto simp: ST_List_def ST_Get_def ST_GetDefault_def ST_CountFiles_def ST_GetUsedBytes_def
      intro!: keeps_query keeps_dbcall)

end
