(* ===== verification/JobQueue.thy ===== *)
theory JobQueue
  imports Database
begin

text \<open>
  The worker of the job queue (internal/async/provider/pgqueue/provider.go): one goroutine per queue
  that claims up to ten jobs, runs the handler on each and records the outcome.  The handler and the
  decoding of the payload are arguments.  A handler that panics ends the process, so \<open>processJob\<close>
  then leaves the job as claimed.

  Facts: the back-off; what \<open>processJob\<close> leaves in the row; no two workers hold a job during its
  lease; a job whose worker dies is handed out again however often it has been tried.
\<close>

section \<open>Definitions\<close>

definition i32 :: "int \<Rightarrow> int" where
  "i32 x = (x + 2147483648) mod 4294967296 - 2147483648"

definition backoff :: "int \<Rightarrow> int" where
  "backoff attempts = (let v = i32 (i32 (attempts * attempts) * 30) in if v > 3600 then 3600 else v)"

definition failJob :: "(err \<Rightarrow> string) \<Rightarrow> Job \<Rightarrow> err \<Rightarrow> ('m, unit) dbprog" where
  "failJob err_text job e =
     bindM (tryM (JOB_Fail (job_ID job) (err_text e) (backoff (job_Attempts job)))) (\<lambda>_. returnM ())"

definition processJob ::
  "(err \<Rightarrow> string) \<Rightarrow> (JobPayload \<Rightarrow> 'p option) \<Rightarrow> ('p \<Rightarrow> ('m, unit) dbprog) \<Rightarrow> Job \<Rightarrow> ('m, unit) dbprog"
where
  "processJob err_text decode handle job =
     (case decode (job_Payload job) of
        None \<Rightarrow> failJob err_text job ErrMalformed
      | Some payload \<Rightarrow>
          bindM (tryM (handle payload)) (\<lambda>r. case r of
              Inl e \<Rightarrow> failJob err_text job e
            | Inr _ \<Rightarrow> bindM (tryM (JOB_Complete (job_ID job))) (\<lambda>_. returnM ())))"

definition poll ::
  "(err \<Rightarrow> string) \<Rightarrow> string \<Rightarrow> (JobPayload \<Rightarrow> 'p option) \<Rightarrow> ('p \<Rightarrow> ('m, unit) dbprog) \<Rightarrow> ('m, unit) dbprog"
where
  "poll err_text queue decode handle =
     bindM (tryM (JOB_Claim queue 10)) (\<lambda>r. case r of
         Inl _ \<Rightarrow> returnM ()
       | Inr jobs \<Rightarrow> forM (processJob err_text decode handle) jobs)"

definition requeueStalled :: "('m, unit) dbprog" where
  "requeueStalled = bindM (tryM JOB_RequeueStalled) (\<lambda>_. returnM ())"

definition queueTick ::
  "(err \<Rightarrow> string) \<Rightarrow> string \<Rightarrow> (JobPayload \<Rightarrow> 'p option) \<Rightarrow> ('p \<Rightarrow> ('m, unit) dbprog) \<Rightarrow> ('m, unit) dbprog"
where
  "queueTick err_text queue decode handle =
     bindM requeueStalled (\<lambda>_. poll err_text queue decode handle)"

section \<open>Back-off\<close>

lemma i32_id: "- 2147483648 \<le> x \<Longrightarrow> x < 2147483648 \<Longrightarrow> i32 x = x"
  unfolding i32_def by (subst mod_pos_pos_trivial) auto

text \<open>C7: as long as the attempt counter stays at or below 8460, the delay before the next attempt is
  thirty seconds times the square of the counter, capped at one hour; the 32-bit product does not wrap,
  so the delay is never negative.\<close>
theorem backoff_correct:
  assumes "0 \<le> attempts" "attempts \<le> 8460"
  shows "backoff attempts = min (30 * attempts\<^sup>2) 3600"
proof -
  have hi: "attempts * attempts \<le> 8460 * 8460"
    using assms by (intro mult_mono) auto
  have lo: "0 \<le> attempts * attempts"
    using assms by simp
  have "i32 (attempts * attempts) = attempts * attempts"
    by (rule i32_id) (use lo hi in linarith)+
  moreover have "i32 (attempts * attempts * 30) = attempts * attempts * 30"
    by (rule i32_id) (use lo hi in linarith)+
  ultimately show ?thesis by (simp add: backoff_def Let_def power2_eq_square min_def)
qed

lemma backoff_correct_witness: "backoff 3 = 270 \<and> backoff 8460 = 3600"
  using backoff_correct[of 3] backoff_correct[of 8460] by simp

section \<open>The outcome of a job\<close>

lemma failJob_row:
  "faults s = [] \<Longrightarrow> failJob err_text job e s =
     (Ok (), s\<lparr>dbase := (dbase s)\<lparr>db_jobs :=
        job_Fail (db_clock (dbase s)) (job_ID job) (err_text e) (backoff (job_Attempts job)) (db_jobs (dbase s))\<rparr>\<rparr>)"
  by (simp add: failJob_def JOB_Fail_def on_jobs_def bindM_def tryM_def)

lemma keeps_processJob:
  assumes "\<And>p. keeps (dbI K) (handle p)"
  shows "keeps (dbI K) (processJob err_text decode handle job)"
  unfolding processJob_def failJob_def by (auto intro!: keeps_intros assms)

lemma keeps_poll:
  assumes "\<And>p. keeps (dbI K) (handle p)"
  shows "keeps (dbI K) (poll err_text queue decode handle)"
  unfolding poll_def by (auto intro!: keeps_intros keeps_processJob assms)

text \<open>The row of a job after the worker is done with it: completed when the handler returned nil;
  otherwise failed for good when the attempts are used up and else waiting for its next attempt.\<close>

definition job_settled :: "int \<Rightarrow> Job \<Rightarrow> bool \<Rightarrow> Job \<Rightarrow> bool" where
  "job_settled now j handled j' \<longleftrightarrow>
     job_ProcessingUntil j' = None \<and> job_Attempts j' = job_Attempts j \<and>
     (if handled then job_Status j' = JobCompleted
      else if job_Attempts j \<ge> job_MaxAttempts j then job_Status j' = JobFailed
      else job_Status j' = JobPending \<and>
        job_ScheduledAt j' = now + backoff (job_Attempts j) * second)"

text \<open>C5: a claimed job never stays in the processing state: when the database works and the handler
  returns (nil or an error) without touching the job's row, the row is afterwards completed, failed for good,
  or pending with the back-off of its attempt counter, and the lease is gone.  A payload that does not decode
  counts as an error.\<close>
theorem processJob_settles:
  assumes inv: "job_inv (db_jobs (dbase s))"
    and job: "job \<in> set (rows (db_jobs (dbase s)))"
    and nofault: "faults s = []"
    and handler: "\<And>p. \<exists>r s'. handle p s = (r, s') \<and> r \<noteq> Panic \<and> faults s' = [] \<and>
        db_jobs (dbase s') = db_jobs (dbase s) \<and> db_clock (dbase s') = db_clock (dbase s)"
  shows "\<exists>s' j'. processJob err_text decode handle job s = (Ok (), s') \<and>
     tbl_find (\<lambda>j. job_ID j = job_ID job) (db_jobs (dbase s')) = Some j' \<and>
     job_settled (db_clock (dbase s)) job
       (\<exists>p. decode (job_Payload job) = Some p \<and> fst (handle p s) = Ok ()) j'"
proof -
  let ?t = "db_jobs (dbase s)" and ?now = "db_clock (dbase s)"
  have found: "tbl_find (\<lambda>j. job_ID j = job_ID job) ?t = Some job"
    using inv job tbl_find_key[of job_ID ?t job] by (simp add: job_inv_def)
  have failed: "\<exists>j'. tbl_find (\<lambda>j. job_ID j = job_ID job)
        (job_Fail ?now (job_ID job) msg (backoff (job_Attempts job)) ?t) = Some j' \<and>
      job_settled ?now job False j'" for msg
    unfolding job_Fail_def by (subst job_rows.find_update_key) (auto simp: found job_settled_def)
  have completed: "\<exists>j'. tbl_find (\<lambda>j. job_ID j = job_ID job) (job_Complete (job_ID job) ?t) = Some j' \<and>
      job_settled ?now job True j'"
    unfolding job_Complete_def by (subst job_rows.find_update_key) (auto simp: found job_settled_def)
  show ?thesis
  proof (cases "decode (job_Payload job)")
    case None
    then show ?thesis
      using failed nofault by (simp add: processJob_def failJob_row)
  next
    case (Some p)
    obtain r s' where run: "handle p s = (r, s')" "r \<noteq> Panic" "faults s' = []"
        "db_jobs (dbase s') = ?t" "db_clock (dbase s') = ?now"
      using handler by blast
    show ?thesis
    proof (cases r)
      case (Ok u)
      then show ?thesis
        using Some run completed
        by (simp add: processJob_def bindM_def tryM_def JOB_Complete_def on_jobs_def)
    next
      case (Err e)
      then show ?thesis
        using Some run failed
        by (simp add: processJob_def bindM_def tryM_def failJob_row)
    qed (use run in simp)
  qed
qed

text \<open>A queue with one claimed job, for the examples of the theorems below.\<close>

definition ex_job :: Job where
  "ex_job = \<lparr>job_ID = 1, job_QueueName = ''q'', job_Payload = OtherPayload ''x'', job_Status = JobPending,
     job_Attempts = 0, job_MaxAttempts = 3, job_CreatedAt = 0, job_ScheduledAt = 0,
     job_ProcessingUntil = None, job_LastError = None\<rparr>"

definition ex_jobs :: job_table where
  "ex_jobs = \<lparr>rows = [ex_job], next_id = 2\<rparr>"

definition ex_claimed :: "(database, unit) st" where
  "ex_claimed = \<lparr>faults = [], dbase = empty_database\<lparr>db_jobs := ex_jobs\<lparr>rows := [job_take 5 ex_job]\<rparr>\<rparr>,
     mem = ()\<rparr>"

lemma ex_jobs_inv: "job_inv ex_jobs"
  by (simp add: job_inv_def table_wf_def ex_jobs_def ex_job_def job_ok_def)

lemma ex_claimed_inv: "job_inv (db_jobs (dbase ex_claimed))"
  by (simp add: job_inv_def table_wf_def ex_claimed_def ex_jobs_def ex_job_def job_ok_def job_take_def)

lemma processJob_settles_witness:
  "\<exists>s' j'. processJob (\<lambda>_. []) Some (\<lambda>_. throwM ErrMalformed) (job_take 5 ex_job) ex_claimed = (Ok (), s') \<and>
     tbl_find (\<lambda>j. job_ID j = job_ID (job_take 5 ex_job)) (db_jobs (dbase s')) = Some j' \<and>
     job_settled (db_clock (dbase ex_claimed)) (job_take 5 ex_job)
       (\<exists>p. Some (job_Payload (job_take 5 ex_job)) = Some p \<and>
          fst (throwM ErrMalformed ex_claimed) = Ok ()) j'"
  by (rule processJob_settles[OF ex_claimed_inv]) (simp_all add: ex_claimed_def ex_jobs_def)

section \<open>Leases are exclusive\<close>

text \<open>What other workers and services do to the queue while a job is held: enqueue, claim, and give
  stalled jobs back.\<close>

datatype queue_action =
    QEnqueue int string JobPayload int
  | QClaim int string nat
  | QRequeueStalled int

fun action_time :: "queue_action \<Rightarrow> int" where
  "action_time (QEnqueue now _ _ _) = now"
| "action_time (QClaim now _ _) = now"
| "action_time (QRequeueStalled now) = now"

text \<open>Run a list of actions, collecting the jobs the claims hand out.\<close>

fun run_queue :: "queue_action list \<Rightarrow> job_table \<Rightarrow> Job list \<times> job_table" where
  "run_queue [] t = ([], t)"
| "run_queue (QEnqueue now q p m # as) t = run_queue as (job_Enqueue now q p m t)"
| "run_queue (QClaim now q n # as) t =
     (case job_Claim now q n t of (js, t1) \<Rightarrow>
       (case run_queue as t1 of (js', t2) \<Rightarrow> (js @ js', t2)))"
| "run_queue (QRequeueStalled now # as) t = run_queue as (job_RequeueStalled now t)"

text \<open>A row that is held until \<open>u\<close> stays the same row.\<close>

definition held :: "Job \<Rightarrow> job_table \<Rightarrow> bool" where
  "held j t \<longleftrightarrow> job_inv t \<and> j \<in> set (rows t) \<and> job_Status j = JobProcessing"

lemma held_Enqueue: "held j t \<Longrightarrow> held j (job_Enqueue now q p m t)"
  using job_inv_Enqueue[of t now q p m] by (simp add: held_def) (simp add: job_Enqueue_def)

lemma held_not_claimed:
  assumes "held j t" "job_Claim now q n t = (js, t')"
  shows "job_ID j \<notin> job_ID ` set js" "held j t'"
proof -
  have ids: "job_ID j \<notin> set (job_claim_ids now q n t)"
  proof
    assume "job_ID j \<in> set (job_claim_ids now q n t)"
    then obtain j1 where j1: "j1 \<in> set (rows t)" "job_ID j1 = job_ID j" "job_claimable now q j1"
      by (rule job_claim_ids_mem)
    then have "j1 = j"
      using assms(1) table_wf_key_inj[of job_ID t j1 j] by (simp add: held_def job_inv_def)
    with j1 assms(1) show False by (simp add: held_def job_claimable_def)
  qed
  then show "job_ID j \<notin> job_ID ` set js"
    using assms(2) by (auto simp: job_Claim_def Let_def)
  have "job_inv t'"
    using job_inv_Claim[of t now q n] assms by (simp add: held_def)
  moreover have "j \<in> set (rows t')"
    using ids assms by (auto simp: job_Claim_def Let_def held_def image_iff)
  ultimately show "held j t'" using assms(1) by (simp add: held_def)
qed

lemma held_RequeueStalled:
  assumes "held j t" "job_ProcessingUntil j = Some u" "now \<le> u"
  shows "held j (job_RequeueStalled now t)"
proof -
  have "j \<in> set (rows (job_RequeueStalled now t))"
    using assms by (auto simp: job_RequeueStalled_def held_def image_iff)
  then show ?thesis
    using assms by (simp add: held_def job_inv_RequeueStalled)
qed

lemma held_run_queue:
  "held j t \<Longrightarrow> job_ProcessingUntil j = Some u \<Longrightarrow> \<forall>a \<in> set as. action_time a \<le> u \<Longrightarrow>
   job_ID j \<notin> job_ID ` set (fst (run_queue as t)) \<and> held j (snd (run_queue as t))"
proof (induction as t rule: run_queue.induct)
  case (2 now q p m as t)
  then show ?case by (simp add: held_Enqueue)
next
  case (3 now q n as t)
  obtain js t1 where c: "job_Claim now q n t = (js, t1)" by (cases "job_Claim now q n t")
  obtain js' t2 where r: "run_queue as t1 = (js', t2)" by (cases "run_queue as t1")
  have "job_ID j \<notin> job_ID ` set js" "held j t1"
    using held_not_claimed[OF 3(2) c] by auto
  moreover have "job_ID j \<notin> job_ID ` set js' \<and> held j t2"
    using 3(1)[OF c[symmetric]] 3(3,4) calculation(2) r by auto
  ultimately show ?case using c r by auto
next
  case (4 now as t)
  then show ?case by (simp add: held_RequeueStalled)
qed simp

text \<open>C6: a job is handed to one worker at a time: after a claim at time \<open>now\<close>, whatever sequence of
  enqueues, claims and give-backs of stalled jobs other workers run up to the end of the five-minute lease, none
  of their claims returns the job, and its row is still the claimed one.\<close>
theorem claim_is_exclusive:
  assumes "job_inv t" and "job_Claim now queue limit t = (js, t')" and "j \<in> set js"
    and "\<forall>a \<in> set as. action_time a \<le> now + lease"
  shows "job_ID j \<notin> job_ID ` set (fst (run_queue as t')) \<and>
     j \<in> set (rows (snd (run_queue as t')))"
proof -
  obtain j0 where j: "j = job_take now j0" "j \<in> set (rows t')"
    using job_Claim_mem[OF assms(1-3)] by blast
  have "job_inv t'"
    using job_inv_Claim[OF assms(1), of now queue limit] assms(2) by simp
  then have "held j t'" using j by (simp add: held_def job_take_def)
  moreover have "job_ProcessingUntil j = Some (now + lease)" using j by (simp add: job_take_def)
  ultimately have "job_ID j \<notin> job_ID ` set (fst (run_queue as t')) \<and> held j (snd (run_queue as t'))"
    using held_run_queue assms(4) by blast
  then show ?thesis by (simp add: held_def)
qed

lemma claim_is_exclusive_witness:
  "job_ID (job_take 0 ex_job) \<notin> job_ID ` set (fst (run_queue [QClaim 7 ''q'' 10, QRequeueStalled 9, QClaim 9 ''q'' 10]
      (snd (job_Claim 0 ''q'' 10 ex_jobs)))) \<and>
   job_take 0 ex_job \<in> set (rows (snd (run_queue [QClaim 7 ''q'' 10, QRequeueStalled 9, QClaim 9 ''q'' 10]
      (snd (job_Claim 0 ''q'' 10 ex_jobs)))))"
  by (rule claim_is_exclusive[OF ex_jobs_inv, of 0 "''q''" 10 "[job_take 0 ex_job]"])
    (simp_all add: job_Claim_def Let_def job_claim_ids_def job_claimable_def ex_jobs_def ex_job_def
      job_take_def lease_def second_def)

section \<open>A job whose worker dies\<close>

text \<open>One round of a job that takes its process down: a worker claims it, the process ends, and after
  the lease another worker gives stalled jobs back.\<close>

definition crash_round :: "int \<Rightarrow> string \<Rightarrow> job_table \<Rightarrow> job_table" where
  "crash_round now queue t =
     job_RequeueStalled (now + lease + 1) (snd (job_Claim now queue 10 t))"

fun crash_rounds :: "nat \<Rightarrow> int \<Rightarrow> string \<Rightarrow> job_table \<Rightarrow> job_table" where
  "crash_rounds 0 now queue t = t"
| "crash_rounds (Suc n) now queue t =
     crash_rounds n (now + lease + 1) queue (crash_round now queue t)"

lemma crash_round_single:
  assumes "rows t = [j]" "job_claimable now queue j"
  shows "rows (crash_round now queue t) =
    [j\<lparr>job_Attempts := job_Attempts j + 1, job_ProcessingUntil := None\<rparr>]"
  using assms
  by (simp add: crash_round_def job_Claim_def Let_def job_claim_ids_def job_take_def job_claimable_def
      job_RequeueStalled_def)

text \<open>the attempt limit is not enforced for a job whose worker dies: the give-back of stalled jobs does
  not look at it, so after any number of such rounds the job is pending again with that many attempts and is
  claimed once more, where a job whose handler returns an error would have failed for good.\<close>
theorem stalled_job_never_fails:
  assumes "rows t = [j]" "job_claimable now queue j"
  shows "\<exists>j'. rows (crash_rounds n now queue t) = [j'] \<and> job_Status j' = JobPending \<and>
     job_Attempts j' = job_Attempts j + int n \<and> job_MaxAttempts j' = job_MaxAttempts j"
  using assms
proof (induction n arbitrary: now t j)
  case 0
  then show ?case by (simp add: job_claimable_def)
next
  case (Suc n)
  let ?j = "j\<lparr>job_Attempts := job_Attempts j + 1, job_ProcessingUntil := None\<rparr>"
  have "rows (crash_round now queue t) = [?j]"
    by (rule crash_round_single) (use Suc.prems in auto)
  moreover have "job_claimable (now + lease + 1) queue ?j"
    using Suc.prems(2) by (simp add: job_claimable_def lease_def second_def)
  ultimately show ?case
    using Suc.IH[of "crash_round now queue t" ?j "now + lease + 1"] by auto
qed

lemma stalled_job_never_fails_witness:
  "\<exists>j'. rows (crash_rounds 7 0 ''q'' ex_jobs) = [j'] \<and> job_Status j' = JobPending \<and>
     job_Attempts j' = job_Attempts ex_job + int 7 \<and> job_MaxAttempts j' = job_MaxAttempts ex_job"
  by (rule stalled_job_never_fails) (simp_all add: ex_jobs_def ex_job_def job_claimable_def)

end
