(* ===== verification/LocalStorage.thy ===== *)
theory LocalStorage
  imports Database PathSafety "HOL-Library.AList"
begin

text \<open>
  The disk and the local file storage (internal/storage/file_storage_providers/storage.go).  The disk
  maps a full path to the content of the file there; directories exist as needed.  Paths given to the
  storage are relative to its root and joined to it.  Every system call may fail, through the fault
  schedule; an upload that fails while the content is copied leaves the created file behind.

  Memory that has a disk extends \<open>diskmem\<close>, so the services share the operations.
\<close>

record diskmem =
  w_disk :: "(string \<times> string) list"

type_synonym ('z, 'a) diskprog = "((database, 'z diskmem_scheme) st, 'a) prog"

definition tmpFolder :: string where
  "tmpFolder = ''tmp''"

definition on_disk :: "((string \<times> string) list \<Rightarrow> 'a outcome \<times> (string \<times> string) list) \<Rightarrow> ('z, 'a) diskprog" where
  "on_disk f = iocall (\<lambda>m. case f (w_disk m) of (r, d) \<Rightarrow> (r, m\<lparr>w_disk := d\<rparr>))"

definition os_write :: "string \<Rightarrow> string \<Rightarrow> ('z, unit) diskprog" where
  "os_write p content = on_disk (\<lambda>d. (Ok (), AList.update p content d))"

definition os_open :: "string \<Rightarrow> ('z, string) diskprog" where
  "os_open p = on_disk (\<lambda>d. case map_of d p of Some c \<Rightarrow> (Ok c, d) | None \<Rightarrow> (Err ErrStorageFailure, d))"

definition os_remove :: "string \<Rightarrow> ('z, unit) diskprog" where
  "os_remove p = on_disk (\<lambda>d. case map_of d p of
     Some c \<Rightarrow> (Ok (), AList.delete p d) | None \<Rightarrow> (Err ErrNotFound, d))"

text \<open>Remove, with "does not exist" taken as success.\<close>

definition os_remove_if_exists :: "string \<Rightarrow> ('z, unit) diskprog" where
  "os_remove_if_exists p = on_disk (\<lambda>d. (Ok (), AList.delete p d))"

definition os_copy :: "string \<Rightarrow> string \<Rightarrow> ('z, unit) diskprog" where
  "os_copy src dst = on_disk (\<lambda>d. case map_of d src of
     Some c \<Rightarrow> (Ok (), AList.update dst c d) | None \<Rightarrow> (Err ErrStorageFailure, d))"

section \<open>The storage operations\<close>

definition SaveToTempFolder :: "string \<Rightarrow> int \<Rightarrow> string \<Rightarrow> string \<Rightarrow> ('z, string) diskprog" where
  "SaveToTempFolder root userId filePath content =
     (let tempPath = path_Join [tmpFolder, FormatInt userId, filePath] in
      bindM (os_write (path_Join [root, tempPath]) []) (\<lambda>_.
      bindM (os_write (path_Join [root, tempPath]) content) (\<lambda>_.
      returnM tempPath)))"

definition user_tmp_dir :: "int \<Rightarrow> string" where
  "user_tmp_dir userId = path_Join [tmpFolder, FormatInt userId]"

text \<open>The files below the user's directory at any depth, as paths relative to the root.\<close>

definition files_below :: "string \<Rightarrow> string \<Rightarrow> (string \<times> string) list \<Rightarrow> string list" where
  "files_below root relDir d =
     (let n = length (path_segments (path_Join [root, relDir])) in
      List.map (\<lambda>(p, _). path_Join (relDir # drop n (path_segments p)))
        (List.filter (\<lambda>(p, _). n < length (path_segments p) \<and>
           take n (path_segments p) = path_segments (path_Join [root, relDir])) d))"

definition ListFiles :: "string \<Rightarrow> int \<Rightarrow> ('z, string list) diskprog" where
  "ListFiles root userId = on_disk (\<lambda>d. (Ok (files_below root (user_tmp_dir userId) d), d))"

definition copy_atomically :: "string \<Rightarrow> string \<Rightarrow> ('z, unit) diskprog" where
  "copy_atomically fullFromPath fullToPath = os_copy fullFromPath fullToPath"

definition Move :: "string \<Rightarrow> string \<Rightarrow> string \<Rightarrow> ('z, unit) diskprog" where
  "Move root fromPath newPath =
     bindM (copy_atomically (path_Join [root, fromPath]) (path_Join [root, newPath])) (\<lambda>_.
     os_remove (path_Join [root, fromPath]))"

definition Copy :: "string \<Rightarrow> string \<Rightarrow> string \<Rightarrow> ('z, unit) diskprog" where
  "Copy root fromPath toPath = copy_atomically (path_Join [root, fromPath]) (path_Join [root, toPath])"

definition Delete :: "string \<Rightarrow> string \<Rightarrow> ('z, unit) diskprog" where
  "Delete root filePath = os_remove_if_exists (path_Join [root, filePath])"

definition DeleteTempFile :: "string \<Rightarrow> string \<Rightarrow> ('z, unit) diskprog" where
  "DeleteTempFile root filePath = os_remove_if_exists (path_Join [root, filePath])"

definition GetFile :: "string \<Rightarrow> string \<Rightarrow> ('z, string) diskprog" where
  "GetFile root filePath = os_open (path_Join [root, filePath])"

section \<open>What they change\<close>

text \<open>\<open>only_touches P m\<close>: however \<open>m\<close> ends, files outside \<open>P\<close> are as before, and the database is not
  touched.\<close>

definition only_touches :: "(string \<Rightarrow> bool) \<Rightarrow> ('z, 'a) diskprog \<Rightarrow> bool" where
  "only_touches P m \<longleftrightarrow> (\<forall>s. dbase (snd (m s)) = dbase s \<and>
     (\<forall>p. \<not> P p \<longrightarrow> map_of (w_disk (mem (snd (m s)))) p = map_of (w_disk (mem s)) p))"

lemma only_touchesD:
  assumes "only_touches P m" "m s = (r, s')"
  shows "dbase s' = dbase s" "\<not> P p \<Longrightarrow> map_of (w_disk (mem s')) p = map_of (w_disk (mem s)) p"
  using assms by (metis only_touches_def snd_conv)+

lemma only_touches_on_disk:
  assumes "\<And>d p. \<not> P p \<Longrightarrow> map_of (snd (f d)) p = map_of d p"
  shows "only_touches P (on_disk f)"
  unfolding only_touches_def on_disk_def iocall_def Let_def
  using assms by (auto split: prod.splits) (metis snd_conv)

lemma only_touches_os:
  "only_touches (\<lambda>q. q = p) (os_write p content)"
  "only_touches (\<lambda>q. q = p) (os_remove p)"
  "only_touches (\<lambda>q. q = p) (os_remove_if_exists p)"
  "only_touches (\<lambda>q. q = dst) (os_copy src dst)"
  "only_touches (\<lambda>q. False) (os_open p)"
  unfolding os_write_def os_remove_def os_remove_if_exists_def os_copy_def os_open_def
  by (rule only_touches_on_disk; auto simp: update_conv' delete_conv' split: option.splits)+

lemma only_touches_mono: "only_touches P m \<Longrightarrow> (\<And>p. P p \<Longrightarrow> Q p) \<Longrightarrow> only_touches Q m"
  unfolding only_touches_def by blast

lemma only_touches_bind:
  assumes "only_touches P m" "\<And>a. only_touches P (f a)"
  shows "only_touches P (bindM m f)"
  unfolding only_touches_def
proof (intro allI)
  fix s
  obtain r s1 where m: "m s = (r, s1)" by (cases "m s")
  show "dbase (snd (bindM m f s)) = dbase s \<and>
    (\<forall>p. \<not> P p \<longrightarrow> map_of (w_disk (mem (snd (bindM m f s)))) p = map_of (w_disk (mem s)) p)"
  proof (cases r)
    case (Ok a)
    obtain r2 s2 where f: "f a s1 = (r2, s2)" by (cases "f a s1")
    show ?thesis
      using only_touchesD[OF assms(1) m] only_touchesD[OF assms(2) f] m f Ok by simp
  qed (use only_touchesD[OF assms(1) m] m in simp_all)
qed

lemma only_touches_basic:
  "only_touches P (returnM a)" "only_touches P (throwM e)"
  by (simp_all add: only_touches_def)

lemma only_touches_try: "only_touches P m \<Longrightarrow> only_touches P (tryM m)"
  unfolding only_touches_def tryM_def by (auto split: prod.splits outcome.splits; metis snd_conv)

lemma only_touches_storage:
  "only_touches (\<lambda>q. q = path_Join [root, path_Join [tmpFolder, FormatInt u, p]]) (SaveToTempFolder root u p content)"
  "only_touches (\<lambda>q. q = path_Join [root, p]) (DeleteTempFile root p)"
  "only_touches (\<lambda>q. q = path_Join [root, p]) (Delete root p)"
  "only_touches (\<lambda>q. False) (GetFile root p)"
  "only_touches (\<lambda>q. q = path_Join [root, from] \<or> q = path_Join [root, to]) (Move root from to)"
  "only_touches (\<lambda>q. False) (ListFiles root u)"
  unfolding SaveToTempFolder_def DeleteTempFile_def Delete_def GetFile_def Move_def copy_atomically_def
    Let_def ListFiles_def
  by (auto intro!: only_touches_bind only_touches_os only_touches_basic only_touches_on_disk
      intro: only_touches_mono[OF only_touches_os(2)] only_touches_mono[OF only_touches_os(4)])

text \<open>An operation on the disk keeps every invariant that does not look at the disk.\<close>

lemma keeps_on_disk [keeps_intros]:
  assumes "\<And>m d. K m \<Longrightarrow> K (m\<lparr>w_disk := d\<rparr>)"
  shows "keeps (on_data (\<lambda>d m. J d \<and> K m)) (on_disk f)"
  unfolding on_disk_def by (rule keeps_iocall) (auto split: prod.split simp: assms)

end
