(* ===== verification/RelPaths.thy ===== *)
theory RelPaths
  imports LocalStorage
begin

text \<open>
  Paths made of safe segments only, the form every path stored in files_meta has: joining them,
  taking their directory, and joining them to a root are operations on the lists of segments, and the
  join to a root is injective.
\<close>

definition safe_segments :: "string list \<Rightarrow> bool" where
  "safe_segments segs \<longleftrightarrow> (\<forall>s \<in> set segs. safe_segment s)"

definition rel_path :: "string \<Rightarrow> bool" where
  "rel_path p \<longleftrightarrow> (\<exists>segs. segs \<noteq> [] \<and> safe_segments segs \<and> p = join_with [slash] segs)"

lemma safe_segments_simps [simp]:
  "safe_segments []"
  "safe_segments (s # segs) \<longleftrightarrow> safe_segment s \<and> safe_segments segs"
  "safe_segments (xs @ ys) \<longleftrightarrow> safe_segments xs \<and> safe_segments ys"
  by (auto simp: safe_segments_def)

lemma join_Nil_iff: "safe_segments segs \<Longrightarrow> join_with [slash] segs = [] \<longleftrightarrow> segs = []"
  using join_with_Nil_iff[of segs] safe_segment_ne by (auto simp: safe_segments_def)

lemma join_concat:
  "list_all safe_segments segss \<Longrightarrow>
   join_with [slash] (List.map (join_with [slash]) (List.filter (\<lambda>x. x \<noteq> []) segss)) = join_with [slash] (concat segss)"
proof (induction segss)
  case (Cons segs segss)
  have IH: "join_with [slash] (List.map (join_with [slash]) (List.filter (\<lambda>x. x \<noteq> []) segss)) =
      join_with [slash] (concat segss)"
    using Cons by simp
  show ?case
  proof (cases "segs = []")
    case True
    then show ?thesis using IH by simp
  next
    case ne: False
    show ?thesis
    proof (cases "List.filter (\<lambda>x. x \<noteq> []) segss")
      case Nil
      then have "concat segss = []" by (simp add: filter_empty_conv)
      then have "concat (segs # segss) = segs" by (simp only: concat.simps append_Nil2)
      then show ?thesis using ne Nil by (simp del: concat.simps)
    next
      case (Cons y ys)
      then have "y \<in> set segss \<and> y \<noteq> []"
        using filter_eq_ConsD[of "\<lambda>x. x \<noteq> []" segss y ys] by auto
      then have "concat segss \<noteq> []" by auto
      then show ?thesis
        using ne IH Cons join_with_append[of segs "concat segss" "[slash]"] by simp
    qed
  qed
qed simp

lemma path_Join_segments:
  assumes "list_all safe_segments segss"
  shows "path_Join (List.map (join_with [slash]) segss) = join_with [slash] (concat segss)"
proof -
  have f: "List.filter (\<lambda>e. e \<noteq> []) (List.map (join_with [slash]) segss) =
      List.map (join_with [slash]) (List.filter (\<lambda>x. x \<noteq> []) segss)"
    using assms by (induction segss) (auto simp: join_Nil_iff)
  have safe: "\<forall>s \<in> set (concat segss). safe_segment s"
    using assms by (auto simp: list_all_iff safe_segments_def)
  show ?thesis
  proof (cases "List.filter (\<lambda>x. x \<noteq> []) segss = []")
    case True
    then have "concat segss = []" by (simp add: filter_empty_conv)
    then have "join_with [slash] (concat segss) = []" by (simp only: join_with.simps)
    then show ?thesis using True f by (simp add: path_Join_def)
  next
    case False
    then have "concat segss \<noteq> []" by (auto simp: filter_empty_conv)
    then show ?thesis
      using False f safe path_Clean_join_safe[of "concat segss"] join_concat[OF assms]
      by (simp add: path_Join_def Let_def)
  qed
qed

lemma join_single [simp]: "join_with sep [x] = x"
  by simp

text \<open>The directory part of a path of safe segments.\<close>

lemma takeWhile_rev_last:
  assumes "slash \<notin> set x"
  shows "rev (takeWhile (\<lambda>c. c \<noteq> slash) (rev (y @ slash # x))) = x"
    "rev (takeWhile (\<lambda>c. c \<noteq> slash) (rev x)) = x"
proof -
  have all: "\<forall>c \<in> set (rev x). c \<noteq> slash" using assms by auto
  then show "rev (takeWhile (\<lambda>c. c \<noteq> slash) (rev x)) = x"
    using takeWhile_eq_all_conv[of "\<lambda>c. c \<noteq> slash" "rev x"] rev_rev_ident[of x] by metis
  show "rev (takeWhile (\<lambda>c. c \<noteq> slash) (rev (y @ slash # x))) = x"
    using takeWhile_append2[of "rev x" "\<lambda>c. c \<noteq> slash" "slash # rev y"] all by auto
qed

lemma path_Split_snoc:
  assumes "slash \<notin> set x"
  shows "path_Split (y @ slash # x) = (y @ [slash], x)"
  unfolding path_Split_def Let_def takeWhile_rev_last(1)[OF assms] by simp

lemma split_trailing: "segs \<noteq> [] \<Longrightarrow> safe_segments segs \<Longrightarrow>
  split_on slash (join_with [slash] segs @ [slash]) = segs @ [[]]"
  using split_on_append_sep[of slash "join_with [slash] segs" "[]"] split_on_join[of segs slash]
  by (auto simp: safe_segments_def safe_segment_def)

lemma path_Dir_join:
  assumes "segs \<noteq> []" "safe_segments segs" "safe_segment x"
  shows "path_Dir (join_with [slash] (segs @ [x])) = join_with [slash] segs"
proof -
  have j: "join_with [slash] (segs @ [x]) = join_with [slash] segs @ slash # x"
    using join_with_append[of segs "[x]" "[slash]"] assms by simp
  have ns: "slash \<notin> set x" using assms by (simp add: safe_segment_def)
  have na: "\<not> is_abs (join_with [slash] segs @ [slash])"
    using is_abs_join_safe[of segs] assms join_Nil_iff[of segs]
    by (cases "join_with [slash] segs") (auto simp: safe_segments_def)
  have "clean_segments False (segs @ [[]]) = segs"
    using assms(2) by (simp add: clean_segments_def foldl_clean_safe safe_segments_def)
  then show ?thesis
    unfolding path_Dir_def j path_Split_snoc[OF ns] fst_conv
    using na split_trailing[OF assms(1,2)] assms(1)
    by (simp add: path_Clean_def path_segments_def build_path_def)
qed

text \<open>Joining to a root.\<close>

lemma clean_step_mem: "s \<in> set (clean_step r out a) \<Longrightarrow> s \<in> set out \<or> s = a \<or> s = ''..''"
  by (auto simp: clean_step_def split: if_splits list.splits)

lemma foldl_clean_mem: "s \<in> set (foldl (clean_step r) out segs) \<Longrightarrow> s \<in> set out \<or> s \<in> set segs \<or> s = ''..''"
proof (induction segs arbitrary: out)
  case (Cons a segs)
  then have "s \<in> set (clean_step r out a) \<or> s \<in> set segs \<or> s = ''..''"
    using Cons.IH[of "clean_step r out a"] by simp
  then show ?case using clean_step_mem[of s r out a] by auto
qed simp

lemma path_segments_no_slash: "s \<in> set (path_segments p) \<Longrightarrow> slash \<notin> set s"
  using foldl_clean_mem[of s "is_abs p" "[]" "split_on slash p"] split_on_segs[of s slash p]
  by (auto simp: path_segments_def clean_segments_def)

lemma path_Join_root:
  assumes "segs \<noteq> []" "safe_segments segs" "root \<noteq> []"
  shows "path_Join [root, join_with [slash] segs] = build_path (is_abs root) (path_segments root @ segs)"
proof -
  have ne: "join_with [slash] segs \<noteq> []" using assms join_Nil_iff by simp
  have "split_on slash (join_with [slash] segs) = segs"
    using assms split_on_join[of segs slash] by (auto simp: safe_segments_def safe_segment_def)
  then have sp: "split_on slash (root @ slash # join_with [slash] segs) = split_on slash root @ segs"
    by (simp only: split_on_append_sep)
  have ab: "is_abs (root @ slash # join_with [slash] segs) = is_abs root"
    using assms(3) by (cases root) auto
  show ?thesis
    using assms ne sp ab clean_segments_append_safe[of segs "is_abs root" "split_on slash root"]
    by (simp add: path_Join_def path_Clean_def path_segments_def safe_segments_def)
qed

lemma build_path_inj:
  assumes "build_path r xs = build_path r ys" "xs \<noteq> []" "ys \<noteq> []"
    and "\<forall>s \<in> set xs. slash \<notin> set s" "\<forall>s \<in> set ys. slash \<notin> set s"
  shows "xs = ys"
  using assms join_with_inj[of xs ys slash] by (auto simp: build_path_def split: if_splits)

lemma path_Join_root_inj:
  assumes "rel_path p" "rel_path q" "path_Join [root, p] = path_Join [root, q]"
  shows "p = q"
proof -
  obtain ps where ps: "ps \<noteq> []" "safe_segments ps" "p = join_with [slash] ps"
    using assms(1) by (auto simp: rel_path_def)
  obtain qs where qs: "qs \<noteq> []" "safe_segments qs" "q = join_with [slash] qs"
    using assms(2) by (auto simp: rel_path_def)
  show ?thesis
  proof (cases "root = []")
    case True
    have "path_Join [root, x] = path_Join [x]" for x using True by (simp add: path_Join_def)
    then show ?thesis
      using assms(3) ps qs path_Join_segments[of "[ps]"] path_Join_segments[of "[qs]"] by simp
  next
    case False
    have noslash: "\<forall>s \<in> set (path_segments root @ xs). slash \<notin> set s" if "safe_segments xs" for xs
      using that path_segments_no_slash by (auto simp: safe_segments_def safe_segment_def)
    have "path_segments root @ ps = path_segments root @ qs"
      using assms(3) ps qs False noslash path_Join_root[of ps root] path_Join_root[of qs root]
      by (intro build_path_inj[of "is_abs root"]) auto
    then show ?thesis using ps qs by simp
  qed
qed

section \<open>User directories\<close>

lemma digits_chars: "set (digits n) \<subseteq> set ''0123456789'' \<and> digits n \<noteq> []"
proof (induction n rule: digits.induct)
  case (1 n)
  have "list_all (\<lambda>k. char_of (48 + k) \<in> set ''0123456789'') [0..<10]"
    by code_simp
  then have d: "char_of (48 + k) \<in> set ''0123456789''" if "k < 10" for k :: nat
    using that by (simp add: list_all_iff del: upt_rec_numeral)
  show ?case
    using 1 d[of n] d[of "n mod 10"] by (subst (1 2) digits.simps) auto
qed

lemma FormatInt_safe: "safe_segment (FormatInt n)"
proof -
  have "digits k \<noteq> ''.''" "digits k \<noteq> ''..''" "slash \<notin> set (digits k)" "digits k \<noteq> []" for k
    using digits_chars[of k] by auto
  then show ?thesis by (auto simp: FormatInt_def safe_segment_def)
qed

lemma tmp_safe: "safe_segment tmpFolder"
  by (simp add: tmpFolder_def safe_segment_def)

lemma user_path:
  assumes "safe_segments segs"
  shows "path_Join [tmpFolder, FormatInt u, join_with [slash] segs] =
    join_with [slash] (tmpFolder # FormatInt u # segs)"
  using path_Join_segments[of "[[tmpFolder], [FormatInt u], segs]"] assms FormatInt_safe tmp_safe
  by simp

end
