(* ===== verification/UploadPipeline.thy ===== *)
theory UploadPipeline
  imports RelPaths AudioFormat
begin

text \<open>
  How an incoming file lands in a user's storage (internal/service/v1/upload_pipeline.go, the image
  check and the staging names of file_service.go).  The content hash (SHA-256 in hex) and the image decoder are
  arguments, as is the random token of the staging name.

  Facts: the path chosen for a file has no row yet; no file that a row names is ever overwritten or
  removed, whatever fails on the way; what a successful upload leaves in the table and on the disk.
\<close>

section \<open>Definitions\<close>

record uploadRequest =
  ur_UserId :: int
  ur_FileNameWithExt :: string
  ur_FolderRelDir :: string
  ur_Content :: string
  ur_MaxSongSizeBytes :: int
  ur_MaxTotalUploadBytes :: int

record pipeline_env =
  pe_root :: string
  pe_sha256 :: "string \<Rightarrow> string"
  pe_decodeImage :: "string \<Rightarrow> bool"

definition stagingNamePrefix :: string where
  "stagingNamePrefix = ''.upload-''"

definition newStagingFileName :: "string \<Rightarrow> string \<Rightarrow> string" where
  "newStagingFileName token ext = stagingNamePrefix @ token @ ext"

text \<open>\<open>io.LimitReader(r, n)\<close> gives the first n bytes, none when n is not positive.\<close>

definition limit_reader :: "string \<Rightarrow> int \<Rightarrow> string" where
  "limit_reader content n = take (nat n) content"

text \<open>\<open>http.DetectContentType(header) == "image/webp"\<close>: the RIFF/WEBPVP signature.\<close>

definition is_webp :: "string \<Rightarrow> bool" where
  "is_webp header \<longleftrightarrow> 14 \<le> length header \<and> take 4 header = ''RIFF'' \<and> take 6 (drop 8 header) = ''WEBPVP''"

definition sniffHeaderSize :: nat where
  "sniffHeaderSize = 512"

definition verifyImage :: "(string \<Rightarrow> bool) \<Rightarrow> string \<Rightarrow> string \<Rightarrow> unit outcome" where
  "verifyImage decodeConfig ext content =
     (if ext = ''.webp''
      then (if is_webp (take sniffHeaderSize content) then Ok () else Err ErrInvalidImageFile)
      else (if decodeConfig content then Ok () else Err ErrInvalidImageFile))"

definition minDisambiguationHashChars :: nat where
  "minDisambiguationHashChars = 5"

definition disambiguated_path :: "string \<Rightarrow> string \<Rightarrow> string \<Rightarrow> nat \<Rightarrow> string" where
  "disambiguated_path dir fileNameWithExt contentHash prefixLen =
     (let ext = path_Ext fileNameWithExt; base = trim_suffix fileNameWithExt ext
      in path_Join [dir, base @ ''-'' @ take prefixLen contentHash @ ext])"

fun try_disambiguated :: "string \<Rightarrow> string \<Rightarrow> string \<Rightarrow> nat list \<Rightarrow> ('z, string) diskprog" where
  "try_disambiguated dir name contentHash [] = throwM ErrFilePathCollisionUnresolved"
| "try_disambiguated dir name contentHash (prefixLen # lens) =
     bindM (tryM (FM_GetByPath (disambiguated_path dir name contentHash prefixLen))) (\<lambda>r. case r of
         Inl e \<Rightarrow> if e = ErrNotFound then returnM (disambiguated_path dir name contentHash prefixLen)
                  else throwM e
       | Inr _ \<Rightarrow> try_disambiguated dir name contentHash lens)"

definition resolveTargetPath :: "string \<Rightarrow> string \<Rightarrow> string \<Rightarrow> ('z, string) diskprog" where
  "resolveTargetPath dir fileNameWithExt contentHash =
     bindM (tryM (FM_GetByPath (path_Join [dir, fileNameWithExt]))) (\<lambda>r. case r of
         Inl e \<Rightarrow> if e = ErrNotFound then returnM (path_Join [dir, fileNameWithExt]) else throwM e
       | Inr _ \<Rightarrow> try_disambiguated dir fileNameWithExt contentHash
                    [minDisambiguationHashChars..<length contentHash + 1])"

text \<open>Delete the temporary file, ignoring the outcome, and return an error.\<close>

definition discard_and_fail :: "string \<Rightarrow> string \<Rightarrow> err \<Rightarrow> ('z, 'a) diskprog" where
  "discard_and_fail root p e = bindM (tryM (DeleteTempFile root p)) (\<lambda>_. throwM e)"

definition or_discard :: "string \<Rightarrow> string \<Rightarrow> ('z, 'a) diskprog \<Rightarrow> ('a \<Rightarrow> ('z, 'b) diskprog) \<Rightarrow> ('z, 'b) diskprog" where
  "or_discard root p m f = bindM (tryM m) (\<lambda>r. case r of Inl e \<Rightarrow> discard_and_fail root p e | Inr a \<Rightarrow> f a)"

definition check_cover :: "pipeline_env \<Rightarrow> string \<Rightarrow> string \<Rightarrow> ('z, bool) diskprog" where
  "check_cover env fileNameWithExt tmpFilePath =
     (if isCoverImageUpload fileNameWithExt
      then or_discard (pe_root env) tmpFilePath (GetFile (pe_root env) tmpFilePath) (\<lambda>content.
             case verifyImage (pe_decodeImage env) (ascii_lower (path_Ext fileNameWithExt)) content of
               Ok _ \<Rightarrow> returnM True
             | Err e \<Rightarrow> discard_and_fail (pe_root env) tmpFilePath e
             | Panic \<Rightarrow> panicM)
      else returnM False)"

definition register_upload ::
  "pipeline_env \<Rightarrow> uploadRequest \<Rightarrow> string \<Rightarrow> int \<Rightarrow> string \<Rightarrow> bool \<Rightarrow> ('z, int \<times> string) diskprog"
where
  "register_upload env req targetPath nbytes contentHash verified =
     or_discard (pe_root env) targetPath (FM_GetTotalSizeByUser (ur_UserId req)) (\<lambda>totalSize.
       if i64 (totalSize + nbytes) > ur_MaxTotalUploadBytes req
       then discard_and_fail (pe_root env) targetPath ErrTotalUploadSizeLimitExceeded
       else
         bindM (FM_Add \<lparr>fm_Id = 0,
             fm_File = \<lparr>f_FilePath = targetPath, f_SizeBytes = nbytes, f_Duration = 0, f_Verified = verified,
                        f_ContentHash = contentHash\<rparr>,
             fm_AddedById = ur_UserId req, fm_StorageId = uuid_Nil\<rparr>) (\<lambda>fileId.
         bindM (if isCoverImageUpload (ur_FileNameWithExt req) then returnM (Inr ())
                else tryM (JOB_EnqueueAudioParseJob fileId targetPath)) (\<lambda>_.
         returnM (fileId, targetPath))))"

definition store :: "pipeline_env \<Rightarrow> string \<Rightarrow> uploadRequest \<Rightarrow> ('z, int \<times> string) diskprog" where
  "store env token req =
     (let root = pe_root env;
          stagingFileName = newStagingFileName token (path_Ext (ur_FileNameWithExt req));
          stagingRelPath = path_Join [ur_FolderRelDir req, stagingFileName];
          content = limit_reader (ur_Content req) (i64 (ur_MaxSongSizeBytes req + 1));
          nbytes = int (length content)
      in bindM (SaveToTempFolder root (ur_UserId req) stagingRelPath content) (\<lambda>tmpFilePath.
         if nbytes > ur_MaxSongSizeBytes req then discard_and_fail root tmpFilePath ErrSongSizeLimitExceeded
         else
           bindM (check_cover env (ur_FileNameWithExt req) tmpFilePath) (\<lambda>verified.
           let contentHash = pe_sha256 env content in
           bindM (tryM (FM_GetByHash contentHash (ur_UserId req))) (\<lambda>r. case r of
               Inr existing \<Rightarrow>
                 bindM (tryM (DeleteTempFile root tmpFilePath)) (\<lambda>_.
                 returnM (fm_Id existing, f_FilePath (fm_File existing)))
             | Inl e \<Rightarrow>
                 if e \<noteq> ErrNotFound then discard_and_fail root tmpFilePath e
                 else
                   or_discard root tmpFilePath
                     (resolveTargetPath (path_Dir tmpFilePath) (ur_FileNameWithExt req) contentHash) (\<lambda>targetPath.
                   or_discard root tmpFilePath (Move root tmpFilePath targetPath) (\<lambda>_.
                   register_upload env req targetPath nbytes contentHash verified))))))"

section \<open>The target path\<close>

definition free_path :: "string \<Rightarrow> database \<Rightarrow> bool" where
  "free_path p d \<longleftrightarrow> (\<forall>q \<in> set (rows (db_files d)). f_FilePath (fm_File q) \<noteq> p)"

lemma FM_GetByPath_run:
  assumes "FM_GetByPath p s = (r, s')"
  shows "dbase s' = dbase s \<and> mem s' = mem s \<and>
    (r = Err ErrStorageFailure \<or> r = Err ErrNotFound \<and> free_path p (dbase s) \<or>
     (\<exists>m. r = Ok m) \<and> \<not> free_path p (dbase s))"
proof -
  consider "fm_GetByPath p (db_files (dbase s)) = Err ErrNotFound" | m where "fm_GetByPath p (db_files (dbase s)) = Ok m"
    using fm_GetByPath_cases by blast
  then show ?thesis
  proof cases
    case 1
    then have "free_path p (dbase s)" by (simp add: fm_GetByPath_NotFound free_path_def)
    then show ?thesis using assms 1 by (auto simp: FM_GetByPath_def dbcall_cases)
  next
    case (2 m)
    then have "\<not> free_path p (dbase s)"
      using fm_GetByPath_NotFound[of p "db_files (dbase s)"] by (simp add: free_path_def)
    then show ?thesis using assms 2 by (auto simp: FM_GetByPath_def dbcall_cases)
  qed
qed

text \<open>A look-up that goes on in one of three ways.\<close>

lemma by_path_cases:
  assumes "bindM (tryM (FM_GetByPath p)) (\<lambda>r. case r of
      Inl e \<Rightarrow> if e = ErrNotFound then returnM a else throwM e | Inr _ \<Rightarrow> k) s = (r, s')"
  obtains (free) "free_path p (dbase s)" "r = Ok a" "dbase s' = dbase s" "mem s' = mem s"
  | (failed) "r = Err ErrStorageFailure" "dbase s' = dbase s" "mem s' = mem s"
  | (taken) s1 where "\<not> free_path p (dbase s)" "dbase s1 = dbase s" "mem s1 = mem s" "k s1 = (r, s')"
proof -
  obtain q s1 where q: "FM_GetByPath p s = (q, s1)" by (cases "FM_GetByPath p s")
  note g = FM_GetByPath_run[OF q]
  then consider "q = Err ErrStorageFailure" | "q = Err ErrNotFound" "free_path p (dbase s)"
    | m where "q = Ok m" "\<not> free_path p (dbase s)" by blast
  then show thesis
  proof cases
    case 1 then show ?thesis using assms q g failed by (simp add: bindM_def tryM_def)
  next
    case 2 then show ?thesis using assms q g free by (simp add: bindM_def tryM_def)
  next
    case 3 then show ?thesis using assms q g taken[of s1] by (simp add: bindM_def tryM_def)
  qed
qed

lemma try_disambiguated_run:
  "try_disambiguated dir name h lens s = (r, s') \<Longrightarrow>
   dbase s' = dbase s \<and> mem s' = mem s \<and>
   ((\<exists>pre n post. lens = pre @ n # post \<and> r = Ok (disambiguated_path dir name h n) \<and>
       free_path (disambiguated_path dir name h n) (dbase s) \<and>
       (\<forall>k \<in> set pre. \<not> free_path (disambiguated_path dir name h k) (dbase s))) \<or>
    r = Err ErrStorageFailure \<or>
    r = Err ErrFilePathCollisionUnresolved \<and>
      (\<forall>k \<in> set lens. \<not> free_path (disambiguated_path dir name h k) (dbase s)))"
proof (induction lens arbitrary: s)
  case (Cons n lens)
  from Cons.prems[unfolded try_disambiguated.simps] show ?case
  proof (cases rule: by_path_cases)
    case free
    then show ?thesis by (intro conjI disjI1 exI[of _ "[]"] exI[of _ n] exI[of _ lens]) simp_all
  next
    case failed
    then show ?thesis by simp
  next
    case (taken s1)
    from Cons.IH[OF taken(4)] taken(1-3) show ?thesis
    proof (elim conjE disjE exE, goal_cases)
      case (1 pre m post)
      then show ?case
        by (intro conjI disjI1 exI[of _ "n # pre"] exI[of _ m] exI[of _ post]) simp_all
    qed simp_all
  qed
qed simp

lemma upt_split:
  assumes "[a..<b] = pre @ n # post"
  shows "a \<le> n \<and> n < b \<and> (\<forall>k. a \<le> k \<longrightarrow> k < n \<longrightarrow> k \<in> set pre)"
proof -
  have mem: "k \<in> set (pre @ n # post) \<longleftrightarrow> a \<le> k \<and> k < b" for k
    by (simp flip: assms)
  have "sorted_wrt (<) (pre @ n # post)"
    by (simp flip: assms)
  then have "n < k" if "k \<in> set post" for k
    using that by (simp add: sorted_wrt_append)
  then show ?thesis
    using mem[of n] mem by (metis in_set_conv_decomp less_trans not_less_iff_gr_or_eq set_ConsD set_append Un_iff)
qed

lemma resolveTargetPath_run:
  assumes "resolveTargetPath dir name h s = (r, s')"
  shows "dbase s' = dbase s \<and> mem s' = mem s \<and>
    (r = Err ErrStorageFailure \<or>
     r = Ok (path_Join [dir, name]) \<and> free_path (path_Join [dir, name]) (dbase s) \<or>
     (\<exists>n. 5 \<le> n \<and> n \<le> length h \<and> r = Ok (disambiguated_path dir name h n) \<and>
        free_path (disambiguated_path dir name h n) (dbase s) \<and>
        \<not> free_path (path_Join [dir, name]) (dbase s) \<and>
        \<not> (\<exists>k. 5 \<le> k \<and> k < n \<and> free_path (disambiguated_path dir name h k) (dbase s))) \<or>
     r = Err ErrFilePathCollisionUnresolved \<and> \<not> free_path (path_Join [dir, name]) (dbase s) \<and>
       \<not> (\<exists>k. 5 \<le> k \<and> k \<le> length h \<and> free_path (disambiguated_path dir name h k) (dbase s)))"
  using assms unfolding resolveTargetPath_def
proof (cases rule: by_path_cases)
  case (taken s1)
  let ?lens = "[minDisambiguationHashChars..<length h + 1]"
  have lens: "set ?lens = {k. 5 \<le> k \<and> k \<le> length h}"
    by (auto simp: minDisambiguationHashChars_def)
  have first: "5 \<le> n \<and> n \<le> length h \<and> (\<forall>k. 5 \<le> k \<longrightarrow> k < n \<longrightarrow> k \<in> set pre)"
    if "?lens = pre @ n # post" for pre n post
    using upt_split[OF that] by (simp add: minDisambiguationHashChars_def)
  from try_disambiguated_run[OF taken(4)] show ?thesis
  proof (elim conjE disjE exE)
    fix pre n post
    assume "?lens = pre @ n # post" "r = Ok (disambiguated_path dir name h n)"
      "free_path (disambiguated_path dir name h n) (dbase s1)"
      "\<forall>k\<in>set pre. \<not> free_path (disambiguated_path dir name h k) (dbase s1)"
      "dbase s' = dbase s1" "mem s' = mem s1"
    then show ?thesis using first taken by metis
  next
    assume "r = Err ErrFilePathCollisionUnresolved"
      "\<forall>k\<in>set ?lens. \<not> free_path (disambiguated_path dir name h k) (dbase s1)"
      "dbase s' = dbase s1" "mem s' = mem s1"
    then show ?thesis using lens taken by auto
  qed (use taken in simp)
qed simp_all

text \<open>C3: the path chosen for a new file has no files_meta row, for any schedule of database failures,
  and choosing it changes nothing.  It is the plain name when that is free, and otherwise the name with the
  shortest free prefix (of at least five characters) of the content hash; only when all of these are taken,
  up to the whole hash, is the collision reported.\<close>
theorem resolveTargetPath_correct:
  assumes "resolveTargetPath dir name h s = (r, s')"
  shows "dbase s' = dbase s \<and> mem s' = mem s \<and>
    (r = Err ErrStorageFailure \<or>
     r = Ok (path_Join [dir, name]) \<and> free_path (path_Join [dir, name]) (dbase s) \<or>
     (\<exists>n. 5 \<le> n \<and> n \<le> length h \<and> r = Ok (disambiguated_path dir name h n) \<and>
        free_path (disambiguated_path dir name h n) (dbase s) \<and>
        \<not> free_path (path_Join [dir, name]) (dbase s) \<and>
        \<not> (\<exists>k. 5 \<le> k \<and> k < n \<and> free_path (disambiguated_path dir name h k) (dbase s))) \<or>
     r = Err ErrFilePathCollisionUnresolved \<and> \<not> free_path (path_Join [dir, name]) (dbase s) \<and>
       \<not> (\<exists>k. 5 \<le> k \<and> k \<le> length h \<and> free_path (disambiguated_path dir name h k) (dbase s)))"
  by (rule resolveTargetPath_run[OF assms])

section \<open>Nothing that is registered is touched\<close>

definition row_disk_path :: "string \<Rightarrow> FileMeta \<Rightarrow> string" where
  "row_disk_path root row = path_Join [root, f_FilePath (fm_File row)]"

abbreviation plain_row :: "FileMeta \<Rightarrow> bool" where
  "plain_row row \<equiv> rel_path (f_FilePath (fm_File row))"

text \<open>The rows \<open>R\<close> are still there, those at plain paths with the content they had.\<close>

definition protected :: "string \<Rightarrow> FileMeta set \<Rightarrow> (string \<Rightarrow> string option) \<Rightarrow> (database, 'z diskmem_scheme) st \<Rightarrow> bool" where
  "protected root R D s \<longleftrightarrow>
     R \<subseteq> set (rows (db_files (dbase s))) \<and>
     (\<forall>row \<in> R. plain_row row \<longrightarrow> map_of (w_disk (mem s)) (row_disk_path root row) = D (row_disk_path root row))"

definition not_of :: "string \<Rightarrow> FileMeta set \<Rightarrow> string \<Rightarrow> bool" where
  "not_of root R p \<longleftrightarrow> (\<forall>row \<in> R. plain_row row \<longrightarrow> row_disk_path root row \<noteq> path_Join [root, p])"

lemma keeps_protected_disk:
  assumes "only_touches P m" "\<And>row. row \<in> R \<Longrightarrow> plain_row row \<Longrightarrow> \<not> P (row_disk_path root row)"
  shows "keeps (protected root R D) m"
proof (rule keepsI)
  fix s r s'
  assume "protected root R D s" "m s = (r, s')"
  then show "protected root R D s'"
    using only_touchesD[OF assms(1)] assms(2) by (simp add: protected_def)
qed

lemma keeps_protected_storage:
  assumes "not_of root R p"
  shows "keeps (protected root R D) (DeleteTempFile root p)"
    and "not_of root R q \<Longrightarrow> keeps (protected root R D) (Move root p q)"
    and "keeps (protected root R D) (GetFile root p)"
  using assms
  by (auto simp: not_of_def intro!: keeps_protected_disk[OF only_touches_storage(2)]
      keeps_protected_disk[OF only_touches_storage(5)] keeps_protected_disk[OF only_touches_storage(4)])

lemma keeps_protected_SaveToTempFolder:
  assumes "not_of root R (path_Join [tmpFolder, FormatInt u, p])"
  shows "keeps (protected root R D) (SaveToTempFolder root u p content)"
  using assms by (auto simp: not_of_def intro!: keeps_protected_disk[OF only_touches_storage(1)])

lemma keeps_protected_dbcall:
  assumes "\<And>d. R \<subseteq> set (rows (db_files d)) \<Longrightarrow> R \<subseteq> set (rows (db_files (snd (f d))))"
  shows "keeps (protected root R D) (dbcall f)"
proof (rule keepsI)
  fix s r s'
  assume "protected root R D s" "dbcall f s = (r, s')"
  then show "protected root R D s'"
    using assms[of "dbase s"] by (cases "next_fault s") (simp_all add: dbcall_cases protected_def)
qed

lemma keeps_protected_reads:
  "keeps (protected root R D) (FM_GetByPath p)"
  "keeps (protected root R D) (FM_GetByHash h u)"
  "keeps (protected root R D) (FM_GetTotalSizeByUser u)"
  "keeps (protected root R D) (JOB_EnqueueAudioParseJob i p)"
  unfolding FM_GetByPath_def FM_GetByHash_def FM_GetTotalSizeByUser_def JOB_EnqueueAudioParseJob_def on_jobs_def
  by (rule keeps_protected_dbcall; simp)+

lemma keeps_protected_FM_Add: "keeps (protected root R D) (FM_Add req)"
  unfolding FM_Add_def
  by (rule keeps_protected_dbcall) (auto simp: db_add_file_def fm_Add_def Let_def split: prod.splits if_splits)

lemma keeps_discard: "not_of root R p \<Longrightarrow> keeps (protected root R D) (discard_and_fail root p e)"
  unfolding discard_and_fail_def by (intro keeps_intros keeps_protected_storage)

lemma keeps_or_discard:
  assumes "not_of root R p" "keeps (protected root R D) m" "\<And>a. keeps (protected root R D) (f a)"
  shows "keeps (protected root R D) (or_discard root p m f)"
  unfolding or_discard_def by (intro keeps_intros keeps_discard assms)

text \<open>What the resolver returns is a plain path that no row has.\<close>

definition plain_target :: "string \<Rightarrow> FileMeta set \<Rightarrow> string \<Rightarrow> bool" where
  "plain_target root R p \<longleftrightarrow> rel_path p \<and> not_of root R p"

lemma set_path_Ext: "set (path_Ext name) \<subseteq> set name"
proof -
  have "set (takeWhile p (rev xs)) \<subseteq> set xs" for p and xs :: string
    using set_takeWhileD by fastforce
  moreover have "set (snd (path_Split name)) \<subseteq> set name"
    using set_takeWhileD by (fastforce simp: path_Split_def Let_def)
  ultimately show ?thesis by (fastforce simp: path_Ext_def Let_def)
qed

lemma disambiguated_name_safe:
  assumes "safe_segment name" "slash \<notin> set h"
  shows "safe_segment (trim_suffix name (path_Ext name) @ ''-'' @ take n h @ path_Ext name)"
proof -
  have "set (trim_suffix name (path_Ext name)) \<subseteq> set name"
    by (auto simp: trim_suffix_def dest: in_set_takeD)
  moreover note set_path_Ext[of name]
  moreover have "set (take n h) \<subseteq> set h" by (rule set_take_subset)
  ultimately have "slash \<notin> set (trim_suffix name (path_Ext name) @ ''-'' @ take n h @ path_Ext name)"
    using assms by (auto simp: safe_segment_def)
  moreover have "CHR ''-'' \<in> set (trim_suffix name (path_Ext name) @ ''-'' @ take n h @ path_Ext name)"
    by simp
  then have "trim_suffix name (path_Ext name) @ ''-'' @ take n h @ path_Ext name \<noteq> x"
    if "CHR ''-'' \<notin> set x" for x using that by metis
  then have "trim_suffix name (path_Ext name) @ ''-'' @ take n h @ path_Ext name \<notin> {[], ''.'', ''..''}"
    by simp
  ultimately show ?thesis by (simp add: safe_segment_def)
qed

lemma path_Join_rel:
  assumes "safe_segments segs" "segs \<noteq> []" "safe_segment x"
  shows "path_Join [join_with [slash] segs, x] = join_with [slash] (segs @ [x])"
  using path_Join_segments[of "[segs, [x]]"] assms by simp

lemma resolveTargetPath_plain:
  assumes segs: "safe_segments segs" "segs \<noteq> []" and name: "safe_segment name" and h: "slash \<notin> set h"
  shows "hoare (protected root R D) (resolveTargetPath (join_with [slash] segs) name h)
    (\<lambda>r s. protected root R D s \<and> (\<forall>p. r = Ok p \<longrightarrow> plain_target root R p))"
proof (rule hoareI)
  fix s r s'
  assume P: "protected root R D s" and run: "resolveTargetPath (join_with [slash] segs) name h s = (r, s')"
  note c = resolveTargetPath_run[OF run]
  have same: "protected root R D s'" using c P by (simp add: protected_def)
  have plain: "plain_target root R p" if "free_path p (dbase s)" "rel_path p" for p
  proof -
    have "row_disk_path root row \<noteq> path_Join [root, p]" if "row \<in> R" "plain_row row" for row
    proof
      assume "row_disk_path root row = path_Join [root, p]"
      moreover have "row \<in> set (rows (db_files (dbase s)))" "plain_row row"
        using P that by (auto simp: protected_def)
      ultimately show False
        using path_Join_root_inj[OF _ \<open>rel_path p\<close>] \<open>free_path p (dbase s)\<close>
        by (auto simp: row_disk_path_def free_path_def)
    qed
    then show ?thesis using that by (simp add: plain_target_def not_of_def)
  qed
  have rel: "rel_path (path_Join [join_with [slash] segs, x])" if "safe_segment x" for x
    unfolding path_Join_rel[OF segs that] rel_path_def
    using segs that by (intro exI[of _ "segs @ [x]"]) simp
  have d: "rel_path (disambiguated_path (join_with [slash] segs) name h n)" for n
    unfolding disambiguated_path_def Let_def by (rule rel) (rule disambiguated_name_safe[OF name h])
  show "protected root R D s' \<and> (\<forall>p. r = Ok p \<longrightarrow> plain_target root R p)"
    using c same plain rel[OF name] d by auto
qed

text \<open>What \<open>store\<close> expects of its caller and of the random token: the file name is one path segment, the
  folder is made of validated names, and the staging path belongs to no row.\<close>

definition request_ok :: "uploadRequest \<Rightarrow> bool" where
  "request_ok req \<longleftrightarrow> safe_segment (ur_FileNameWithExt req) \<and>
     (\<exists>fsegs. safe_segments fsegs \<and> ur_FolderRelDir req = join_with [slash] fsegs)"

definition staging_path :: "string \<Rightarrow> uploadRequest \<Rightarrow> string" where
  "staging_path token req = path_Join [tmpFolder, FormatInt (ur_UserId req),
     path_Join [ur_FolderRelDir req, newStagingFileName token (path_Ext (ur_FileNameWithExt req))]]"

lemma path_Ext_no_slash: "slash \<notin> set name \<Longrightarrow> slash \<notin> set (path_Ext name)"
  using set_path_Ext[of name] by blast

lemma staging_name_safe:
  assumes "slash \<notin> set token" "slash \<notin> set name"
  shows "safe_segment (newStagingFileName token (path_Ext name))"
  using path_Ext_no_slash[OF assms(2)] assms(1)
  by (auto simp: newStagingFileName_def stagingNamePrefix_def safe_segment_def)

lemma staging_path_segments:
  assumes "request_ok req" "slash \<notin> set token"
  obtains fsegs where "safe_segments fsegs" "ur_FolderRelDir req = join_with [slash] fsegs"
    "staging_path token req = join_with [slash] ((tmpFolder # FormatInt (ur_UserId req) # fsegs) @
        [newStagingFileName token (path_Ext (ur_FileNameWithExt req))])"
    "path_Dir (staging_path token req) = join_with [slash] (tmpFolder # FormatInt (ur_UserId req) # fsegs)"
proof -
  obtain fsegs where f: "safe_segments fsegs" "ur_FolderRelDir req = join_with [slash] fsegs"
    using assms(1) by (auto simp: request_ok_def)
  let ?x = "newStagingFileName token (path_Ext (ur_FileNameWithExt req))"
  have x: "safe_segment ?x"
    using staging_name_safe assms by (simp add: request_ok_def safe_segment_def)
  have "path_Join [ur_FolderRelDir req, ?x] = join_with [slash] (fsegs @ [?x])"
    using path_Join_segments[of "[fsegs, [?x]]"] f x by simp
  then have s: "staging_path token req = join_with [slash] ((tmpFolder # FormatInt (ur_UserId req) # fsegs) @ [?x])"
    using user_path[of "fsegs @ [?x]"] f x by (simp add: staging_path_def)
  moreover have "path_Dir (staging_path token req) = join_with [slash] (tmpFolder # FormatInt (ur_UserId req) # fsegs)"
    unfolding s using f x FormatInt_safe tmp_safe by (intro path_Dir_join) simp_all
  ultimately show thesis using that f by blast
qed

lemma keeps_register:
  assumes "plain_target (pe_root env) R targetPath"
  shows "keeps (protected (pe_root env) R D) (register_upload env req targetPath n h v)"
  unfolding register_upload_def
  by (intro keeps_or_discard keeps_if keeps_bind keeps_discard keeps_return keeps_try keeps_protected_reads
      keeps_protected_FM_Add)
    (use assms in \<open>simp_all add: plain_target_def\<close>)

lemma keeps_check_cover:
  assumes "not_of (pe_root env) R tmp"
  shows "keeps (protected (pe_root env) R D) (check_cover env name tmp)"
proof -
  have "keeps (protected (pe_root env) R D) (case verifyImage (pe_decodeImage env) e content of
      Ok _ \<Rightarrow> returnM True | Err e \<Rightarrow> discard_and_fail (pe_root env) tmp e | Panic \<Rightarrow> panicM)" for e content
    by (cases "verifyImage (pe_decodeImage env) e content") (simp_all add: keeps_intros keeps_discard assms)
  then show ?thesis
    unfolding check_cover_def
    by (intro keeps_if keeps_or_discard keeps_return keeps_protected_storage assms)
qed

text \<open>The first operation returns the staging path.\<close>

lemma SaveToTempFolder_path:
  "SaveToTempFolder root u p content s = (Ok q, s') \<Longrightarrow> q = path_Join [tmpFolder, FormatInt u, p]"
  by (auto simp: SaveToTempFolder_def Let_def bindM_eq_Ok)

lemma keeps_or_discard_post:
  fixes f :: "'a \<Rightarrow> ('z, 'b) diskprog"
  assumes "\<And>e. keeps I (discard_and_fail root p e :: ('z, 'b) diskprog)"
    and "hoare I m (\<lambda>r s. I s \<and> (\<forall>a. r = Ok a \<longrightarrow> A a))"
    and "\<And>a. A a \<Longrightarrow> keeps I (f a)"
  shows "keeps I (or_discard root p m f)"
  unfolding or_discard_def
proof (rule keeps_bind_post[where A = "\<lambda>x. \<forall>a. x = Inr a \<longrightarrow> A a"])
  show "hoare I (tryM m) (\<lambda>r s. I s \<and> (\<forall>x. r = Ok x \<longrightarrow> (\<forall>a. x = Inr a \<longrightarrow> A a)))"
    using assms(2) unfolding hoare_def tryM_def by (auto split: prod.splits outcome.splits)
  show "keeps I (case x of Inl e \<Rightarrow> discard_and_fail root p e | Inr a \<Rightarrow> f a)"
    if "\<forall>a. x = Inr a \<longrightarrow> A a" for x
    using that assms(3) assms(1) by (cases x) auto
qed

lemma resolveTargetPath_rel:
  assumes "request_ok req" "slash \<notin> set token" "\<And>c. slash \<notin> set (pe_sha256 env c)"
    and "resolveTargetPath (path_Dir (staging_path token req)) (ur_FileNameWithExt req) (pe_sha256 env c) s = (Ok p, s')"
  shows "rel_path p"
proof -
  obtain fsegs where f: "safe_segments fsegs"
    "path_Dir (staging_path token req) = join_with [slash] (tmpFolder # FormatInt (ur_UserId req) # fsegs)"
    using staging_path_segments[OF assms(1,2)] by metis
  have "hoare (protected root {} D) (resolveTargetPath (path_Dir (staging_path token req)) (ur_FileNameWithExt req) (pe_sha256 env c))
      (\<lambda>r s. protected root {} D s \<and> (\<forall>p. r = Ok p \<longrightarrow> plain_target root {} p))" for root D
    unfolding f(2)
    using f(1) assms(1,3) FormatInt_safe tmp_safe
    by (intro resolveTargetPath_plain) (simp_all add: request_ok_def)
  from this[of "[]" "\<lambda>_. None"] show ?thesis
    using assms(4) unfolding hoare_def by (metis empty_iff fst_conv plain_target_def protected_def empty_subsetI)
qed

lemma store_keeps_protected:
  assumes req: "request_ok req" and token: "slash \<notin> set token"
    and hash: "\<And>c. slash \<notin> set (pe_sha256 env c)"
    and fresh: "\<forall>row \<in> R. f_FilePath (fm_File row) \<noteq> staging_path token req"
  shows "keeps (protected (pe_root env) R D :: (database, 'z diskmem_scheme) st \<Rightarrow> bool) (store env token req)"
proof -
  let ?root = "pe_root env" and ?tmp = "staging_path token req"
  let ?I = "protected ?root R D :: (database, 'z diskmem_scheme) st \<Rightarrow> bool"
  obtain fsegs where f: "safe_segments fsegs"
    "?tmp = join_with [slash] ((tmpFolder # FormatInt (ur_UserId req) # fsegs) @
        [newStagingFileName token (path_Ext (ur_FileNameWithExt req))])"
    "path_Dir ?tmp = join_with [slash] (tmpFolder # FormatInt (ur_UserId req) # fsegs)"
    using staging_path_segments[OF req token] by metis
  have "rel_path ?tmp"
    unfolding rel_path_def f(2)
    using f(1) staging_name_safe[OF token] req FormatInt_safe tmp_safe
    by (intro exI[of _ "(tmpFolder # FormatInt (ur_UserId req) # fsegs) @
        [newStagingFileName token (path_Ext (ur_FileNameWithExt req))]"])
      (simp add: request_ok_def safe_segment_def)
  then have tmp: "not_of ?root R ?tmp"
    unfolding not_of_def row_disk_path_def
    using path_Join_root_inj[of _ ?tmp ?root] fresh by auto
  have target: "hoare ?I (resolveTargetPath (path_Dir ?tmp) (ur_FileNameWithExt req) (pe_sha256 env c))
      (\<lambda>r s. ?I s \<and> (\<forall>p. r = Ok p \<longrightarrow> plain_target ?root R p))" for c
    unfolding f(3)
    using f(1) req hash FormatInt_safe tmp_safe
    by (intro resolveTargetPath_plain) (simp_all add: request_ok_def)
  show ?thesis
    unfolding store_def Let_def
  proof (rule keeps_bind_post[where A = "\<lambda>q. q = ?tmp"], goal_cases)
    case 1
    show ?case
    proof (rule hoareI)
      fix s r s'
      assume "?I s" and run: "SaveToTempFolder ?root (ur_UserId req)
        (path_Join [ur_FolderRelDir req, newStagingFileName token (path_Ext (ur_FileNameWithExt req))])
        (limit_reader (ur_Content req) (i64 (ur_MaxSongSizeBytes req + 1))) s = (r, s')"
      then show "?I s' \<and> (\<forall>a. r = Ok a \<longrightarrow> a = ?tmp)"
        using keepsD_eq[OF keeps_protected_SaveToTempFolder run] tmp SaveToTempFolder_path
        by (fastforce simp: staging_path_def)
    qed
  next
    case (2 q)
    have tail: "keeps ?I (or_discard ?root ?tmp
        (resolveTargetPath (path_Dir ?tmp) (ur_FileNameWithExt req) (pe_sha256 env c)) (\<lambda>targetPath.
        or_discard ?root ?tmp (Move ?root ?tmp targetPath) (\<lambda>_. register_upload env req targetPath n h v)))"
      for c n h v
    proof (rule keeps_or_discard_post[OF keeps_discard[OF tmp] target])
      fix p
      assume p: "plain_target ?root R p"
      then show "keeps ?I (or_discard ?root ?tmp (Move ?root ?tmp p) (\<lambda>_. register_upload env req p n h v))"
        by (intro keeps_or_discard tmp keeps_protected_storage keeps_register)
          (simp_all add: plain_target_def tmp)
    qed
    show ?case
      unfolding 2
      by (intro keeps_if keeps_discard keeps_bind keeps_check_cover keeps_case_sum keeps_try keeps_return
          keeps_protected_reads keeps_protected_storage(1) tail tmp)
  qed
qed

text \<open>C1: an upload never drops a row of files_meta, and never overwrites or removes a file that a row names by a plain
  path (segments joined by single slashes, none of them empty or of dots): whatever storage or disk call fails on the way, every row that was there
  is still there and the file at a plain path has the content it had, unless the random token of the staging name was guessed.
  Uploads store plain paths.  A row with another path (a song's, when the name of the artist or the title holds slashes or dots) is not protected:
  the resolver compares the text of paths, and the disk what they mean.\<close>
theorem store_protects_files:
  assumes req: "request_ok req" and token: "slash \<notin> set token"
    and hash: "\<And>c. slash \<notin> set (pe_sha256 env c)"
    and fresh: "free_path (staging_path token req) (dbase s)"
    and run: "store env token req s = (r, s')" and row: "row \<in> set (rows (db_files (dbase s)))"
  shows "row \<in> set (rows (db_files (dbase s'))) \<and>
    (rel_path (f_FilePath (fm_File row)) \<longrightarrow>
      map_of (w_disk (mem s')) (row_disk_path (pe_root env) row) = map_of (w_disk (mem s)) (row_disk_path (pe_root env) row))"
proof -
  let ?R = "set (rows (db_files (dbase s)))" and ?D = "map_of (w_disk (mem s))"
  have "\<forall>row \<in> ?R. f_FilePath (fm_File row) \<noteq> staging_path token req"
    using fresh by (simp add: free_path_def)
  from keepsD_eq[OF store_keeps_protected[where D = ?D, OF req token hash this] run]
  have "protected (pe_root env) ?R ?D s'" by (simp add: protected_def)
  then show ?thesis using row by (auto simp: protected_def)
qed

section \<open>What a successful upload leaves behind\<close>

lemma discard_not_Ok: "discard_and_fail root p e s \<noteq> (Ok a, s')"
  by (auto simp: discard_and_fail_def bindM_eq_Ok)

lemma or_discard_Ok:
  "or_discard root p m f s = (Ok b, s') \<longleftrightarrow> (\<exists>a s1. m s = (Ok a, s1) \<and> f a s1 = (Ok b, s'))"
  by (auto simp: or_discard_def bindM_eq_Ok tryM_eq_Ok discard_not_Ok)

lemma on_disk_Ok:
  "on_disk f s = (Ok a, s') \<Longrightarrow>
     dbase s' = dbase s \<and> fst (f (w_disk (mem s))) = Ok a \<and> w_disk (mem s') = snd (f (w_disk (mem s)))"
  by (auto simp: on_disk_def iocall_def Let_def split: prod.splits if_splits)

lemma SaveToTempFolder_Ok:
  assumes "SaveToTempFolder root u p content s = (Ok q, s')"
  shows "dbase s' = dbase s \<and> q = path_Join [tmpFolder, FormatInt u, p] \<and>
    map_of (w_disk (mem s')) (path_Join [root, q]) = Some content"
  using assms
  by (auto simp: SaveToTempFolder_def Let_def bindM_eq_Ok os_write_def update_conv' dest!: on_disk_Ok)

lemma check_cover_Ok:
  assumes "check_cover env name tmp s = (Ok v, s')"
  shows "dbase s' = dbase s \<and> w_disk (mem s') = w_disk (mem s) \<and> v = isCoverImageUpload name"
proof (cases "isCoverImageUpload name")
  case True
  then obtain c s1 where c: "GetFile (pe_root env) tmp s = (Ok c, s1)"
    and k: "(case verifyImage (pe_decodeImage env) (ascii_lower (path_Ext name)) c of
       Ok _ \<Rightarrow> returnM True | Err e \<Rightarrow> discard_and_fail (pe_root env) tmp e | Panic \<Rightarrow> panicM) s1 = (Ok v, s')"
    using assms by (auto simp: check_cover_def or_discard_Ok)
  have "v \<and> s' = s1"
    using k by (cases "verifyImage (pe_decodeImage env) (ascii_lower (path_Ext name)) c")
      (auto simp: discard_not_Ok)
  then show ?thesis
    using c True by (auto simp: GetFile_def os_open_def dest!: on_disk_Ok split: option.splits)
qed (use assms in \<open>simp add: check_cover_def\<close>)

lemma Move_Ok:
  assumes "Move root p q s = (Ok u, s')" "path_Join [root, p] \<noteq> path_Join [root, q]"
  shows "dbase s' = dbase s \<and>
    map_of (w_disk (mem s')) (path_Join [root, q]) = map_of (w_disk (mem s)) (path_Join [root, p]) \<and>
    map_of (w_disk (mem s')) (path_Join [root, p]) = None"
  using assms
  by (auto simp: Move_def bindM_eq_Ok copy_atomically_def os_copy_def os_remove_def update_conv' delete_conv'
      dest!: on_disk_Ok split: option.splits)

lemma FM_GetByHash_Ok:
  "FM_GetByHash h u s = (Ok row, s') \<Longrightarrow> dbase s' = dbase s \<and> mem s' = mem s \<and>
     row \<in> set (rows (db_files (dbase s))) \<and> f_ContentHash (fm_File row) = h \<and> fm_AddedById row = u"
  by (auto simp: FM_GetByHash_def dbcall_cases dest!: fm_GetByHash_Ok[OF sym])

definition has_hash :: "string \<Rightarrow> int \<Rightarrow> database \<Rightarrow> bool" where
  "has_hash h u d \<longleftrightarrow> (\<exists>row \<in> set (rows (db_files d)). f_ContentHash (fm_File row) = h \<and> fm_AddedById row = u)"

lemma FM_GetByHash_NotFound:
  "FM_GetByHash h u s = (Err ErrNotFound, s') \<Longrightarrow> dbase s' = dbase s \<and> mem s' = mem s \<and> \<not> has_hash h u (dbase s)"
  by (auto simp: FM_GetByHash_def dbcall_cases fm_GetByHash_def tbl_find_None has_hash_def split: option.splits)

lemma FM_Add_Ok:
  assumes "FM_Add req s = (Ok i, s')"
  shows "mem s' = mem s \<and> i = next_id (db_files (dbase s)) \<and> dbase s' = (dbase s)\<lparr>db_files := db_files (dbase s')\<rparr> \<and>
    (\<exists>row \<in> set (rows (db_files (dbase s'))). fm_Id row = i \<and>
       fm_File row = (fm_File req)\<lparr>f_Duration := whole_seconds (f_Duration (fm_File req))\<rparr> \<and>
       fm_AddedById row = fm_AddedById req)"
  using assms
  by (auto simp: FM_Add_def db_add_file_def dbcall_cases fm_Add_def Let_def split: prod.splits if_splits)

lemma register_Ok:
  assumes "register_upload env req p n h v s = (Ok (i, q), s')"
  shows "q = p \<and> w_disk (mem s') = w_disk (mem s) \<and>
    (\<exists>t. fm_GetTotalSizeByUser (ur_UserId req) (db_files (dbase s)) = Ok t \<and> i64 (t + n) \<le> ur_MaxTotalUploadBytes req) \<and>
    (\<exists>row \<in> set (rows (db_files (dbase s'))). fm_Id row = i \<and>
       fm_File row = \<lparr>f_FilePath = p, f_SizeBytes = n, f_Duration = 0, f_Verified = v, f_ContentHash = h\<rparr> \<and>
       fm_AddedById row = ur_UserId req)"
proof -
  obtain t s1 where t: "FM_GetTotalSizeByUser (ur_UserId req) s = (Ok t, s1)"
    and rest: "(if i64 (t + n) > ur_MaxTotalUploadBytes req
       then discard_and_fail (pe_root env) p ErrTotalUploadSizeLimitExceeded
       else
         bindM (FM_Add \<lparr>fm_Id = 0,
             fm_File = \<lparr>f_FilePath = p, f_SizeBytes = n, f_Duration = 0, f_Verified = v, f_ContentHash = h\<rparr>,
             fm_AddedById = ur_UserId req, fm_StorageId = uuid_Nil\<rparr>) (\<lambda>fileId.
         bindM (if isCoverImageUpload (ur_FileNameWithExt req) then returnM (Inr ())
                else tryM (JOB_EnqueueAudioParseJob fileId p)) (\<lambda>_.
         returnM (fileId, p)))) s1 = (Ok (i, q), s')"
    using assms unfolding register_upload_def or_discard_Ok by blast
  have db1: "dbase s1 = dbase s" "mem s1 = mem s"
    "fm_GetTotalSizeByUser (ur_UserId req) (db_files (dbase s)) = Ok t"
    using t by (auto simp: FM_GetTotalSizeByUser_def dbcall_cases)
  have le: "i64 (t + n) \<le> ur_MaxTotalUploadBytes req"
    using rest by (cases "i64 (t + n) > ur_MaxTotalUploadBytes req") (auto simp: discard_not_Ok)
  then obtain s2 s3 x where add: "FM_Add \<lparr>fm_Id = 0,
             fm_File = \<lparr>f_FilePath = p, f_SizeBytes = n, f_Duration = 0, f_Verified = v, f_ContentHash = h\<rparr>,
             fm_AddedById = ur_UserId req, fm_StorageId = uuid_Nil\<rparr> s1 = (Ok i, s2)"
    and job: "(if isCoverImageUpload (ur_FileNameWithExt req) then returnM (Inr ())
                else tryM (JOB_EnqueueAudioParseJob i p)) s2 = (Ok x, s3)"
    and fin: "q = p" "s' = s3"
    using rest by (auto simp: bindM_eq_Ok)
  have "mem s3 = mem s2 \<and> db_files (dbase s3) = db_files (dbase s2)"
    using job by (auto simp: tryM_eq_Ok JOB_EnqueueAudioParseJob_def on_jobs_def dbcall_cases split: if_splits)
  moreover have "mem s2 = mem s1"
    using FM_Add_Ok[OF add] by blast
  moreover have "\<exists>row \<in> set (rows (db_files (dbase s2))). fm_Id row = i \<and>
       fm_File row = \<lparr>f_FilePath = p, f_SizeBytes = n, f_Duration = 0, f_Verified = v, f_ContentHash = h\<rparr> \<and>
       fm_AddedById row = ur_UserId req"
    using FM_Add_Ok[OF add, THEN conjunct2, THEN conjunct2, THEN conjunct2] by (simp add: whole_seconds_def)
  ultimately show ?thesis
    using db1 le fin by simp
qed

text \<open>The staging name starts with \<open>.upload-\<close>, so a file whose own name does not start that way lands
  elsewhere.\<close>

lemma staging_ne_target:
  assumes name: "\<not> has_prefix name ''.upload''" and x: "x = name \<or>
    x = trim_suffix name (path_Ext name) @ ''-'' @ take n h @ path_Ext name"
  shows "newStagingFileName token e \<noteq> x"
proof
  assume eq: "newStagingFileName token e = x"
  have p: "take 7 x = ''.upload''"
    by (simp flip: eq add: newStagingFileName_def stagingNamePrefix_def)
  obtain base k where base: "trim_suffix name (path_Ext name) = base" "base = take k name"
    by (auto simp: trim_suffix_def split: if_splits) (metis take_all_iff order_refl)
  have "take 7 name \<noteq> ''.upload''"
    using name by (simp add: has_prefix_def eval_nat_numeral)
  then have x: "x = base @ CHR ''-'' # take n h @ path_Ext name"
    using x p by (auto simp: base(1))
  show False
  proof (cases "7 \<le> length base")
    case True
    then have "take 7 x = take 7 name"
      by (simp add: x base(2) split: if_splits)
    then show False using p name by (simp add: has_prefix_def eval_nat_numeral)
  next
    case False
    have "x ! length base = CHR ''-''"
      unfolding x by (rule nth_append_length)
    moreover have "take 7 x ! length base = x ! length base"
      using False by (intro nth_take) simp
    ultimately have "take 7 x ! length base = CHR ''-''" by simp
    then have "''.upload'' ! length base = CHR ''-''" using p by (simp only:)
    moreover have "\<forall>i < 7. ''.upload'' ! i \<noteq> CHR ''-''" by code_simp
    ultimately show False using False by simp
  qed
qed

lemma staging_path_ne_target:
  assumes req: "request_ok req" and token: "slash \<notin> set token" and h: "slash \<notin> set h"
    and name: "\<not> has_prefix (ur_FileNameWithExt req) ''.upload''"
    and tp: "tp = path_Join [path_Dir (staging_path token req), ur_FileNameWithExt req] \<or>
       tp = disambiguated_path (path_Dir (staging_path token req)) (ur_FileNameWithExt req) h n"
  shows "path_Join [root, staging_path token req] \<noteq> path_Join [root, tp]"
proof
  let ?name = "ur_FileNameWithExt req" and ?s = "newStagingFileName token (path_Ext (ur_FileNameWithExt req))"
  obtain fsegs where f: "safe_segments fsegs"
    "staging_path token req = join_with [slash] ((tmpFolder # FormatInt (ur_UserId req) # fsegs) @ [?s])"
    "path_Dir (staging_path token req) = join_with [slash] (tmpFolder # FormatInt (ur_UserId req) # fsegs)"
    using staging_path_segments[OF req token] by metis
  let ?segs = "tmpFolder # FormatInt (ur_UserId req) # fsegs"
  have segs: "safe_segments ?segs" "?segs \<noteq> []"
    using f(1) FormatInt_safe tmp_safe by simp_all
  obtain x where x: "tp = path_Join [join_with [slash] ?segs, x]" "safe_segment x" "?s \<noteq> x"
    using tp staging_ne_target[OF name] disambiguated_name_safe[OF _ h] req
    unfolding f(3) disambiguated_path_def Let_def request_ok_def by metis
  have s: "safe_segment ?s"
    using staging_name_safe[OF token] req by (simp add: request_ok_def safe_segment_def)
  have tp: "tp = join_with [slash] (?segs @ [x])"
    unfolding x(1) by (rule path_Join_rel[OF segs x(2)])
  assume eq: "path_Join [root, staging_path token req] = path_Join [root, tp]"
  have "rel_path (staging_path token req)" "rel_path tp"
    unfolding f(2) tp rel_path_def using segs s x(2)
    by (intro exI[of _ "?segs @ [?s]"] exI[of _ "?segs @ [x]"]; simp)+
  then have "staging_path token req = tp"
    using eq path_Join_root_inj by blast
  then have "split_on slash (join_with [slash] (?segs @ [?s])) = split_on slash (join_with [slash] (?segs @ [x]))"
    unfolding f(2) tp by simp
  then have "?segs @ [?s] = ?segs @ [x]"
    using split_on_join[of "?segs @ [?s]" slash] split_on_join[of "?segs @ [x]" slash] segs s x(2)
    unfolding safe_segments_def safe_segment_def by (metis Un_iff append_is_Nil_conv empty_iff not_Cons_self2
        set_ConsD set_append list.set(1))
  then show False using x(3) by simp
qed

text \<open>C2: when an upload succeeds, the content fits the size limit and the returned id and path are those of a
  row that belongs to the user and carries the hash of the content.  Either the user had such a row already, or he had none,
  the path was free, the total size limit still holds with this file, and the file on disk at that path is the
  uploaded content.\<close>
theorem store_success:
  assumes run: "store env token req s = (Ok (i, p), s')"
    and req: "request_ok req" and token: "slash \<notin> set token"
    and hash: "\<And>c. slash \<notin> set (pe_sha256 env c)"
    and name: "\<not> has_prefix (ur_FileNameWithExt req) ''.upload''"
  shows "let content = limit_reader (ur_Content req) (i64 (ur_MaxSongSizeBytes req + 1)); h = pe_sha256 env content in
    int (length content) \<le> ur_MaxSongSizeBytes req \<and>
    (\<exists>row \<in> set (rows (db_files (dbase s'))). fm_Id row = i \<and> f_FilePath (fm_File row) = p \<and>
       fm_AddedById row = ur_UserId req \<and> f_ContentHash (fm_File row) = h) \<and>
    (has_hash h (ur_UserId req) (dbase s) \<and> db_files (dbase s') = db_files (dbase s) \<or>
     \<not> has_hash h (ur_UserId req) (dbase s) \<and> free_path p (dbase s) \<and>
     (\<exists>t. fm_GetTotalSizeByUser (ur_UserId req) (db_files (dbase s)) = Ok t \<and>
        i64 (t + int (length content)) \<le> ur_MaxTotalUploadBytes req) \<and>
     map_of (w_disk (mem s')) (path_Join [pe_root env, p]) = Some content)"
proof -
  let ?root = "pe_root env" and ?tmp = "staging_path token req" and ?name = "ur_FileNameWithExt req"
  define content where "content = limit_reader (ur_Content req) (i64 (ur_MaxSongSizeBytes req + 1))"
  define h where "h = pe_sha256 env content"
  obtain q s1 where save: "SaveToTempFolder ?root (ur_UserId req)
        (path_Join [ur_FolderRelDir req, newStagingFileName token (path_Ext ?name)]) content s = (Ok q, s1)"
    and rest: "(if int (length content) > ur_MaxSongSizeBytes req then discard_and_fail ?root q ErrSongSizeLimitExceeded
         else bindM (check_cover env ?name q) (\<lambda>verified.
           bindM (tryM (FM_GetByHash h (ur_UserId req))) (\<lambda>r. case r of
               Inr existing \<Rightarrow> bindM (tryM (DeleteTempFile ?root q)) (\<lambda>_.
                 returnM (fm_Id existing, f_FilePath (fm_File existing)))
             | Inl e \<Rightarrow> if e \<noteq> ErrNotFound then discard_and_fail ?root q e
                 else or_discard ?root q (resolveTargetPath (path_Dir q) ?name h) (\<lambda>targetPath.
                   or_discard ?root q (Move ?root q targetPath) (\<lambda>_.
                   register_upload env req targetPath (int (length content)) h verified))))) s1 = (Ok (i, p), s')"
    using run unfolding store_def Let_def content_def[symmetric] h_def[symmetric] by (auto simp: bindM_eq_Ok)
  have q: "q = ?tmp"
    using SaveToTempFolder_Ok[OF save] by (simp add: staging_path_def)
  have s1: "dbase s1 = dbase s" "map_of (w_disk (mem s1)) (path_Join [?root, ?tmp]) = Some content"
    using SaveToTempFolder_Ok[OF save] unfolding q by blast+
  have le: "int (length content) \<le> ur_MaxSongSizeBytes req"
    using rest by (cases "int (length content) > ur_MaxSongSizeBytes req") (auto simp: discard_not_Ok)
  then obtain v s2 x s3 where cover: "check_cover env ?name q s1 = (Ok v, s2)"
    and look: "tryM (FM_GetByHash h (ur_UserId req)) s2 = (Ok x, s3)"
    and k: "(case x of
               Inr existing \<Rightarrow> bindM (tryM (DeleteTempFile ?root q)) (\<lambda>_.
                 returnM (fm_Id existing, f_FilePath (fm_File existing)))
             | Inl e \<Rightarrow> if e \<noteq> ErrNotFound then discard_and_fail ?root q e
                 else or_discard ?root q (resolveTargetPath (path_Dir q) ?name h) (\<lambda>targetPath.
                   or_discard ?root q (Move ?root q targetPath) (\<lambda>_.
                   register_upload env req targetPath (int (length content)) h v))) s3 = (Ok (i, p), s')"
    using rest by (auto simp: bindM_eq_Ok)
  have s2: "dbase s2 = dbase s" "map_of (w_disk (mem s2)) (path_Join [?root, ?tmp]) = Some content"
    using check_cover_Ok[OF cover] s1 by simp_all
  show ?thesis
  proof (cases x)
    case (Inr row)
    have row: "dbase s3 = dbase s" "row \<in> set (rows (db_files (dbase s)))"
      "f_ContentHash (fm_File row) = h" "fm_AddedById row = ur_UserId req"
      using look Inr FM_GetByHash_Ok[of h "ur_UserId req" s2 row s3] s2 by (auto simp: tryM_eq_Ok)
    obtain y where y: "tryM (DeleteTempFile ?root q) s3 = (Ok y, s')"
      and ip: "i = fm_Id row" "p = f_FilePath (fm_File row)"
      using k Inr by (auto simp: bindM_eq_Ok)
    have "dbase s' = dbase s"
      using only_touchesD(1)[OF only_touches_try[OF only_touches_storage(2)] y] row by simp
    moreover have "has_hash h (ur_UserId req) (dbase s)"
      using row by (auto simp: has_hash_def)
    ultimately show ?thesis
      using le row ip by (auto simp: Let_def content_def[symmetric] h_def[symmetric])
  next
    case (Inl e)
    have e: "e = ErrNotFound" using k Inl by (cases "e = ErrNotFound") (auto simp: discard_not_Ok)
    have nf: "dbase s3 = dbase s" "mem s3 = mem s2" "\<not> has_hash h (ur_UserId req) (dbase s)"
      using look Inl e FM_GetByHash_NotFound[of h "ur_UserId req" s2 s3] s2 by (auto simp: tryM_eq_Ok)
    obtain tp s4 s5 u where res: "resolveTargetPath (path_Dir q) ?name h s3 = (Ok tp, s4)"
      and mv: "Move ?root q tp s4 = (Ok u, s5)"
      and reg: "register_upload env req tp (int (length content)) h v s5 = (Ok (i, p), s')"
      using k Inl e by (auto simp: or_discard_Ok)
    note c = resolveTargetPath_run[OF res]
    have shape: "tp = path_Join [path_Dir q, ?name] \<or> (\<exists>n. tp = disambiguated_path (path_Dir q) ?name h n)"
      using c by (elim conjE disjE exE) (simp, simp, blast, simp)
    have neq: "path_Join [?root, q] \<noteq> path_Join [?root, tp]"
      using shape staging_path_ne_target[OF req token _ name] hash unfolding q h_def by blast
    have free: "free_path tp (dbase s)" using c nf by auto
    have s5: "dbase s5 = dbase s" "map_of (w_disk (mem s5)) (path_Join [?root, tp]) = Some content"
      using Move_Ok[OF mv neq] c nf s2 q by simp_all
    note r = register_Ok[OF reg]
    then obtain row where row: "row \<in> set (rows (db_files (dbase s')))" "fm_Id row = i"
        "fm_File row = \<lparr>f_FilePath = tp, f_SizeBytes = int (length content), f_Duration = 0, f_Verified = v,
           f_ContentHash = h\<rparr>" "fm_AddedById row = ur_UserId req" and p: "p = tp"
      by blast
    have "\<exists>row \<in> set (rows (db_files (dbase s'))). fm_Id row = i \<and> f_FilePath (fm_File row) = p \<and>
       fm_AddedById row = ur_UserId req \<and> f_ContentHash (fm_File row) = h"
      using row p by (intro bexI[of _ row]) simp_all
    then show ?thesis
      using le nf free s5 r p by (simp add: Let_def content_def[symmetric] h_def[symmetric])
  qed
qed

section \<open>Examples\<close>

definition ex_env :: pipeline_env where
  "ex_env = \<lparr>pe_root = ''/d'', pe_sha256 = (\<lambda>c. if slash \<in> set c then [] else c), pe_decodeImage = (\<lambda>c. True)\<rparr>"

definition ex_req :: uploadRequest where
  "ex_req = \<lparr>ur_UserId = 7, ur_FileNameWithExt = ''a.mp3'', ur_FolderRelDir = ''m'', ur_Content = ''abcdef'',
     ur_MaxSongSizeBytes = 100, ur_MaxTotalUploadBytes = 1000\<rparr>"

definition ex_row :: FileMeta where
  "ex_row = \<lparr>fm_Id = 1, fm_File = \<lparr>f_FilePath = ''tmp/7/m/a.mp3'', f_SizeBytes = 3, f_Duration = 0,
      f_Verified = True, f_ContentHash = ''xyz''\<rparr>, fm_AddedById = 7, fm_StorageId = 1\<rparr>"

definition ex_state :: "(database, diskmem) st" where
  "ex_state = \<lparr>faults = [], dbase = empty_database\<lparr>db_files := \<lparr>rows = [ex_row], next_id = 2\<rparr>\<rparr>,
     mem = \<lparr>w_disk = [(''/d/tmp/7/m/a.mp3'', ''xyz'')]\<rparr>\<rparr>"

lemma ex_req_ok: "request_ok ex_req"
proof -
  have "safe_segment ''a.mp3'' \<and> safe_segments [''m''] \<and> ''m'' = join_with [slash] [''m'']"
    by (simp add: safe_segment_def)
  then show ?thesis unfolding request_ok_def ex_req_def by (intro conjI exI[of _ "[''m'']"]) simp_all
qed

lemma ex_hash_safe: "slash \<notin> set (pe_sha256 ex_env c)"
  by (simp add: ex_env_def)

lemma ex_rel: "plain_row ex_row"
proof -
  have "safe_segments [''tmp'', ''7'', ''m'', ''a.mp3''] \<and>
      ''tmp/7/m/a.mp3'' = join_with [slash] [''tmp'', ''7'', ''m'', ''a.mp3'']"
    by (simp add: safe_segment_def)
  then have "rel_path ''tmp/7/m/a.mp3''"
    unfolding rel_path_def by (intro exI[of _ "[''tmp'', ''7'', ''m'', ''a.mp3'']"]) simp
  then show ?thesis by (simp add: ex_row_def)
qed

lemma ex_fresh: "free_path (staging_path ''t'' ex_req) (dbase ex_state)"
  by code_simp

text \<open>The run of the example, one call at a time.\<close>

abbreviation ex_tmp :: string where "ex_tmp \<equiv> ''tmp/7/m/.upload-t.mp3''"
abbreviation ex_target :: string where "ex_target \<equiv> ''tmp/7/m/a-abcde.mp3''"

definition ex_state1 :: "(database, diskmem) st" where
  "ex_state1 = ex_state\<lparr>mem := \<lparr>w_disk = [(''/d/tmp/7/m/a.mp3'', ''xyz''), (''/d/tmp/7/m/.upload-t.mp3'', ''abcdef'')]\<rparr>\<rparr>"

definition ex_state2 :: "(database, diskmem) st" where
  "ex_state2 = ex_state\<lparr>mem := \<lparr>w_disk = [(''/d/tmp/7/m/a.mp3'', ''xyz''), (''/d/tmp/7/m/a-abcde.mp3'', ''abcdef'')]\<rparr>\<rparr>"

lemma ex_staging_name: "path_Join [''m'', newStagingFileName ''t'' (path_Ext ''a.mp3'')] = ''m/.upload-t.mp3''"
  by code_simp

lemma ex_tmp_path: "path_Join [tmpFolder, FormatInt 7, ''m/.upload-t.mp3''] = ex_tmp"
  by code_simp

lemma ex_tmp_full: "path_Join [''/d'', ex_tmp] = ''/d/tmp/7/m/.upload-t.mp3''"
  by code_simp

lemma ex_target_full: "path_Join [''/d'', ex_target] = ''/d/tmp/7/m/a-abcde.mp3''"
  by code_simp

lemma ex_tmp_dir: "path_Dir ex_tmp = ''tmp/7/m''"
  by code_simp

lemma ex_content: "limit_reader ''abcdef'' (i64 101) = ''abcdef''"
  by code_simp

lemma ex_cover: "check_cover ex_env ''a.mp3'' ex_tmp ex_state1 = (Ok False, ex_state1)"
  by code_simp

lemma ex_lookup: "FM_GetByHash ''abcdef'' 7 ex_state1 = (Err ErrNotFound, ex_state1)"
  by code_simp

lemma ex_target_free: "resolveTargetPath ''tmp/7/m'' ''a.mp3'' ''abcdef'' ex_state1 = (Ok ex_target, ex_state1)"
  by code_simp

lemma ex_register: "fst (register_upload ex_env ex_req ex_target 6 ''abcdef'' False ex_state2) = Ok (2, ex_target)"
  by code_simp

lemmas ex_steps = ex_staging_name ex_tmp_path ex_tmp_full ex_target_full ex_tmp_dir
  ex_content ex_cover ex_lookup ex_target_free ex_register


lemma ex_disk_steps:
  "SaveToTempFolder ''/d'' 7 ''m/.upload-t.mp3'' ''abcdef'' ex_state = (Ok ex_tmp, ex_state1)"
  "Move ''/d'' ex_tmp ex_target ex_state1 = (Ok (), ex_state2)"
  by (simp_all add: SaveToTempFolder_def Move_def copy_atomically_def os_write_def os_copy_def os_remove_def
      on_disk_def Let_def ex_steps ex_state_def ex_state1_def ex_state2_def)

lemma ex_store: "fst (store ex_env ''t'' ex_req ex_state) = Ok (2, ex_target)"
proof -
  have req: "ur_UserId ex_req = 7" "ur_FileNameWithExt ex_req = ''a.mp3''" "ur_FolderRelDir ex_req = ''m''"
    "ur_Content ex_req = ''abcdef''" "ur_MaxSongSizeBytes ex_req = 100"
    by (simp_all add: ex_req_def)
  have env: "pe_root ex_env = ''/d''" "pe_sha256 ex_env ''abcdef'' = ''abcdef''"
    by (simp_all add: ex_env_def)
  have "store ex_env ''t'' ex_req ex_state = register_upload ex_env ex_req ex_target 6 ''abcdef'' False ex_state2"
    by (simp add: store_def Let_def ex_steps ex_disk_steps or_discard_def tryM_def bindM_def req env)
  then show ?thesis by (simp only: ex_steps)
qed

lemma ex_resolve:
  "fst (resolveTargetPath ''tmp/7/m'' ''a.mp3'' ''abcdef'' ex_state) = Ok ''tmp/7/m/a-abcde.mp3''"
  by code_simp

text \<open>The examples upload a file to a path that a row already has; it lands at the next free path.\<close>

theorem resolveTargetPath_correct_witness:
  "\<exists>s'. resolveTargetPath ''tmp/7/m'' ''a.mp3'' ''abcdef'' ex_state = (Ok ''tmp/7/m/a-abcde.mp3'', s') \<and>
     dbase s' = dbase ex_state"
proof -
  obtain s' where run: "resolveTargetPath ''tmp/7/m'' ''a.mp3'' ''abcdef'' ex_state = (Ok ''tmp/7/m/a-abcde.mp3'', s')"
    using ex_resolve by (metis prod.collapse)
  then show ?thesis using resolveTargetPath_correct[OF run] by blast
qed

theorem store_protects_files_witness:
  "map_of (w_disk (mem (snd (store ex_env ''t'' ex_req ex_state)))) (row_disk_path ''/d'' ex_row) = Some ''xyz''"
proof -
  obtain r s' where run: "store ex_env ''t'' ex_req ex_state = (r, s')"
    by (cases "store ex_env ''t'' ex_req ex_state")
  have "slash \<notin> set ''t''" by simp
  moreover have "ex_row \<in> set (rows (db_files (dbase ex_state)))"
    by (simp add: ex_state_def)
  moreover have "map_of (w_disk (mem ex_state)) (row_disk_path ''/d'' ex_row) = Some ''xyz''"
    by code_simp
  moreover have "pe_root ex_env = ''/d''" by (simp add: ex_env_def)
  ultimately show ?thesis
    using store_protects_files[OF ex_req_ok _ ex_hash_safe ex_fresh run] ex_rel run by simp
qed

theorem store_success_witness:
  "\<exists>s'. store ex_env ''t'' ex_req ex_state = (Ok (2, ''tmp/7/m/a-abcde.mp3''), s') \<and>
     (\<exists>row \<in> set (rows (db_files (dbase s'))). fm_Id row = 2 \<and> f_FilePath (fm_File row) = ''tmp/7/m/a-abcde.mp3'')"
proof -
  obtain s' where run: "store ex_env ''t'' ex_req ex_state = (Ok (2, ''tmp/7/m/a-abcde.mp3''), s')"
    using ex_store by (metis prod.collapse)
  have "slash \<notin> set ''t''" "\<not> has_prefix (ur_FileNameWithExt ex_req) ''.upload''"
    by (simp_all add: has_prefix_def ex_req_def)
  from store_success[OF run ex_req_ok this(1) ex_hash_safe this(2)] show ?thesis
    using run by (auto simp: Let_def)
qed

end
