(* ===== verification/AtomicCopy.thy ===== *)
theory AtomicCopy
  imports LocalStorage
begin

text \<open>
  How the local storage copies a file (internal/storage/file_storage_providers/storage.go,
  \<open>copyFileAtomic\<close>, \<open>removeTempFile\<close>): into a temporary file beside the target, which is
  then renamed over it.  Every system call is a step of its own and may fail; the process may also stop
  after any of them.  The name of the temporary file is an argument: os.CreateTemp picks one
  nobody uses.

  The rest of the development uses the abstract copy \<open>copy_atomically\<close>; the facts here show that
  the steps implement it.
\<close>

section \<open>The steps\<close>

datatype copy_step =
    StatDir | OpenSource | CreateTemp | Chmod | CopyBytes | SyncFile | CloseFile | Rename

text \<open>What each step does to the disk when it works, given the source content.  The copy may stop half-way:
  \<open>n\<close> is how much of the content a failing or interrupted copy has written.\<close>

definition do_step ::
  "string option \<Rightarrow> string \<Rightarrow> string \<Rightarrow> copy_step \<Rightarrow> (string \<times> string) list \<Rightarrow> (string \<times> string) list"
where
  "do_step content dst tmp st d = (case st of
     CreateTemp \<Rightarrow> AList.update tmp [] d
   | CopyBytes \<Rightarrow> (case content of None \<Rightarrow> d | Some c \<Rightarrow> AList.update tmp c d)
   | Rename \<Rightarrow> (case map_of d tmp of None \<Rightarrow> d | Some c \<Rightarrow> AList.update dst c (AList.delete tmp d))
   | _ \<Rightarrow> d)"

definition partial_step ::
  "nat \<Rightarrow> string option \<Rightarrow> string \<Rightarrow> copy_step \<Rightarrow> (string \<times> string) list \<Rightarrow> (string \<times> string) list"
where
  "partial_step n content tmp st d = (case st of
     CopyBytes \<Rightarrow> (case content of None \<Rightarrow> d | Some c \<Rightarrow> AList.update tmp (take n c) d)
   | _ \<Rightarrow> d)"

text \<open>The cleanup after a failure: once the temporary file exists it is removed; the removal may fail too
  and is only logged.\<close>

definition cleanup :: "bool \<Rightarrow> string \<Rightarrow> copy_step \<Rightarrow> (string \<times> string) list \<Rightarrow> (string \<times> string) list" where
  "cleanup removed tmp st d =
     (if st \<in> {StatDir, OpenSource, CreateTemp} then d else if removed then AList.delete tmp d else d)"

definition step_fails :: "(copy_step \<Rightarrow> bool) \<Rightarrow> string option \<Rightarrow> copy_step \<Rightarrow> bool" where
  "step_fails fails content st \<longleftrightarrow> fails st \<or> st = OpenSource \<and> content = None"

fun run_steps ::
  "(copy_step \<Rightarrow> bool) \<Rightarrow> nat \<Rightarrow> bool \<Rightarrow> string option \<Rightarrow> string \<Rightarrow> string \<Rightarrow> copy_step list \<Rightarrow>
     (string \<times> string) list \<Rightarrow> unit outcome \<times> (string \<times> string) list"
where
  "run_steps fails n removed content dst tmp [] d = (Ok (), d)"
| "run_steps fails n removed content dst tmp (st # sts) d =
     (if step_fails fails content st
      then (Err ErrStorageFailure, cleanup removed tmp st (partial_step n content tmp st d))
      else run_steps fails n removed content dst tmp sts (do_step content dst tmp st d))"

definition copy_program :: "copy_step list" where
  "copy_program = [StatDir, OpenSource, CreateTemp, Chmod, CopyBytes, SyncFile, CloseFile, Rename]"

definition copyFileAtomic ::
  "(copy_step \<Rightarrow> bool) \<Rightarrow> nat \<Rightarrow> bool \<Rightarrow> string \<Rightarrow> string \<Rightarrow> string \<Rightarrow> (string \<times> string) list \<Rightarrow>
     unit outcome \<times> (string \<times> string) list"
where
  "copyFileAtomic fails n removed fullFromPath fullToPath tmpPath d =
     run_steps fails n removed (map_of d fullFromPath) fullToPath tmpPath copy_program d"

text \<open>Writing a stream into the storage takes the same steps, without opening a source; the stream may fail
  in the copy.\<close>

definition put_program :: "copy_step list" where
  "put_program = [CreateTemp, Chmod, CopyBytes, SyncFile, CloseFile, Rename]"

definition putFileAtomic ::
  "(copy_step \<Rightarrow> bool) \<Rightarrow> nat \<Rightarrow> bool \<Rightarrow> string \<Rightarrow> string \<Rightarrow> string \<Rightarrow> (string \<times> string) list \<Rightarrow>
     unit outcome \<times> (string \<times> string) list"
where
  "putFileAtomic fails n removed content fullPath tmpPath d =
     run_steps fails n removed (Some content) fullPath tmpPath put_program d"

text \<open>The disk when the process stops after \<open>k\<close> steps, with \<open>n\<close> bytes of a copy in progress.  Without a source
  the function returns before it has touched the disk.\<close>

definition crash_disk ::
  "nat \<Rightarrow> nat \<Rightarrow> string \<Rightarrow> string \<Rightarrow> string \<Rightarrow> (string \<times> string) list \<Rightarrow> (string \<times> string) list"
where
  "crash_disk k n src dst tmp d =
     (let d' = (if map_of d src = None then d
                else foldl (\<lambda>e st. do_step (map_of d src) dst tmp st e) d (take k copy_program)) in
      if k < length copy_program then partial_step n (map_of d src) tmp (copy_program ! k) d' else d')"

section \<open>What the steps implement\<close>

lemma do_step_simps [simp]:
  "do_step content dst tmp StatDir d = d" "do_step content dst tmp OpenSource d = d"
  "do_step content dst tmp Chmod d = d" "do_step content dst tmp SyncFile d = d" "do_step content dst tmp CloseFile d = d"
  "do_step content dst tmp CreateTemp d = AList.update tmp [] d"
  by (simp_all add: do_step_def)

lemma partial_step_simps [simp]:
  "st \<noteq> CopyBytes \<Longrightarrow> partial_step n content tmp st d = d"
  by (cases st) (simp_all add: partial_step_def)

text \<open>Steps before the rename touch nothing but the temporary file.\<close>

lemma do_step_other:
  "st \<noteq> Rename \<Longrightarrow> q \<noteq> tmp \<Longrightarrow> map_of (do_step content dst tmp st d) q = map_of d q"
  by (cases st) (auto simp: do_step_def update_conv' split: option.split)

lemma partial_step_other: "q \<noteq> tmp \<Longrightarrow> map_of (partial_step n content tmp st d) q = map_of d q"
  by (cases st) (auto simp: partial_step_def update_conv' split: option.split)

lemma cleanup_other: "q \<noteq> tmp \<Longrightarrow> map_of (cleanup removed tmp st d) q = map_of d q"
  by (simp add: cleanup_def delete_conv')

lemma run_steps_before_rename:
  assumes "Rename \<notin> set sts" "run_steps fails n removed content dst tmp sts d = (r, d')" "q \<noteq> tmp"
  shows "map_of d' q = map_of d q"
  using assms
  by (induction sts arbitrary: d)
    (auto split: if_splits simp: cleanup_other partial_step_other do_step_other)

lemma run_steps_Ok:
  assumes "Rename \<notin> set sts" "\<And>st. st \<in> set sts \<Longrightarrow> \<not> fails st" "content = Some c"
  shows "run_steps fails n removed content dst tmp (sts @ rest) d =
     run_steps fails n removed content dst tmp rest (foldl (\<lambda>d st. do_step content dst tmp st d) d sts)"
  using assms
  by (induction sts arbitrary: d) (auto simp: step_fails_def do_step_other)

text \<open>When a step fails the disk is as before, except perhaps for the temporary file.\<close>

lemma run_steps_Err:
  assumes "run_steps fails n removed content dst tmp sts d = (r, d')" "r \<noteq> Ok ()" "q \<noteq> tmp"
    and "Rename \<in> set sts \<Longrightarrow> sts = xs @ [Rename]" "Rename \<notin> set xs"
  shows "map_of d' q = map_of d q"
  using assms
proof (induction sts arbitrary: d xs)
  case (Cons st sts)
  show ?case
  proof (cases "step_fails fails content st")
    case True
    then show ?thesis using Cons.prems by (auto simp: cleanup_other partial_step_other)
  next
    case False
    then have run: "run_steps fails n removed content dst tmp sts (do_step content dst tmp st d) = (r, d')"
      using Cons.prems(1) by simp
    show ?thesis
    proof (cases "st = Rename")
      case True
      then have "sts = []" using Cons.prems(4,5) by (cases xs) auto
      then show ?thesis using run Cons.prems(2) by simp
    next
      case False
      have "map_of d' q = map_of (do_step content dst tmp st d) q"
        using Cons.prems(4,5) False
        by (intro Cons.IH[OF run Cons.prems(2,3), of "tl xs"]) (cases xs; auto)+
      then show ?thesis using do_step_other[OF False Cons.prems(3)] by simp
    qed
  qed
qed simp

lemma copy_program_split:
  "copy_program = butlast copy_program @ [Rename]" "Rename \<notin> set (butlast copy_program)"
  "st \<in> set copy_program"
  by (cases st; simp add: copy_program_def)+

lemma before_rename_disk:
  "map_of (foldl (\<lambda>d st. do_step (Some c) dst tmp st d) d (butlast copy_program)) = (map_of d)(tmp \<mapsto> c)"
  "map_of (foldl (\<lambda>d st. do_step (Some c) dst tmp st d) d (butlast put_program)) = (map_of d)(tmp \<mapsto> c)"
  by (simp_all add: copy_program_def put_program_def do_step_def update_conv')

lemma rename_step:
  "map_of d tmp = Some c \<Longrightarrow> map_of (do_step x dst tmp Rename d) = (map_of d)(tmp := None, dst \<mapsto> c)"
  by (auto simp: do_step_def update_conv' delete_conv')

lemma run_program_Ok:
  assumes "sts = butlast sts @ [Rename]" "Rename \<notin> set (butlast sts)" "\<And>st. \<not> fails st"
    and "map_of (foldl (\<lambda>d st. do_step (Some c) dst tmp st d) d (butlast sts)) = (map_of d)(tmp \<mapsto> c)" "map_of d tmp = None"
  shows "\<exists>d'. run_steps fails n removed (Some c) dst tmp sts d = (Ok (), d') \<and> map_of d' = (map_of d)(dst \<mapsto> c)"
proof -
  let ?d = "foldl (\<lambda>d st. do_step (Some c) dst tmp st d) d (butlast sts)"
  have run: "run_steps fails n removed (Some c) dst tmp sts d = run_steps fails n removed (Some c) dst tmp [Rename] ?d"
    by (subst assms(1)) (rule run_steps_Ok[OF assms(2,3)], simp)
  have "map_of (do_step (Some c) dst tmp Rename ?d) = (map_of d)(dst \<mapsto> c)"
    using rename_step[of ?d tmp c] assms(4,5) by (simp add: fun_upd_idem)
  then show ?thesis using run assms(3) by (simp add: step_fails_def)
qed

lemma copyFileAtomic_Ok:
  assumes src: "map_of d src = Some c" and ok: "\<And>st. \<not> fails st" and tmp: "map_of d tmp = None"
  shows "\<exists>d'. copyFileAtomic fails n removed src dst tmp d = (Ok (), d') \<and> map_of d' = (map_of d)(dst \<mapsto> c)"
  using run_program_Ok[OF copy_program_split(1,2) ok before_rename_disk(1) tmp] src by (simp add: copyFileAtomic_def)

lemma copyFileAtomic_Err:
  assumes run: "copyFileAtomic fails n removed src dst tmp d = (r, d')" and r: "r \<noteq> Ok ()" and q: "q \<noteq> tmp"
  shows "map_of d' q = map_of d q"
  using run_steps_Err[OF run[unfolded copyFileAtomic_def] r q copy_program_split(1,2)] by simp

lemma run_steps_fails:
  assumes "st \<in> set sts" "fails st"
  shows "fst (run_steps fails n removed content dst tmp sts d) = Err ErrStorageFailure"
  using assms by (induction sts arbitrary: d) (auto simp: step_fails_def)

lemma copyFileAtomic_fails:
  assumes "fails st \<or> map_of d src = None"
  shows "fst (copyFileAtomic fails n removed src dst tmp d) = Err ErrStorageFailure"
proof (cases "fails st")
  case True
  then show ?thesis
    unfolding copyFileAtomic_def by (rule run_steps_fails[OF copy_program_split(3)])
next
  case False
  then show ?thesis using assms by (simp add: copyFileAtomic_def copy_program_def step_fails_def)
qed

text \<open>A failure before the temporary file exists leaves none; a later one removes it, when that works.\<close>

lemma run_steps_removed:
  assumes "set sts \<subseteq> {Chmod, CopyBytes, SyncFile, CloseFile, Rename}"
    "fst (run_steps fails n True content dst tmp sts d) \<noteq> Ok ()"
  shows "map_of (snd (run_steps fails n True content dst tmp sts d)) tmp = None"
  using assms by (induction sts arbitrary: d) (auto simp: cleanup_def delete_conv')

lemma copyFileAtomic_removed:
  assumes "map_of d tmp = None" "fst (copyFileAtomic fails n True src dst tmp d) \<noteq> Ok ()"
  shows "map_of (snd (copyFileAtomic fails n True src dst tmp d)) tmp = None"
proof -
  let ?late = "[Chmod, CopyBytes, SyncFile, CloseFile, Rename]"
  have "copyFileAtomic fails n True src dst tmp d =
      (if \<exists>st \<in> {StatDir, OpenSource, CreateTemp}. step_fails fails (map_of d src) st then (Err ErrStorageFailure, d)
       else run_steps fails n True (map_of d src) dst tmp ?late (AList.update tmp [] d))"
    by (simp add: copyFileAtomic_def copy_program_def cleanup_def step_fails_def)
  note run = this
  show ?thesis
  proof (cases "\<exists>st \<in> {StatDir, OpenSource, CreateTemp}. step_fails fails (map_of d src) st")
    case True
    then show ?thesis using assms(1) unfolding run by simp
  next
    case False
    then show ?thesis
      using assms(2) run_steps_removed[of ?late fails n "map_of d src" dst tmp] unfolding run by simp
  qed
qed

lemma crash_disk_shape:
  assumes "tmp \<noteq> src" "map_of d tmp = None" "tmp \<noteq> dst"
  shows "map_of (crash_disk k n src dst tmp d) dst \<in> {map_of d dst, map_of d src} \<and>
    (\<forall>q. q \<noteq> tmp \<longrightarrow> q \<noteq> dst \<longrightarrow> map_of (crash_disk k n src dst tmp d) q = map_of d q)"
proof -
  have "k = 0 \<or> k = 1 \<or> k = 2 \<or> k = 3 \<or> k = 4 \<or> k = 5 \<or> k = 6 \<or> k = 7 \<or> 8 \<le> k" by linarith
  then show ?thesis
    using assms
    by (elim disjE) (auto simp: crash_disk_def copy_program_def Let_def do_step_def partial_step_def
        update_conv' delete_conv' split: option.splits)
qed

text \<open>Writing a stream: the abstract write \<open>os_write\<close> when no call fails, and nothing but the temporary file otherwise.\<close>

lemma put_program_split:
  "put_program = butlast put_program @ [Rename]" "Rename \<notin> set (butlast put_program)"
  by (simp_all add: put_program_def)

lemma putFileAtomic_atomic:
  assumes "putFileAtomic fails n removed content dst tmp d = (r, d')" "map_of d tmp = None"
  shows "(\<forall>st. \<not> fails st) \<Longrightarrow> r = Ok () \<and> map_of d' = (map_of d)(dst \<mapsto> content)"
    and "r \<noteq> Ok () \<Longrightarrow> q \<noteq> tmp \<Longrightarrow> map_of d' q = map_of d q"
  using run_program_Ok[OF put_program_split _ before_rename_disk(2) assms(2), where fails = fails and c = content and dst = dst and n = n and removed = removed] assms(1)
    run_steps_Err[OF assms(1)[unfolded putFileAtomic_def], of q, OF _ _ put_program_split]
  by (auto simp: putFileAtomic_def)

text \<open>C4: the copy is atomic.  It succeeds exactly when no system call fails and the source exists, and then it has the effect of
  the abstract copy the rest of the model uses; when it fails, the disk is as before, except that a
  temporary file is left when its removal failed; and if the process stops at any point, the target has its old content
  or the whole new one, never a part, and no other file has changed.\<close>
theorem copyFileAtomic_atomic:
  assumes tmp: "tmp \<noteq> src" "tmp \<noteq> dst" "map_of d tmp = None"
  shows "let (r, d') = copyFileAtomic fails n removed src dst tmp d; dc = crash_disk k n src dst tmp d in
     (if map_of d src \<noteq> None \<and> \<not> (\<exists>st. fails st)
      then r = Ok () \<and> map_of d' = (map_of d)(dst := map_of d src)
      else r = Err ErrStorageFailure \<and>
        map_of d' = (map_of d)(tmp := (if removed then None else map_of d' tmp))) \<and>
     (map_of dc dst = map_of d dst \<or> map_of dc dst = map_of d src) \<and>
     map_of dc = (map_of d)(dst := map_of dc dst, tmp := map_of dc tmp)"
proof -
  let ?dc = "crash_disk k n src dst tmp d"
  obtain r d' where run: "copyFileAtomic fails n removed src dst tmp d = (r, d')"
    by (cases "copyFileAtomic fails n removed src dst tmp d")
  have dc: "map_of ?dc dst = map_of d dst \<or> map_of ?dc dst = map_of d src"
    "map_of ?dc = (map_of d)(dst := map_of ?dc dst, tmp := map_of ?dc tmp)"
    using crash_disk_shape[OF tmp(1) tmp(3) tmp(2), of k n] by (auto simp: fun_eq_iff)
  show ?thesis
  proof (cases "map_of d src \<noteq> None \<and> \<not> (\<exists>st. fails st)")
    case True
    then obtain c where c: "map_of d src = Some c" by auto
    have "r = Ok () \<and> map_of d' = (map_of d)(dst := map_of d src)"
      using copyFileAtomic_Ok[OF c _ tmp(3), of fails n removed dst] True run c by auto
    then show ?thesis using run dc True by simp
  next
    case False
    then obtain st where "fails st \<or> map_of d src = None" by auto
    then have r: "r = Err ErrStorageFailure"
      using copyFileAtomic_fails[of fails st d src n removed dst tmp] run by simp
    have same: "map_of d' q = map_of d q" if "q \<noteq> tmp" for q
      using copyFileAtomic_Err[OF run _ that] r by simp
    have "removed \<Longrightarrow> map_of d' tmp = None"
      using copyFileAtomic_removed[OF tmp(3), of fails n src dst] run r by simp
    then have "map_of d' = (map_of d)(tmp := (if removed then None else map_of d' tmp))"
      using same by (auto simp: fun_eq_iff)
    then show ?thesis using run dc False r by simp
  qed
qed

text \<open>A copy whose rename fails, over an existing file.\<close>

theorem copyFileAtomic_atomic_witness:
  "fst (copyFileAtomic (\<lambda>st. st = Rename) 0 True ''a'' ''b'' ''t'' [(''a'', ''new''), (''b'', ''old'')]) =
     Err ErrStorageFailure \<and>
   map_of (snd (copyFileAtomic (\<lambda>st. st = Rename) 0 True ''a'' ''b'' ''t'' [(''a'', ''new''), (''b'', ''old'')])) ''b'' =
     Some ''old''"
proof -
  have "\<exists>st. (\<lambda>st. st = Rename) st" by blast
  then show ?thesis
    using copyFileAtomic_atomic[of "''t''" "''a''" "''b''" "[(''a'', ''new''), (''b'', ''old'')]"
        "\<lambda>st. st = Rename" 0 True 0] by (auto simp: Let_def split: prod.splits)
qed

end
