(* ===== verification/TorrentClient.thy ===== *)
theory TorrentClient
  imports AudioFormat Tables
begin

text \<open>
  The bittorrent library as the backend sees it (github.com/anacrolix/torrent, not part of the
  repository): a record of the functions the code calls on the client and on torrent handles, an
  argument of every definition that uses it.  The client's own state has type 'c, handles have
  type 'h, parsed metainfo files and magnet specifications have type 'mi.

  \<open>client_laws\<close> states the documented behaviour the proofs rely on: a torrent is looked up by its info hash after it was
  added and until it is dropped, adding an info hash the client already has gives the same torrent, and
  setting the priority of one file changes that priority and nothing else.

  On top of it: what a torrent job downloads (internal/service/v1/torrent_client.go and the list of files of
  torrent_files.go and torrent_magnet_uri.go).
\<close>

record torrent_file =
  tf_Path :: string
  tf_Length :: int
  tf_BytesCompleted :: int
  tf_Priority :: nat

record torrent_info =
  ti_BestName :: string
  ti_FilesLen :: nat
  ti_Length :: int
  ti_Upverted :: "(string list \<times> int) list"
  ti_Private :: "bool option"

record ('c, 'h, 'mi) torrent_lib =
  tl_FromHexString :: "string \<Rightarrow> nat option"
  tl_Torrent :: "'c \<Rightarrow> nat \<Rightarrow> 'h option"
  tl_AddTorrent :: "'mi \<Rightarrow> 'c \<Rightarrow> 'h outcome \<times> 'c"
  tl_AddTorrentSpec :: "'mi \<Rightarrow> 'c \<Rightarrow> 'h outcome \<times> 'c"
  tl_Drop :: "'h \<Rightarrow> 'c \<Rightarrow> 'c"
  tl_Info :: "'c \<Rightarrow> 'h \<Rightarrow> torrent_info option"
  tl_Files :: "'c \<Rightarrow> 'h \<Rightarrow> torrent_file list"
  tl_SetPriority :: "'h \<Rightarrow> nat \<Rightarrow> nat \<Rightarrow> 'c \<Rightarrow> 'c"
  tl_AllowDataDownload :: "'h \<Rightarrow> 'c \<Rightarrow> 'c"
  tl_DisallowDataDownload :: "'h \<Rightarrow> 'c \<Rightarrow> 'c"
  tl_Name :: "'c \<Rightarrow> 'h \<Rightarrow> string"
  tl_UpvertedAnnounceList :: "'c \<Rightarrow> 'h \<Rightarrow> string list list"
  tl_Load :: "string \<Rightarrow> 'mi outcome"
  tl_UnmarshalInfo :: "'mi \<Rightarrow> torrent_info outcome"
  tl_HashInfo :: "'mi \<Rightarrow> string"
  tl_ParseMagnetUri :: "string \<Rightarrow> (string \<times> string) outcome"
  tl_SpecFromMagnetUri :: "string \<Rightarrow> 'mi outcome"
  tl_MagnetString :: "nat \<Rightarrow> string \<Rightarrow> string list \<Rightarrow> string"

abbreviation PiecePriorityNone :: nat where "PiecePriorityNone \<equiv> 0"
abbreviation PiecePriorityNormal :: nat where "PiecePriorityNormal \<equiv> 1"

definition set_file_priority :: "nat \<Rightarrow> nat \<Rightarrow> torrent_file list \<Rightarrow> torrent_file list" where
  "set_file_priority i p fs = (if i < length fs then fs[i := (fs ! i)\<lparr>tf_Priority := p\<rparr>] else fs)"

definition law_Drop :: "('c, 'h, 'mi) torrent_lib \<Rightarrow> bool" where
  "law_Drop L \<longleftrightarrow> (\<forall>h c k. tl_Torrent L (tl_Drop L h c) k =
     (if tl_Torrent L c k = Some h then None else tl_Torrent L c k))"

definition law_SetPriority :: "('c, 'h, 'mi) torrent_lib \<Rightarrow> bool" where
  "law_SetPriority L \<longleftrightarrow>
     (\<forall>h i p c k. tl_Torrent L (tl_SetPriority L h i p c) k = tl_Torrent L c k) \<and>
     (\<forall>h i p c h'. tl_Files L (tl_SetPriority L h i p c) h' =
        (if h' = h then set_file_priority i p (tl_Files L c h) else tl_Files L c h'))"

definition law_DataDownload :: "('c, 'h, 'mi) torrent_lib \<Rightarrow> bool" where
  "law_DataDownload L \<longleftrightarrow>
     (\<forall>h c k. tl_Torrent L (tl_AllowDataDownload L h c) k = tl_Torrent L c k) \<and>
     (\<forall>h c k. tl_Torrent L (tl_DisallowDataDownload L h c) k = tl_Torrent L c k)"

text \<open>A torrent handle stands for one info hash, and two hash strings the library prints for the same
  hash are the same string.\<close>

definition law_Handle :: "('c, 'h, 'mi) torrent_lib \<Rightarrow> bool" where
  "law_Handle L \<longleftrightarrow> (\<forall>c k k' h. tl_Torrent L c k = Some h \<longrightarrow> tl_Torrent L c k' = Some h \<longrightarrow> k = k')"

definition law_Hex :: "('c, 'h, 'mi) torrent_lib \<Rightarrow> bool" where
  "law_Hex L \<longleftrightarrow> (\<forall>mi mi' k. tl_FromHexString L (tl_HashInfo L mi) = Some k \<longrightarrow>
     tl_FromHexString L (tl_HashInfo L mi') = Some k \<longrightarrow> tl_HashInfo L mi = tl_HashInfo L mi')"

text \<open>What a call that adds a torrent leaves behind, for either way of adding one.\<close>

definition added_ok :: "('c, 'h, 'mi) torrent_lib \<Rightarrow> 'mi \<Rightarrow> 'c \<Rightarrow> 'h \<Rightarrow> 'c \<Rightarrow> bool" where
  "added_ok L mi c h c' \<longleftrightarrow>
     (\<exists>k. tl_FromHexString L (tl_HashInfo L mi) = Some k \<and> tl_Torrent L c' k = Some h \<and>
        (\<forall>k'. k' \<noteq> k \<longrightarrow> tl_Torrent L c' k' = tl_Torrent L c k') \<and>
        (\<forall>h0. tl_Torrent L c k = Some h0 \<longrightarrow> h0 = h))"

definition adds_torrents :: "('c, 'h, 'mi) torrent_lib \<Rightarrow> ('mi \<Rightarrow> 'c \<Rightarrow> 'h outcome \<times> 'c) \<Rightarrow> bool" where
  "adds_torrents L add \<longleftrightarrow>
     (\<forall>mi c h c'. add mi c = (Ok h, c') \<longrightarrow> added_ok L mi c h c') \<and>
     (\<forall>mi c e c'. add mi c = (Err e, c') \<longrightarrow> (\<forall>k. tl_Torrent L c' k = tl_Torrent L c k)) \<and>
     (\<forall>mi c c'. add mi c \<noteq> (Panic, c'))"

definition law_Parse :: "('c, 'h, 'mi) torrent_lib \<Rightarrow> bool" where
  "law_Parse L \<longleftrightarrow>
     (\<forall>u h n sp. tl_ParseMagnetUri L u = Ok (h, n) \<longrightarrow> tl_SpecFromMagnetUri L u = Ok sp \<longrightarrow>
        tl_HashInfo L sp = h) \<and>
     (\<forall>u. tl_ParseMagnetUri L u \<noteq> Panic) \<and> (\<forall>u. tl_SpecFromMagnetUri L u \<noteq> Panic) \<and>
     (\<forall>b. tl_Load L b \<noteq> Panic) \<and> (\<forall>mi. tl_UnmarshalInfo L mi \<noteq> Panic)"

definition client_laws :: "('c, 'h, 'mi) torrent_lib \<Rightarrow> bool" where
  "client_laws L \<longleftrightarrow> law_Drop L \<and> law_SetPriority L \<and> law_DataDownload L \<and>
     adds_torrents L (tl_AddTorrent L) \<and> adds_torrents L (tl_AddTorrentSpec L) \<and> law_Parse L \<and>
     law_Handle L \<and> law_Hex L"

lemma client_laws_split:
  assumes "client_laws L"
  shows "law_Drop L" "law_SetPriority L" "law_DataDownload L"
    "adds_torrents L (tl_AddTorrent L)" "adds_torrents L (tl_AddTorrentSpec L)" "law_Parse L"
    "law_Handle L" "law_Hex L"
  using assms by (simp_all add: client_laws_def)

lemma Torrent_Drop:
  "client_laws L \<Longrightarrow>
   tl_Torrent L (tl_Drop L h c) k = (if tl_Torrent L c k = Some h then None else tl_Torrent L c k)"
  by (drule client_laws_split(1)) (simp add: law_Drop_def)

lemma Torrent_SetPriority: "client_laws L \<Longrightarrow> tl_Torrent L (tl_SetPriority L h i p c) k = tl_Torrent L c k"
  and Files_SetPriority: "client_laws L \<Longrightarrow> tl_Files L (tl_SetPriority L h i p c) h' =
        (if h' = h then set_file_priority i p (tl_Files L c h) else tl_Files L c h')"
  by (drule client_laws_split(2), simp add: law_SetPriority_def)+

lemma Torrent_DataDownload:
  "client_laws L \<Longrightarrow> tl_Torrent L (tl_AllowDataDownload L h c) k = tl_Torrent L c k"
  "client_laws L \<Longrightarrow> tl_Torrent L (tl_DisallowDataDownload L h c) k = tl_Torrent L c k"
  by (drule client_laws_split(3), simp add: law_DataDownload_def)+

lemma adds_torrents_Ok: "adds_torrents L add \<Longrightarrow> add mi c = (Ok h, c') \<Longrightarrow> added_ok L mi c h c'"
  and adds_torrents_Err:
    "adds_torrents L add \<Longrightarrow> add mi c = (Err e, c') \<Longrightarrow> tl_Torrent L c' k = tl_Torrent L c k"
  and adds_torrents_no_Panic: "adds_torrents L add \<Longrightarrow> add mi c \<noteq> (Panic, c')"
  unfolding adds_torrents_def by blast+

lemma same_handle:
  "client_laws L \<Longrightarrow> tl_Torrent L c k = Some h \<Longrightarrow> tl_Torrent L c k' = Some h \<Longrightarrow> k = k'"
  by (drule client_laws_split(7)) (unfold law_Handle_def, blast)

lemma same_hash:
  "client_laws L \<Longrightarrow> tl_FromHexString L (tl_HashInfo L mi) = Some k \<Longrightarrow>
   tl_FromHexString L (tl_HashInfo L mi') = Some k \<Longrightarrow> tl_HashInfo L mi = tl_HashInfo L mi'"
  by (drule client_laws_split(8)) (unfold law_Hex_def, blast)

lemma client_laws_magnet:
  assumes "client_laws L" "tl_ParseMagnetUri L u = Ok (h, n)" "tl_SpecFromMagnetUri L u = Ok sp"
  shows "tl_HashInfo L sp = h"
  using client_laws_split(6)[OF assms(1)] assms(2,3) unfolding law_Parse_def by blast

text \<open>A client that satisfies the laws: it keeps the list of registered info hashes and the files of each
  torrent, and a torrent is its own handle.  The examples use it; no theorem assumes it.\<close>

definition ex_hash :: "string \<Rightarrow> nat option" where
  "ex_hash s = (if s = [] then None else Some (length s))"

definition ex_lib :: "(nat list \<times> (nat \<Rightarrow> torrent_file list), nat, string) torrent_lib" where
  "ex_lib = \<lparr>
     tl_FromHexString = ex_hash,
     tl_Torrent = (\<lambda>(reg, fs) k. if k \<in> set reg then Some k else None),
     tl_AddTorrent = (\<lambda>mi (reg, fs). case ex_hash mi of
        None \<Rightarrow> (Err ErrMalformed, (reg, fs)) | Some k \<Rightarrow> (Ok k, (k # reg, fs))),
     tl_AddTorrentSpec = (\<lambda>mi (reg, fs). case ex_hash mi of
        None \<Rightarrow> (Err ErrMalformed, (reg, fs)) | Some k \<Rightarrow> (Ok k, (k # reg, fs))),
     tl_Drop = (\<lambda>h (reg, fs). (removeAll h reg, fs)),
     tl_Info = (\<lambda>(reg, fs) h. Some \<lparr>ti_BestName = ''a'', ti_FilesLen = 1, ti_Length = 0,
        ti_Upverted = [([''1.mp3''], 5)], ti_Private = None\<rparr>),
     tl_Files = (\<lambda>(reg, fs) h. fs h),
     tl_SetPriority = (\<lambda>h i p (reg, fs). (reg, fs(h := set_file_priority i p (fs h)))),
     tl_AllowDataDownload = (\<lambda>h c. c),
     tl_DisallowDataDownload = (\<lambda>h c. c),
     tl_Name = (\<lambda>c h. ''a''),
     tl_UpvertedAnnounceList = (\<lambda>c h. [[''udp'']]),
     tl_Load = (\<lambda>b. if b = [] then Err ErrMalformed else Ok b),
     tl_UnmarshalInfo = (\<lambda>mi. Ok \<lparr>ti_BestName = ''a'', ti_FilesLen = 1, ti_Length = 0,
        ti_Upverted = [([''1.mp3''], 5)], ti_Private = None\<rparr>),
     tl_HashInfo = (\<lambda>mi. replicate (length mi) CHR ''a''),
     tl_ParseMagnetUri = (\<lambda>u. if u = [] then Err ErrInvalidMagnet else Ok (replicate (length u) CHR ''a'', [])),
     tl_SpecFromMagnetUri = (\<lambda>u. if u = [] then Err ErrInvalidMagnet else Ok u),
     tl_MagnetString = (\<lambda>k n ts. n)\<rparr>"

lemma ex_lib_adds: "adds_torrents ex_lib (tl_AddTorrent ex_lib)" "adds_torrents ex_lib (tl_AddTorrentSpec ex_lib)"
  unfolding adds_torrents_def added_ok_def ex_lib_def by (auto simp: ex_hash_def split: option.splits if_splits)

lemma ex_lib_laws: "client_laws ex_lib"
  unfolding client_laws_def law_Drop_def law_SetPriority_def law_DataDownload_def law_Parse_def
    law_Handle_def law_Hex_def
  by (auto simp: ex_lib_adds) (auto simp: ex_lib_def ex_hash_def split: if_splits)

lemma ex_lib_Files: "tl_Files ex_lib (reg, fs) h = fs h"
  by (simp add: ex_lib_def)

definition ex_files :: "torrent_file list" where
  "ex_files = [\<lparr>tf_Path = ''a/1.mp3'', tf_Length = 5, tf_BytesCompleted = 0, tf_Priority = 0\<rparr>,
               \<lparr>tf_Path = ''a/readme.txt'', tf_Length = 9, tf_BytesCompleted = 0, tf_Priority = 0\<rparr>]"

lemma ex_supported:
  "isSupportedUpload ''a/1.mp3''" "IsSupported ''a/1.mp3''"
  "\<not> isSupportedUpload ''a/readme.txt''" "\<not> IsSupported ''a/readme.txt''"
  by code_simp+

lemma ex_audio: "List.filter IsSupported (List.map tf_Path ex_files) = [''a/1.mp3'']"
  by (simp add: ex_files_def ex_supported)

lemma ex_chosen:
  "List.filter (\<lambda>f. tf_Path f \<in> set [''a/1.mp3''] \<and> isSupportedUpload (tf_Path f)) ex_files = [ex_files ! 0]"
  by (simp add: ex_files_def ex_supported)

lemma ex_offered: "tf_Path ` {f \<in> set ex_files. isSupportedUpload (tf_Path f)} = {''a/1.mp3''}"
proof -
  have "{f \<in> set ex_files. isSupportedUpload (tf_Path f)} = set (List.filter (\<lambda>f. isSupportedUpload (tf_Path f)) ex_files)"
    by simp
  also have "\<dots> = {ex_files ! 0}"
    by (simp add: ex_files_def ex_supported)
  finally show ?thesis by (simp add: ex_files_def)
qed

section \<open>Selecting files\<close>

fun selectAudioFileNames_loop :: "string list \<Rightarrow> string list \<Rightarrow> string list \<Rightarrow> string list \<times> string list" where
  "selectAudioFileNames_loop [] selected skipped = (selected, skipped)"
| "selectAudioFileNames_loop (name # names) selected skipped =
     (if IsSupported name then selectAudioFileNames_loop names (selected @ [name]) skipped
      else selectAudioFileNames_loop names selected (skipped @ [name]))"

definition selectAudioFileNames :: "string list \<Rightarrow> string list \<times> string list" where
  "selectAudioFileNames names = selectAudioFileNames_loop names [] []"

definition audioFilesOf :: "('c, 'h, 'mi) torrent_lib \<Rightarrow> 'h \<Rightarrow> 'c \<Rightarrow> torrent_file list" where
  "audioFilesOf L h c = List.filter (\<lambda>f. IsSupported (tf_Path f)) (tl_Files L c h)"

fun applyAudioOnly_loop ::
  "('c, 'h, 'mi) torrent_lib \<Rightarrow> 'h \<Rightarrow> (nat \<times> torrent_file) list \<Rightarrow> 'c \<Rightarrow> 'c"
where
  "applyAudioOnly_loop L h [] c = c"
| "applyAudioOnly_loop L h ((i, file) # files) c =
     (if \<not> IsSupported (tf_Path file)
      then applyAudioOnly_loop L h files (tl_SetPriority L h i PiecePriorityNone c)
      else applyAudioOnly_loop L h files (tl_SetPriority L h i PiecePriorityNormal c))"

definition applyAudioOnlyPriority ::
  "('c, 'h, 'mi) torrent_lib \<Rightarrow> 'h \<Rightarrow> 'c \<Rightarrow> torrent_file list \<times> 'c"
where
  "applyAudioOnlyPriority L h c =
     (let c' = applyAudioOnly_loop L h (enumerate 0 (tl_Files L c h)) c in (audioFilesOf L h c', c'))"

fun applySelected_loop ::
  "('c, 'h, 'mi) torrent_lib \<Rightarrow> 'h \<Rightarrow> string set \<Rightarrow> (nat \<times> torrent_file) list \<Rightarrow> 'c \<Rightarrow>
     torrent_file list \<Rightarrow> string set \<Rightarrow> 'c \<times> torrent_file list \<times> string set"
where
  "applySelected_loop L h wanted [] c selected matched = (c, selected, matched)"
| "applySelected_loop L h wanted ((i, file) # files) c selected matched =
     (let filePath = tf_Path file in
      if filePath \<in> wanted \<and> isSupportedUpload filePath
      then applySelected_loop L h wanted files (tl_SetPriority L h i PiecePriorityNormal c)
             (selected @ [file]) (insert filePath matched)
      else applySelected_loop L h wanted files (tl_SetPriority L h i PiecePriorityNone c) selected matched)"

definition applySelectedPriority ::
  "('c, 'h, 'mi) torrent_lib \<Rightarrow> 'h \<Rightarrow> string list \<Rightarrow> 'c \<Rightarrow> torrent_file list outcome \<times> 'c"
where
  "applySelectedPriority L h selectedPaths c =
     (let wanted = set selectedPaths in
      case applySelected_loop L h wanted (enumerate 0 (tl_Files L c h)) c [] {} of
        (c', selected, matched) \<Rightarrow>
          if \<exists>p \<in> set selectedPaths. p \<notin> matched then (Err ErrTorrentInvalidSelection, c')
          else if selected = [] then (Err ErrTorrentInvalidSelection, c')
          else (Ok selected, c'))"

definition selectedFilesOf :: "('c, 'h, 'mi) torrent_lib \<Rightarrow> 'h \<Rightarrow> 'c \<Rightarrow> torrent_file list" where
  "selectedFilesOf L h c = List.filter (\<lambda>f. tf_Priority f \<noteq> PiecePriorityNone) (tl_Files L c h)"

record TorrentFileEntry =
  fe_Path :: string
  fe_SizeBytes :: int
  fe_Supported :: bool
  fe_Kind :: TorrentFileKind

definition torrentFileEntriesOf :: "torrent_info \<Rightarrow> TorrentFileEntry list" where
  "torrentFileEntriesOf info =
     List.map (\<lambda>(bestPath, len).
        let filePath = join_with [slash] (ti_BestName info # bestPath)
        in \<lparr>fe_Path = filePath, fe_SizeBytes = len, fe_Supported = isSupportedUpload filePath,
             fe_Kind = torrentFileKindOf filePath\<rparr>)
      (ti_Upverted info)"

section \<open>Trackers and magnet links\<close>

fun flatten_tier :: "string list \<Rightarrow> string list \<Rightarrow> string set \<Rightarrow> string list \<times> string set" where
  "flatten_tier [] trackers seen = (trackers, seen)"
| "flatten_tier (tracker # rest) trackers seen =
     (if tracker = [] \<or> tracker \<in> seen then flatten_tier rest trackers seen
      else flatten_tier rest (trackers @ [tracker]) (insert tracker seen))"

fun flatten_tiers :: "string list list \<Rightarrow> string list \<Rightarrow> string set \<Rightarrow> string list" where
  "flatten_tiers [] trackers seen = trackers"
| "flatten_tiers (tier # tiers) trackers seen =
     (case flatten_tier tier trackers seen of (trackers', seen') \<Rightarrow> flatten_tiers tiers trackers' seen')"

definition flattenAnnounceList :: "string list list \<Rightarrow> string list" where
  "flattenAnnounceList tiers = flatten_tiers tiers [] {}"

definition trackersOf :: "('c, 'h, 'mi) torrent_lib \<Rightarrow> 'h \<Rightarrow> 'c \<Rightarrow> string list" where
  "trackersOf L h c = flattenAnnounceList (tl_UpvertedAnnounceList L c h)"

definition isPrivateTorrent :: "('c, 'h, 'mi) torrent_lib \<Rightarrow> 'h \<Rightarrow> 'c \<Rightarrow> bool" where
  "isPrivateTorrent L h c =
     (case tl_Info L c h of None \<Rightarrow> False
      | Some info \<Rightarrow> (case ti_Private info of None \<Rightarrow> False | Some p \<Rightarrow> p))"

definition buildMagnetUri :: "('c, 'h, 'mi) torrent_lib \<Rightarrow> string \<Rightarrow> string \<Rightarrow> string list \<Rightarrow> string outcome" where
  "buildMagnetUri L infoHash name trackers =
     (case tl_FromHexString L infoHash of
        None \<Rightarrow> Err ErrInvalidInfoHash
      | Some hash \<Rightarrow> Ok (tl_MagnetString L hash name trackers))"

section \<open>Facts\<close>

lemma selectAudioFileNames_loop_eq:
  "selectAudioFileNames_loop names a b =
     (a @ List.filter IsSupported names, b @ List.filter (\<lambda>n. \<not> IsSupported n) names)"
  by (induction names a b rule: selectAudioFileNames_loop.induct) auto

text \<open>The first occurrences of a list's elements, in order.\<close>

definition first_seen :: "'a list \<Rightarrow> 'a list" where
  "first_seen xs = rev (remdups (rev xs))"

lemma remdups_snoc: "remdups (xs @ [x]) = List.filter (\<lambda>y. y \<noteq> x) (remdups xs) @ [x]"
  by (induction xs) auto

lemma first_seen_Nil [simp]: "first_seen [] = []"
  by (simp add: first_seen_def)

lemma first_seen_Cons: "first_seen (x # xs) = x # List.filter (\<lambda>y. y \<noteq> x) (first_seen xs)"
  by (simp add: first_seen_def remdups_snoc rev_filter)

lemma set_first_seen [simp]: "set (first_seen xs) = set xs"
  and distinct_first_seen [simp]: "distinct (first_seen xs)"
  by (simp_all add: first_seen_def)

lemma filter_neq_mem: "t \<in> S \<Longrightarrow> List.filter (\<lambda>y. y \<notin> S) (List.filter (\<lambda>y. y \<noteq> t) xs) = List.filter (\<lambda>y. y \<notin> S) xs"
  by (induction xs) auto

lemma filter_neq_insert:
  "List.filter (\<lambda>y. y \<notin> S) (List.filter (\<lambda>y. y \<noteq> t) xs) = List.filter (\<lambda>y. y \<notin> insert t S) xs"
  by (induction xs) auto

lemma flatten_tier_eq:
  "flatten_tier ts acc (set acc) =
     (let new = List.filter (\<lambda>t. t \<notin> set acc) (first_seen (List.filter (\<lambda>t. t \<noteq> []) ts))
      in (acc @ new, set (acc @ new)))"
proof (induction ts arbitrary: acc)
  case (Cons t ts)
  consider "t = []" | "t \<noteq> []" "t \<in> set acc" | "t \<noteq> []" "t \<notin> set acc" by blast
  then show ?case
  proof cases
    case 2
    then show ?thesis
      using Cons.IH[of acc] by (simp add: first_seen_Cons filter_neq_mem del: filter_filter)
  next
    case 3
    then have "flatten_tier (t # ts) acc (set acc) = flatten_tier ts (acc @ [t]) (set (acc @ [t]))"
      by simp
    then show ?thesis
      using Cons.IH[of "acc @ [t]"] 3
      by (simp add: Let_def first_seen_Cons filter_neq_insert del: filter_filter)
  qed (use Cons.IH[of acc] in simp)
qed simp

lemma first_seen_append:
  "first_seen (xs @ ys) = first_seen xs @ List.filter (\<lambda>y. y \<notin> set xs) (first_seen ys)"
proof (induction xs)
  case (Cons x xs)
  have "List.filter (\<lambda>y. y \<noteq> x) (List.filter (\<lambda>y. y \<notin> set xs) zs) =
      List.filter (\<lambda>y. y \<notin> set (x # xs)) zs" for zs
    by (induction zs) auto
  then show ?case using Cons.IH by (simp add: first_seen_Cons)
qed simp

lemma flatten_tiers_eq:
  "flatten_tiers tiers acc (set acc) =
     acc @ List.filter (\<lambda>t. t \<notin> set acc) (first_seen (List.filter (\<lambda>t. t \<noteq> []) (concat tiers)))"
proof (induction tiers arbitrary: acc)
  case (Cons tier tiers)
  let ?f = "List.filter (\<lambda>t. t \<noteq> [])"
  let ?new = "List.filter (\<lambda>t. t \<notin> set acc) (first_seen (?f tier))"
  have "List.filter (\<lambda>t. t \<notin> set (acc @ ?new)) zs =
      List.filter (\<lambda>t. t \<notin> set acc) (List.filter (\<lambda>t. t \<notin> set (?f tier)) zs)" for zs
    by (induction zs) auto
  then show ?case
    using Cons.IH[of "acc @ ?new"]
    by (simp add: flatten_tier_eq Let_def first_seen_append del: set_append set_filter)
qed simp

text \<open>Both selection loops set one priority per file, in order.\<close>

fun prio_loop ::
  "('c, 'h, 'mi) torrent_lib \<Rightarrow> 'h \<Rightarrow> (torrent_file \<Rightarrow> nat) \<Rightarrow> (nat \<times> torrent_file) list \<Rightarrow> 'c \<Rightarrow> 'c"
where
  "prio_loop L h pr [] c = c"
| "prio_loop L h pr ((i, f) # fs) c = prio_loop L h pr fs (tl_SetPriority L h i (pr f) c)"

lemma prio_loop_Torrent:
  "client_laws L \<Longrightarrow> tl_Torrent L (prio_loop L h pr fs c) k = tl_Torrent L c k"
  by (induction L h pr fs c rule: prio_loop.induct) (simp_all add: Torrent_SetPriority)

lemma prio_loop_other_Files:
  "client_laws L \<Longrightarrow> h' \<noteq> h \<Longrightarrow> tl_Files L (prio_loop L h pr fs c) h' = tl_Files L c h'"
  by (induction L h pr fs c rule: prio_loop.induct) (simp_all add: Files_SetPriority)

lemma prio_loop_Files_from:
  assumes "client_laws L" "length (tl_Files L c h) = n + length fs"
  shows "tl_Files L (prio_loop L h pr (enumerate n fs) c) h =
    take n (tl_Files L c h) @
    List.map2 (\<lambda>g f. g\<lparr>tf_Priority := pr f\<rparr>) (drop n (tl_Files L c h)) fs"
  using assms(2)
proof (induction fs arbitrary: n c)
  case (Cons f fs)
  let ?gs = "tl_Files L c h"
  let ?c' = "tl_SetPriority L h n (pr f) c"
  have n: "n < length ?gs" using Cons.prems by simp
  have gs': "tl_Files L ?c' h = ?gs[n := (?gs ! n)\<lparr>tf_Priority := pr f\<rparr>]"
    using n by (simp add: Files_SetPriority[OF assms(1)] set_file_priority_def)
  have "tl_Files L (prio_loop L h pr (enumerate n (f # fs)) c) h =
      take (Suc n) (tl_Files L ?c' h) @
      List.map2 (\<lambda>g f. g\<lparr>tf_Priority := pr f\<rparr>) (drop (Suc n) (tl_Files L ?c' h)) fs"
    using Cons.IH[of ?c' "Suc n"] Cons.prems gs' by simp
  then show ?case
    using n unfolding gs' by (simp add: take_Suc_conv_app_nth Cons_nth_drop_Suc[symmetric])
qed simp

lemma map2_same: "List.map2 g xs xs = List.map (\<lambda>x. g x x) xs"
  by (induction xs) auto

lemma prio_loop_Files:
  assumes "client_laws L"
  shows "tl_Files L (prio_loop L h pr (enumerate 0 (tl_Files L c h)) c) h =
    List.map (\<lambda>f. f\<lparr>tf_Priority := pr f\<rparr>) (tl_Files L c h)"
  using prio_loop_Files_from[OF assms, of c h 0 "tl_Files L c h" pr] by (simp add: map2_same)

definition wanted_file :: "string set \<Rightarrow> torrent_file \<Rightarrow> bool" where
  "wanted_file wanted f \<longleftrightarrow> tf_Path f \<in> wanted \<and> isSupportedUpload (tf_Path f)"

lemma applySelected_loop_eq:
  "applySelected_loop L h wanted fs c selected matched =
     (prio_loop L h (\<lambda>f. if wanted_file wanted f then PiecePriorityNormal else PiecePriorityNone) fs c,
      selected @ List.filter (wanted_file wanted) (List.map snd fs),
      matched \<union> tf_Path ` set (List.filter (wanted_file wanted) (List.map snd fs)))"
  by (induction L h wanted fs c selected matched rule: applySelected_loop.induct)
    (simp_all add: Let_def wanted_file_def)

lemma applyAudioOnly_loop_eq:
  "applyAudioOnly_loop L h fs c =
     prio_loop L h (\<lambda>f. if IsSupported (tf_Path f) then PiecePriorityNormal else PiecePriorityNone) fs c"
  by (induction L h fs c rule: applyAudioOnly_loop.induct) simp_all

text \<open>A file without its priority: what identifies it in the torrent.\<close>

definition file_id :: "torrent_file \<Rightarrow> string \<times> int \<times> int" where
  "file_id f = (tf_Path f, tf_Length f, tf_BytesCompleted f)"

lemma selectedFilesOf_prio:
  assumes "client_laws L"
    and "c' = prio_loop L h (\<lambda>f. if p f then PiecePriorityNormal else PiecePriorityNone)
           (enumerate 0 (tl_Files L c h)) c"
  shows "List.map file_id (selectedFilesOf L h c') = List.map file_id (List.filter p (tl_Files L c h))"
proof -
  have "List.map file_id (List.filter (\<lambda>f. tf_Priority f \<noteq> 0)
      (List.map (\<lambda>f. f\<lparr>tf_Priority := (if p f then 1 else 0)\<rparr>) fs)) =
      List.map file_id (List.filter p fs)" for fs
    by (induction fs) (auto simp: file_id_def)
  then show ?thesis
    using assms(2) by (simp add: selectedFilesOf_def prio_loop_Files[OF assms(1)])
qed

lemma map_snd_enumerate' [simp]: "List.map snd (enumerate n xs) = xs"
  by (induction xs arbitrary: n) auto

lemma applySelectedPriority_eq:
  "applySelectedPriority L h paths c =
     (let sel = List.filter (wanted_file (set paths)) (tl_Files L c h);
          c' = prio_loop L h (\<lambda>f. if wanted_file (set paths) f then PiecePriorityNormal else PiecePriorityNone)
                 (enumerate 0 (tl_Files L c h)) c
      in if (\<exists>p \<in> set paths. p \<notin> tf_Path ` set sel) \<or> sel = []
         then (Err ErrTorrentInvalidSelection, c') else (Ok sel, c'))"
  by (simp add: applySelectedPriority_def applySelected_loop_eq Let_def)

lemma applySelectedPriority_Torrent:
  "client_laws L \<Longrightarrow> tl_Torrent L (snd (applySelectedPriority L h paths c)) k = tl_Torrent L c k"
  by (simp add: applySelectedPriority_eq Let_def prio_loop_Torrent)

lemma applySelectedPriority_no_panic: "fst (applySelectedPriority L h paths c) \<noteq> Panic"
  by (simp add: applySelectedPriority_eq Let_def)

text \<open>C9: a selection is accepted exactly when it is not empty and every chosen path names a file of the
  torrent in a supported format; it then returns those files in torrent order.  Either way exactly the chosen supported files are left marked
  for download, no other torrent's priorities change, and no torrent is added or dropped.\<close>
theorem applySelectedPriority_exact:
  assumes "client_laws L"
  shows "let files = tl_Files L c h;
             chosen = List.filter (\<lambda>f. tf_Path f \<in> set paths \<and> isSupportedUpload (tf_Path f)) files;
             c' = snd (applySelectedPriority L h paths c)
         in fst (applySelectedPriority L h paths c) =
              (if paths \<noteq> [] \<and> set paths \<subseteq> tf_Path ` {f \<in> set files. isSupportedUpload (tf_Path f)}
               then Ok chosen else Err ErrTorrentInvalidSelection) \<and>
            List.map file_id (selectedFilesOf L h c') = List.map file_id chosen \<and>
            (\<forall>h'. h' \<noteq> h \<longrightarrow> tl_Files L c' h' = tl_Files L c h') \<and>
            (\<forall>k. tl_Torrent L c' k = tl_Torrent L c k)"
proof -
  let ?files = "tl_Files L c h"
  let ?chosen = "List.filter (wanted_file (set paths)) ?files"
  have chosen: "?chosen = List.filter (\<lambda>f. tf_Path f \<in> set paths \<and> isSupportedUpload (tf_Path f)) ?files"
    by (rule filter_cong) (simp_all add: wanted_file_def)
  have accept: "((\<exists>p \<in> set paths. p \<notin> tf_Path ` set ?chosen) \<or> ?chosen = []) \<longleftrightarrow>
      \<not> (paths \<noteq> [] \<and> set paths \<subseteq> tf_Path ` {f \<in> set ?files. isSupportedUpload (tf_Path f)})"
  proof (cases "paths = []")
    case True
    then show ?thesis by (simp add: wanted_file_def)
  next
    case False
    have "(\<exists>p \<in> set paths. p \<notin> tf_Path ` set ?chosen) \<longleftrightarrow>
        \<not> set paths \<subseteq> tf_Path ` {f \<in> set ?files. isSupportedUpload (tf_Path f)}"
      by (auto simp: wanted_file_def)
    moreover have "?chosen \<noteq> []" if "\<not> (\<exists>p \<in> set paths. p \<notin> tf_Path ` set ?chosen)"
    proof
      assume "?chosen = []"
      then have none: "tf_Path ` set ?chosen = {}" by (simp only: list.set image_empty)
      have "\<forall>p \<in> set paths. p \<in> tf_Path ` set ?chosen" using that by blast
      then have "set paths = {}" unfolding none by auto
      with False show False by simp
    qed
    ultimately show ?thesis using False by blast
  qed
  show ?thesis
    unfolding Let_def applySelectedPriority_eq chosen[symmetric] accept
    using selectedFilesOf_prio[OF assms refl, of h "wanted_file (set paths)" c]
    by (simp add: prio_loop_Torrent[OF assms] prio_loop_other_Files[OF assms])
qed

lemma applyAudioOnlyPriority_Torrent:
  "client_laws L \<Longrightarrow> tl_Torrent L (snd (applyAudioOnlyPriority L h c)) k = tl_Torrent L c k"
  by (simp add: applyAudioOnlyPriority_def Let_def applyAudioOnly_loop_eq prio_loop_Torrent)

lemma applySelectedPriority_exact_witness:
  "fst (applySelectedPriority ex_lib 7 [''a/1.mp3''] ([7], \<lambda>_. ex_files)) = Ok [ex_files ! 0] \<and>
   List.map file_id (selectedFilesOf ex_lib 7 (snd (applySelectedPriority ex_lib 7 [''a/1.mp3''] ([7], \<lambda>_. ex_files))))
     = [file_id (ex_files ! 0)]"
  using applySelectedPriority_exact[OF ex_lib_laws, of "([7], \<lambda>_. ex_files)" 7 "[''a/1.mp3'']"]
  unfolding Let_def ex_lib_Files ex_chosen ex_offered by simp

text \<open>Submitting a whole torrent marks exactly its audio files for download, and the list it goes on
  with is the list of files marked.\<close>
theorem applyAudioOnlyPriority_exact:
  assumes "client_laws L"
  shows "let (files, c') = applyAudioOnlyPriority L h c
         in files = selectedFilesOf L h c' \<and>
            List.map tf_Path files = fst (selectAudioFileNames (List.map tf_Path (tl_Files L c h))) \<and>
            (\<forall>k. tl_Torrent L c' k = tl_Torrent L c k)"
proof -
  let ?pr = "\<lambda>f. if IsSupported (tf_Path f) then PiecePriorityNormal else PiecePriorityNone"
  let ?c' = "prio_loop L h ?pr (enumerate 0 (tl_Files L c h)) c"
  have files: "tl_Files L ?c' h = List.map (\<lambda>f. f\<lparr>tf_Priority := ?pr f\<rparr>) (tl_Files L c h)"
    by (rule prio_loop_Files[OF assms])
  have "audioFilesOf L h ?c' = selectedFilesOf L h ?c'"
    unfolding audioFilesOf_def selectedFilesOf_def files
    by (rule filter_cong) (auto split: if_splits)
  moreover have "List.map tf_Path (audioFilesOf L h ?c') = List.filter IsSupported (List.map tf_Path (tl_Files L c h))"
    by (simp add: audioFilesOf_def files filter_map comp_def)
  ultimately show ?thesis
    using prio_loop_Torrent[OF assms]
    by (simp add: applyAudioOnlyPriority_def Let_def applyAudioOnly_loop_eq selectAudioFileNames_def
        selectAudioFileNames_loop_eq)
qed

lemma applyAudioOnlyPriority_exact_witness:
  "List.map tf_Path (fst (applyAudioOnlyPriority ex_lib 7 ([7], \<lambda>_. ex_files))) = [''a/1.mp3'']"
  using applyAudioOnlyPriority_exact[OF ex_lib_laws, of 7 "([7], \<lambda>_. ex_files)"]
  unfolding case_prod_unfold Let_def ex_lib_Files selectAudioFileNames_def selectAudioFileNames_loop_eq
    fst_conv append_Nil ex_audio
  by blast

text \<open>The flattened announce list holds every non-empty tracker of every tier exactly once, in the order of
  first appearance, and nothing else.\<close>
theorem flattenAnnounceList_correct:
  "flattenAnnounceList tiers = first_seen (List.filter (\<lambda>tracker. tracker \<noteq> []) (concat tiers)) \<and>
   distinct (flattenAnnounceList tiers) \<and>
   set (flattenAnnounceList tiers) = \<Union>(set ` set tiers) - {[]}"
proof -
  have "flattenAnnounceList tiers = first_seen (List.filter (\<lambda>tracker. tracker \<noteq> []) (concat tiers))"
    using flatten_tiers_eq[of tiers "[]"] by (simp add: flattenAnnounceList_def)
  then show ?thesis by auto
qed

end
