(* ===== verification/TorrentPaths.thy ===== *)
theory TorrentPaths
  imports PathSafety
begin

text \<open>
  Where a torrent's payload lies on disk and where its files go: the scratch path of
  internal/service/v1/torrent_client.go, and the containment check, the import folder and the source
  path of torrent_service.go.  The torrent's own name and file paths come from whoever made the
  torrent.  The working directory is an argument (os.Getwd may fail).

  The facts show that none of the three can leave the directory it is meant for.
\<close>

section \<open>Definitions\<close>

definition torrentScratchPath :: "string outcome \<Rightarrow> string \<Rightarrow> string \<Rightarrow> string outcome" where
  "torrentScratchPath getwd downloadDir torrentName =
     (if torrentName = [] then Err ErrUnexpected
      else bindO (filepath_Abs getwd downloadDir) (\<lambda>absDownloadDir.
        let candidate = path_Join [absDownloadDir, torrentName] in
        bindO (filepath_Abs getwd candidate) (\<lambda>absCandidate.
          if absCandidate \<noteq> absDownloadDir \<and> \<not> has_prefix absCandidate (absDownloadDir @ [slash])
          then Err ErrUnexpected
          else if absCandidate = absDownloadDir then Err ErrUnexpected
          else Ok absCandidate)))"

definition hasParentPrefix :: "string \<Rightarrow> bool" where
  "hasParentPrefix rel = (let prefix = ''../'' in length rel \<ge> length prefix \<and> take (length prefix) rel = prefix)"

definition isWithinDir :: "string \<Rightarrow> string \<Rightarrow> bool" where
  "isWithinDir dir candidate =
     (case filepath_Rel dir candidate of
        Ok rel \<Rightarrow> if rel = ''.'' \<or> rel = ''..'' then False else \<not> hasParentPrefix rel
      | _ \<Rightarrow> False)"

definition resolveTorrentFilePath :: "string outcome \<Rightarrow> string \<Rightarrow> string \<Rightarrow> string outcome" where
  "resolveTorrentFilePath getwd downloadDir torrentPath =
     bindO (filepath_Abs getwd downloadDir) (\<lambda>absDownloadDir.
       let candidate = path_Join [absDownloadDir, torrentPath] in
       if \<not> isWithinDir absDownloadDir candidate then Err ErrUnexpected else Ok candidate)"

fun sanitize_segments :: "string list \<Rightarrow> string list outcome" where
  "sanitize_segments [] = Ok []"
| "sanitize_segments (segment # rest) =
     bindO (SanitizeFolderName segment) (\<lambda>sanitized.
       bindO (sanitize_segments rest) (\<lambda>sanitizedRest. Ok (sanitized # sanitizedRest)))"

definition torrentImportFolder :: "string \<Rightarrow> string \<Rightarrow> string outcome" where
  "torrentImportFolder rootFolder torrentPath =
     (let torrentDir = path_Dir torrentPath in
      bindO (if torrentDir \<noteq> ''.'' then sanitize_segments (split_on slash torrentDir) else Ok [])
        (\<lambda>segments. Ok (path_Join (rootFolder # segments))))"

section \<open>Clean absolute paths\<close>

lemma split_build_abs:
  assumes "\<forall>s\<in>set segs. safe_segment s"
  shows "split_on slash (build_path True segs) = [] # (if segs = [] then [[]] else segs)"
  using assms split_on_join[of segs slash] by (auto simp: build_path_def safe_segment_def)

lemma clean_abs_split:
  assumes "is_abs p" "path_Clean p = p"
  shows "split_on slash p = [] # (if path_segments p = [] then [[]] else path_segments p)"
proof -
  have "p = build_path True (path_segments p)"
    using assms by (simp add: path_Clean_def)
  moreover have "\<forall>s\<in>set (path_segments p). safe_segment s"
    using path_segments_abs_safe assms(1) by blast
  ultimately show ?thesis using split_build_abs by metis
qed

lemma clean_prefix_strictly_under:
  assumes p: "is_abs p" "path_Clean p = p" and d: "is_abs d" "path_Clean d = d"
    and prefix: "has_prefix p (d @ [slash])"
  shows "strictly_under d p"
proof -
  obtain r where r: "p = d @ slash # r"
    using prefix by (auto simp: has_prefix_append)
  have split: "split_on slash p = split_on slash d @ split_on slash r"
    by (simp add: r split_on_append_sep)
  have sp: "split_on slash p = [] # (if path_segments p = [] then [[]] else path_segments p)"
    and sd: "split_on slash d = [] # (if path_segments d = [] then [[]] else path_segments d)"
    using clean_abs_split p d by auto
  have ne: "[] \<notin> set (path_segments p)"
    using path_segments_abs_safe[OF p(1)] safe_segment_ne by blast
  have eq: "(if path_segments p = [] then [[]] else path_segments p) =
      (if path_segments d = [] then [[]] else path_segments d) @ split_on slash r"
    using split sp sd by simp
  have "path_segments p \<noteq> []"
  proof
    assume "path_segments p = []"
    then have "(if path_segments d = [] then [[]] else path_segments d) @ split_on slash r = [[]]"
      using eq by simp
    then show False
      using split_on_ne[of slash r] by (auto simp: append_eq_Cons_conv split: if_splits)
  qed
  moreover have "path_segments d \<noteq> [] \<or> False"
  proof (rule ccontr)
    assume "\<not> (path_segments d \<noteq> [] \<or> False)"
    then have "path_segments p = [] # split_on slash r"
      using eq calculation by simp
    then show False using ne by simp
  qed
  ultimately have "path_segments p = path_segments d @ split_on slash r"
    using eq by simp
  then show ?thesis
    using p(1) by (auto simp: strictly_under_def)
qed

lemma filepath_Abs_clean:
  assumes "\<And>wd. getwd = Ok wd \<Longrightarrow> is_abs wd" and "filepath_Abs getwd p = Ok a"
  shows "is_abs a \<and> path_Clean a = a"
proof (cases "is_abs p")
  case True
  then show ?thesis
    using assms(2) by (auto simp: filepath_Abs_def path_Clean_idem_abs)
next
  case False
  then obtain wd where wd: "getwd = Ok wd" "a = path_Join [wd, p]" "is_abs wd"
    using assms by (auto simp: filepath_Abs_def bindO_eq_Ok)
  then have "wd \<noteq> []" by auto
  then obtain x where "a = path_Clean x" "is_abs x"
    using wd by (cases "p = []") (auto simp: path_Join_def Let_def)
  then show ?thesis by (simp add: path_Clean_idem_abs)
qed

lemma join_parents:
  "0 < n \<Longrightarrow> join_with [slash] (replicate n ''..'' @ rt) = ''..'' \<or>
     hasParentPrefix (join_with [slash] (replicate n ''..'' @ rt))"
  by (cases n; cases "replicate (n - 1) ''..'' @ rt") (auto simp: hasParentPrefix_def)

lemma isWithinDir_strict:
  assumes "is_abs d" "is_abs p" "isWithinDir d p"
  shows "strictly_under d p"
proof -
  obtain rd rp where split: "drop_common (path_segments d) (path_segments p) = (rd, rp)"
    by (cases "drop_common (path_segments d) (path_segments p)")
  obtain pre where pre: "path_segments d = pre @ rd" "path_segments p = pre @ rp"
    using drop_common_prefix[OF split] by blast
  have neq: "path_Clean d \<noteq> path_Clean p"
    using assms(3) by (auto simp: isWithinDir_def filepath_Rel_def)
  have safe: "\<not> (rd \<noteq> [] \<and> hd rd = ''..'')"
  proof
    assume "rd \<noteq> [] \<and> hd rd = ''..''"
    then have "''..'' \<in> set (path_segments d)" using pre by (cases rd) auto
    then show False using path_segments_abs_safe[OF assms(1)] by (auto simp: safe_segment_def)
  qed
  have rel: "filepath_Rel d p = Ok (join_with [slash] (replicate (length rd) ''..'' @ rp))"
    using neq split safe assms(1,2) by (auto simp: filepath_Rel_def)
  have "rd = []"
    using assms(3) join_parents[of "length rd" rp] by (auto simp: isWithinDir_def rel split: if_splits)
  moreover have "rp \<noteq> []"
    using calculation pre neq assms(1,2) path_Clean_inj_abs[of d p] by auto
  ultimately show ?thesis
    using pre assms(2) by (auto simp: strictly_under_def)
qed

lemma path_Join_is_abs: "is_abs a \<Longrightarrow> is_abs (path_Join [a, b])"
  by (cases "b = []") (auto simp: path_Join_def Let_def)

section \<open>Containment\<close>

lemma torrentScratchPath_prefix:
  "torrentScratchPath getwd downloadDir torrentName = Ok p \<Longrightarrow>
     \<exists>d. filepath_Abs getwd downloadDir = Ok d \<and> has_prefix p (d @ [slash])"
  by (auto simp: torrentScratchPath_def bindO_eq_Ok Let_def split: if_splits)

text \<open>Whatever name a torrent carries, the directory that is removed when its job ends lies strictly
  inside the download directory; a name that would leave it, or that denotes the directory itself, is refused.\<close>
theorem torrentScratchPath_contained:
  assumes "\<And>wd. getwd = Ok wd \<Longrightarrow> is_abs wd"
    and "torrentScratchPath getwd downloadDir torrentName = Ok p"
  shows "\<exists>d. filepath_Abs getwd downloadDir = Ok d \<and> strictly_under d p"
proof -
  obtain d where d: "filepath_Abs getwd downloadDir = Ok d"
    and p: "filepath_Abs getwd (path_Join [d, torrentName]) = Ok p" "has_prefix p (d @ [slash])"
    using assms(2)
    by (auto simp: torrentScratchPath_def bindO_eq_Ok Let_def split: if_splits)
  show ?thesis
    using clean_prefix_strictly_under[OF _ _ _ _ p(2)] filepath_Abs_clean[OF assms(1) d]
      filepath_Abs_clean[OF assms(1) p(1)] d by auto
qed

lemma torrentScratchPath_contained_witness:
  "\<exists>d. filepath_Abs (Ok ''/srv'') ''dl'' = Ok d \<and> strictly_under d ''/srv/dl/album''"
  by (rule torrentScratchPath_contained[of "Ok ''/srv''" "''dl''" "''album''"]) (auto, code_simp)

text \<open>C8: the file an import reads for a torrent-relative path lies strictly inside the download
  directory, whatever the path in the torrent says.\<close>
theorem resolveTorrentFilePath_contained:
  assumes "\<And>wd. getwd = Ok wd \<Longrightarrow> is_abs wd"
    and "resolveTorrentFilePath getwd downloadDir torrentPath = Ok p"
  shows "\<exists>d. filepath_Abs getwd downloadDir = Ok d \<and> strictly_under d p"
proof -
  obtain d where d: "filepath_Abs getwd downloadDir = Ok d"
    and p: "p = path_Join [d, torrentPath]" "isWithinDir d p"
    using assms(2) by (auto simp: resolveTorrentFilePath_def bindO_eq_Ok Let_def split: if_splits)
  show ?thesis
    using isWithinDir_strict[of d p] filepath_Abs_clean[OF assms(1) d] path_Join_is_abs p d by auto
qed

lemma resolveTorrentFilePath_contained_witness:
  "\<exists>d. filepath_Abs (Ok ''/srv'') ''dl'' = Ok d \<and> strictly_under d ''/srv/dl/a/1.mp3''"
  by (rule resolveTorrentFilePath_contained[of "Ok ''/srv''" "''dl''" "''a/x/../1.mp3''"]) (auto, code_simp)

lemma sanitize_segments_safe:
  "sanitize_segments segs = Ok out \<Longrightarrow> \<forall>s \<in> set out. safe_folder_name s"
proof (induction segs arbitrary: out)
  case (Cons s segs)
  then show ?case
    using SanitizeFolderName_Ok[of s] by (auto simp: bindO_eq_Ok)
qed simp

lemma safe_folder_segment: "safe_folder_name s \<Longrightarrow> safe_segment s"
  by (simp add: safe_folder_name_def)

lemma torrentImportFolder_segments:
  assumes "rootFolder = [] \<or> safe_folder_name rootFolder"
    and "torrentImportFolder rootFolder torrentPath = Ok r"
  shows "\<exists>segs. (\<forall>s \<in> set segs. safe_folder_name s) \<and> r = join_with [slash] segs"
proof -
  obtain out where run: "(if path_Dir torrentPath \<noteq> ''.''
        then sanitize_segments (split_on slash (path_Dir torrentPath)) else Ok []) = Ok out"
      and r: "r = path_Join (rootFolder # out)"
    using assms(2) unfolding torrentImportFolder_def Let_def bindO_eq_Ok by blast
  have out: "\<forall>s \<in> set out. safe_folder_name s" "r = path_Join (rootFolder # out)"
    using run r sanitize_segments_safe by (auto split: if_splits)
  show ?thesis
  proof (cases "rootFolder = []")
    case True
    then have "r = path_Join out" using out by (simp add: path_Join_def)
    then show ?thesis using out(1) path_Join_safe[of out] safe_folder_segment by blast
  next
    case False
    then have "\<forall>s \<in> set (rootFolder # out). safe_folder_name s" using assms(1) out(1) by simp
    then show ?thesis using out(2) path_Join_safe[of "rootFolder # out"] safe_folder_segment by blast
  qed
qed

text \<open>The folder a torrent file is imported into is made of validated folder names only, so under
  any directory it is joined to it stays inside that directory: neither the torrent's directory names nor the
  job's folder can climb out of the owner's storage.\<close>
theorem torrentImportFolder_contained:
  assumes "rootFolder = [] \<or> SanitizeFolderName requested = Ok rootFolder"
    and "torrentImportFolder rootFolder torrentPath = Ok r" and "is_abs base"
  shows "under_dir base (path_Join [base, r]) \<and>
    (\<exists>segs. (\<forall>s \<in> set segs. safe_folder_name s) \<and> path_segments (path_Join [base, r]) = path_segments base @ segs)"
proof -
  obtain segs where segs: "\<forall>s \<in> set segs. safe_folder_name s" "r = join_with [slash] segs"
    using torrentImportFolder_segments[OF _ assms(2)] SanitizeFolderName_Ok[of requested] assms(1) by blast
  then have "path_segments (path_Join [base, r]) = path_segments base @ segs"
    using path_Join_abs_safe(1)[OF assms(3)] safe_folder_segment by blast
  moreover have "under_dir base (path_Join [base, r])"
    using path_Join_under[OF assms(3)] segs safe_folder_segment by blast
  ultimately show ?thesis using segs(1) by blast
qed

lemma torrentImportFolder_contained_witness:
  "under_dir ''/srv/tmp/7'' (path_Join [''/srv/tmp/7'', ''mine/CD1'']) \<and>
   (\<exists>segs. (\<forall>s \<in> set segs. safe_folder_name s) \<and>
      path_segments (path_Join [''/srv/tmp/7'', ''mine/CD1'']) = path_segments ''/srv/tmp/7'' @ segs)"
  by (rule torrentImportFolder_contained[of "''mine''" "'' mine ''" "''CD1/1.mp3''"]) code_simp+

end
