(* ===== verification/Broadcaster.thy ===== *)
theory Broadcaster
  imports TorrentStore "HOL-Library.AList"
begin

text \<open>
  Job updates to the watchers of a user (internal/background/torrent_sync/broadcaster.go).  A channel is a number;
  its buffer, of capacity one, holds the update not yet received.  A send on a closed channel and a second close
  panic.  Every operation holds the broadcaster's mutex, so operations are atomic; a receive by a watcher is an
  operation of its own.
\<close>

record broadcaster =
  b_subscribers :: "(int \<times> nat list) list"
  b_buffer :: "(nat \<times> TorrentDownload) list"
  b_closed :: "nat list"
  b_next :: nat

definition NewBroadcaster :: broadcaster where
  "NewBroadcaster = \<lparr>b_subscribers = [], b_buffer = [], b_closed = [], b_next = 0\<rparr>"

definition subscribers_of :: "int \<Rightarrow> broadcaster \<Rightarrow> nat list" where
  "subscribers_of user b = (case map_of (b_subscribers b) user of None \<Rightarrow> [] | Some chs \<Rightarrow> chs)"

definition Subscribe :: "int \<Rightarrow> broadcaster \<Rightarrow> nat \<times> broadcaster" where
  "Subscribe userID b =
     (b_next b, b\<lparr>b_subscribers := AList.update userID (b_next b # subscribers_of userID b) (b_subscribers b),
                  b_next := b_next b + 1\<rparr>)"

definition close_watch :: "nat \<Rightarrow> broadcaster \<Rightarrow> unit outcome \<times> broadcaster" where
  "close_watch ch b = (if ch \<in> set (b_closed b) then (Panic, b) else (Ok (), b\<lparr>b_closed := ch # b_closed b\<rparr>))"

definition Unsubscribe :: "int \<Rightarrow> nat \<Rightarrow> broadcaster \<Rightarrow> unit outcome \<times> broadcaster" where
  "Unsubscribe userID ch b =
     (case map_of (b_subscribers b) userID of
        None \<Rightarrow> close_watch ch b
      | Some subs \<Rightarrow>
          let subs' = removeAll ch subs in
          close_watch ch (b\<lparr>b_subscribers :=
            (if subs' = [] then AList.delete userID (b_subscribers b)
             else AList.update userID subs' (b_subscribers b))\<rparr>))"

text \<open>\<open>select { case ch <- job: default: }\<close>.\<close>

definition try_send :: "TorrentDownload \<Rightarrow> nat \<Rightarrow> broadcaster \<Rightarrow> unit outcome \<times> broadcaster" where
  "try_send job ch b =
     (if ch \<in> set (b_closed b) then (Panic, b)
      else if map_of (b_buffer b) ch \<noteq> None then (Ok (), b)
      else (Ok (), b\<lparr>b_buffer := AList.update ch job (b_buffer b)\<rparr>))"

fun send_all :: "TorrentDownload \<Rightarrow> nat list \<Rightarrow> broadcaster \<Rightarrow> unit outcome \<times> broadcaster" where
  "send_all job [] b = (Ok (), b)"
| "send_all job (ch # chs) b = (case try_send job ch b of
     (Ok _, b') \<Rightarrow> send_all job chs b' | (Err e, b') \<Rightarrow> (Err e, b') | (Panic, b') \<Rightarrow> (Panic, b'))"

definition Publish :: "TorrentDownload \<Rightarrow> broadcaster \<Rightarrow> unit outcome \<times> broadcaster" where
  "Publish job b =
     (case map_of (b_subscribers b) (td_UserId job) of
        None \<Rightarrow> (Ok (), b)
      | Some subs \<Rightarrow> send_all job subs b)"

definition receive :: "nat \<Rightarrow> broadcaster \<Rightarrow> TorrentDownload option \<times> broadcaster" where
  "receive ch b = (map_of (b_buffer b) ch, b\<lparr>b_buffer := AList.delete ch (b_buffer b)\<rparr>)"

section \<open>Invariant\<close>

text \<open>A subscribed channel is open, belongs to one user, and holds updates of that user only.\<close>

definition bcast_inv :: "broadcaster \<Rightarrow> bool" where
  "bcast_inv b \<longleftrightarrow>
     (\<forall>u ch. ch \<in> set (subscribers_of u b) \<longrightarrow> ch < b_next b \<and> ch \<notin> set (b_closed b)) \<and>
     (\<forall>u u' ch. ch \<in> set (subscribers_of u b) \<longrightarrow> ch \<in> set (subscribers_of u' b) \<longrightarrow> u' = u) \<and>
     (\<forall>u ch job. ch \<in> set (subscribers_of u b) \<longrightarrow> map_of (b_buffer b) ch = Some job \<longrightarrow> td_UserId job = u) \<and>
     (\<forall>ch. map_of (b_buffer b) ch \<noteq> None \<longrightarrow> ch < b_next b) \<and>
     (\<forall>ch \<in> set (b_closed b). ch < b_next b)"

lemma bcast_invD:
  assumes "bcast_inv b" "ch \<in> set (subscribers_of u b)"
  shows "ch < b_next b" "ch \<notin> set (b_closed b)"
    "ch \<in> set (subscribers_of u' b) \<Longrightarrow> u' = u"
    "map_of (b_buffer b) ch = Some job \<Longrightarrow> td_UserId job = u"
  using assms unfolding bcast_inv_def by blast+

lemma bcast_inv_buffer: "bcast_inv b \<Longrightarrow> map_of (b_buffer b) ch \<noteq> None \<Longrightarrow> ch < b_next b"
  and bcast_inv_closed: "bcast_inv b \<Longrightarrow> ch \<in> set (b_closed b) \<Longrightarrow> ch < b_next b"
  unfolding bcast_inv_def by blast+

lemma bcast_invI:
  assumes "\<And>u ch. ch \<in> set (subscribers_of u b) \<Longrightarrow> ch < b_next b \<and> ch \<notin> set (b_closed b)"
    and "\<And>u u' ch. ch \<in> set (subscribers_of u b) \<Longrightarrow> ch \<in> set (subscribers_of u' b) \<Longrightarrow> u' = u"
    and "\<And>u ch job. ch \<in> set (subscribers_of u b) \<Longrightarrow> map_of (b_buffer b) ch = Some job \<Longrightarrow> td_UserId job = u"
    and "\<And>ch. map_of (b_buffer b) ch \<noteq> None \<Longrightarrow> ch < b_next b"
    and "\<And>ch. ch \<in> set (b_closed b) \<Longrightarrow> ch < b_next b"
  shows "bcast_inv b"
  unfolding bcast_inv_def using assms by blast

lemma bcast_inv_New [simp]: "bcast_inv NewBroadcaster"
  by (simp add: bcast_inv_def NewBroadcaster_def subscribers_of_def)

lemma subscribers_of_update [simp]:
  "subscribers_of u (b\<lparr>b_subscribers := AList.update v chs (b_subscribers b')\<rparr>) =
     (if u = v then chs else subscribers_of u b')"
  "subscribers_of u (b\<lparr>b_subscribers := AList.delete v (b_subscribers b')\<rparr>) =
     (if u = v then [] else subscribers_of u b')"
  by (simp_all add: subscribers_of_def update_conv' delete_conv')

lemma subscribers_of_other [simp]:
  "subscribers_of u (b\<lparr>b_buffer := x\<rparr>) = subscribers_of u b"
  "subscribers_of u (b\<lparr>b_closed := y\<rparr>) = subscribers_of u b"
  "subscribers_of u (b\<lparr>b_next := z\<rparr>) = subscribers_of u b"
  by (simp_all add: subscribers_of_def)

lemma subscribers_of_Subscribe:
  "subscribers_of u (snd (Subscribe userID b)) =
     (if u = userID then b_next b # subscribers_of userID b else subscribers_of u b)"
  by (simp add: Subscribe_def subscribers_of_def update_conv')

lemma Subscribe_other [simp]:
  "b_buffer (snd (Subscribe u b)) = b_buffer b" "b_closed (snd (Subscribe u b)) = b_closed b"
  "b_next (snd (Subscribe u b)) = b_next b + 1"
  by (simp_all add: Subscribe_def)

lemma bcast_inv_Subscribe:
  assumes inv: "bcast_inv b"
  shows "bcast_inv (snd (Subscribe userID b))"
proof -
  let ?b = "snd (Subscribe userID b)"
  have mem: "ch \<in> set (subscribers_of u b) \<and> ch < b_next b \<or> ch = b_next b \<and> u = userID"
    if "ch \<in> set (subscribers_of u ?b)" for u ch
    using that bcast_invD(1)[OF inv] by (auto simp: subscribers_of_Subscribe split: if_splits)
  show ?thesis
  proof (rule bcast_invI)
    fix u ch
    assume m: "ch \<in> set (subscribers_of u ?b)"
    from mem[OF m] show "ch < b_next ?b \<and> ch \<notin> set (b_closed ?b)"
      using bcast_invD(2)[OF inv] bcast_inv_closed[OF inv] by fastforce
    fix u'
    assume m': "ch \<in> set (subscribers_of u' ?b)"
    from mem[OF m] mem[OF m'] show "u' = u"
      using bcast_invD(3)[OF inv] by auto
  next
    fix u ch job
    assume m: "ch \<in> set (subscribers_of u ?b)" "map_of (b_buffer ?b) ch = Some job"
    from mem[OF m(1)] m(2) show "td_UserId job = u"
      using bcast_invD(4)[OF inv] bcast_inv_buffer[OF inv, of ch] by auto
  qed (use bcast_inv_buffer[OF inv] bcast_inv_closed[OF inv] in \<open>auto intro: less_SucI\<close>)
qed

lemma bcast_inv_Unsubscribe:
  assumes inv: "bcast_inv b" and sub: "ch \<in> set (subscribers_of userID b)"
  shows "\<exists>b'. Unsubscribe userID ch b = (Ok (), b') \<and> bcast_inv b' \<and> b_closed b' = ch # b_closed b \<and>
    (\<forall>u. subscribers_of u b' = (if u = userID then removeAll ch (subscribers_of userID b) else subscribers_of u b))"
proof -
  obtain subs where subs: "map_of (b_subscribers b) userID = Some subs"
    using sub by (cases "map_of (b_subscribers b) userID") (auto simp: subscribers_of_def)
  then have subs': "subscribers_of userID b = subs" by (simp add: subscribers_of_def)
  let ?b1 = "b\<lparr>b_subscribers := (if removeAll ch subs = [] then AList.delete userID (b_subscribers b)
      else AList.update userID (removeAll ch subs) (b_subscribers b))\<rparr>"
  let ?b = "?b1\<lparr>b_closed := ch # b_closed b\<rparr>"
  have run: "Unsubscribe userID ch b = (Ok (), ?b)"
    using subs bcast_invD(2)[OF inv sub] by (simp add: Unsubscribe_def Let_def close_watch_def)
  have of: "subscribers_of u ?b = (if u = userID then removeAll ch subs else subscribers_of u b)" for u
    by simp
  have sub_old: "c \<in> set (subscribers_of u b) \<and> c \<noteq> ch" if "c \<in> set (subscribers_of u ?b)" for u c
    using that bcast_invD(3)[OF inv sub, of u] unfolding of subs' by (auto simp: subs' split: if_splits)
  have "bcast_inv ?b"
  proof (rule bcast_invI)
    fix u c
    assume m: "c \<in> set (subscribers_of u ?b)"
    show "c < b_next ?b \<and> c \<notin> set (b_closed ?b)"
      using bcast_invD(1,2)[OF inv] sub_old[OF m] by auto
    fix u'
    assume m': "c \<in> set (subscribers_of u' ?b)"
    show "u' = u" using bcast_invD(3)[OF inv] sub_old[OF m] sub_old[OF m'] by blast
  next
    fix u c job
    assume m: "c \<in> set (subscribers_of u ?b)" and "map_of (b_buffer ?b) c = Some job"
    then show "td_UserId job = u" using bcast_invD(4)[OF inv, of c u job] sub_old[OF m] by simp
  next
    fix c
    assume "map_of (b_buffer ?b) c \<noteq> None"
    then show "c < b_next ?b" using bcast_inv_buffer[OF inv, of c] by simp
  next
    fix c
    assume "c \<in> set (b_closed ?b)"
    then show "c < b_next ?b" using bcast_inv_closed[OF inv, of c] bcast_invD(1)[OF inv sub] by auto
  qed
  then show ?thesis using run of subs' by auto
qed

lemma send_all_run:
  assumes "\<And>ch. ch \<in> set chs \<Longrightarrow> ch \<notin> set (b_closed b)"
  shows "\<exists>buf. send_all job chs b = (Ok (), b\<lparr>b_buffer := buf\<rparr>) \<and>
    (\<forall>ch. map_of buf ch = (if ch \<in> set chs \<and> map_of (b_buffer b) ch = None then Some job else map_of (b_buffer b) ch))"
  using assms
proof (induction job chs b rule: send_all.induct)
  case (1 job b)
  then show ?case by (intro exI[of _ "b_buffer b"]) simp
next
  case (2 job ch chs b)
  define b' where "b' = (if map_of (b_buffer b) ch \<noteq> None then b else b\<lparr>b_buffer := AList.update ch job (b_buffer b)\<rparr>)"
  have send: "try_send job ch b = (Ok (), b')"
    using 2 by (simp add: try_send_def b'_def)
  have closed: "\<And>c. c \<in> set chs \<Longrightarrow> c \<notin> set (b_closed b')"
    using "2.prems" by (simp add: b'_def)
  obtain buf where buf: "send_all job chs b' = (Ok (), b'\<lparr>b_buffer := buf\<rparr>)"
    "\<And>c. map_of buf c = (if c \<in> set chs \<and> map_of (b_buffer b') c = None then Some job else map_of (b_buffer b') c)"
    using "2.IH"(1)[OF send[symmetric] refl closed] by blast
  have "b'\<lparr>b_buffer := buf\<rparr> = b\<lparr>b_buffer := buf\<rparr>" by (simp add: b'_def)
  then show ?case
    using send buf by (intro exI[of _ buf]) (auto simp: b'_def update_conv')
qed

lemma Publish_run:
  assumes "bcast_inv b"
  shows "\<exists>buf. Publish job b = (Ok (), b\<lparr>b_buffer := buf\<rparr>) \<and>
    (\<forall>ch. map_of buf ch =
       (if ch \<in> set (subscribers_of (td_UserId job) b) \<and> map_of (b_buffer b) ch = None then Some job
        else map_of (b_buffer b) ch))"
proof -
  have "Publish job b = send_all job (subscribers_of (td_UserId job) b) b"
    by (simp add: Publish_def subscribers_of_def split: option.split)
  then show ?thesis
    using send_all_run[of "subscribers_of (td_UserId job) b" b job] bcast_invD(2)[OF assms] by simp
qed

lemma bcast_inv_buffers:
  assumes inv: "bcast_inv b" and buf: "\<And>ch job'. map_of buf ch = Some job' \<Longrightarrow>
      map_of (b_buffer b) ch = Some job' \<or> ch \<in> set (subscribers_of (td_UserId job') b)"
  shows "bcast_inv (b\<lparr>b_buffer := buf\<rparr>)"
proof (rule bcast_invI)
  fix u ch job'
  assume m: "ch \<in> set (subscribers_of u (b\<lparr>b_buffer := buf\<rparr>))" "map_of (b_buffer (b\<lparr>b_buffer := buf\<rparr>)) ch = Some job'"
  then have s: "ch \<in> set (subscribers_of u b)" "map_of buf ch = Some job'" by simp_all
  from buf[OF s(2)] show "td_UserId job' = u"
    using bcast_invD(3,4)[OF inv s(1)] by blast
next
  fix ch
  assume "map_of (b_buffer (b\<lparr>b_buffer := buf\<rparr>)) ch \<noteq> None"
  then obtain job' where "map_of buf ch = Some job'" by auto
  from buf[OF this] show "ch < b_next (b\<lparr>b_buffer := buf\<rparr>)"
    using bcast_invD(1)[OF inv] bcast_inv_buffer[OF inv] by auto
next
  fix u ch
  assume "ch \<in> set (subscribers_of u (b\<lparr>b_buffer := buf\<rparr>))"
  then have s: "ch \<in> set (subscribers_of u b)" by simp
  show "ch < b_next (b\<lparr>b_buffer := buf\<rparr>) \<and> ch \<notin> set (b_closed (b\<lparr>b_buffer := buf\<rparr>))"
    using bcast_invD(1,2)[OF inv s] by simp
  fix u'
  assume "ch \<in> set (subscribers_of u' (b\<lparr>b_buffer := buf\<rparr>))"
  then show "u' = u" using bcast_invD(3)[OF inv s] by simp
next
  fix ch
  assume "ch \<in> set (b_closed (b\<lparr>b_buffer := buf\<rparr>))"
  then show "ch < b_next (b\<lparr>b_buffer := buf\<rparr>)" using bcast_inv_closed[OF inv] by simp
qed

text \<open>Publishing a job update never blocks and never panics, whatever watchers do with their channels; every
  watcher of the job's owner with an empty buffer gets it, a watcher that has not yet read keeps
  what it had, and no other user's watcher sees anything.\<close>
theorem Publish_delivers:
  assumes "bcast_inv b"
  shows "\<exists>b'. Publish job b = (Ok (), b') \<and> bcast_inv b' \<and>
    (\<forall>ch. map_of (b_buffer b') ch =
       (if ch \<in> set (subscribers_of (td_UserId job) b) \<and> map_of (b_buffer b) ch = None then Some job
        else map_of (b_buffer b) ch))"
proof -
  obtain buf where buf: "Publish job b = (Ok (), b\<lparr>b_buffer := buf\<rparr>)"
    "\<forall>ch. map_of buf ch = (if ch \<in> set (subscribers_of (td_UserId job) b) \<and> map_of (b_buffer b) ch = None
        then Some job else map_of (b_buffer b) ch)"
    using Publish_run[OF assms] by blast
  have "bcast_inv (b\<lparr>b_buffer := buf\<rparr>)"
    by (rule bcast_inv_buffers[OF assms]) (use buf(2) in \<open>auto split: if_splits\<close>)
  then show ?thesis
    using buf by (intro exI[of _ "b\<lparr>b_buffer := buf\<rparr>"]) simp
qed

definition ex_job :: TorrentDownload where
  "ex_job = \<lparr>td_Id = 1, td_UserId = 7, td_FolderName = [], td_InfoHash = ''aa'', td_TorrentName = ''a'',
     td_Status = Downloading, td_TotalBytes = 0, td_DownloadedBytes = 0, td_ImportedFiles = [], td_Files = [],
     td_Trackers = [], td_IsPrivate = False, td_Error = [], td_CreatedAt = 0, td_UpdatedAt = 0\<rparr>"

text \<open>One watcher of user 7 and one of user 8.\<close>

theorem Publish_delivers_witness:
  "\<exists>b'. Publish ex_job (snd (Subscribe 8 (snd (Subscribe 7 NewBroadcaster)))) = (Ok (), b') \<and>
     map_of (b_buffer b') 0 = Some ex_job \<and> map_of (b_buffer b') 1 = None"
proof -
  let ?b = "snd (Subscribe 8 (snd (Subscribe 7 NewBroadcaster)))"
  have "bcast_inv ?b" by (intro bcast_inv_Subscribe bcast_inv_New)
  moreover have "subscribers_of 7 ?b = [0]" "map_of (b_buffer ?b) ch = None" for ch
    by (simp_all add: subscribers_of_Subscribe) (simp_all add: NewBroadcaster_def subscribers_of_def)
  ultimately show ?thesis
    using Publish_delivers[of ?b ex_job] by (auto simp: ex_job_def)
qed

end
