(* ===== verification/ImportLog.thy ===== *)
theory ImportLog
  imports GoJson
begin

text \<open>
  The log of an import (internal/domain/torrent.go): what became of each file of a completed torrent, kept in the
  imported_files column as one JSON object per file.

  Fact: decoding the encoded log gives the log, when its strings are valid UTF-8; and any text that is not such an
  object is taken for a bare path.
\<close>

record TorrentImportedFile =
  if_TorrentPath :: string
  if_FileId :: int
  if_Status :: string
  if_Error :: string
  if_FilePath :: string
  if_FileDeleted :: bool

definition StatusOk :: string where "StatusOk = ''ok''"
definition StatusFailed :: string where "StatusFailed = ''failed''"

text \<open>\<open>json.Marshal\<close> of one entry, field by field as the struct's tags say; it cannot fail.\<close>

definition marshal_imported :: "TorrentImportedFile \<Rightarrow> string" where
  "marshal_imported file = json_object
     ([(''torrent_path'', json_quote (if_TorrentPath file))] @
      omit_if (if_FileId file = 0) ''file_id'' (FormatInt (if_FileId file)) @
      [(''status'', json_quote (if_Status file))] @
      omit_if (if_Error file = []) ''error'' (json_quote (if_Error file)) @
      omit_if (if_FilePath file = []) ''file_path'' (json_quote (if_FilePath file)) @
      omit_if (\<not> if_FileDeleted file) ''file_deleted'' (json_bool (if_FileDeleted file)))"

definition imported_field :: "string \<Rightarrow> json \<Rightarrow> TorrentImportedFile \<Rightarrow> TorrentImportedFile option" where
  "imported_field k v file =
     (if k = ''torrent_path'' then str_field (\<lambda>s. file\<lparr>if_TorrentPath := s\<rparr>) file v
      else if k = ''file_id'' then int_field (\<lambda>n. file\<lparr>if_FileId := n\<rparr>) file v
      else if k = ''status'' then str_field (\<lambda>s. file\<lparr>if_Status := s\<rparr>) file v
      else if k = ''error'' then str_field (\<lambda>s. file\<lparr>if_Error := s\<rparr>) file v
      else if k = ''file_path'' then str_field (\<lambda>s. file\<lparr>if_FilePath := s\<rparr>) file v
      else if k = ''file_deleted'' then bool_field (\<lambda>b. file\<lparr>if_FileDeleted := b\<rparr>) file v
      else Some file)"

definition zero_imported :: TorrentImportedFile where
  "zero_imported = \<lparr>if_TorrentPath = [], if_FileId = 0, if_Status = [], if_Error = [], if_FilePath = [],
     if_FileDeleted = False\<rparr>"

definition unmarshal_imported :: "string \<Rightarrow> TorrentImportedFile option" where
  "unmarshal_imported text = Unmarshal imported_field zero_imported text"

definition EncodeTorrentImportedFiles :: "TorrentImportedFile list \<Rightarrow> string list outcome" where
  "EncodeTorrentImportedFiles files = Ok (List.map marshal_imported files)"

definition bare_path :: "string \<Rightarrow> TorrentImportedFile" where
  "bare_path entry = \<lparr>if_TorrentPath = entry, if_FileId = 0, if_Status = StatusOk, if_Error = [],
     if_FilePath = [], if_FileDeleted = False\<rparr>"

definition DecodeTorrentImportedFiles :: "string list \<Rightarrow> TorrentImportedFile list" where
  "DecodeTorrentImportedFiles raw = List.map (\<lambda>entry. case unmarshal_imported entry of
       None \<Rightarrow> bare_path entry
     | Some file \<Rightarrow> if if_TorrentPath file = [] then bare_path entry else file) raw"

section \<open>Round trip\<close>

lemma to_valid_empty: "s = [] \<Longrightarrow> to_valid s = []"
  by simp

text \<open>The entry with the invalid bytes of its strings replaced.\<close>

definition valid_entry :: "TorrentImportedFile \<Rightarrow> TorrentImportedFile" where
  "valid_entry file = file\<lparr>if_TorrentPath := to_valid (if_TorrentPath file), if_Status := to_valid (if_Status file),
     if_Error := to_valid (if_Error file), if_FilePath := to_valid (if_FilePath file)\<rparr>"

definition imported_members :: "TorrentImportedFile \<Rightarrow> (string \<times> json) list" where
  "imported_members file =
     [(''torrent_path'', JStr (to_valid (if_TorrentPath file)))] @
     (if if_FileId file = 0 then [] else [(''file_id'', JNum (FormatInt (if_FileId file)))]) @
     [(''status'', JStr (to_valid (if_Status file)))] @
     (if if_Error file = [] then [] else [(''error'', JStr (to_valid (if_Error file)))]) @
     (if if_FilePath file = [] then [] else [(''file_path'', JStr (to_valid (if_FilePath file)))]) @
     (if \<not> if_FileDeleted file then [] else [(''file_deleted'', JBool (if_FileDeleted file))])"

lemma field_names:
  "fold_key ''torrent_path'' = ''torrent_path''" "fold_key ''file_id'' = ''file_id''" "fold_key ''status'' = ''status''"
  "fold_key ''error'' = ''error''" "fold_key ''file_path'' = ''file_path''" "fold_key ''file_deleted'' = ''file_deleted''"
  by code_simp+

lemma imported_field_read:
  "imported_field ''torrent_path'' (JStr s) file = Some (file\<lparr>if_TorrentPath := s\<rparr>)"
  "i64_range n \<Longrightarrow> imported_field ''file_id'' (JNum (FormatInt n)) file = Some (file\<lparr>if_FileId := n\<rparr>)"
  "imported_field ''status'' (JStr s) file = Some (file\<lparr>if_Status := s\<rparr>)"
  "imported_field ''error'' (JStr s) file = Some (file\<lparr>if_Error := s\<rparr>)"
  "imported_field ''file_path'' (JStr s) file = Some (file\<lparr>if_FilePath := s\<rparr>)"
  "imported_field ''file_deleted'' (JBool b) file = Some (file\<lparr>if_FileDeleted := b\<rparr>)"
  by (simp_all add: imported_field_def str_field_def int_field_def bool_field_def ParseInt_FormatInt)

lemma unmarshal_marshal:
  assumes "i64_range (if_FileId file)"
  shows "unmarshal_imported (marshal_imported file) = Some (valid_entry file)"
proof -
  have "json_depth (JObj (imported_members file)) \<le> 1"
    by (rule json_depth_flat) (simp add: imported_members_def)
  then have depth: "json_depth (JObj (imported_members file)) \<le> 10000" by linarith
  have "unmarshal_imported (marshal_imported file) =
      assign_fields imported_field (imported_members file) zero_imported"
    unfolding unmarshal_imported_def marshal_imported_def
    by (rule Unmarshal_written[OF _ depth], unfold imported_members_def)
      (intro fields_read_append fields_read_one fields_read_omit reads_quote reads_int reads_bool; simp)
  also have "\<dots> = Some (valid_entry file)"
    unfolding imported_members_def
    by (cases "if_FileId file = 0"; cases "if_Error file = []"; cases "if_FilePath file = []"; cases "if_FileDeleted file")
      (simp_all add: field_names imported_field_read assms zero_imported_def valid_entry_def to_valid_empty)
  finally show ?thesis .
qed

text \<open>C22: Decoding an encoded import log gives back exactly the entries that were encoded, with every byte of a string that is
  not part of valid UTF-8 replaced by U+FFFD: paths, error messages and ids come back unchanged when their strings are valid
  UTF-8.  An element that is not a JSON text is read as the bare path of an imported file.\<close>
theorem import_log_roundtrip:
  assumes "\<forall>file \<in> set files. i64_range (if_FileId file) \<and> if_TorrentPath file \<noteq> []"
  shows "\<exists>raw. EncodeTorrentImportedFiles files = Ok raw \<and>
    DecodeTorrentImportedFiles raw = List.map valid_entry files \<and>
    (\<forall>texts. DecodeTorrentImportedFiles (raw @ texts) = List.map valid_entry files @ DecodeTorrentImportedFiles texts) \<and>
    (\<forall>text. json_parse text = None \<longrightarrow> DecodeTorrentImportedFiles [text] = [bare_path text])"
proof -
  have "to_valid s \<noteq> []" if "s \<noteq> []" for s
    using that by (cases s) (auto simp: to_valid.simps(2) replacement_def Let_def)
  then have "DecodeTorrentImportedFiles (List.map marshal_imported files) = List.map valid_entry files"
    using assms by (auto simp: DecodeTorrentImportedFiles_def unmarshal_marshal valid_entry_def)
  then show ?thesis
    by (simp add: EncodeTorrentImportedFiles_def DecodeTorrentImportedFiles_def unmarshal_imported_def Unmarshal_def)
qed

definition ex_imported :: TorrentImportedFile where
  "ex_imported = \<lparr>if_TorrentPath = ''a/1.mp3'', if_FileId = 12, if_Status = StatusOk, if_Error = [],
     if_FilePath = [CHR 0xFF], if_FileDeleted = False\<rparr>"

theorem import_log_roundtrip_witness:
  "\<exists>raw. EncodeTorrentImportedFiles [ex_imported] = Ok raw \<and>
     DecodeTorrentImportedFiles raw = [ex_imported\<lparr>if_FilePath := replacement\<rparr>]"
proof -
  have "valid_entry ex_imported = ex_imported\<lparr>if_FilePath := replacement\<rparr>"
    by (simp add: valid_entry_def ex_imported_def StatusOk_def to_valid_ascii to_valid.simps(2) utf8_len.simps(2))
  then show ?thesis
    using import_log_roundtrip[of "[ex_imported]"] by (auto simp: ex_imported_def i64_range_def)
qed

end
