(* ===== verification/TorrentState.thy ===== *)
theory TorrentState
  imports TorrentClient UploadPipeline TorrentPaths Broadcaster ImportLog
begin

text \<open>
  What the torrent service keeps in memory (internal/service/v1/torrent_service.go and torrent_files.go): the
  disk and the bittorrent client, both shared with the rest of the process, and the cache of uploads that are not
  submitted yet.  A cached magnet owns a channel \<open>done\<close> and a timer; closing a closed
  channel panics, so the closed channels are part of the state, as are the armed timers.  The clock of the process
  and the watchers of jobs are part of the state too.

  The cache is a list of pairs with distinct handles, in the order of insertion; Go visits a map in any order.
\<close>

record ('h, 'mi) pendingTorrentUpload =
  pu_userId :: int
  pu_metaInfo :: "'mi option"
  pu_infoHash :: string
  pu_torrentName :: string
  pu_files :: "TorrentFileEntry list option"
  pu_expiresAt :: int
  pu_tor :: "'h option"
  pu_done :: "nat option"
  pu_expiryTimer :: "string option"
  pu_timedOut :: bool

record ('c, 'h, 'mi) tmem = diskmem +
  w_client :: "'c option"
  w_pending :: "(string \<times> ('h, 'mi) pendingTorrentUpload) list"
  w_closed :: "nat list"
  w_nextchan :: nat
  w_timers :: "string list"
  w_now :: int
  w_watch :: broadcaster

type_synonym ('c, 'h, 'mi) tstate = "(database, ('c, 'h, 'mi) tmem) st"
type_synonym ('c, 'h, 'mi, 'a) tprog = "('c, 'h, 'mi) tstate \<Rightarrow> 'a outcome \<times> ('c, 'h, 'mi) tstate"

text \<open>The text of an error is an argument.\<close>

record ('c, 'h, 'mi) torrent_env =
  te_lib :: "('c, 'h, 'mi) torrent_lib"
  te_pipe :: pipeline_env
  te_errtext :: "err \<Rightarrow> string"
  te_getwd :: "string outcome"
  te_DownloadDir :: string
  te_MaxConcurrentDownloads :: int
  te_SeedAfterComplete :: bool

definition pendingTorrentUploadTTL :: int where
  "pendingTorrentUploadTTL = 15 * 60 * 1000000000"

section \<open>The client\<close>

text \<open>A method call on the client or on a torrent of it; on a nil client it panics.\<close>

definition on_client :: "('c \<Rightarrow> 'a outcome \<times> 'c) \<Rightarrow> ('c, 'h, 'mi, 'a) tprog" where
  "on_client f s = (case w_client (mem s) of
     None \<Rightarrow> (Panic, s)
   | Some c \<Rightarrow> (case f c of (r, c') \<Rightarrow> (r, s\<lparr>mem := (mem s)\<lparr>w_client := Some c'\<rparr>\<rparr>)))"

definition has_client :: "('c, 'h, 'mi, bool) tprog" where
  "has_client = get_mem (\<lambda>m. w_client m \<noteq> None)"

definition client_get :: "('c \<Rightarrow> 'a) \<Rightarrow> ('c, 'h, 'mi, 'a) tprog" where
  "client_get f = on_client (\<lambda>c. (Ok (f c), c))"

definition client_do :: "('c \<Rightarrow> 'c) \<Rightarrow> ('c, 'h, 'mi, unit) tprog" where
  "client_do g = on_client (\<lambda>c. (Ok (), g c))"

definition lookupTorrent :: "('c, 'h, 'mi) torrent_env \<Rightarrow> string \<Rightarrow> ('c, 'h, 'mi, 'h option) tprog" where
  "lookupTorrent env infoHash =
     (case tl_FromHexString (te_lib env) infoHash of
        None \<Rightarrow> returnM None
      | Some hash \<Rightarrow> client_get (\<lambda>c. tl_Torrent (te_lib env) c hash))"

lemma same_client [simp]: "w_client (mem s) = Some c \<Longrightarrow> s\<lparr>mem := (mem s)\<lparr>w_client := Some c\<rparr>\<rparr> = s"
  by (cases s; cases "mem s") simp

lemma client_get_run [simp]: "w_client (mem s) = Some c \<Longrightarrow> client_get f s = (Ok (f c), s)"
  and client_do_run [simp]:
    "w_client (mem s) = Some c \<Longrightarrow> client_do g s = (Ok (), s\<lparr>mem := (mem s)\<lparr>w_client := Some (g c)\<rparr>\<rparr>)"
  and has_client_run [simp]: "has_client s = (Ok (w_client (mem s) \<noteq> None), s)"
  by (simp_all add: client_get_def client_do_def on_client_def has_client_def)

section \<open>The cache of pending uploads\<close>

definition pending_get :: "string \<Rightarrow> ('c, 'h, 'mi, ('h, 'mi) pendingTorrentUpload option) tprog" where
  "pending_get i = get_mem (\<lambda>m. map_of (w_pending m) i)"

definition pending_put :: "string \<Rightarrow> ('h, 'mi) pendingTorrentUpload \<Rightarrow> ('c, 'h, 'mi, unit) tprog" where
  "pending_put i p = put_mem (\<lambda>m. m\<lparr>w_pending := AList.update i p (w_pending m)\<rparr>)"

definition close_chan :: "nat \<Rightarrow> ('c, 'h, 'mi, unit) tprog" where
  "close_chan ch = bindM (get_mem (\<lambda>m. ch \<in> set (w_closed m))) (\<lambda>closed.
     if closed then panicM else put_mem (\<lambda>m. m\<lparr>w_closed := ch # w_closed m\<rparr>))"

definition stop_timer :: "string \<Rightarrow> ('c, 'h, 'mi, unit) tprog" where
  "stop_timer i = put_mem (\<lambda>m. m\<lparr>w_timers := removeAll i (w_timers m)\<rparr>)"

definition deletePendingLocked :: "string \<Rightarrow> ('c, 'h, 'mi, unit) tprog" where
  "deletePendingLocked i =
     bindM (pending_get i) (\<lambda>found. case found of
       None \<Rightarrow> returnM ()
     | Some pending \<Rightarrow>
         bindM (put_mem (\<lambda>m. m\<lparr>w_pending := AList.delete i (w_pending m)\<rparr>)) (\<lambda>_.
         bindM (case pu_done pending of None \<Rightarrow> returnM () | Some ch \<Rightarrow> close_chan ch) (\<lambda>_.
         case pu_expiryTimer pending of None \<Rightarrow> returnM () | Some t \<Rightarrow> stop_timer t)))"

fun sweep_loop ::
  "int \<Rightarrow> (string \<times> ('h, 'mi) pendingTorrentUpload) list \<Rightarrow> ('h, 'mi) pendingTorrentUpload list \<Rightarrow>
     ('c, 'h, 'mi, ('h, 'mi) pendingTorrentUpload list) tprog"
where
  "sweep_loop now [] expired = returnM expired"
| "sweep_loop now ((i, pending) # rest) expired =
     (if now > pu_expiresAt pending
      then bindM (deletePendingLocked i) (\<lambda>_. sweep_loop now rest (expired @ [pending]))
      else sweep_loop now rest expired)"

definition sweepExpiredPendingUploadsLocked :: "('c, 'h, 'mi, ('h, 'mi) pendingTorrentUpload list) tprog" where
  "sweepExpiredPendingUploadsLocked =
     bindM (get_mem w_now) (\<lambda>now. bindM (get_mem w_pending) (\<lambda>entries. sweep_loop now entries []))"

definition live_magnet :: "string \<Rightarrow> ('h, 'mi) pendingTorrentUpload \<Rightarrow> bool" where
  "live_magnet infoHash pending \<longleftrightarrow>
     pu_tor pending \<noteq> None \<and> \<not> pu_timedOut pending \<and> pu_infoHash pending = infoHash"

definition dropUnusedTorrent :: "('c, 'h, 'mi) torrent_env \<Rightarrow> string \<Rightarrow> ('c, 'h, 'mi, unit) tprog" where
  "dropUnusedTorrent env infoHash =
     bindM has_client (\<lambda>present. if \<not> present then returnM () else
     bindM (tryM TD_ListActive) (\<lambda>r. case r of
         Inl _ \<Rightarrow> returnM ()
       | Inr activeRows \<Rightarrow>
           if \<exists>row \<in> set activeRows. td_InfoHash row = infoHash then returnM () else
           bindM (get_mem (\<lambda>m. \<exists>(i, pending) \<in> set (w_pending m). live_magnet infoHash pending)) (\<lambda>held.
           if held then returnM () else
           bindM (lookupTorrent env infoHash) (\<lambda>tor. case tor of
               None \<Rightarrow> returnM ()
             | Some h \<Rightarrow> client_do (tl_Drop (te_lib env) h)))))"

definition dropPendingTorrent ::
  "('c, 'h, 'mi) torrent_env \<Rightarrow> ('h, 'mi) pendingTorrentUpload \<Rightarrow> ('c, 'h, 'mi, unit) tprog"
where
  "dropPendingTorrent env pending =
     (if pu_tor pending = None then returnM () else dropUnusedTorrent env (pu_infoHash pending))"

definition dropPendingTorrents ::
  "('c, 'h, 'mi) torrent_env \<Rightarrow> ('h, 'mi) pendingTorrentUpload list \<Rightarrow> ('c, 'h, 'mi, unit) tprog"
where
  "dropPendingTorrents env removed = forM (dropPendingTorrent env) removed"

datatype pendingLookupMode = LookupPeek | LookupSubmit | LookupDiscard

definition lookupPendingUpload ::
  "('c, 'h, 'mi) torrent_env \<Rightarrow> string \<Rightarrow> int \<Rightarrow> pendingLookupMode \<Rightarrow>
     ('c, 'h, 'mi, ('h, 'mi) pendingTorrentUpload) tprog"
where
  "lookupPendingUpload env i userId mode =
     bindM (pending_get i) (\<lambda>found. case found of
       None \<Rightarrow> throwM ErrTorrentUploadNotFound
     | Some pending \<Rightarrow>
         bindM (get_mem w_now) (\<lambda>now.
         if now > pu_expiresAt pending then
           bindM (deletePendingLocked i) (\<lambda>_.
           bindM (dropPendingTorrent env pending) (\<lambda>_. throwM ErrTorrentUploadNotFound))
         else if pu_userId pending \<noteq> userId then throwM ErrTorrentUploadNotFound
         else if pu_timedOut pending then
           bindM (deletePendingLocked i) (\<lambda>_.
           if mode = LookupDiscard then returnM pending else throwM ErrTorrentMetadataTimeout)
         else if mode = LookupSubmit \<and> pu_tor pending \<noteq> None \<and> pu_files pending = None then
           throwM ErrTorrentMetadataPending
         else
           bindM (if mode \<noteq> LookupPeek then deletePendingLocked i else returnM ()) (\<lambda>_. returnM pending)))"

end
