(* ===== verification/TorrentUploads.thy ===== *)
theory TorrentUploads
  imports TorrentState
begin

text \<open>
  From an upload to a job (internal/service/v1/torrent_files.go and the submit half of
  torrent_service.go): caching a .torrent file or a magnet, listing it, submitting or discarding it, and what
  the goroutine and the timer behind a magnet do.  The handle of an upload (a random UUID) is an argument,
  and so is whether the request was cancelled before the torrent's info was there.
\<close>

record TorrentFile =
  tfl_Id :: string
  tfl_TorrentName :: string
  tfl_Files :: "TorrentFileEntry list"
  tfl_IsResolving :: bool

record TorrentMagnetAdd =
  ma_UploadId :: string
  ma_ExistingJobId :: int

section \<open>Uploading\<close>

definition parseTorrentFile :: "('c, 'h, 'mi) torrent_env \<Rightarrow> string \<Rightarrow> ('mi \<times> torrent_info) outcome" where
  "parseTorrentFile env torrentFileBytes =
     (case tl_Load (te_lib env) torrentFileBytes of
        Err e \<Rightarrow> Err ErrInvalidTorrentFile
      | Panic \<Rightarrow> Panic
      | Ok metaInfo \<Rightarrow>
         (case tl_UnmarshalInfo (te_lib env) metaInfo of
            Err e \<Rightarrow> Err ErrInvalidTorrentFile
          | Panic \<Rightarrow> Panic
          | Ok info \<Rightarrow>
              if ti_FilesLen info = 0 \<and> ti_Length info = 0 then Err ErrInvalidTorrentFile
              else Ok (metaInfo, info)))"

definition UploadTorrentFile ::
  "('c, 'h, 'mi) torrent_env \<Rightarrow> string \<Rightarrow> UserContext option \<Rightarrow> string \<Rightarrow> ('c, 'h, 'mi, TorrentFile) tprog"
where
  "UploadTorrentFile env newId uCtx torrentFileBytes =
     uploader uCtx (\<lambda>uc.
     bindM (liftO (parseTorrentFile env torrentFileBytes)) (\<lambda>(metaInfo, info).
     bindM (get_mem w_now) (\<lambda>now.
     let entries = torrentFileEntriesOf info;
         pending = \<lparr>pu_userId = uc_UserId uc, pu_metaInfo = Some metaInfo,
            pu_infoHash = tl_HashInfo (te_lib env) metaInfo, pu_torrentName = ti_BestName info,
            pu_files = Some entries, pu_expiresAt = now + pendingTorrentUploadTTL,
            pu_tor = None, pu_done = None, pu_expiryTimer = None, pu_timedOut = False\<rparr>
     in bindM sweepExpiredPendingUploadsLocked (\<lambda>expired.
        bindM (pending_put newId pending) (\<lambda>_.
        bindM (dropPendingTorrents env expired) (\<lambda>_.
        returnM \<lparr>tfl_Id = newId, tfl_TorrentName = pu_torrentName pending, tfl_Files = entries,
                 tfl_IsResolving = False\<rparr>))))))"

definition GetTorrentFile ::
  "('c, 'h, 'mi) torrent_env \<Rightarrow> UserContext option \<Rightarrow> string \<Rightarrow> ('c, 'h, 'mi, TorrentFile) tprog"
where
  "GetTorrentFile env uCtx i =
     authenticated uCtx (\<lambda>uc.
     bindM (lookupPendingUpload env i (uc_UserId uc) LookupPeek) (\<lambda>pending.
     returnM \<lparr>tfl_Id = i, tfl_TorrentName = pu_torrentName pending,
              tfl_Files = (case pu_files pending of None \<Rightarrow> [] | Some fs \<Rightarrow> fs),
              tfl_IsResolving = (pu_tor pending \<noteq> None \<and> pu_files pending = None)\<rparr>))"

definition DiscardTorrentFile ::
  "('c, 'h, 'mi) torrent_env \<Rightarrow> UserContext option \<Rightarrow> string \<Rightarrow> ('c, 'h, 'mi, unit) tprog"
where
  "DiscardTorrentFile env uCtx i =
     authenticated uCtx (\<lambda>uc.
     bindM (lookupPendingUpload env i (uc_UserId uc) LookupDiscard) (\<lambda>pending.
     dropPendingTorrent env pending))"

section \<open>Magnets\<close>

definition registerPendingMagnet ::
  "('c, 'h, 'mi) torrent_env \<Rightarrow> string \<Rightarrow> int \<Rightarrow> 'mi \<Rightarrow> string \<Rightarrow> string \<Rightarrow>
     ('c, 'h, 'mi, (err + string) \<times> ('h, 'mi) pendingTorrentUpload list) tprog"
where
  "registerPendingMagnet env newId userId spec infoHash torrentName =
     bindM sweepExpiredPendingUploadsLocked (\<lambda>expired.
     bindM (tryM (on_client (tl_AddTorrentSpec (te_lib env) spec))) (\<lambda>r. case r of
       Inl e \<Rightarrow> returnM (Inl e, expired)
     | Inr tor \<Rightarrow>
         bindM (get_mem w_nextchan) (\<lambda>ch.
         bindM (put_mem (\<lambda>m. m\<lparr>w_nextchan := ch + 1, w_timers := newId # w_timers m\<rparr>)) (\<lambda>_.
         bindM (get_mem w_now) (\<lambda>now.
         bindM (pending_put newId \<lparr>pu_userId = userId, pu_metaInfo = None, pu_infoHash = infoHash,
            pu_torrentName = torrentName, pu_files = None, pu_expiresAt = now + pendingTorrentUploadTTL,
            pu_tor = Some tor, pu_done = Some ch, pu_expiryTimer = Some newId, pu_timedOut = False\<rparr>) (\<lambda>_.
         returnM (Inr newId, expired)))))))"

definition magnetName :: "string \<Rightarrow> string \<Rightarrow> string" where
  "magnetName displayName infoHash = (if displayName = [] then infoHash else displayName)"

definition AddTorrentMagnet ::
  "('c, 'h, 'mi) torrent_env \<Rightarrow> string \<Rightarrow> UserContext option \<Rightarrow> string \<Rightarrow> ('c, 'h, 'mi, TorrentMagnetAdd) tprog"
where
  "AddTorrentMagnet env newId uCtx magnetUri =
     uploader uCtx (\<lambda>uc.
     bindM has_client (\<lambda>present. if \<not> present then throwM ErrTorrentClientUnavailable else
     case tl_ParseMagnetUri (te_lib env) magnetUri of
       Err e \<Rightarrow> throwM ErrInvalidMagnet | Panic \<Rightarrow> panicM
     | Ok (infoHash, displayName) \<Rightarrow>
     (case tl_SpecFromMagnetUri (te_lib env) magnetUri of
       Err e \<Rightarrow> throwM ErrInvalidMagnet | Panic \<Rightarrow> panicM
     | Ok spec \<Rightarrow>
         bindM (TD_GetByUserAndInfoHash (uc_UserId uc) infoHash) (\<lambda>existing. case existing of
           Some row \<Rightarrow> returnM \<lparr>ma_UploadId = [], ma_ExistingJobId = td_Id row\<rparr>
         | None \<Rightarrow>
             bindM (registerPendingMagnet env newId (uc_UserId uc) spec infoHash (magnetName displayName infoHash))
               (\<lambda>(r, expired).
             bindM (dropPendingTorrents env expired) (\<lambda>_. case r of
               Inl e \<Rightarrow> throwM e
             | Inr i \<Rightarrow> returnM \<lparr>ma_UploadId = i, ma_ExistingJobId = 0\<rparr>))))))"

text \<open>The ends of \<open>resolveMagnet\<close>: the info arrived, or the metadata timeout passed first.  A nil info
  would panic.\<close>

definition publishMagnetInfo :: "('c, 'h, 'mi) torrent_env \<Rightarrow> string \<Rightarrow> 'h \<Rightarrow> ('c, 'h, 'mi, unit) tprog" where
  "publishMagnetInfo env i tor =
     bindM (client_get (\<lambda>c. tl_Info (te_lib env) c tor)) (\<lambda>info.
     bindM (pending_get i) (\<lambda>found. case found of
       None \<Rightarrow> returnM ()
     | Some pending \<Rightarrow> (case info of
           None \<Rightarrow> panicM
         | Some info \<Rightarrow> pending_put i (pending\<lparr>pu_files := Some (torrentFileEntriesOf info),
                                              pu_torrentName := ti_BestName info\<rparr>))))"

definition timeOutMagnet :: "('c, 'h, 'mi) torrent_env \<Rightarrow> string \<Rightarrow> ('c, 'h, 'mi, unit) tprog" where
  "timeOutMagnet env i =
     bindM (pending_get i) (\<lambda>found. case found of
       None \<Rightarrow> returnM ()
     | Some pending \<Rightarrow>
         bindM (pending_put i (pending\<lparr>pu_timedOut := True\<rparr>)) (\<lambda>_.
         dropUnusedTorrent env (pu_infoHash pending)))"

definition expirePendingMagnet :: "('c, 'h, 'mi) torrent_env \<Rightarrow> string \<Rightarrow> ('c, 'h, 'mi, unit) tprog" where
  "expirePendingMagnet env i =
     bindM (pending_get i) (\<lambda>found. case found of
       None \<Rightarrow> returnM ()
     | Some pending \<Rightarrow> bindM (deletePendingLocked i) (\<lambda>_. dropPendingTorrent env pending))"

section \<open>Submitting\<close>

definition isActiveTorrentStatus :: "TorrentDownloadStatus \<Rightarrow> bool" where
  "isActiveTorrentStatus status = (\<exists>activeStatus \<in> set ActiveTorrentDownloadStatuses. status = activeStatus)"

definition checkSubmitQuota ::
  "('c, 'h, 'mi) torrent_env \<Rightarrow> int \<Rightarrow> int \<Rightarrow> ('c, 'h, 'mi, unit) tprog"
where
  "checkSubmitQuota env userId maxPendingTracks =
     bindM (ListFiles (pe_root (te_pipe env)) userId) (\<lambda>files.
     if int (length files) \<ge> maxPendingTracks then throwM ErrPendingTrackLimitReached
     else if te_MaxConcurrentDownloads env \<le> 0 then returnM ()
     else
       bindM (TD_ListByUser userId []) (\<lambda>rows.
       let active = length (List.filter (\<lambda>row. isActiveTorrentStatus (td_Status row)) rows)
       in if int active \<ge> te_MaxConcurrentDownloads env then throwM ErrTorrentConcurrencyLimitReached
          else returnM ()))"

text \<open>The loop over the selected files: None when one is over the limit, else the total and the
  initial progress.\<close>

fun tallyFiles ::
  "int \<Rightarrow> torrent_file list \<Rightarrow> int \<Rightarrow> TorrentFileProgress list \<Rightarrow> (int \<times> TorrentFileProgress list) option"
where
  "tallyFiles maxSize [] totalBytes progress = Some (totalBytes, progress)"
| "tallyFiles maxSize (file # files) totalBytes progress =
     (if tf_Length file > maxSize then None
      else tallyFiles maxSize files (i64 (totalBytes + tf_Length file))
        (progress @ [\<lparr>fp_Path = tf_Path file, fp_DownloadedBytes = 0, fp_TotalBytes = tf_Length file\<rparr>]))"

definition newDownload ::
  "('c, 'h, 'mi) torrent_env \<Rightarrow> int \<Rightarrow> 'h \<Rightarrow> string \<Rightarrow> string \<Rightarrow> 'c \<Rightarrow> TorrentDownload"
where
  "newDownload env userId tor folderRelDir infoHash c =
     \<lparr>td_Id = 0, td_UserId = userId, td_FolderName = folderRelDir, td_InfoHash = infoHash,
      td_TorrentName = tl_Name (te_lib env) c tor, td_Status = Queued, td_TotalBytes = 0,
      td_DownloadedBytes = 0, td_ImportedFiles = [], td_Files = [],
      td_Trackers = trackersOf (te_lib env) tor c, td_IsPrivate = isPrivateTorrent (te_lib env) tor c,
      td_Error = [], td_CreatedAt = 0, td_UpdatedAt = 0\<rparr>"

definition finalizeTorrentSubmission ::
  "('c, 'h, 'mi) torrent_env \<Rightarrow> UserContext \<Rightarrow> 'h \<Rightarrow> string \<Rightarrow> string \<Rightarrow> torrent_file list \<Rightarrow>
     ('c, 'h, 'mi, int) tprog"
where
  "finalizeTorrentSubmission env uc tor folderRelDir infoHash selectedFiles =
     (case tallyFiles (perm_MaxSongSizeBytes (uc_Permissions uc)) selectedFiles 0 [] of
        None \<Rightarrow> bindM (dropUnusedTorrent env infoHash) (\<lambda>_. throwM ErrSongSizeLimitExceeded)
      | Some (totalBytes, fileProgress) \<Rightarrow>
          if totalBytes > perm_MaxTotalUploadBytes (uc_Permissions uc)
          then bindM (dropUnusedTorrent env infoHash) (\<lambda>_. throwM ErrTotalUploadSizeLimitExceeded)
          else
            bindM (client_get (newDownload env (uc_UserId uc) tor folderRelDir infoHash)) (\<lambda>download.
            bindM (tryM (TD_Add download)) (\<lambda>r. case r of
              Inl e \<Rightarrow> bindM (dropUnusedTorrent env infoHash) (\<lambda>_. throwM e)
            | Inr row \<Rightarrow>
                bindM (TD_UpdateProgress (td_Id row) 0 totalBytes fileProgress) (\<lambda>_.
                bindM (TD_UpdateStatus (td_Id row) Downloading) (\<lambda>_.
                returnM (td_Id row))))))"

text \<open>\<open>or_drop p m f\<close>: when \<open>m\<close> fails, release the consumed upload and return the error.\<close>

definition or_drop ::
  "('c, 'h, 'mi) torrent_env \<Rightarrow> ('h, 'mi) pendingTorrentUpload \<Rightarrow> ('c, 'h, 'mi, 'a) tprog \<Rightarrow>
     ('a \<Rightarrow> ('c, 'h, 'mi, 'b) tprog) \<Rightarrow> ('c, 'h, 'mi, 'b) tprog"
where
  "or_drop env pending m f = bindM (tryM m) (\<lambda>r. case r of
     Inl e \<Rightarrow> bindM (dropPendingTorrent env pending) (\<lambda>_. throwM e) | Inr a \<Rightarrow> f a)"

definition SubmitTorrentFile ::
  "('c, 'h, 'mi) torrent_env \<Rightarrow> bool \<Rightarrow> UserContext option \<Rightarrow> string \<Rightarrow> string \<Rightarrow> string list \<Rightarrow>
     ('c, 'h, 'mi, int) tprog"
where
  "SubmitTorrentFile env canceled uCtx i folderName selectedPaths =
     uploader uCtx (\<lambda>uc.
     bindM has_client (\<lambda>present. if \<not> present then throwM ErrTorrentClientUnavailable else
     bindM (lookupPendingUpload env i (uc_UserId uc) LookupSubmit) (\<lambda>pending.
     or_drop env pending (liftO (sanitizedFolder folderName)) (\<lambda>folderRelDir.
     or_drop env pending (TD_GetByUserAndInfoHash (uc_UserId uc) (pu_infoHash pending)) (\<lambda>existing.
     case existing of
       Some row \<Rightarrow> bindM (dropPendingTorrent env pending) (\<lambda>_. throwM (ErrTorrentAlreadyExists (td_Id row)))
     | None \<Rightarrow>
       or_drop env pending
         (checkSubmitQuota env (uc_UserId uc) (perm_MaxPendingTracks (uc_Permissions uc))) (\<lambda>_.
       bindM (case pu_tor pending of
            Some tor \<Rightarrow> returnM tor
          | None \<Rightarrow> (case pu_metaInfo pending of
                None \<Rightarrow> panicM | Some mi \<Rightarrow> on_client (tl_AddTorrent (te_lib env) mi))) (\<lambda>tor.
       if canceled then bindM (dropPendingTorrent env pending) (\<lambda>_. throwM ErrContextCanceled) else
       bindM (tryM (on_client (applySelectedPriority (te_lib env) tor selectedPaths))) (\<lambda>r. case r of
         Inl e \<Rightarrow> bindM (dropUnusedTorrent env (pu_infoHash pending)) (\<lambda>_. throwM e)
       | Inr selectedFiles \<Rightarrow>
           finalizeTorrentSubmission env uc tor folderRelDir (pu_infoHash pending) selectedFiles))))))))"

definition SubmitTorrent ::
  "('c, 'h, 'mi) torrent_env \<Rightarrow> bool \<Rightarrow> UserContext option \<Rightarrow> string \<Rightarrow> string \<Rightarrow> ('c, 'h, 'mi, int) tprog"
where
  "SubmitTorrent env canceled uCtx torrentFileBytes folderName =
     uploader uCtx (\<lambda>uc.
     bindM has_client (\<lambda>present. if \<not> present then throwM ErrTorrentClientUnavailable else
     bindM (liftO (sanitizedFolder folderName)) (\<lambda>folderRelDir.
     bindM (liftO (parseTorrentFile env torrentFileBytes)) (\<lambda>(metaInfo, info).
     let infoHash = tl_HashInfo (te_lib env) metaInfo in
     bindM (TD_GetByUserAndInfoHash (uc_UserId uc) infoHash) (\<lambda>existing. case existing of
       Some row \<Rightarrow> throwM (ErrTorrentAlreadyExists (td_Id row))
     | None \<Rightarrow>
         bindM (checkSubmitQuota env (uc_UserId uc) (perm_MaxPendingTracks (uc_Permissions uc))) (\<lambda>_.
         bindM (on_client (tl_AddTorrent (te_lib env) metaInfo)) (\<lambda>tor.
         if canceled then throwM ErrContextCanceled else
         bindM (on_client (\<lambda>c. case applyAudioOnlyPriority (te_lib env) tor c of (files, c') \<Rightarrow> (Ok files, c')))
           (\<lambda>audioFiles.
         if audioFiles = [] then
           bindM (dropUnusedTorrent env infoHash) (\<lambda>_. throwM ErrTorrentHasNoAudioFiles)
         else finalizeTorrentSubmission env uc tor folderRelDir infoHash audioFiles))))))))"

end
