(* ===== verification/TorrentInvariants.thy ===== *)
theory TorrentInvariants
  imports TorrentUploads
begin

text \<open>
  The invariant of the torrent service's memory, kept by every operation on uploads and by the goroutine and timer
  behind a magnet, in any order and whatever calls fail: no channel is closed twice (so
  removing an entry never panics), and a magnet that is waiting for its metadata or for its submission is registered with
  the bittorrent client.
\<close>

section \<open>The invariant\<close>

definition chan_ok ::
  "(string \<Rightarrow> ('h, 'mi) pendingTorrentUpload option) \<Rightarrow> nat list \<Rightarrow> nat \<Rightarrow> bool"
where
  "chan_ok ps closed n \<longleftrightarrow> distinct closed \<and> (\<forall>ch \<in> set closed. ch < n) \<and>
     (\<forall>i p ch. ps i = Some p \<longrightarrow> pu_done p = Some ch \<longrightarrow>
        ch < n \<and> ch \<notin> set closed \<and> (\<forall>j q. ps j = Some q \<longrightarrow> pu_done q = Some ch \<longrightarrow> j = i))"

definition registered :: "('c, 'h, 'mi) torrent_lib \<Rightarrow> 'c option \<Rightarrow> string \<Rightarrow> 'h \<Rightarrow> bool" where
  "registered L cl infoHash h \<longleftrightarrow>
     (\<exists>c k. cl = Some c \<and> tl_FromHexString L infoHash = Some k \<and> tl_Torrent L c k = Some h)"

text \<open>A lost magnet is one whose torrent was released for a job on the same info hash.\<close>

definition entry_ok ::
  "('c, 'h, 'mi) torrent_lib \<Rightarrow> 'c option \<Rightarrow> bool \<Rightarrow> ('h, 'mi) pendingTorrentUpload \<Rightarrow> bool"
where
  "entry_ok L cl lost p \<longleftrightarrow>
     (\<exists>mi. pu_infoHash p = tl_HashInfo L mi) \<and>
     (pu_tor p = None \<longrightarrow> pu_done p = None \<and>
        (\<exists>mi. pu_metaInfo p = Some mi \<and> pu_infoHash p = tl_HashInfo L mi)) \<and>
     (\<forall>h. pu_tor p = Some h \<longrightarrow> pu_done p \<noteq> None \<and> cl \<noteq> None \<and>
        (\<not> pu_timedOut p \<and> \<not> lost \<longrightarrow> registered L cl (pu_infoHash p) h))"

text \<open>\<open>Q\<close>: the handles of the lost magnets.\<close>

definition pend_inv :: "('c, 'h, 'mi) torrent_lib \<Rightarrow> string set \<Rightarrow> ('c, 'h, 'mi) tmem \<Rightarrow> bool" where
  "pend_inv L Q m \<longleftrightarrow> distinct (List.map fst (w_pending m)) \<and> chan_ok (map_of (w_pending m)) (w_closed m) (w_nextchan m) \<and>
     (\<forall>i p. map_of (w_pending m) i = Some p \<longrightarrow> entry_ok L (w_client m) (i \<in> Q) p)"

lemma pend_inv_entry: "pend_inv L Q m \<Longrightarrow> map_of (w_pending m) i = Some p \<Longrightarrow> entry_ok L (w_client m) (i \<in> Q) p"
  by (simp add: pend_inv_def)

lemma pend_inv_mono: "pend_inv L Q m \<Longrightarrow> Q \<subseteq> Q' \<Longrightarrow> pend_inv L Q' m"
  unfolding pend_inv_def entry_ok_def by blast

lemma pend_inv_disk [simp]: "pend_inv L Q (m\<lparr>w_disk := d\<rparr>) = pend_inv L Q m"
  and pend_inv_timers [simp]: "pend_inv L Q (m\<lparr>w_timers := ts\<rparr>) = pend_inv L Q m"
  and pend_inv_now [simp]: "pend_inv L Q (m\<lparr>w_now := t\<rparr>) = pend_inv L Q m"
  by (simp_all add: pend_inv_def)

text \<open>A change of the client that keeps every registered torrent keeps the invariant.\<close>

definition client_extends :: "('c, 'h, 'mi) torrent_lib \<Rightarrow> 'c \<Rightarrow> 'c \<Rightarrow> bool" where
  "client_extends L c c' \<longleftrightarrow> (\<forall>k h. tl_Torrent L c k = Some h \<longrightarrow> tl_Torrent L c' k = Some h)"

lemma entry_ok_extends:
  "entry_ok L (Some c) lost p \<Longrightarrow> client_extends L c c' \<Longrightarrow> entry_ok L (Some c') lost p"
  by (auto simp: entry_ok_def registered_def client_extends_def)

lemma pend_inv_client:
  assumes "pend_inv L Q m" "w_client m = Some c" "client_extends L c c'"
  shows "pend_inv L Q (m\<lparr>w_client := Some c'\<rparr>)"
  using assms(1,2) entry_ok_extends[OF _ assms(3)] unfolding pend_inv_def by simp

lemma chan_okI:
  assumes "distinct closed" "\<And>ch. ch \<in> set closed \<Longrightarrow> ch < n"
    and "\<And>i p ch. ps i = Some p \<Longrightarrow> pu_done p = Some ch \<Longrightarrow> ch < n \<and> ch \<notin> set closed"
    and "\<And>i p j q ch. ps i = Some p \<Longrightarrow> pu_done p = Some ch \<Longrightarrow> ps j = Some q \<Longrightarrow> pu_done q = Some ch \<Longrightarrow> j = i"
  shows "chan_ok ps closed n"
  unfolding chan_ok_def using assms by blast

lemma chan_okD:
  assumes "chan_ok ps closed n"
  shows "distinct closed" "ch \<in> set closed \<Longrightarrow> ch < n"
    and "ps i = Some p \<Longrightarrow> pu_done p = Some ch \<Longrightarrow> ch < n"
    and "ps i = Some p \<Longrightarrow> pu_done p = Some ch \<Longrightarrow> ch \<notin> set closed"
    and "ps i = Some p \<Longrightarrow> pu_done p = Some ch \<Longrightarrow> ps j = Some q \<Longrightarrow> pu_done q = Some ch \<Longrightarrow> j = i"
  using assms unfolding chan_ok_def by blast+

lemma chan_ok_delete:
  assumes "chan_ok ps cl n"
  shows "chan_ok (ps(i := None)) cl n"
proof (rule chan_okI)
  fix j p ch
  assume "(ps(i := None)) j = Some p" "pu_done p = Some ch"
  then show "ch < n \<and> ch \<notin> set cl"
    using chan_okD(3,4)[OF assms] by (auto split: if_splits)
next
  fix j p j' q ch
  assume "(ps(i := None)) j = Some p" "pu_done p = Some ch" "(ps(i := None)) j' = Some q" "pu_done q = Some ch"
  then show "j' = j"
    using chan_okD(5)[OF assms, of j p ch j' q] by (auto split: if_splits)
qed (use chan_okD(1,2)[OF assms] in simp_all)

lemma chan_ok_close:
  assumes "chan_ok ps cl n" "ps i = Some p" "pu_done p = Some ch"
  shows "ch \<notin> set cl \<and> chan_ok (ps(i := None)) (ch # cl) n"
proof (intro conjI chan_okI)
  show new: "ch \<notin> set cl" using chan_okD(4)[OF assms] .
  show "distinct (ch # cl)" using new chan_okD(1)[OF assms(1)] by simp
  show "c < n" if "c \<in> set (ch # cl)" for c
    using that chan_okD(2)[OF assms(1)] chan_okD(3)[OF assms] by auto
next
  fix j q c
  assume q: "(ps(i := None)) j = Some q" "pu_done q = Some c"
  then have "ps j = Some q" "j \<noteq> i" by (auto split: if_splits)
  then show "c < n" "c \<notin> set (ch # cl)"
    using q chan_okD(3,4)[OF assms(1), of j q c] chan_okD(5)[OF assms, of j q] by auto
next
  fix j q j' q' c
  assume "(ps(i := None)) j = Some q" "pu_done q = Some c" "(ps(i := None)) j' = Some q'" "pu_done q' = Some c"
  then show "j' = j"
    using chan_okD(5)[OF assms(1), of j q c j' q'] by (auto split: if_splits)
qed

text \<open>Replacing or adding an entry: its channel, if any, is the one of the entry it replaces or a new one.\<close>

lemma chan_ok_put:
  assumes ok: "chan_ok ps cl n"
    and same: "\<And>ch. pu_done p = Some ch \<Longrightarrow> (\<exists>q. ps i = Some q \<and> pu_done q = Some ch)"
  shows "chan_ok (ps(i \<mapsto> p)) cl n"
proof -
  have old: "\<exists>q'. ps j = Some q' \<and> pu_done q' = Some ch"
    if "(ps(i \<mapsto> p)) j = Some q" "pu_done q = Some ch" for j q ch
    using that same by (auto split: if_splits)
  show ?thesis
  proof (rule chan_okI)
    fix j q ch
    assume "(ps(i \<mapsto> p)) j = Some q" "pu_done q = Some ch"
    from old[OF this] show "ch < n \<and> ch \<notin> set cl"
      using chan_okD(3,4)[OF ok] by blast
  next
    fix j q j' q' ch
    assume q: "(ps(i \<mapsto> p)) j = Some q" "pu_done q = Some ch"
      and q': "(ps(i \<mapsto> p)) j' = Some q'" "pu_done q' = Some ch"
    from old[OF q] old[OF q'] show "j' = j"
      using chan_okD(5)[OF ok] by blast
  qed (use chan_okD(1,2)[OF ok] in simp_all)
qed

lemma chan_ok_new:
  assumes ok: "chan_ok ps cl n" and new: "pu_done p = Some n"
  shows "chan_ok (ps(i \<mapsto> p)) cl (Suc n)"
proof -
  have old: "ch < n \<and> ps j = Some q \<and> j \<noteq> i \<or> ch = n \<and> j = i"
    if "(ps(i \<mapsto> p)) j = Some q" "pu_done q = Some ch" for j q ch
    using that new chan_okD(3)[OF ok, of j q ch] by (auto split: if_splits)
  show ?thesis
  proof (rule chan_okI)
    fix j q ch
    assume q: "(ps(i \<mapsto> p)) j = Some q" "pu_done q = Some ch"
    from old[OF this] show "ch < Suc n \<and> ch \<notin> set cl"
      using chan_okD(4)[OF ok, of j q ch] chan_okD(2)[OF ok, of ch] q(2) by auto
  next
    fix j q j' q' ch
    assume q: "(ps(i \<mapsto> p)) j = Some q" "pu_done q = Some ch"
      and q': "(ps(i \<mapsto> p)) j' = Some q'" "pu_done q' = Some ch"
    from old[OF q] old[OF q'] show "j' = j"
      using chan_okD(5)[OF ok, of j q ch j' q'] q(2) q'(2) by auto
  next
    fix ch
    assume "ch \<in> set cl"
    then show "ch < Suc n" using chan_okD(2)[OF ok, of ch] by simp
  qed (rule chan_okD(1)[OF ok])
qed

section \<open>Removing an entry\<close>

lemma deletePendingLocked_run:
  assumes "pend_inv L Q (mem s)"
  shows "\<exists>m'. deletePendingLocked i s = (Ok (), s\<lparr>mem := m'\<rparr>) \<and> pend_inv L Q m' \<and>
    map_of (w_pending m') = (map_of (w_pending (mem s)))(i := None) \<and>
    w_client m' = w_client (mem s) \<and> w_disk m' = w_disk (mem s) \<and> w_now m' = w_now (mem s)"
proof (cases "map_of (w_pending (mem s)) i")
  case None
  then show ?thesis
    using assms by (intro exI[of _ "mem s"]) (auto simp: deletePendingLocked_def pending_get_def bindM_def)
next
  case (Some p)
  let ?m1 = "(mem s)\<lparr>w_pending := AList.delete i (w_pending (mem s))\<rparr>"
  let ?m2 = "case pu_done p of None \<Rightarrow> ?m1 | Some ch \<Rightarrow> ?m1\<lparr>w_closed := ch # w_closed ?m1\<rparr>"
  let ?m3 = "case pu_expiryTimer p of None \<Rightarrow> ?m2 | Some t \<Rightarrow> ?m2\<lparr>w_timers := removeAll t (w_timers ?m2)\<rparr>"
  have chan: "chan_ok (map_of (w_pending (mem s))) (w_closed (mem s)) (w_nextchan (mem s))"
    using assms by (simp add: pend_inv_def)
  have m2: "pend_inv L Q ?m2"
  proof (cases "pu_done p")
    case None
    then show ?thesis
      using assms chan_ok_delete[OF chan] by (auto simp: pend_inv_def delete_conv' distinct_delete)
  next
    case (Some ch)
    then show ?thesis
      using assms chan_ok_close[OF chan \<open>map_of _ i = Some p\<close> Some] by (auto simp: pend_inv_def delete_conv' distinct_delete)
  qed
  have m3: "pend_inv L Q ?m3"
    using m2 by (simp split: option.split)
  have run: "deletePendingLocked i s = (Ok (), s\<lparr>mem := ?m3\<rparr>)"
    using Some chan_ok_close[OF chan Some]
    by (cases "pu_done p"; cases "pu_expiryTimer p")
      (simp_all add: deletePendingLocked_def pending_get_def close_chan_def stop_timer_def bindM_def)
  show ?thesis
    using run m3 by (intro exI[of _ ?m3]) (simp add: delete_conv' split: option.split)
qed

lemmas keeps_mem = keeps_get_mem keeps_return keeps_throw keeps_panic keeps_lift

abbreviation tI :: "('c, 'h, 'mi) torrent_lib \<Rightarrow> string set \<Rightarrow> ('c, 'h, 'mi) tstate \<Rightarrow> bool" where
  "tI L Q \<equiv> dbI (pend_inv L Q)"

lemma tI_mem: "tI L Q s \<Longrightarrow> pend_inv L Q (mem s)"
  by (simp add: on_data_def)

lemma keeps_delete [keeps_intros]: "keeps (tI L Q) (deletePendingLocked i)"
proof (rule keepsI)
  fix s r s'
  assume I: "tI L Q s" and run: "deletePendingLocked i s = (r, s')"
  from deletePendingLocked_run[OF tI_mem[OF I], of i] show "tI L Q s'"
    using I run by (auto simp: on_data_def)
qed

lemma keeps_on_client:
  assumes "\<And>c. client_extends L c (snd (f c))"
  shows "keeps (tI L Q) (on_client f)"
proof (rule keepsI)
  fix s r s'
  assume I: "tI L Q s" and run: "on_client f s = (r, s')"
  show "tI L Q s'"
  proof (cases "w_client (mem s)")
    case None
    then show ?thesis using I run by (simp add: on_client_def)
  next
    case (Some c)
    then have "pend_inv L Q ((mem s)\<lparr>w_client := Some (snd (f c))\<rparr>)"
      using pend_inv_client[OF tI_mem[OF I] _ assms[of c]] by simp
    then show ?thesis
      using I run Some by (auto simp: on_client_def on_data_def split: prod.splits)
  qed
qed

lemma client_extends_refl: "client_extends L c c"
  by (simp add: client_extends_def)

lemma keeps_client_get [keeps_intros]: "keeps (tI L Q) (client_get f)"
  unfolding client_get_def by (rule keeps_on_client) (simp add: client_extends_refl)

lemma keeps_has_client [keeps_intros]: "keeps (tI L Q) has_client"
  and keeps_pending_get [keeps_intros]: "keeps (tI L Q) (pending_get i)"
  unfolding has_client_def pending_get_def by (rule keeps_get_mem)+

lemma keeps_lookupTorrent [keeps_intros]: "keeps (tI L Q) (lookupTorrent env h)"
  unfolding lookupTorrent_def by (intro keeps_intros)

lemma keeps_sweep_loop [keeps_intros]: "keeps (tI L Q) (sweep_loop now entries acc)"
proof (induction now entries acc rule: sweep_loop.induct)
  case (1 now acc)
  show ?case unfolding sweep_loop.simps by (rule keeps_return)
next
  case (2 now i p rest acc)
  then show ?case by (auto intro!: keeps_bind keeps_delete)
qed

lemma keeps_sweep [keeps_intros]: "keeps (tI L Q) sweepExpiredPendingUploadsLocked"
  unfolding sweepExpiredPendingUploadsLocked_def by (intro keeps_intros)

section \<open>Dropping a torrent nobody needs\<close>

lemma client_apply [simp]:
  "w_client (mem s) = Some c \<Longrightarrow> client_get f s = (Ok (f c), s)"
  "w_client (mem s) = Some c \<Longrightarrow> client_do g s = (Ok (), s\<lparr>mem := (mem s)\<lparr>w_client := Some (g c)\<rparr>\<rparr>)"
  by (simp_all add: client_get_def client_do_def on_client_def)

text \<open>The last step of \<open>dropUnusedTorrent\<close>.\<close>

definition drop_unless_held :: "('c, 'h, 'mi) torrent_env \<Rightarrow> string \<Rightarrow> ('c, 'h, 'mi, unit) tprog" where
  "drop_unless_held env infoHash =
     bindM (get_mem (\<lambda>m. \<exists>(i, pending) \<in> set (w_pending m). live_magnet infoHash pending)) (\<lambda>held.
       if held then returnM () else
       bindM (lookupTorrent env infoHash) (\<lambda>tor. case tor of
           None \<Rightarrow> returnM ()
         | Some h \<Rightarrow> client_do (tl_Drop (te_lib env) h)))"

lemma drop_unless_held_run:
  assumes "w_client (mem s) = Some c"
  shows "drop_unless_held env infoHash s = (Ok (), s) \<or>
    (\<exists>k h. tl_FromHexString (te_lib env) infoHash = Some k \<and> tl_Torrent (te_lib env) c k = Some h \<and>
       (\<forall>(i, p) \<in> set (w_pending (mem s)). \<not> live_magnet infoHash p) \<and>
       drop_unless_held env infoHash s =
         (Ok (), s\<lparr>mem := (mem s)\<lparr>w_client := Some (tl_Drop (te_lib env) h c)\<rparr>\<rparr>))"
proof (cases "\<exists>(i, p) \<in> set (w_pending (mem s)). live_magnet infoHash p")
  case True
  then show ?thesis by (simp add: drop_unless_held_def bindM_def)
next
  case False
  show ?thesis
  proof (cases "tl_FromHexString (te_lib env) infoHash")
    case None
    then show ?thesis using False by (simp add: drop_unless_held_def lookupTorrent_def bindM_def)
  next
    case (Some k)
    then show ?thesis
      using False assms
      by (cases "tl_Torrent (te_lib env) c k")
        (auto simp add: drop_unless_held_def lookupTorrent_def bindM_def)
  qed
qed

lemma entry_ok_drop_key:
  assumes laws: "client_laws L" and ok: "entry_ok L (Some c) lost p" and h: "tl_Torrent L c k = Some h"
    and other: "\<not> lost \<Longrightarrow> \<not> pu_timedOut p \<Longrightarrow> pu_tor p \<noteq> None \<Longrightarrow> tl_FromHexString L (pu_infoHash p) \<noteq> Some k"
  shows "entry_ok L (Some (tl_Drop L h c)) lost p"
proof -
  have "registered L (Some (tl_Drop L h c)) (pu_infoHash p) h'"
    if tor: "pu_tor p = Some h'" "\<not> pu_timedOut p" "\<not> lost" for h'
  proof -
    obtain k' where k': "tl_FromHexString L (pu_infoHash p) = Some k'" "tl_Torrent L c k' = Some h'"
      using ok tor by (auto simp: entry_ok_def registered_def)
    have "k' \<noteq> k" using other tor k'(1) by auto
    then have "tl_Torrent L c k' \<noteq> Some h"
      using same_handle[OF laws, of c k' h k] h by blast
    then show ?thesis
      using k' Torrent_Drop[OF laws, of h c k'] by (simp add: registered_def)
  qed
  then show ?thesis using ok by (simp add: entry_ok_def)
qed

lemma entry_ok_drop:
  assumes laws: "client_laws L" and ok: "entry_ok L (Some c) lost p"
    and hash: "infoHash = tl_HashInfo L mi" "tl_FromHexString L infoHash = Some k" "tl_Torrent L c k = Some h"
    and idle: "\<not> live_magnet infoHash p"
  shows "entry_ok L (Some (tl_Drop L h c)) lost p"
proof (rule entry_ok_drop_key[OF laws ok hash(3)])
  assume "\<not> pu_timedOut p" "pu_tor p \<noteq> None"
  then have "pu_infoHash p \<noteq> infoHash" using idle by (simp add: live_magnet_def)
  moreover obtain mi' where "pu_infoHash p = tl_HashInfo L mi'" using ok by (auto simp: entry_ok_def)
  ultimately show "tl_FromHexString L (pu_infoHash p) \<noteq> Some k"
    using same_hash[OF laws, of mi' k mi] hash by auto
qed

lemma keeps_drop_unless_held:
  assumes "client_laws (te_lib env)" "infoHash = tl_HashInfo (te_lib env) mi"
  shows "keeps (tI (te_lib env) Q) (drop_unless_held env infoHash)"
proof (rule keepsI)
  let ?L = "te_lib env"
  fix s r s'
  assume I: "tI ?L Q s" and run: "drop_unless_held env infoHash s = (r, s')"
  show "tI ?L Q s'"
  proof (cases "w_client (mem s)")
    case None
    then show ?thesis
      using I run by (auto simp: drop_unless_held_def lookupTorrent_def bindM_def client_get_def on_client_def
          split: if_splits option.splits)
  next
    case (Some c)
    from drop_unless_held_run[of s c env infoHash, OF Some] show ?thesis
    proof (elim disjE exE conjE)
      fix k h
      assume kh: "tl_FromHexString ?L infoHash = Some k" "tl_Torrent ?L c k = Some h"
        and idle: "\<forall>(i, p)\<in>set (w_pending (mem s)). \<not> live_magnet infoHash p"
        and res: "drop_unless_held env infoHash s = (Ok (), s\<lparr>mem := (mem s)\<lparr>w_client := Some (tl_Drop ?L h c)\<rparr>\<rparr>)"
      have "entry_ok ?L (Some (tl_Drop ?L h c)) (i \<in> Q) p" if p: "map_of (w_pending (mem s)) i = Some p" for i p
      proof (rule entry_ok_drop[OF assms(1) _ assms(2) kh])
        show "entry_ok ?L (Some c) (i \<in> Q) p" using pend_inv_entry[OF tI_mem[OF I] p] Some by simp
        show "\<not> live_magnet infoHash p" using idle map_of_SomeD[OF p] by auto
      qed
      then have "pend_inv ?L Q ((mem s)\<lparr>w_client := Some (tl_Drop ?L h c)\<rparr>)"
        using tI_mem[OF I] by (simp add: pend_inv_def)
      then show ?thesis using I run res by (auto simp: on_data_def)
    qed (use I run in simp)
  qed
qed

lemma dropUnusedTorrent_alt:
  "dropUnusedTorrent env infoHash =
     bindM has_client (\<lambda>present. if \<not> present then returnM () else
     bindM (tryM TD_ListActive) (\<lambda>r. case r of
         Inl _ \<Rightarrow> returnM ()
       | Inr activeRows \<Rightarrow>
           if \<exists>row \<in> set activeRows. td_InfoHash row = infoHash then returnM ()
           else drop_unless_held env infoHash))"
  unfolding dropUnusedTorrent_def drop_unless_held_def ..

definition canonical :: "('c, 'h, 'mi) torrent_env \<Rightarrow> string \<Rightarrow> bool" where
  "canonical env infoHash \<longleftrightarrow> (\<exists>mi. infoHash = tl_HashInfo (te_lib env) mi)"

lemma keeps_dropUnused:
  assumes "client_laws (te_lib env)" "canonical env infoHash"
  shows "keeps (tI (te_lib env) Q) (dropUnusedTorrent env infoHash)"
  using assms unfolding dropUnusedTorrent_alt canonical_def
  by (auto intro!: keeps_intros intro: keeps_drop_unless_held)

lemma keeps_dropPending:
  assumes "client_laws (te_lib env)" "canonical env (pu_infoHash p)"
  shows "keeps (tI (te_lib env) Q) (dropPendingTorrent env p)"
  unfolding dropPendingTorrent_def by (intro keeps_if keeps_return keeps_dropUnused assms)

lemma keeps_dropPendings:
  assumes "client_laws (te_lib env)" "\<And>p. p \<in> set ps \<Longrightarrow> canonical env (pu_infoHash p)"
  shows "keeps (tI (te_lib env) Q) (dropPendingTorrents env ps)"
  using assms(2) unfolding dropPendingTorrents_def
  by (induction ps) (simp_all add: keeps_return keeps_bind keeps_dropPending[OF assms(1)])

section \<open>Looking up, sweeping and storing entries\<close>

lemma hoare_pending_get:
  "hoare (tI (te_lib env) Q) (pending_get i)
     (\<lambda>r s. tI (te_lib env) Q s \<and> (\<forall>a. r = Ok a \<longrightarrow> (\<forall>p. a = Some p \<longrightarrow> canonical env (pu_infoHash p))))"
  by (rule hoareI)
    (auto simp: pending_get_def canonical_def dest!: tI_mem dest: pend_inv_entry simp: entry_ok_def)

text \<open>What a sweep returns came out of the cache, so its hashes are canonical.\<close>

lemma sweep_loop_result:
  "sweep_loop now entries acc s = (Ok ps, s') \<Longrightarrow> set ps \<subseteq> set acc \<union> snd ` set entries"
proof (induction now entries acc arbitrary: s rule: sweep_loop.induct)
  case (2 now i p rest acc)
  then show ?case by (cases "now > pu_expiresAt p") (fastforce simp: bindM_eq_Ok)+
qed simp

definition taken_ok :: "('c, 'h, 'mi) torrent_env \<Rightarrow> ('h, 'mi) pendingTorrentUpload \<Rightarrow> bool" where
  "taken_ok env p \<longleftrightarrow> canonical env (pu_infoHash p) \<and>
     (pu_tor p = None \<longrightarrow> (\<exists>mi. pu_metaInfo p = Some mi \<and> pu_infoHash p = tl_HashInfo (te_lib env) mi))"

lemma cached_taken_ok:
  "tI (te_lib env) Q s \<Longrightarrow> map_of (w_pending (mem s)) i = Some p \<Longrightarrow> taken_ok env p"
  by (drule tI_mem, drule pend_inv_entry, assumption) (auto simp: entry_ok_def taken_ok_def canonical_def)

lemma taken_canonical: "taken_ok env p \<Longrightarrow> canonical env (pu_infoHash p)"
  by (simp add: taken_ok_def)

text \<open>Every entry of the cache has a well-formed hash, so a lookup hands out well-formed entries.\<close>

lemma hoare_found:
  "hoare (tI (te_lib env) Q) (pending_get i)
     (\<lambda>r s. tI (te_lib env) Q s \<and> (\<forall>a. r = Ok a \<longrightarrow> (\<forall>p. a = Some p \<longrightarrow> taken_ok env p)))"
  by (rule hoareI) (auto simp: pending_get_def intro: cached_taken_ok)

lemma keeps_lookup:
  assumes "client_laws (te_lib env)"
  shows "keeps (tI (te_lib env) Q) (lookupPendingUpload env i u mode)"
  unfolding lookupPendingUpload_def
proof (rule keeps_bind_post[OF hoare_found])
  fix a
  assume a: "\<forall>p. a = Some p \<longrightarrow> taken_ok env p"
  show "keeps (tI (te_lib env) Q) (case a of None \<Rightarrow> throwM ErrTorrentUploadNotFound
     | Some pending \<Rightarrow>
         bindM (get_mem w_now) (\<lambda>now.
         if now > pu_expiresAt pending then
           bindM (deletePendingLocked i) (\<lambda>_.
           bindM (dropPendingTorrent env pending) (\<lambda>_. throwM ErrTorrentUploadNotFound))
         else if pu_userId pending \<noteq> u then throwM ErrTorrentUploadNotFound
         else if pu_timedOut pending then
           bindM (deletePendingLocked i) (\<lambda>_.
           if mode = LookupDiscard then returnM pending else throwM ErrTorrentMetadataTimeout)
         else if mode = LookupSubmit \<and> pu_tor pending \<noteq> None \<and> pu_files pending = None then
           throwM ErrTorrentMetadataPending
         else
           bindM (if mode \<noteq> LookupPeek then deletePendingLocked i else returnM ()) (\<lambda>_. returnM pending)))"
    using a by (cases a)
      (auto intro!: keeps_intros keeps_dropPending[OF assms] simp: taken_canonical)
qed

lemma lookup_result:
  assumes "lookupPendingUpload env i u mode s = (Ok p, s')"
  shows "map_of (w_pending (mem s)) i = Some p \<and> pu_userId p = u \<and> \<not> w_now (mem s) > pu_expiresAt p"
  using assms unfolding lookupPendingUpload_def pending_get_def bindM_eq_Ok
  by (auto simp: bindM_eq_Ok split: option.splits if_splits)

lemma hoare_lookup:
  assumes "client_laws (te_lib env)"
  shows "hoare (tI (te_lib env) Q) (lookupPendingUpload env i u mode)
     (\<lambda>r s. tI (te_lib env) Q s \<and> (\<forall>p. r = Ok p \<longrightarrow> taken_ok env p))"
  by (rule hoareI) (auto dest: lookup_result intro: cached_taken_ok keepsD_eq[OF keeps_lookup[OF assms]])

lemma hoare_sweep:
  "hoare (tI (te_lib env) Q) sweepExpiredPendingUploadsLocked
     (\<lambda>r s. tI (te_lib env) Q s \<and> (\<forall>ps. r = Ok ps \<longrightarrow> (\<forall>p \<in> set ps. canonical env (pu_infoHash p))))"
proof (rule hoareI)
  fix s :: "('a, 'b, 'c) tstate" and r s'
  assume I: "tI (te_lib env) Q s" and run: "sweepExpiredPendingUploadsLocked s = (r, s')"
  have "canonical env (pu_infoHash p)" if "r = Ok ps" "p \<in> set ps" for ps p
  proof -
    have "p \<in> snd ` set (w_pending (mem s))"
      using run that sweep_loop_result[of "w_now (mem s)" "w_pending (mem s)" "[]" s ps s']
      by (auto simp: sweepExpiredPendingUploadsLocked_def bindM_def)
    then obtain i where "map_of (w_pending (mem s)) i = Some p"
      using tI_mem[OF I] by (auto simp: pend_inv_def)
    then show ?thesis using cached_taken_ok[OF I] taken_canonical by blast
  qed
  then show "tI (te_lib env) Q s' \<and> (\<forall>ps. r = Ok ps \<longrightarrow> (\<forall>p\<in>set ps. canonical env (pu_infoHash p)))"
    using keepsD_eq[OF keeps_sweep run I] by blast
qed

section \<open>The operations\<close>

lemma keeps_GetTorrentFile:
  "client_laws (te_lib env) \<Longrightarrow> keeps (tI (te_lib env) Q) (GetTorrentFile env uCtx i)"
  unfolding GetTorrentFile_def by (intro keeps_intros keeps_lookup)

lemma keeps_DiscardTorrentFile:
  assumes "client_laws (te_lib env)"
  shows "keeps (tI (te_lib env) Q) (DiscardTorrentFile env uCtx i)"
  unfolding DiscardTorrentFile_def
  by (intro keeps_checks keeps_bind_post[OF hoare_lookup[OF assms]] keeps_dropPending[OF assms] taken_canonical)

lemma keeps_put_plain:
  assumes "pu_done p = None" "pu_tor p = None" "pu_metaInfo p = Some mi" "pu_infoHash p = tl_HashInfo L mi"
  shows "keeps (tI L Q) (pending_put i p)"
proof (rule keepsI)
  fix s r s'
  assume I: "tI L Q s" and run: "pending_put i p s = (r, s')"
  have "chan_ok ((map_of (w_pending (mem s)))(i \<mapsto> p)) (w_closed (mem s)) (w_nextchan (mem s))"
    by (rule chan_ok_put) (use tI_mem[OF I] assms in \<open>simp_all add: pend_inv_def\<close>)
  moreover have "entry_ok L (w_client (mem s)) (i \<in> Q) p"
    using assms by (auto simp: entry_ok_def)
  ultimately have "pend_inv L Q ((mem s)\<lparr>w_pending := AList.update i p (w_pending (mem s))\<rparr>)"
    using pend_inv_entry[OF tI_mem[OF I]] tI_mem[OF I] by (auto simp: pend_inv_def update_conv' distinct_update split: if_splits)
  then show "tI L Q s'" using I run by (auto simp: pending_put_def on_data_def)
qed

lemma keeps_UploadTorrentFile:
  assumes "client_laws (te_lib env)"
  shows "keeps (tI (te_lib env) Q) (UploadTorrentFile env newId uCtx b)"
  unfolding UploadTorrentFile_def Let_def
  by (intro keeps_intros keeps_bind_post[OF hoare_sweep] keeps_put_plain keeps_dropPendings[OF assms]) auto

text \<open>Replacing an entry by one with the same hash, owner of a channel and torrent.\<close>

lemma tI_put_same:
  assumes I: "tI L Q s" and old: "map_of (w_pending (mem s)) i = Some q"
    and same: "pu_infoHash p = pu_infoHash q" "pu_tor p = pu_tor q" "pu_done p = pu_done q"
      "pu_metaInfo p = pu_metaInfo q" "pu_timedOut q \<Longrightarrow> pu_timedOut p"
  shows "tI L Q (s\<lparr>mem := (mem s)\<lparr>w_pending := AList.update i p (w_pending (mem s))\<rparr>\<rparr>)"
proof -
  have "chan_ok ((map_of (w_pending (mem s)))(i \<mapsto> p)) (w_closed (mem s)) (w_nextchan (mem s))"
    by (rule chan_ok_put) (use tI_mem[OF I] old same in \<open>simp_all add: pend_inv_def\<close>)
  moreover have "entry_ok L (w_client (mem s)) (i \<in> Q) p"
    using pend_inv_entry[OF tI_mem[OF I] old] same by (auto simp: entry_ok_def)
  ultimately show ?thesis
    using I pend_inv_entry[OF tI_mem[OF I]] tI_mem[OF I]
    by (auto simp: on_data_def pend_inv_def update_conv' distinct_update split: if_splits)
qed

lemma keeps_publish: "keeps (tI (te_lib env) Q) (publishMagnetInfo env i tor)"
proof (rule keepsI)
  fix s r s'
  assume I: "tI (te_lib env) Q s" and run: "publishMagnetInfo env i tor s = (r, s')"
  show "tI (te_lib env) Q s'"
  proof (cases "w_client (mem s)")
    case None
    then show ?thesis using I run
      by (simp add: publishMagnetInfo_def bindM_def client_get_def on_client_def)
  next
    case (Some c)
    show ?thesis
    proof (cases "map_of (w_pending (mem s)) i")
      case None
      then show ?thesis using I run Some
        by (simp add: publishMagnetInfo_def bindM_def pending_get_def)
    next
      case found: (Some p)
      show ?thesis
      proof (cases "tl_Info (te_lib env) c tor")
        case None
        then show ?thesis using I run Some found
          by (simp add: publishMagnetInfo_def bindM_def pending_get_def)
      next
        case (Some info)
        have "s' = s\<lparr>mem := (mem s)\<lparr>w_pending := AList.update i (p\<lparr>pu_files := Some (torrentFileEntriesOf info),
            pu_torrentName := ti_BestName info\<rparr>) (w_pending (mem s))\<rparr>\<rparr>"
          using run Some \<open>w_client (mem s) = Some c\<close> found
          by (simp add: publishMagnetInfo_def bindM_def pending_get_def pending_put_def)
        then show ?thesis by (simp only:) (rule tI_put_same[OF I found], simp_all)
      qed
    qed
  qed
qed

lemma keeps_timeOut:
  assumes "client_laws (te_lib env)"
  shows "keeps (tI (te_lib env) Q) (timeOutMagnet env i)"
proof (rule keepsI)
  fix s r s'
  assume I: "tI (te_lib env) Q s" and run: "timeOutMagnet env i s = (r, s')"
  show "tI (te_lib env) Q s'"
  proof (cases "map_of (w_pending (mem s)) i")
    case None
    then show ?thesis using I run by (simp add: timeOutMagnet_def bindM_def pending_get_def)
  next
    case (Some p)
    let ?s1 = "s\<lparr>mem := (mem s)\<lparr>w_pending := AList.update i (p\<lparr>pu_timedOut := True\<rparr>) (w_pending (mem s))\<rparr>\<rparr>"
    have "tI (te_lib env) Q ?s1" by (rule tI_put_same[OF I Some]) simp_all
    moreover have "dropUnusedTorrent env (pu_infoHash p) ?s1 = (r, s')"
      using run Some by (simp add: timeOutMagnet_def bindM_def pending_get_def pending_put_def)
    moreover have "canonical env (pu_infoHash p)"
      using cached_taken_ok[OF I Some] by (rule taken_canonical)
    ultimately show ?thesis using keepsD_eq[OF keeps_dropUnused[OF assms]] by blast
  qed
qed

lemma keeps_expire:
  assumes "client_laws (te_lib env)"
  shows "keeps (tI (te_lib env) Q) (expirePendingMagnet env i)"
  unfolding expirePendingMagnet_def
  by (rule keeps_bind_post[OF hoare_found])
    (auto intro!: keeps_intros keeps_dropPending[OF assms] simp: taken_canonical split: option.split)

text \<open>Adding a torrent keeps what is registered and registers the new one.\<close>

lemma added_extends:
  assumes "added_ok L mi c h c'"
  shows "client_extends L c c'" "registered L (Some c') (tl_HashInfo L mi) h"
proof -
  obtain k where k: "tl_FromHexString L (tl_HashInfo L mi) = Some k" "tl_Torrent L c' k = Some h"
    "\<And>k'. k' \<noteq> k \<Longrightarrow> tl_Torrent L c' k' = tl_Torrent L c k'" "\<And>h0. tl_Torrent L c k = Some h0 \<Longrightarrow> h0 = h"
    using assms unfolding added_ok_def by blast
  show "registered L (Some c') (tl_HashInfo L mi) h" using k by (simp add: registered_def)
  show "client_extends L c c'"
    unfolding client_extends_def
  proof (intro allI impI)
    fix k' h'
    assume h': "tl_Torrent L c k' = Some h'"
    show "tl_Torrent L c' k' = Some h'"
      using k h' by (cases "k' = k") auto
  qed
qed

lemma adds_extends:
  assumes "adds_torrents L add"
  shows "client_extends L c (snd (add mi c))"
proof -
  obtain r c' where a: "add mi c = (r, c')" by (cases "add mi c")
  show ?thesis
  proof (cases r)
    case (Ok h)
    then show ?thesis using added_extends(1)[OF adds_torrents_Ok[OF assms]] a by auto
  next
    case (Err e)
    then show ?thesis using adds_torrents_Err[OF assms] a by (simp add: client_extends_def)
  next
    case Panic
    then show ?thesis using adds_torrents_no_Panic[OF assms] a by auto
  qed
qed

lemma keeps_add [keeps_intros]:
  "client_laws L \<Longrightarrow> keeps (tI L Q) (on_client (tl_AddTorrent L mi))"
  "client_laws L \<Longrightarrow> keeps (tI L Q) (on_client (tl_AddTorrentSpec L mi))"
  by (rule keeps_on_client, rule adds_extends, erule client_laws_split)+

lemma keeps_select:
  assumes "client_laws L"
  shows "keeps (tI L Q) (on_client (applySelectedPriority L h paths))"
    "keeps (tI L Q) (on_client (\<lambda>c. case applyAudioOnlyPriority L h c of (files, c') \<Rightarrow> (Ok files, c')))"
  by (rule keeps_on_client; simp add: client_extends_def applySelectedPriority_Torrent[OF assms]
      applyAudioOnlyPriority_Torrent[OF assms] case_prod_unfold)+

text \<open>A registered magnet enters the cache with a channel of its own.\<close>

lemma tI_new_magnet:
  assumes I: "tI L Q s" and reg: "registered L (w_client (mem s)) infoHash h" and hash: "infoHash = tl_HashInfo L mi"
    and p: "pu_infoHash p = infoHash" "pu_tor p = Some h" "pu_done p = Some (w_nextchan (mem s))"
  shows "tI L Q (s\<lparr>mem := (mem s)\<lparr>w_nextchan := w_nextchan (mem s) + 1, w_timers := ts,
     w_pending := AList.update i p (w_pending (mem s))\<rparr>\<rparr>)"
proof -
  have "chan_ok ((map_of (w_pending (mem s)))(i \<mapsto> p)) (w_closed (mem s)) (Suc (w_nextchan (mem s)))"
    by (rule chan_ok_new) (use tI_mem[OF I] p in \<open>simp_all add: pend_inv_def\<close>)
  moreover have "entry_ok L (w_client (mem s)) (i \<in> Q) p"
    using reg hash p by (auto simp: entry_ok_def registered_def)
  ultimately show ?thesis
    using I pend_inv_entry[OF tI_mem[OF I]] tI_mem[OF I]
    by (auto simp: on_data_def pend_inv_def update_conv' distinct_update split: if_splits)
qed

lemma hoare_registerPendingMagnet:
  assumes laws: "client_laws (te_lib env)" and hash: "infoHash = tl_HashInfo (te_lib env) spec"
  shows "hoare (tI (te_lib env) Q) (registerPendingMagnet env newId u spec infoHash name)
    (\<lambda>r s. tI (te_lib env) Q s \<and> (\<forall>x. r = Ok x \<longrightarrow> (\<forall>p \<in> set (snd x). canonical env (pu_infoHash p))))"
proof (rule hoareI)
  let ?L = "te_lib env"
  fix s :: "('a, 'b, 'c) tstate" and r s'
  assume I: "tI ?L Q s" and run: "registerPendingMagnet env newId u spec infoHash name s = (r, s')"
  obtain q s1 where sweep: "sweepExpiredPendingUploadsLocked s = (q, s1)"
    by (cases "sweepExpiredPendingUploadsLocked s")
  have I1: "tI ?L Q s1" and canon: "\<And>ps p. q = Ok ps \<Longrightarrow> p \<in> set ps \<Longrightarrow> canonical env (pu_infoHash p)"
    using hoareD[OF hoare_sweep I sweep] by auto
  obtain a s2 where add: "on_client (tl_AddTorrentSpec ?L spec) s1 = (a, s2)"
    by (cases "on_client (tl_AddTorrentSpec ?L spec) s1")
  have I2: "tI ?L Q s2" using keepsD_eq[OF keeps_add(2)[OF laws] add I1] .
  show "tI ?L Q s' \<and> (\<forall>x. r = Ok x \<longrightarrow> (\<forall>p\<in>set (snd x). canonical env (pu_infoHash p)))"
  proof (cases q)
    case (Ok ps)
    show ?thesis
    proof (cases a)
      case found: (Ok h)
      obtain c c' where c: "w_client (mem s1) = Some c" "tl_AddTorrentSpec ?L spec c = (Ok h, c')"
          "w_client (mem s2) = Some c'"
        using add found by (auto simp: on_client_def split: option.splits prod.splits)
      have "registered ?L (w_client (mem s2)) infoHash h"
        using added_extends(2)[OF adds_torrents_Ok[OF client_laws_split(5)[OF laws] c(2)]] c(3) hash by simp
      from tI_new_magnet[OF I2 this hash] show ?thesis
        using run sweep add Ok found canon I2
        by (auto simp: registerPendingMagnet_def bindM_def tryM_def pending_put_def on_data_def)
    qed (use run sweep add Ok canon I2 in \<open>auto simp: registerPendingMagnet_def bindM_def tryM_def\<close>)
  qed (use run sweep I1 in \<open>auto simp: registerPendingMagnet_def bindM_def\<close>)
qed

lemma keeps_AddTorrentMagnet:
  assumes laws: "client_laws (te_lib env)"
  shows "keeps (tI (te_lib env) Q) (AddTorrentMagnet env newId uCtx u)"
proof -
  have tail: "keeps (tI (te_lib env) Q) (bindM (registerPendingMagnet env newId user spec infoHash name)
      (\<lambda>(r, expired). bindM (dropPendingTorrents env expired) (\<lambda>_. case r of
         Inl e \<Rightarrow> throwM e | Inr i \<Rightarrow> returnM \<lparr>ma_UploadId = i, ma_ExistingJobId = 0\<rparr>)))"
    if "infoHash = tl_HashInfo (te_lib env) spec" for user spec infoHash name
    by (rule keeps_bind_post[OF hoare_registerPendingMagnet[OF laws that]])
      (auto intro!: keeps_intros keeps_dropPendings[OF laws])
  show ?thesis
  proof (cases "tl_ParseMagnetUri (te_lib env) u")
    case (Ok x)
    then obtain h n where x: "tl_ParseMagnetUri (te_lib env) u = Ok (h, n)" by (cases x) auto
    show ?thesis
    proof (cases "tl_SpecFromMagnetUri (te_lib env) u")
      case (Ok spec)
      have "h = tl_HashInfo (te_lib env) spec"
        using client_laws_magnet[OF laws x Ok] by simp
      then show ?thesis
        unfolding AddTorrentMagnet_def x Ok outcome.case prod.case by (intro keeps_intros tail)
    qed (unfold AddTorrentMagnet_def x outcome.case prod.case, simp_all add: keeps_intros)
  qed (unfold AddTorrentMagnet_def outcome.case, simp_all add: keeps_intros)
qed

section \<open>Submitting keeps the invariant\<close>

lemma keeps_ListFiles [keeps_intros]: "keeps (tI L Q) (ListFiles root u)"
  unfolding ListFiles_def by (rule keeps_on_disk) simp

lemma keeps_checkSubmitQuota [keeps_intros]: "keeps (tI L Q) (checkSubmitQuota env u n)"
  unfolding checkSubmitQuota_def by (intro keeps_intros)

lemma keeps_finalize:
  assumes "client_laws (te_lib env)" "canonical env infoHash"
  shows "keeps (tI (te_lib env) Q) (finalizeTorrentSubmission env uc tor folder infoHash files)"
  unfolding finalizeTorrentSubmission_def
  by (intro keeps_intros keeps_dropUnused[OF assms])

lemma keeps_or_drop:
  assumes "client_laws (te_lib env)" "canonical env (pu_infoHash p)"
    and "keeps (tI (te_lib env) Q) m" "\<And>a. keeps (tI (te_lib env) Q) (f a)"
  shows "keeps (tI (te_lib env) Q) (or_drop env p m f)"
  unfolding or_drop_def by (intro keeps_intros keeps_dropPending assms)

lemma keeps_SubmitTorrentFile:
  assumes laws: "client_laws (te_lib env)"
  shows "keeps (tI (te_lib env) Q) (SubmitTorrentFile env canceled uCtx i folder paths)"
  unfolding SubmitTorrentFile_def
proof (rule keeps_checks(2), rule keeps_bind[OF keeps_has_client], rule keeps_if[OF keeps_throw], goal_cases)
  case (1 uc present)
  show ?case
  proof (rule keeps_bind_post[OF hoare_lookup[OF laws]])
    fix p assume "taken_ok env p"
    then have "canonical env (pu_infoHash p)" by (rule taken_canonical)
    note c = laws this
    show "keeps (tI (te_lib env) Q) (or_drop env p (liftO (sanitizedFolder folder)) (\<lambda>folderRelDir.
     or_drop env p (TD_GetByUserAndInfoHash (uc_UserId uc) (pu_infoHash p)) (\<lambda>existing.
     case existing of
       Some row \<Rightarrow> bindM (dropPendingTorrent env p) (\<lambda>_. throwM (ErrTorrentAlreadyExists (td_Id row)))
     | None \<Rightarrow>
       or_drop env p
         (checkSubmitQuota env (uc_UserId uc) (perm_MaxPendingTracks (uc_Permissions uc))) (\<lambda>_.
       bindM (case pu_tor p of
            Some tor \<Rightarrow> returnM tor
          | None \<Rightarrow> (case pu_metaInfo p of
                None \<Rightarrow> panicM | Some mi \<Rightarrow> on_client (tl_AddTorrent (te_lib env) mi))) (\<lambda>tor.
       if canceled then bindM (dropPendingTorrent env p) (\<lambda>_. throwM ErrContextCanceled) else
       bindM (tryM (on_client (applySelectedPriority (te_lib env) tor paths))) (\<lambda>r. case r of
         Inl e \<Rightarrow> bindM (dropUnusedTorrent env (pu_infoHash p)) (\<lambda>_. throwM e)
       | Inr selectedFiles \<Rightarrow>
           finalizeTorrentSubmission env uc tor folderRelDir (pu_infoHash p) selectedFiles))))))"
      by (intro keeps_or_drop c keeps_intros keeps_dropPending[OF c] keeps_dropUnused[OF c]
          keeps_select[OF laws] keeps_finalize[OF c])
  qed
qed

lemma keeps_SubmitTorrent:
  assumes laws: "client_laws (te_lib env)"
  shows "keeps (tI (te_lib env) Q) (SubmitTorrent env canceled uCtx b folder)"
proof -
  have c: "canonical env (tl_HashInfo (te_lib env) mi)" for mi
    by (auto simp: canonical_def)
  show ?thesis
    unfolding SubmitTorrent_def Let_def
    by (intro keeps_intros keeps_dropUnused[OF laws c] keeps_select[OF laws] keeps_finalize[OF laws c] laws)
qed

end
