(* ===== verification/TorrentJobs.thy ===== *)
theory TorrentJobs
  imports TorrentInvariants
begin

text \<open>
  Torrent jobs (internal/service/v1/torrent_service.go, internal/domain/torrent.go): reading, cancelling, pausing,
  resuming and deleting a job, importing a completed torrent, and releasing a torrent nobody needs.  The
  staging tokens of an import (random) are an argument: one per torrent path.
\<close>

section \<open>The stored list of imported files\<close>

definition in_library :: "TorrentImportedFile \<Rightarrow> bool" where
  "in_library file \<longleftrightarrow> \<not> (if_Status file \<noteq> StatusOk \<or> if_FileId file = 0)"

definition markDeletedImportedFiles :: "TorrentDownload \<Rightarrow> ('c, 'h, 'mi, TorrentDownload) tprog" where
  "markDeletedImportedFiles row =
     (let importedFiles = DecodeTorrentImportedFiles (td_ImportedFiles row);
          ids = List.map if_FileId (List.filter in_library importedFiles)
      in if ids = [] then returnM row
         else
           bindM (FM_ExistingIds ids) (\<lambda>existing.
           bindM (liftO (EncodeTorrentImportedFiles
              (List.map (\<lambda>file. if in_library file then file\<lparr>if_FileDeleted := (if_FileId file \<notin> existing)\<rparr>
                                 else file) importedFiles))) (\<lambda>encoded.
           returnM (row\<lparr>td_ImportedFiles := encoded\<rparr>))))"

section \<open>Releasing a torrent\<close>

definition hasOtherActiveJobs :: "TorrentDownload \<Rightarrow> ('c, 'h, 'mi, bool) tprog" where
  "hasOtherActiveJobs row =
     bindM TD_ListActive (\<lambda>rows.
     returnM (\<exists>other \<in> set rows. td_Id other \<noteq> td_Id row \<and> td_InfoHash other = td_InfoHash row))"

text \<open>\<open>os.RemoveAll\<close>: the file at a path and everything below it.\<close>

definition at_or_below :: "string \<Rightarrow> string \<Rightarrow> bool" where
  "at_or_below dir p \<longleftrightarrow> p = dir \<or> has_prefix p (dir @ [slash])"

definition os_remove_all :: "string \<Rightarrow> ('z, unit) diskprog" where
  "os_remove_all dir = on_disk (\<lambda>d. (Ok (), List.filter (\<lambda>(p, _). \<not> at_or_below dir p) d))"

definition releaseTorrent :: "('c, 'h, 'mi) torrent_env \<Rightarrow> TorrentDownload \<Rightarrow> ('c, 'h, 'mi, unit) tprog" where
  "releaseTorrent env row =
     bindM has_client (\<lambda>present. if \<not> present then returnM () else
     bindM (tryM (hasOtherActiveJobs row)) (\<lambda>r. case r of
       Inl _ \<Rightarrow> returnM ()
     | Inr stillWanted \<Rightarrow>
         if stillWanted then returnM () else
         bindM (lookupTorrent env (td_InfoHash row)) (\<lambda>tor.
         bindM (case tor of None \<Rightarrow> returnM () | Some h \<Rightarrow> client_do (tl_Drop (te_lib env) h)) (\<lambda>_.
         case torrentScratchPath (te_getwd env) (te_DownloadDir env) (td_TorrentName row) of
           Err _ \<Rightarrow> returnM ()
         | Panic \<Rightarrow> panicM
         | Ok scratchPath \<Rightarrow> bindM (tryM (os_remove_all scratchPath)) (\<lambda>_. returnM ())))))"

section \<open>The operations on a job\<close>

definition GetJob ::
  "('c, 'h, 'mi) torrent_env \<Rightarrow> UserContext option \<Rightarrow> int \<Rightarrow> ('c, 'h, 'mi, TorrentDownload) tprog"
where
  "GetJob env uCtx jobID =
     authenticated uCtx (\<lambda>uc.
     bindM (TD_Get jobID (uc_UserId uc)) (\<lambda>row. markDeletedImportedFiles row))"

definition GetMagnet ::
  "('c, 'h, 'mi) torrent_env \<Rightarrow> UserContext option \<Rightarrow> int \<Rightarrow> ('c, 'h, 'mi, string) tprog"
where
  "GetMagnet env uCtx jobID =
     authenticated uCtx (\<lambda>uc.
     bindM (TD_Get jobID (uc_UserId uc)) (\<lambda>row.
     bindM has_client (\<lambda>present.
     bindM (if td_Trackers row = [] \<and> present
            then bindM (lookupTorrent env (td_InfoHash row)) (\<lambda>tor. case tor of
                   None \<Rightarrow> returnM (td_Trackers row)
                 | Some h \<Rightarrow> client_get (\<lambda>c. trackersOf (te_lib env) h c))
            else returnM (td_Trackers row)) (\<lambda>trackers.
     liftO (buildMagnetUri (te_lib env) (td_InfoHash row) (td_TorrentName row) trackers)))))"

definition ListJobs ::
  "('c, 'h, 'mi) torrent_env \<Rightarrow> UserContext option \<Rightarrow> string \<Rightarrow> ('c, 'h, 'mi, TorrentDownload list) tprog"
where
  "ListJobs env uCtx folderName =
     authenticated uCtx (\<lambda>uc.
     bindM (TD_ListByUser (uc_UserId uc) folderName) (\<lambda>rows. mapM (markDeletedImportedFiles) rows))"

definition CancelJob :: "('c, 'h, 'mi) torrent_env \<Rightarrow> UserContext option \<Rightarrow> int \<Rightarrow> ('c, 'h, 'mi, unit) tprog" where
  "CancelJob env uCtx jobID =
     authenticated uCtx (\<lambda>uc.
     bindM (TD_Get jobID (uc_UserId uc)) (\<lambda>row.
     bindM (TD_UpdateStatus (td_Id row) Canceled) (\<lambda>_. releaseTorrent env row)))"

definition PauseJob :: "('c, 'h, 'mi) torrent_env \<Rightarrow> UserContext option \<Rightarrow> int \<Rightarrow> ('c, 'h, 'mi, unit) tprog" where
  "PauseJob env uCtx jobID =
     authenticated uCtx (\<lambda>uc.
     bindM (TD_Get jobID (uc_UserId uc)) (\<lambda>row.
     bindM (lookupTorrent env (td_InfoHash row)) (\<lambda>tor.
     bindM (case tor of None \<Rightarrow> returnM () | Some h \<Rightarrow> client_do (tl_DisallowDataDownload (te_lib env) h)) (\<lambda>_.
     TD_UpdateStatus (td_Id row) Paused))))"

definition ResumeJob :: "('c, 'h, 'mi) torrent_env \<Rightarrow> UserContext option \<Rightarrow> int \<Rightarrow> ('c, 'h, 'mi, unit) tprog" where
  "ResumeJob env uCtx jobID =
     authenticated uCtx (\<lambda>uc.
     bindM (TD_Get jobID (uc_UserId uc)) (\<lambda>row.
     bindM (lookupTorrent env (td_InfoHash row)) (\<lambda>tor.
     bindM (case tor of None \<Rightarrow> returnM () | Some h \<Rightarrow> client_do (tl_AllowDataDownload (te_lib env) h)) (\<lambda>_.
     TD_UpdateStatus (td_Id row) Downloading))))"

text \<open>The garbage job names a storage by the text of its id (\<open>uuid.String\<close>, an argument).\<close>

definition deleteImportedFile ::
  "(uuid \<Rightarrow> string) \<Rightarrow> TorrentImportedFile \<Rightarrow> ('c, 'h, 'mi, unit) tprog"
where
  "deleteImportedFile uuid_String file =
     (if \<not> in_library file then returnM ()
      else
        bindM (tryM (FM_Get (if_FileId file))) (\<lambda>r. case r of
          Inl e \<Rightarrow> if e = ErrNotFound then returnM () else throwM e
        | Inr fileMeta \<Rightarrow>
            bindM (FM_Delete (if_FileId file)) (\<lambda>_.
            JOB_EnqueueGarbageFile uuid_String (fm_StorageId fileMeta) (f_FilePath (fm_File fileMeta)))))"

definition deleteImportedFiles ::
  "(uuid \<Rightarrow> string) \<Rightarrow> ('c, 'h, 'mi) torrent_env \<Rightarrow> TorrentDownload \<Rightarrow> ('c, 'h, 'mi, unit) tprog"
where
  "deleteImportedFiles uuid_String env row =
     forM (deleteImportedFile uuid_String) (DecodeTorrentImportedFiles (td_ImportedFiles row))"

definition DeleteJob ::
  "(uuid \<Rightarrow> string) \<Rightarrow> ('c, 'h, 'mi) torrent_env \<Rightarrow> UserContext option \<Rightarrow> int \<Rightarrow> ('c, 'h, 'mi, unit) tprog"
where
  "DeleteJob uuid_String env uCtx jobID =
     authenticated uCtx (\<lambda>uc.
     bindM (TD_Get jobID (uc_UserId uc)) (\<lambda>row.
     bindM (releaseTorrent env row) (\<lambda>_.
     bindM (deleteImportedFiles uuid_String env row) (\<lambda>_.
     TD_Delete (td_Id row) (uc_UserId uc)))))"

section \<open>Importing a completed torrent\<close>

definition importFailure :: "('c, 'h, 'mi) torrent_env \<Rightarrow> string \<Rightarrow> err \<Rightarrow> TorrentImportedFile" where
  "importFailure env torrentPath e =
     \<lparr>if_TorrentPath = torrentPath, if_FileId = 0, if_Status = StatusFailed, if_Error = te_errtext env e,
      if_FilePath = [], if_FileDeleted = False\<rparr>"

definition capture ::
  "('c, 'h, 'mi) torrent_env \<Rightarrow> string \<Rightarrow> ('c, 'h, 'mi, 'a) tprog \<Rightarrow>
     ('a \<Rightarrow> ('c, 'h, 'mi, TorrentImportedFile) tprog) \<Rightarrow> ('c, 'h, 'mi, TorrentImportedFile) tprog"
where
  "capture env torrentPath m f = bindM (tryM m) (\<lambda>r. case r of
     Inl e \<Rightarrow> returnM (importFailure env torrentPath e) | Inr a \<Rightarrow> f a)"

definition importOneFile ::
  "('c, 'h, 'mi) torrent_env \<Rightarrow> string \<Rightarrow> TorrentDownload \<Rightarrow> UserPermissions \<Rightarrow> string \<Rightarrow>
     ('c, 'h, 'mi, TorrentImportedFile) tprog"
where
  "importOneFile env token row permissions torrentPath =
     capture env torrentPath (liftO (resolveTorrentFilePath (te_getwd env) (te_DownloadDir env) torrentPath))
       (\<lambda>diskPath.
     capture env torrentPath (liftO (torrentImportFolder (td_FolderName row) torrentPath)) (\<lambda>folderRelDir.
     capture env torrentPath (os_open diskPath) (\<lambda>src.
     capture env torrentPath
       (store (te_pipe env) token
          \<lparr>ur_UserId = td_UserId row, ur_FileNameWithExt = path_Base torrentPath, ur_FolderRelDir = folderRelDir,
           ur_Content = src, ur_MaxSongSizeBytes = perm_MaxSongSizeBytes permissions,
           ur_MaxTotalUploadBytes = perm_MaxTotalUploadBytes permissions\<rparr>) (\<lambda>(fileId, filePath).
     returnM \<lparr>if_TorrentPath = torrentPath, if_FileId = fileId, if_Status = StatusOk, if_Error = [],
              if_FilePath = filePath, if_FileDeleted = False\<rparr>))))"

definition importCompletedTorrent ::
  "('c, 'h, 'mi) torrent_env \<Rightarrow> (string \<Rightarrow> string) \<Rightarrow> TorrentDownload \<Rightarrow> ('c, 'h, 'mi, unit) tprog"
where
  "importCompletedTorrent env tokens row =
     bindM has_client (\<lambda>present. if \<not> present then throwM ErrTorrentClientUnavailable else
     bindM (lookupTorrent env (td_InfoHash row)) (\<lambda>found. case found of
       None \<Rightarrow> throwM ErrTorrentNotRegistered
     | Some tor \<Rightarrow>
         bindM (USER_GetPermissions (td_UserId row)) (\<lambda>permissions.
         bindM (client_get (\<lambda>c. selectedFilesOf (te_lib env) tor c)) (\<lambda>selectedFiles.
         bindM (mapM (\<lambda>file. importOneFile env (tokens (tf_Path file)) row permissions (tf_Path file)) selectedFiles)
           (\<lambda>imported.
         let succeeded = length (List.filter (\<lambda>entry. if_Status entry = StatusOk) imported) in
         bindM (liftO (EncodeTorrentImportedFiles imported)) (\<lambda>encoded.
         bindM (TD_SetImportedFiles (td_Id row) encoded) (\<lambda>_.
         if succeeded = 0 then
           bindM (TD_SetError (td_Id row) ''no files could be imported'') (\<lambda>_.
           bindM (TD_UpdateStatus (td_Id row) Failed) (\<lambda>_. releaseTorrent env row))
         else if te_SeedAfterComplete env then TD_UpdateStatus (td_Id row) Seeding
         else bindM (TD_UpdateStatus (td_Id row) Done) (\<lambda>_. releaseTorrent env row))))))))"

definition ImportCompleted ::
  "('c, 'h, 'mi) torrent_env \<Rightarrow> (string \<Rightarrow> string) \<Rightarrow> TorrentDownload \<Rightarrow> ('c, 'h, 'mi, unit) tprog"
where
  "ImportCompleted env tokens row = importCompletedTorrent env tokens row"

section \<open>What the operations change in the torrent table\<close>

text \<open>\<open>torI T\<close>: the torrent table has property \<open>T\<close>.  Only the calls on torrent rows matter to it.\<close>

definition torI :: "(torrent_table \<Rightarrow> bool) \<Rightarrow> (database, 'm) st \<Rightarrow> bool" where
  "torI T s \<longleftrightarrow> T (db_torrents (dbase s))"

lemma keeps_torI_dbcall:
  assumes "\<And>d. T (db_torrents d) \<Longrightarrow> T (db_torrents (snd (f d)))"
  shows "keeps (torI T) (dbcall f)"
  by (rule keepsI) (use assms in \<open>auto simp: torI_def dbcall_cases\<close>)

lemma keeps_torI_on_torrents:
  assumes "\<And>now t. T t \<Longrightarrow> T (snd (f now t))"
  shows "keeps (torI T) (on_torrents f)"
  unfolding on_torrents_def
  by (rule keeps_torI_dbcall) (use assms in \<open>auto split: prod.split, metis snd_conv\<close>)

lemma keeps_torI_reads [keeps_intros]:
  "keeps (torI T) (TD_Get i u)" "keeps (torI T) TD_ListActive" "keeps (torI T) (TD_ListByUser u folder)"
  "keeps (torI T) (FM_Get i)" "keeps (torI T) (FM_GetByPath p)" "keeps (torI T) (FM_GetByHash h u)"
  "keeps (torI T) (FM_GetTotalSizeByUser u)" "keeps (torI T) (FM_ExistingIds ids)"
  "keeps (torI T) (USER_GetPermissions u)" "keeps (torI T) (SONG_GetByFileId i)"
  by (auto simp: TD_Get_def TD_ListActive_def TD_ListByUser_def FM_Get_def FM_GetByPath_def FM_GetByHash_def
      FM_GetTotalSizeByUser_def FM_ExistingIds_def USER_GetPermissions_def SONG_GetByFileId_def query_def
      intro!: keeps_torI_dbcall keeps_return)

lemma keeps_torI_writes [keeps_intros]:
  "keeps (torI T) (FM_Add req)" "keeps (torI T) (FM_Delete i)"
  "keeps (torI T) (JOB_EnqueueGarbageFile us sid p)" "keeps (torI T) (JOB_EnqueueAudioParseJob i p)"
  by (auto simp: FM_Add_def db_add_file_def FM_Delete_def JOB_EnqueueGarbageFile_def JOB_EnqueueAudioParseJob_def Let_def
      on_jobs_def exec_def db_delete_file_def intro!: keeps_torI_dbcall split: prod.split outcome.split)

lemma keeps_torI_mem [keeps_intros]:
  "keeps (torI T) (get_mem f)" "keeps (torI T) (on_disk g)" "keeps (torI T) has_client"
  "keeps (torI T) (on_client h)" "keeps (torI T) (client_get c)" "keeps (torI T) (client_do e)"
  "keeps (torI T) (lookupTorrent env x)"
  by (auto simp: keeps_def torI_def on_disk_def iocall_def has_client_def lookupTorrent_def client_get_def
      client_do_def on_client_def Let_def split: prod.splits option.splits)

lemma keeps_torI_disk [keeps_intros]:
  "keeps (torI T) (os_open p)" "keeps (torI T) (os_remove_all p)" "keeps (torI T) (os_copy p q)"
  "keeps (torI T) (os_remove p)" "keeps (torI T) (os_remove_if_exists p)" "keeps (torI T) (os_write p c)"
  unfolding os_open_def os_remove_all_def os_copy_def os_remove_def os_remove_if_exists_def os_write_def
  by (intro keeps_torI_mem)+

lemma keeps_torI_store [keeps_intros]: "keeps (torI T) (store env token req)"
proof -
  have "keeps (torI T) (try_disambiguated dir name h lens)" for dir name h lens
  proof (induction lens)
    case Nil
    show ?case unfolding try_disambiguated.simps by (rule keeps_throw)
  next
    case (Cons n lens)
    then show ?case unfolding try_disambiguated.simps by (intro keeps_intros)
  qed
  then have "keeps (torI T) (resolveTargetPath dir name h)" for dir name h
    unfolding resolveTargetPath_def by (intro keeps_intros)
  moreover have "keeps (torI T) (check_cover env name tmp)" for name tmp
    unfolding check_cover_def or_discard_def discard_and_fail_def DeleteTempFile_def GetFile_def
    by (intro keeps_intros) (auto intro!: keeps_intros split: outcome.split)
  ultimately show ?thesis
    unfolding store_def Let_def register_upload_def or_discard_def discard_and_fail_def DeleteTempFile_def
      SaveToTempFolder_def Move_def copy_atomically_def
    by (intro keeps_intros)
qed

lemma keeps_torI_release [keeps_intros]: "keeps (torI T) (releaseTorrent env row)"
  unfolding releaseTorrent_def hasOtherActiveJobs_def
  by (intro keeps_intros) (auto intro!: keeps_intros split: outcome.split)

lemma keeps_torI_import [keeps_intros]: "keeps (torI T) (importOneFile env token row perms p)"
  unfolding importOneFile_def capture_def by (intro keeps_intros)

lemma keeps_torI_deleteImported [keeps_intros]: "keeps (torI T) (deleteImportedFiles us env row)"
  unfolding deleteImportedFiles_def deleteImportedFile_def by (intro keeps_intros)

section \<open>The rows of other users\<close>

definition foreign_rows :: "int \<Rightarrow> torrent_table \<Rightarrow> TorrentDownload list" where
  "foreign_rows u t = List.filter (\<lambda>r. td_UserId r \<noteq> u) (rows t)"

text \<open>The rows of users other than \<open>u\<close> are \<open>F\<close>, and the row with key \<open>i\<close> is one of \<open>u\<close>'s.\<close>

definition owns :: "int \<Rightarrow> int \<Rightarrow> TorrentDownload list \<Rightarrow> torrent_table \<Rightarrow> bool" where
  "owns u i F t \<longleftrightarrow> foreign_rows u t = F \<and> (\<forall>r \<in> set (rows t). td_Id r = i \<longrightarrow> td_UserId r = u)"

lemma owns_update:
  assumes "owns u i F t" "\<And>r. td_UserId (f r) = td_UserId r" "\<And>r. td_Id (f r) = td_Id r"
  shows "owns u i F (tbl_update (\<lambda>r. td_Id r = i) f t)"
proof -
  have "List.filter (\<lambda>r. td_UserId r \<noteq> u) (List.map (\<lambda>r. if td_Id r = i then f r else r) rs) =
      List.filter (\<lambda>r. td_UserId r \<noteq> u) rs" if "\<forall>r \<in> set rs. td_Id r = i \<longrightarrow> td_UserId r = u" for rs
    using that assms(2) by (induction rs) auto
  then show ?thesis
    using assms by (auto simp: owns_def foreign_rows_def tbl_update_def)
qed

lemma owns_delete: "owns u i F t \<Longrightarrow> owns u i F (td_Delete i u t)"
proof -
  have "List.filter (\<lambda>r. td_UserId r \<noteq> u) (List.filter (\<lambda>r. \<not> (td_Id r = i \<and> td_UserId r = u)) rs) =
      List.filter (\<lambda>r. td_UserId r \<noteq> u) rs" for rs
    by (induction rs) auto
  then show "owns u i F t \<Longrightarrow> ?thesis"
    by (auto simp: owns_def foreign_rows_def td_Delete_def tbl_delete_def)
qed

lemma keeps_owns [keeps_intros]:
  "keeps (torI (owns u i F)) (TD_UpdateStatus i st)"
  "keeps (torI (owns u i F)) (TD_SetError i msg)"
  "keeps (torI (owns u i F)) (TD_SetImportedFiles i files)"
  "keeps (torI (owns u i F)) (TD_Delete i u)"
  unfolding TD_UpdateStatus_def TD_SetError_def TD_SetImportedFiles_def TD_Delete_def
  by (rule keeps_torI_on_torrents,
      auto simp: td_UpdateStatus_def td_SetError_def td_SetImportedFiles_def
        intro!: owns_update owns_delete split: option.split)+

text \<open>The four operations look the row up first, and act on it only when it is the caller's.\<close>

lemma TD_Get_run:
  "TD_Get i u s = (r, s') \<Longrightarrow> dbase s' = dbase s \<and> mem s' = mem s \<and>
     (r = Err ErrStorageFailure \<or> r = td_Get i u (db_torrents (dbase s)))"
  by (auto simp: TD_Get_def dbcall_cases)

lemma owns_after_Get:
  assumes "td_inv (db_torrents (dbase s))" "TD_Get i u s = (Ok row, s1)"
  shows "td_Id row = i" "torI (owns u i (foreign_rows u (db_torrents (dbase s)))) s1"
proof -
  have g: "td_Get i u (db_torrents (dbase s)) = Ok row" "dbase s1 = dbase s"
    using TD_Get_run[OF assms(2)] by auto
  then have row: "row \<in> set (rows (db_torrents (dbase s)))" "td_Id row = i" "td_UserId row = u"
    using td_Get_Ok by blast+
  then show "td_Id row = i" by simp
  have "r = row" if "r \<in> set (rows (db_torrents (dbase s)))" "td_Id r = i" for r
    using that row assms(1) table_wf_key_inj[of td_Id "db_torrents (dbase s)" r row] unfolding td_inv_def by simp
  then have "\<forall>r \<in> set (rows (db_torrents (dbase s))). td_Id r = i \<longrightarrow> td_UserId r = u"
    using row(3) by blast
  then show "torI (owns u i (foreign_rows u (db_torrents (dbase s)))) s1"
    unfolding torI_def owns_def g(2) by blast
qed

definition job_op :: "(TorrentDownload \<Rightarrow> ('c, 'h, 'mi, unit) tprog) \<Rightarrow> UserContext option \<Rightarrow> int \<Rightarrow>
    ('c, 'h, 'mi, unit) tprog" where
  "job_op f uCtx jobID = authenticated uCtx (\<lambda>uc. bindM (TD_Get jobID (uc_UserId uc)) f)"

lemma job_op_isolated:
  assumes inv: "td_inv (db_torrents (dbase s))"
    and f: "\<And>F row. td_Id row = i \<Longrightarrow> keeps (torI (owns (uc_UserId uc) i F)) (f row)"
    and run: "job_op f (Some uc) i s = (r, s')"
  shows "foreign_rows (uc_UserId uc) (db_torrents (dbase s')) = foreign_rows (uc_UserId uc) (db_torrents (dbase s)) \<and>
    ((\<forall>row \<in> set (rows (db_torrents (dbase s))). td_Id row = i \<longrightarrow> td_UserId row \<noteq> uc_UserId uc) \<longrightarrow>
       dbase s' = dbase s \<and> mem s' = mem s \<and> r \<in> {Err ErrNotFound, Err ErrStorageFailure})"
proof -
  let ?u = "uc_UserId uc"
  obtain q s1 where get: "TD_Get i ?u s = (q, s1)" by (cases "TD_Get i ?u s")
  note g = TD_Get_run[OF get]
  show ?thesis
  proof (cases q)
    case (Ok row)
    have own: "td_Id row = i" "torI (owns ?u i (foreign_rows ?u (db_torrents (dbase s)))) s1"
      using owns_after_Get[OF inv get[unfolded Ok]] by simp_all
    have "f row s1 = (r, s')"
      using run get Ok by (simp add: job_op_def authenticated_def bindM_def)
    then have "torI (owns ?u i (foreign_rows ?u (db_torrents (dbase s)))) s'"
      using keepsD_eq[OF f[OF own(1)]] own(2) by blast
    moreover have "row \<in> set (rows (db_torrents (dbase s))) \<and> td_Id row = i \<and> td_UserId row = ?u"
      using g Ok td_Get_Ok[of i ?u "db_torrents (dbase s)" row] by auto
    ultimately show ?thesis by (auto simp: torI_def owns_def)
  next
    case (Err e)
    then have "td_Get i ?u (db_torrents (dbase s)) = Err e \<Longrightarrow> e = ErrNotFound"
      by (auto simp: td_Get_def split: option.splits if_splits)
    then show ?thesis
      using g run get Err by (auto simp: job_op_def authenticated_def bindM_def)
  next
    case Panic
    then have "td_Get i ?u (db_torrents (dbase s)) = Panic" using g by auto
    then show ?thesis by simp
  qed
qed

lemma job_ops_shape:
  "CancelJob env (Some uc) i = job_op (\<lambda>row. bindM (TD_UpdateStatus (td_Id row) Canceled) (\<lambda>_. releaseTorrent env row)) (Some uc) i"
  "PauseJob env (Some uc) i = job_op (\<lambda>row. bindM (lookupTorrent env (td_InfoHash row)) (\<lambda>tor.
     bindM (case tor of None \<Rightarrow> returnM () | Some h \<Rightarrow> client_do (tl_DisallowDataDownload (te_lib env) h)) (\<lambda>_.
     TD_UpdateStatus (td_Id row) Paused))) (Some uc) i"
  "ResumeJob env (Some uc) i = job_op (\<lambda>row. bindM (lookupTorrent env (td_InfoHash row)) (\<lambda>tor.
     bindM (case tor of None \<Rightarrow> returnM () | Some h \<Rightarrow> client_do (tl_AllowDataDownload (te_lib env) h)) (\<lambda>_.
     TD_UpdateStatus (td_Id row) Downloading))) (Some uc) i"
  "DeleteJob us env (Some uc) i = job_op (\<lambda>row. bindM (releaseTorrent env row) (\<lambda>_.
     bindM (deleteImportedFiles us env row) (\<lambda>_. TD_Delete (td_Id row) (uc_UserId uc)))) (Some uc) i"
  unfolding CancelJob_def PauseJob_def ResumeJob_def DeleteJob_def job_op_def authenticated_def option.case by (rule refl)+

text \<open>C12: cancelling, pausing, resuming and deleting a job act on the caller's own job only: whatever calls
  fail on the way, the torrent rows of every other user stay exactly as they are, and naming a job that is not the caller's
  changes nothing at all and ends in "not found" (or in the storage failure that hid the answer).\<close>
theorem job_ops_isolated:
  assumes "td_inv (db_torrents (dbase s))"
    and "op \<in> {CancelJob env (Some uc) i, PauseJob env (Some uc) i, ResumeJob env (Some uc) i,
                DeleteJob us env (Some uc) i}"
    and "op s = (r, s')"
  shows "foreign_rows (uc_UserId uc) (db_torrents (dbase s')) = foreign_rows (uc_UserId uc) (db_torrents (dbase s)) \<and>
    ((\<forall>row \<in> set (rows (db_torrents (dbase s))). td_Id row = i \<longrightarrow> td_UserId row \<noteq> uc_UserId uc) \<longrightarrow>
       dbase s' = dbase s \<and> mem s' = mem s \<and> r \<in> {Err ErrNotFound, Err ErrStorageFailure})"
  using assms(2)
proof (elim insertE emptyE, goal_cases)
  case 1
  show ?case
    by (rule job_op_isolated[OF assms(1) _ assms(3)[unfolded 1 job_ops_shape(1)]]) (auto intro!: keeps_intros)
next
  case 2
  show ?case
    by (rule job_op_isolated[OF assms(1) _ assms(3)[unfolded 2 job_ops_shape(2)]]) (auto intro!: keeps_intros)
next
  case 3
  show ?case
    by (rule job_op_isolated[OF assms(1) _ assms(3)[unfolded 3 job_ops_shape(3)]]) (auto intro!: keeps_intros)
next
  case 4
  show ?case
    by (rule job_op_isolated[OF assms(1) _ assms(3)[unfolded 4 job_ops_shape(4)]]) (auto intro!: keeps_intros)
qed

section \<open>The files a released torrent takes with it\<close>

definition in_downloads :: "('c, 'h, 'mi) torrent_env \<Rightarrow> string \<Rightarrow> bool" where
  "in_downloads env p \<longleftrightarrow>
     (\<exists>d. filepath_Abs (te_getwd env) (te_DownloadDir env) = Ok d \<and> has_prefix p (d @ [slash]))"

text \<open>Files outside the download directory are as in \<open>D\<close>.\<close>

definition outside_same :: "('c, 'h, 'mi) torrent_env \<Rightarrow> (string \<Rightarrow> string option) \<Rightarrow> ('c, 'h, 'mi) tmem \<Rightarrow> bool" where
  "outside_same env D m \<longleftrightarrow> (\<forall>p. \<not> in_downloads env p \<longrightarrow> map_of (w_disk m) p = D p)"

lemma at_or_below_in_downloads:
  assumes "torrentScratchPath (te_getwd env) (te_DownloadDir env) name = Ok dir" "at_or_below dir p"
  shows "in_downloads env p"
proof -
  obtain d where d: "filepath_Abs (te_getwd env) (te_DownloadDir env) = Ok d" "has_prefix dir (d @ [slash])"
    using torrentScratchPath_prefix[OF assms(1)] by blast
  then have "has_prefix p (d @ [slash])"
    using assms(2) by (auto simp: at_or_below_def has_prefix_append)
  then show ?thesis using d(1) by (auto simp: in_downloads_def)
qed

lemma map_of_filter_keys: "map_of (List.filter (\<lambda>(p, _). P p) d) q = (if P q then map_of d q else None)"
  by (induction d) auto

lemma keeps_outside_mem:
  "(\<And>m. outside_same env D m \<Longrightarrow> outside_same env D (g m)) \<Longrightarrow> keeps (dbI (outside_same env D)) (put_mem g)"
  by (rule keeps_put_mem) simp

lemma keeps_outside_client [keeps_intros]:
  "keeps (dbI (outside_same env D)) (on_client h)" "keeps (dbI (outside_same env D)) has_client"
  "keeps (dbI (outside_same env D)) (client_get f)" "keeps (dbI (outside_same env D)) (client_do g)"
  "keeps (dbI (outside_same env D)) (lookupTorrent env' x)"
  by (auto simp: keeps_def on_data_def outside_same_def has_client_def lookupTorrent_def client_get_def client_do_def
      on_client_def split: prod.splits option.splits)

lemma keeps_outside_remove_all:
  assumes "torrentScratchPath (te_getwd env) (te_DownloadDir env) name = Ok dir"
  shows "keeps (dbI (outside_same env D)) (os_remove_all dir)"
  unfolding os_remove_all_def on_disk_def
  by (rule keeps_iocall)
    (use at_or_below_in_downloads[OF assms] in \<open>auto simp: outside_same_def map_of_filter_keys\<close>)

lemma keeps_outside_release:
  "keeps (dbI (outside_same env D)) (releaseTorrent env row)"
proof -
  have tail: "keeps (dbI (outside_same env D)) (case torrentScratchPath (te_getwd env) (te_DownloadDir env) (td_TorrentName row) of
           Err _ \<Rightarrow> returnM () | Panic \<Rightarrow> panicM
         | Ok scratchPath \<Rightarrow> bindM (tryM (os_remove_all scratchPath)) (\<lambda>_. returnM ()))"
    by (cases "torrentScratchPath (te_getwd env) (te_DownloadDir env) (td_TorrentName row)")
      (auto intro: keeps_return keeps_panic keeps_bind keeps_try keeps_outside_remove_all)
  show ?thesis
    unfolding releaseTorrent_def hasOtherActiveJobs_def by (intro keeps_intros tail)
qed

text \<open>C13: cancelling or deleting a job touches no file outside the torrent download directory, whatever the torrent is called, and
  leaves the database consistent.\<close>
theorem release_stays_in_downloads:
  assumes "db_inv (dbase s)" "op \<in> {CancelJob env uCtx i, DeleteJob us env uCtx i}" "\<not> in_downloads env p"
  shows "map_of (w_disk (mem (snd (op s)))) p = map_of (w_disk (mem s)) p \<and> db_inv (dbase (snd (op s)))"
proof -
  have "keeps (dbI (outside_same env (map_of (w_disk (mem s))))) op"
    using assms(2)
    by (auto simp: CancelJob_def DeleteJob_def deleteImportedFiles_def deleteImportedFile_def
        intro!: keeps_intros keeps_outside_release)
  moreover have "dbI (outside_same env (map_of (w_disk (mem s)))) s"
    using assms(1) by (simp add: on_data_def outside_same_def)
  ultimately have "dbI (outside_same env (map_of (w_disk (mem s)))) (snd (op s))"
    by (rule keepsD)
  then show ?thesis using assms(3) by (simp add: on_data_def outside_same_def)
qed

section \<open>What a release does not look at\<close>

lemma torrentScratchPath_no_panic: "getwd \<noteq> Panic \<Longrightarrow> torrentScratchPath getwd dir name \<noteq> Panic"
  by (auto simp: torrentScratchPath_def filepath_Abs_def bindO_eq_Panic Let_def split: if_splits)

lemma on_disk_no_fault:
  "faults s = [] \<Longrightarrow> on_disk f s = (fst (f (w_disk (mem s))), s\<lparr>mem := (mem s)\<lparr>w_disk := snd (f (w_disk (mem s)))\<rparr>\<rparr>)"
  by (cases "f (w_disk (mem s))") (simp add: on_disk_def)

lemma releaseTorrent_drops:
  assumes nf: "faults s = []" and c: "w_client (mem s) = Some c"
    and idle: "\<not> (\<exists>other \<in> set (rows (db_torrents (dbase s))). td_Id other \<noteq> td_Id row \<and>
        td_InfoHash other = td_InfoHash row \<and> polled_status (td_Status other))"
    and h: "tl_FromHexString (te_lib env) (td_InfoHash row) = Some k" "tl_Torrent (te_lib env) c k = Some h"
    and wd: "te_getwd env \<noteq> Panic"
  shows "\<exists>d. releaseTorrent env row s =
    (Ok (), s\<lparr>mem := (mem s)\<lparr>w_client := Some (tl_Drop (te_lib env) h c), w_disk := d\<rparr>\<rparr>)"
proof -
  let ?s1 = "s\<lparr>mem := (mem s)\<lparr>w_client := Some (tl_Drop (te_lib env) h c)\<rparr>\<rparr>"
  have others: "hasOtherActiveJobs row s = (Ok False, s)"
    using nf idle by (auto simp: hasOtherActiveJobs_def TD_ListActive_def bindM_def td_ListActive_mem)
  have "releaseTorrent env row s =
      (case torrentScratchPath (te_getwd env) (te_DownloadDir env) (td_TorrentName row) of
           Err _ \<Rightarrow> returnM ()
         | Panic \<Rightarrow> panicM
         | Ok scratchPath \<Rightarrow> bindM (tryM (os_remove_all scratchPath)) (\<lambda>_. returnM ())) ?s1"
    using c h others by (simp add: releaseTorrent_def has_client_def bindM_def tryM_def lookupTorrent_def)
  also have "\<exists>d. \<dots> = (Ok (), ?s1\<lparr>mem := (mem ?s1)\<lparr>w_disk := d\<rparr>\<rparr>)"
  proof (cases "torrentScratchPath (te_getwd env) (te_DownloadDir env) (td_TorrentName row)")
    case (Err e)
    then show ?thesis by (intro exI[of _ "w_disk (mem s)"]) simp
  next
    case (Ok p)
    then show ?thesis using nf by (auto simp: bindM_def tryM_def os_remove_all_def on_disk_no_fault)
  qed (use torrentScratchPath_no_panic[OF wd] in simp)
  finally show ?thesis by simp
qed

text \<open>C14: a release forgets jobs that are paused and magnets that are pending.  When a user cancels his job, the
  shared torrent is dropped from the client as soon as no other job with its info hash is queued, downloading or
  importing: another user's paused job keeps its row, but the torrent it should resume is gone.\<close>
theorem cancel_drops_paused_jobs:
  assumes laws: "client_laws (te_lib env)" and inv: "td_inv (db_torrents (dbase s))"
    and nf: "faults s = []" and c: "w_client (mem s) = Some c" and wd: "te_getwd env \<noteq> Panic"
    and row: "row \<in> set (rows (db_torrents (dbase s)))" "td_UserId row = uc_UserId uc"
    and idle: "\<not> (\<exists>other \<in> set (rows (db_torrents (dbase s))). td_Id other \<noteq> td_Id row \<and>
        td_InfoHash other = td_InfoHash row \<and> polled_status (td_Status other))"
    and h: "tl_FromHexString (te_lib env) (td_InfoHash row) = Some k" "tl_Torrent (te_lib env) c k = Some h"
    and paused: "other \<in> set (rows (db_torrents (dbase s)))" "td_Id other \<noteq> td_Id row"
      "td_InfoHash other = td_InfoHash row" "td_Status other = Paused"
  shows "\<exists>s' c'. CancelJob env (Some uc) (td_Id row) s = (Ok (), s') \<and> w_client (mem s') = Some c' \<and>
    other \<in> set (rows (db_torrents (dbase s'))) \<and> isActiveTorrentStatus (td_Status other) \<and>
    tl_Torrent (te_lib env) c' k = None"
proof -
  let ?t = "db_torrents (dbase s)" and ?now = "db_clock (dbase s)"
  have get: "TD_Get (td_Id row) (uc_UserId uc) s = (Ok row, s)"
    using nf td_Get_iff[OF inv, of "td_Id row" "uc_UserId uc" row] row by (simp add: TD_Get_def)
  let ?f = "\<lambda>r. r\<lparr>td_Status := Canceled, td_UpdatedAt := ?now\<rparr>"
  let ?t1 = "tbl_update (\<lambda>r. td_Id r = td_Id row) ?f ?t"
  let ?s1 = "s\<lparr>dbase := (dbase s)\<lparr>db_torrents := ?t1\<rparr>\<rparr>"
  have "tbl_find (\<lambda>r. td_Id r = td_Id row) ?t = Some row"
    using tbl_find_key[of td_Id ?t row] inv row by (simp add: td_inv_def)
  then have upd: "TD_UpdateStatus (td_Id row) Canceled s = (Ok (), ?s1)"
    using nf by (simp add: TD_UpdateStatus_def on_torrents_def td_UpdateStatus_def indexed_status_def)
  have idle1: "\<not> (\<exists>o' \<in> set (rows (db_torrents (dbase ?s1))). td_Id o' \<noteq> td_Id row \<and>
        td_InfoHash o' = td_InfoHash row \<and> polled_status (td_Status o'))"
    using idle by auto
  obtain d where rel: "releaseTorrent env row ?s1 =
      (Ok (), ?s1\<lparr>mem := (mem ?s1)\<lparr>w_client := Some (tl_Drop (te_lib env) h c), w_disk := d\<rparr>\<rparr>)"
    using releaseTorrent_drops[OF _ _ idle1 h wd] nf c by auto
  have "other \<in> set (rows ?t1)" using paused by auto
  moreover have "tl_Torrent (te_lib env) (tl_Drop (te_lib env) h c) k = None"
    using Torrent_Drop[OF laws, of h c k] h(2) by simp
  ultimately show ?thesis
    using get upd rel paused(4)
    by (simp add: CancelJob_def authenticated_def bindM_def isActiveTorrentStatus_def
        ActiveTorrentDownloadStatuses_def)
qed

section \<open>Examples\<close>

definition ex_tenv :: "(nat list \<times> (nat \<Rightarrow> torrent_file list), nat, string) torrent_env" where
  "ex_tenv = \<lparr>te_lib = ex_lib, te_pipe = ex_env, te_errtext = (\<lambda>_. ''e''),
     te_getwd = Ok ''/srv'', te_DownloadDir = ''dl'', te_MaxConcurrentDownloads = 3, te_SeedAfterComplete = False\<rparr>"

definition ex_perms :: UserPermissions where
  "ex_perms = \<lparr>perm_CanUpload = True, perm_EarlyAccess = True, perm_CanCreatePlaylist = True,
     perm_CanEditArtists = False, perm_MaxPendingTracks = 10, perm_MaxSongSizeBytes = 100,
     perm_MaxTotalUploadBytes = 1000, perm_IsAdministrator = False\<rparr>"

definition ex_uc :: UserContext where
  "ex_uc = \<lparr>uc_UserId = 7, uc_Permissions = ex_perms\<rparr>"

definition ex_mem :: "(nat list \<times> (nat \<Rightarrow> torrent_file list), nat, string) tmem" where
  "ex_mem = \<lparr>w_disk = [(''/srv/dl/a/1.mp3'', ''abcde''), (''/srv/keep'', ''k'')], w_client = Some ([2], \<lambda>_. ex_files),
     w_pending = [], w_closed = [], w_nextchan = 0, w_timers = [], w_now = 0, w_watch = NewBroadcaster\<rparr>"

text \<open>User 7 downloads a torrent that user 8 has paused.\<close>

definition ex_tstate :: "(nat list \<times> (nat \<Rightarrow> torrent_file list), nat, string) tstate" where
  "ex_tstate = \<lparr>faults = [], dbase = empty_database\<lparr>db_torrents :=
      \<lparr>rows = [ex_job, ex_job\<lparr>td_Id := 2, td_UserId := 8, td_Status := Paused\<rparr>], next_id = 3\<rparr>\<rparr>, mem = ex_mem\<rparr>"

lemma ex_tenv_simps [simp]:
  "te_lib ex_tenv = ex_lib" "te_getwd ex_tenv = Ok ''/srv''" "uc_UserId ex_uc = 7"
  "dbase ex_tstate = empty_database\<lparr>db_torrents :=
      \<lparr>rows = [ex_job, ex_job\<lparr>td_Id := 2, td_UserId := 8, td_Status := Paused\<rparr>], next_id = 3\<rparr>\<rparr>"
  "faults ex_tstate = []" "mem ex_tstate = ex_mem"
  by (simp_all add: ex_tenv_def ex_uc_def ex_tstate_def)

lemma ex_torrents_inv: "td_inv (db_torrents (dbase ex_tstate))"
  by (simp add: td_inv_def table_wf_def td_unique_active_def td_clash_def ex_job_def)

lemma ex_db_inv: "db_inv (dbase ex_tstate)"
  using ex_torrents_inv db_inv_empty by (simp add: db_inv_def)

definition ex_client :: "nat list \<times> (nat \<Rightarrow> torrent_file list)" where
  "ex_client = ([2], \<lambda>_. ex_files)"

lemma ex_client_lookups:
  "w_client (mem ex_tstate) = Some ex_client" "tl_FromHexString ex_lib ''aa'' = Some 2"
  "tl_Torrent ex_lib ex_client 2 = Some 2"
  by (simp_all add: ex_mem_def ex_client_def ex_lib_def ex_hash_def)

abbreviation ex_job2 :: TorrentDownload where
  "ex_job2 \<equiv> ex_job\<lparr>td_Id := 2, td_UserId := 8, td_Status := Paused\<rparr>"

lemma ex_job_facts:
  "td_Id ex_job = 1" "td_UserId ex_job = 7" "td_InfoHash ex_job = ''aa''"
  by (simp_all add: ex_job_def)

theorem cancel_drops_paused_jobs_witness:
  "\<exists>s' c'. CancelJob ex_tenv (Some ex_uc) 1 ex_tstate = (Ok (), s') \<and> w_client (mem s') = Some c' \<and>
     tl_Torrent ex_lib c' 2 = None"
proof -
  have "\<exists>s' c'. CancelJob ex_tenv (Some ex_uc) (td_Id ex_job) ex_tstate = (Ok (), s') \<and> w_client (mem s') = Some c' \<and>
    ex_job2 \<in> set (rows (db_torrents (dbase s'))) \<and> isActiveTorrentStatus (td_Status ex_job2) \<and>
    tl_Torrent (te_lib ex_tenv) c' 2 = None"
    by (rule cancel_drops_paused_jobs[OF _ ex_torrents_inv _ ex_client_lookups(1), where h = 2])
      (simp_all add: ex_lib_laws ex_client_lookups ex_job_facts polled_status_def)
  then show ?thesis unfolding ex_job_facts ex_tenv_simps by blast
qed

theorem job_ops_isolated_witness:
  "\<exists>r s'. PauseJob ex_tenv (Some ex_uc) 2 ex_tstate = (r, s') \<and> ex_job2 \<in> set (rows (db_torrents (dbase s')))"
proof -
  obtain r s' where run: "PauseJob ex_tenv (Some ex_uc) 2 ex_tstate = (r, s')"
    by (cases "PauseJob ex_tenv (Some ex_uc) 2 ex_tstate")
  show ?thesis
    using job_ops_isolated[of ex_tstate "PauseJob ex_tenv (Some ex_uc) 2" ex_tenv ex_uc 2 "\<lambda>_. []" r s'] run ex_torrents_inv
    by (auto simp: ex_job_facts)
qed

theorem release_stays_in_downloads_witness:
  "map_of (w_disk (mem (snd (CancelJob ex_tenv (Some ex_uc) 1 ex_tstate)))) ''/srv/keep'' = Some ''k''"
proof -
  have abs: "filepath_Abs (te_getwd ex_tenv) (te_DownloadDir ex_tenv) = Ok ''/srv/dl''"
    by code_simp
  have "\<not> in_downloads ex_tenv ''/srv/keep''"
    unfolding in_downloads_def abs by (simp add: has_prefix_def)
  then have "map_of (w_disk (mem (snd (CancelJob ex_tenv (Some ex_uc) 1 ex_tstate)))) ''/srv/keep'' =
      map_of (w_disk (mem ex_tstate)) ''/srv/keep''"
    using release_stays_in_downloads[OF ex_db_inv, of "CancelJob ex_tenv (Some ex_uc) 1" ex_tenv "Some ex_uc" 1 "\<lambda>_. []" "''/srv/keep''"]
    by blast
  then show ?thesis by (simp add: ex_mem_def)
qed

end
