(* ===== verification/TorrentSync.thy ===== *)
theory TorrentSync
  imports TorrentJobs
begin

text \<open>
  The background task that follows active jobs (internal/background/torrent_sync/task.go and client_lookup.go): on
  every tick it writes the progress of each job, tells the watchers, and imports a torrent that is complete.
  The staging tokens of an import are an argument, one per job and torrent path.
\<close>

section \<open>Progress\<close>

definition selectedFiles :: "torrent_file list \<Rightarrow> torrent_file list" where
  "selectedFiles files = List.filter (\<lambda>file. tf_Priority file \<noteq> PiecePriorityNone) files"

definition FileProgress :: "torrent_file list \<Rightarrow> TorrentFileProgress list" where
  "FileProgress files = List.map (\<lambda>file. \<lparr>fp_Path = tf_Path file, fp_DownloadedBytes = tf_BytesCompleted file,
     fp_TotalBytes = tf_Length file\<rparr>) (selectedFiles files)"

fun sumFileProgress_loop :: "TorrentFileProgress list \<Rightarrow> int \<Rightarrow> int \<Rightarrow> int \<times> int" where
  "sumFileProgress_loop [] downloaded all_bytes = (downloaded, all_bytes)"
| "sumFileProgress_loop (file # files) downloaded all_bytes =
     sumFileProgress_loop files (i64 (downloaded + fp_DownloadedBytes file)) (i64 (all_bytes + fp_TotalBytes file))"

definition sumFileProgress :: "TorrentFileProgress list \<Rightarrow> int \<times> int" where
  "sumFileProgress files = sumFileProgress_loop files 0 0"

definition isComplete :: "int \<Rightarrow> int \<Rightarrow> bool" where
  "isComplete downloaded all_bytes = (if all_bytes \<le> 0 then False else downloaded \<ge> all_bytes)"

section \<open>One tick\<close>

text \<open>\<open>clientLookup.Torrent\<close>: nothing is registered with a nil client or under a malformed hash.\<close>

definition sync_lookup :: "('c, 'h, 'mi) torrent_env \<Rightarrow> string \<Rightarrow> ('c, 'h, 'mi, 'h option) tprog" where
  "sync_lookup env infoHash =
     bindM has_client (\<lambda>present. if \<not> present then returnM None else lookupTorrent env infoHash)"

definition publish_job :: "TorrentDownload \<Rightarrow> ('c, 'h, 'mi, unit) tprog" where
  "publish_job row s = (case Publish row (w_watch (mem s)) of
     (r, b) \<Rightarrow> (r, s\<lparr>mem := (mem s)\<lparr>w_watch := b\<rparr>\<rparr>))"

text \<open>The end of \<open>syncRow\<close>: the job is importing, and its import runs inline.\<close>

definition runImport ::
  "('c, 'h, 'mi) torrent_env \<Rightarrow> (string \<Rightarrow> string) \<Rightarrow> TorrentDownload \<Rightarrow> ('c, 'h, 'mi, unit) tprog"
where
  "runImport env tokens row =
     bindM (tryM (ImportCompleted env tokens row)) (\<lambda>r. case r of
       Inr _ \<Rightarrow> returnM ()
     | Inl importErr \<Rightarrow>
         bindM (TD_SetError (td_Id row) (te_errtext env importErr)) (\<lambda>_.
         bindM (TD_UpdateStatus (td_Id row) Failed) (\<lambda>_.
         bindM (publish_job (row\<lparr>td_Status := Failed\<rparr>)) (\<lambda>_. throwM importErr))))"

definition syncRow ::
  "('c, 'h, 'mi) torrent_env \<Rightarrow> (string \<Rightarrow> string) \<Rightarrow> TorrentDownload \<Rightarrow> ('c, 'h, 'mi, unit) tprog"
where
  "syncRow env tokens row =
     bindM (sync_lookup env (td_InfoHash row)) (\<lambda>found. case found of
       None \<Rightarrow> returnM ()
     | Some tor \<Rightarrow>
         bindM (client_get (\<lambda>c. FileProgress (tl_Files (te_lib env) c tor))) (\<lambda>files.
         let (downloaded, all_bytes) = sumFileProgress files;
             row' = row\<lparr>td_DownloadedBytes := downloaded, td_TotalBytes := all_bytes, td_Files := files\<rparr> in
         bindM (TD_UpdateProgress (td_Id row) downloaded all_bytes files) (\<lambda>_.
         bindM (publish_job row') (\<lambda>_.
         if \<not> isComplete downloaded all_bytes then returnM ()
         else
           bindM (TD_UpdateStatus (td_Id row) Importing) (\<lambda>_.
           bindM (publish_job (row'\<lparr>td_Status := Importing\<rparr>)) (\<lambda>_.
           runImport env tokens (row'\<lparr>td_Status := Importing\<rparr>)))))))"

definition sync_do :: "('c, 'h, 'mi) torrent_env \<Rightarrow> (int \<Rightarrow> string \<Rightarrow> string) \<Rightarrow> ('c, 'h, 'mi, unit) tprog" where
  "sync_do env tokens =
     bindM TD_ListActive (\<lambda>rows. forM (\<lambda>row. tryM (syncRow env (tokens (td_Id row)) row)) rows)"

section \<open>Watching jobs\<close>

text \<open>\<open>TorrentService.WatchJobs\<close>: the current jobs, at most \<open>limit\<close> of them when the limit is positive, then
  the updates of the caller's jobs in the folder.\<close>

fun watch_send_loop :: "int \<Rightarrow> int \<Rightarrow> TorrentDownload list \<Rightarrow> TorrentDownload list" where
  "watch_send_loop limit sent [] = []"
| "watch_send_loop limit sent (row # rest) =
     (if limit > 0 \<and> sent \<ge> limit then [] else row # watch_send_loop limit (sent + 1) rest)"

definition WatchJobs ::
  "UserContext option \<Rightarrow> string \<Rightarrow> int \<Rightarrow> ('c, 'h, 'mi, TorrentDownload list) tprog"
where
  "WatchJobs uCtx folderName limit =
     authenticated uCtx (\<lambda>uc.
     bindM (TD_ListByUser (uc_UserId uc) folderName) (\<lambda>rows. returnM (watch_send_loop limit 0 rows)))"

definition watch_forwards :: "string \<Rightarrow> TorrentDownload \<Rightarrow> bool" where
  "watch_forwards folderName job \<longleftrightarrow> \<not> (folderName \<noteq> [] \<and> td_FolderName job \<noteq> folderName)"

section \<open>Totals\<close>

lemma sumFileProgress_loop_eq:
  "sumFileProgress_loop files d t =
     (if files = [] then (d, t)
      else (i64 (d + sum_list (List.map fp_DownloadedBytes files)),
            i64 (t + sum_list (List.map fp_TotalBytes files))))"
  by (induction files arbitrary: d t) (auto simp: add.assoc)

lemma sumFileProgress_eq:
  "sumFileProgress files =
     (i64 (sum_list (List.map fp_DownloadedBytes files)), i64 (sum_list (List.map fp_TotalBytes files)))"
  by (simp add: sumFileProgress_def sumFileProgress_loop_eq i64_def)

text \<open>A job is complete when every byte of every file selected for download is there, and there is at least one such
  byte: a torrent with nothing selected, or only empty files, is never imported.\<close>
theorem isComplete_iff:
  assumes "\<forall>f \<in> set files. 0 \<le> tf_BytesCompleted f \<and> tf_BytesCompleted f \<le> tf_Length f"
    and "sum_list (List.map tf_Length files) < 9223372036854775808"
  shows "(case sumFileProgress (FileProgress files) of (downloaded, all_bytes) \<Rightarrow> isComplete downloaded all_bytes) \<longleftrightarrow>
    (\<forall>f \<in> set files. tf_Priority f \<noteq> PiecePriorityNone \<longrightarrow> tf_BytesCompleted f = tf_Length f) \<and>
    (\<exists>f \<in> set files. tf_Priority f \<noteq> PiecePriorityNone \<and> 0 < tf_Length f)"
proof -
  let ?d = "sum_list (List.map tf_BytesCompleted (selectedFiles files))"
  let ?t = "sum_list (List.map tf_Length (selectedFiles files))"
  have le: "0 \<le> ?d" "?d \<le> ?t" "?t \<le> sum_list (List.map tf_Length files)"
    using assms(1) by (induction files) (auto simp: selectedFiles_def)
  then have sums: "sumFileProgress (FileProgress files) = (?d, ?t)"
    using assms(2) by (simp add: sumFileProgress_eq FileProgress_def comp_def i64_id_bounds)
  have full: "?d = ?t \<longleftrightarrow>
      (\<forall>f \<in> set files. tf_Priority f \<noteq> PiecePriorityNone \<longrightarrow> tf_BytesCompleted f = tf_Length f)"
    using assms(1)
  proof (induction files)
    case (Cons f fs)
    have "sum_list (List.map tf_BytesCompleted (selectedFiles fs)) \<le> sum_list (List.map tf_Length (selectedFiles fs))"
      using Cons.prems by (intro sum_list_mono) (auto simp: selectedFiles_def)
    then show ?case using Cons by (auto simp: selectedFiles_def)
  qed (simp add: selectedFiles_def)
  have some: "0 < ?t \<longleftrightarrow> (\<exists>f \<in> set files. tf_Priority f \<noteq> PiecePriorityNone \<and> 0 < tf_Length f)"
    using assms(1)
  proof (induction files)
    case (Cons f fs)
    have "0 \<le> sum_list (List.map tf_Length (selectedFiles fs))"
      using Cons.prems by (intro sum_list_nonneg) (fastforce simp: selectedFiles_def)
    then show ?case using Cons by (auto simp: selectedFiles_def)
  qed (simp add: selectedFiles_def)
  have "isComplete ?d ?t \<longleftrightarrow> ?d = ?t \<and> 0 < ?t"
    using le by (auto simp: isComplete_def)
  then show ?thesis unfolding sums prod.case full some .
qed

theorem isComplete_iff_witness:
  "case sumFileProgress (FileProgress [\<lparr>tf_Path = ''a'', tf_Length = 5, tf_BytesCompleted = 5, tf_Priority = 1\<rparr>,
     \<lparr>tf_Path = ''b'', tf_Length = 9, tf_BytesCompleted = 0, tf_Priority = 0\<rparr>]) of (d, t) \<Rightarrow> isComplete d t"
  by (subst isComplete_iff) simp_all

section \<open>What a tick does to a job\<close>

lemma sync_lookup_found:
  "w_client (mem s) = Some c \<Longrightarrow> sync_lookup env h s =
     (Ok (case tl_FromHexString (te_lib env) h of None \<Rightarrow> None | Some k \<Rightarrow> tl_Torrent (te_lib env) c k), s)"
  "w_client (mem s) = None \<Longrightarrow> sync_lookup env h s = (Ok None, s)"
  by (simp_all add: sync_lookup_def has_client_def bindM_def lookupTorrent_def client_get_def on_client_def
      split: option.split)

lemma sync_lookup_state: "sync_lookup env h s = (r, s') \<Longrightarrow> s' = s \<and> (\<exists>found. r = Ok found)"
  by (cases "w_client (mem s)") (auto simp: sync_lookup_found)

lemma publish_job_data:
  "publish_job row s = (r, s') \<Longrightarrow> dbase s' = dbase s \<and> faults s' = faults s \<and>
     (\<exists>b. mem s' = (mem s)\<lparr>w_watch := b\<rparr>)"
  by (auto simp: publish_job_def split: prod.splits)

lemma publish_job_no_Err: "publish_job row s \<noteq> (Err e, s')"
proof -
  have "send_all job chs b \<noteq> (Err e, b')" for job chs b b'
    by (induction chs arbitrary: b) (auto simp: try_send_def)
  then show ?thesis by (auto simp: publish_job_def Publish_def split: prod.splits option.splits)
qed

lemma keeps_torI_publish [keeps_intros]: "keeps (torI T) (publish_job row)"
  by (rule keepsI) (auto simp: torI_def dest: publish_job_data)

lemma triple_publish: "triple (torI T) (publish_job row) (\<lambda>_. torI T) E"
proof (rule tripleI)
  fix s a s'
  assume "torI T s" "publish_job row s = (Ok a, s')"
  then show "torI T s'" using keepsD_eq[OF keeps_torI_publish] by blast
qed (simp add: publish_job_no_Err)

text \<open>\<open>job_is i P\<close>: the job with key \<open>i\<close> exists and its status satisfies \<open>P\<close>.\<close>

definition job_is :: "int \<Rightarrow> (TorrentDownloadStatus \<Rightarrow> bool) \<Rightarrow> torrent_table \<Rightarrow> bool" where
  "job_is i P t \<longleftrightarrow> td_inv t \<and> (\<exists>r \<in> set (rows t). td_Id r = i \<and> P (td_Status r))"

definition settled :: "TorrentDownloadStatus \<Rightarrow> bool" where
  "settled st \<longleftrightarrow> st \<in> {Done, Seeding, Failed}"

lemma job_is_mono: "job_is i P t \<Longrightarrow> (\<And>st. P st \<Longrightarrow> Q st) \<Longrightarrow> job_is i Q t"
  by (auto simp: job_is_def)

lemma job_is_inv: "job_is i P t \<Longrightarrow> td_inv t"
  by (simp add: job_is_def)

lemma job_is_update:
  assumes "job_is i P t" "td_inv (tbl_update p f t)" "\<And>r. td_Id (f r) = td_Id r"
    and "\<And>r. td_Id r = i \<Longrightarrow> P (td_Status r) \<Longrightarrow> (if p r then Q (td_Status (f r)) else Q (td_Status r))"
  shows "job_is i Q (tbl_update p f t)"
proof -
  obtain r where r: "r \<in> set (rows t)" "td_Id r = i" "P (td_Status r)" using assms(1) by (auto simp: job_is_def)
  let ?r = "if p r then f r else r"
  have "?r \<in> set (rows (tbl_update p f t))" "td_Id ?r = i" "Q (td_Status ?r)"
    using r assms(3) assms(4)[OF r(2,3)] by (simp_all del: if_image_distrib split: if_splits)
  then show ?thesis using assms(2) unfolding job_is_def by blast
qed

lemma job_is_UpdateStatus:
  assumes t: "job_is i P t" and ok: "\<And>x. indexed_status st \<Longrightarrow> P x \<Longrightarrow> indexed_status x"
  shows "\<exists>t'. td_UpdateStatus now i st t = (Ok (), t') \<and> job_is i (\<lambda>x. x = st) t'"
proof -
  obtain r where r: "r \<in> set (rows t)" "td_Id r = i" "P (td_Status r)" and inv: "td_inv t"
    using t by (auto simp: job_is_def)
  have find: "tbl_find (\<lambda>x. td_Id x = i) t = Some r"
    using tbl_find_key[of td_Id t r] inv r by (simp add: td_inv_def)
  have free: "\<not> (indexed_status st \<and> td_conflict i (td_UserId r) (td_InfoHash r) t)"
    using td_conflict_clash[of r t] td_inv_no_clash[OF inv r(1)] ok r by auto
  then have run: "td_UpdateStatus now i st t =
      (Ok (), tbl_update (\<lambda>r. td_Id r = i) (\<lambda>r. r\<lparr>td_Status := st, td_UpdatedAt := now\<rparr>) t)"
    using find by (simp add: td_UpdateStatus_def)
  have "job_is i (\<lambda>x. x = st) (snd (td_UpdateStatus now i st t))"
    using td_inv_UpdateStatus[OF inv, of now i st] unfolding run snd_conv
    by (rule job_is_update[OF t]) simp_all
  then show ?thesis unfolding run by simp
qed

lemma TD_UpdateStatus_job:
  assumes "torI (job_is i P) s" "\<And>x. indexed_status st \<Longrightarrow> P x \<Longrightarrow> indexed_status x"
    and "TD_UpdateStatus i st s = (r, s')"
  shows "(r = Ok () \<and> torI (job_is i (\<lambda>x. x = st)) s') \<or> (r = Err ErrStorageFailure \<and> torI (job_is i P) s')"
  using job_is_UpdateStatus[of i P "db_torrents (dbase s)" st "db_clock (dbase s)"] assms
  by (auto simp: TD_UpdateStatus_def on_torrents_def dbcall_cases torI_def)

lemma TD_SetError_job:
  assumes "torI (job_is i P) s" "TD_SetError i msg s = (r, s')"
  shows "(r = Ok () \<and> torI (job_is i (\<lambda>x. x = Failed)) s') \<or> (r = Err ErrStorageFailure \<and> torI (job_is i P) s')"
proof -
  have "job_is i (\<lambda>x. x = Failed) (td_SetError now i msg t)" if t: "job_is i P t" for now t
    using td_inv_ops(2)[OF job_is_inv[OF t], of now i msg] unfolding td_SetError_def
    by (rule job_is_update[OF t]) simp_all
  then show ?thesis
    using assms by (auto simp: TD_SetError_def on_torrents_def dbcall_cases torI_def)
qed

lemma keeps_job_is [keeps_intros]:
  "keeps (torI (job_is i P)) (TD_SetImportedFiles j files)"
  "keeps (torI (job_is i P)) (TD_UpdateProgress j d t fs)"
proof -
  have "job_is i P (td_SetImportedFiles now j files t)" "job_is i P (td_UpdateProgress now j d n fs t)"
    if t: "job_is i P t" for now t n
    using td_inv_ops(1,3)[OF job_is_inv[OF t]] unfolding td_SetImportedFiles_def td_UpdateProgress_def
    by (intro job_is_update[OF t]; simp)+
  then show "keeps (torI (job_is i P)) (TD_SetImportedFiles j files)"
      "keeps (torI (job_is i P)) (TD_UpdateProgress j d t fs)"
    unfolding TD_SetImportedFiles_def TD_UpdateProgress_def by (auto intro!: keeps_torI_on_torrents)
qed

lemmas job_triples =
  triple_try triple_case_sum triple_if triple_return triple_throw triple_panic

text \<open>The status writes, as contracts.\<close>

lemma torI_job_mono: "torI (job_is i P) s \<Longrightarrow> (\<And>st. P st \<Longrightarrow> Q st) \<Longrightarrow> torI (job_is i Q) s"
  by (auto simp: torI_def intro: job_is_mono)

lemma triple_UpdateStatus:
  assumes ok: "\<And>x. indexed_status st \<Longrightarrow> P x \<Longrightarrow> indexed_status x" and B: "\<And>x. P x \<Longrightarrow> B x"
  shows "triple (torI (job_is i P)) (TD_UpdateStatus i st) (\<lambda>_. torI (job_is i (\<lambda>x. x = st)))
    (\<lambda>e s. e = ErrStorageFailure \<and> torI (job_is i B) s)"
proof (rule tripleI)
  fix s e s'
  assume "torI (job_is i P) s" "TD_UpdateStatus i st s = (Err e, s')"
  then have "e = ErrStorageFailure" "torI (job_is i P) s'"
    using TD_UpdateStatus_job[OF _ ok] by blast+
  then show "e = ErrStorageFailure \<and> torI (job_is i B) s'"
    using torI_job_mono[of i P s' B] B by blast
qed (use TD_UpdateStatus_job[OF _ ok] in blast)

lemma triple_SetError:
  assumes B: "\<And>x. P x \<Longrightarrow> B x"
  shows "triple (torI (job_is i P)) (TD_SetError i msg) (\<lambda>_. torI (job_is i (\<lambda>x. x = Failed)))
    (\<lambda>e s. e = ErrStorageFailure \<and> torI (job_is i B) s)"
proof (rule tripleI)
  fix s e s'
  assume "torI (job_is i P) s" "TD_SetError i msg s = (Err e, s')"
  then have "e = ErrStorageFailure" "torI (job_is i P) s'"
    using TD_SetError_job by blast+
  then show "e = ErrStorageFailure \<and> torI (job_is i B) s'"
    using torI_job_mono[of i P s' B] B by blast
qed (use TD_SetError_job in blast)

definition unsettled :: "TorrentDownloadStatus \<Rightarrow> bool" where
  "unsettled st \<longleftrightarrow> st = Importing \<or> st = Failed"

text \<open>An import that returns nil has settled the job; one that fails leaves it importing or failed.\<close>

lemma triple_settle:
  assumes st: "settled st" and P: "\<And>x. P x \<Longrightarrow> unsettled x"
    and m: "keeps (torI (job_is i (\<lambda>x. x = st))) m" "\<And>s e s'. m s \<noteq> (Err e, s')"
  shows "triple (torI (job_is i P)) (bindM (TD_UpdateStatus i st) (\<lambda>_. m))
    (\<lambda>_. torI (job_is i settled)) (\<lambda>_. torI (job_is i unsettled))"
proof (rule triple_bind)
  have "\<not> indexed_status st"
    using st by (auto simp: settled_def indexed_status_def)
  then show "triple (torI (job_is i P)) (TD_UpdateStatus i st) (\<lambda>_. torI (job_is i (\<lambda>x. x = st)))
      (\<lambda>_. torI (job_is i unsettled))"
    by (intro triple_conseq[OF triple_UpdateStatus[where B = unsettled]]) (auto intro: P)
  show "triple (torI (job_is i (\<lambda>x. x = st))) m (\<lambda>_. torI (job_is i settled)) (\<lambda>_. torI (job_is i unsettled))"
  proof (rule tripleI)
    fix s a s'
    assume "torI (job_is i (\<lambda>x. x = st)) s" "m s = (Ok a, s')"
    then have "torI (job_is i (\<lambda>x. x = st)) s'"
      using keepsD_eq[OF m(1)] by blast
    then show "torI (job_is i settled) s'"
      by (rule torI_job_mono) (simp add: st)
  qed (use m(2) in blast)
qed

lemma releaseTorrent_no_Err: "releaseTorrent env row s \<noteq> (Err e, s')"
proof -
  have 1: "lookupTorrent env h s \<noteq> (Err e, s')" "client_do g s \<noteq> (Err e, s')" for h s s' g
    by (auto simp: lookupTorrent_def client_get_def client_do_def on_client_def split: option.splits prod.splits)
  have 2: "tryM m s \<noteq> (Err e, s')" for m :: "('a, 'b, 'c, 'x) tprog" and s s'
    by (auto simp: tryM_def split: prod.splits outcome.splits)
  show ?thesis
    by (auto simp: releaseTorrent_def has_client_def bindM_cases 1 2 split: option.splits sum.splits if_splits outcome.splits)
qed

lemma triple_import:
  "triple (torI (job_is (td_Id row) (\<lambda>st. st = Importing))) (ImportCompleted env tokens row)
    (\<lambda>_. torI (job_is (td_Id row) settled)) (\<lambda>_. torI (job_is (td_Id row) unsettled))"
  (is "triple ?I _ ?A ?B")
proof -
  have I: "?I s \<Longrightarrow> ?B e s" for e s
    by (erule torI_job_mono) (simp add: unsettled_def)
  have end': "triple (torI (job_is (td_Id row) P)) (bindM (TD_UpdateStatus (td_Id row) st) (\<lambda>_. m)) ?A ?B"
    if "settled st" "P \<in> {\<lambda>st. st = Importing, \<lambda>st. st = Failed}" "m \<in> {returnM (), releaseTorrent env row}" for st P m
    using that by (intro triple_settle) (auto simp: unsettled_def releaseTorrent_no_Err intro: keeps_intros)
  have seed: "triple ?I (TD_UpdateStatus (td_Id row) Seeding) ?A ?B"
    by (intro triple_conseq[OF triple_UpdateStatus[where B = unsettled]])
      (auto simp: indexed_status_def unsettled_def settled_def elim: torI_job_mono)
  have fail: "triple ?I (bindM (TD_SetError (td_Id row) msg) (\<lambda>_.
      bindM (TD_UpdateStatus (td_Id row) Failed) (\<lambda>_. releaseTorrent env row))) ?A ?B" for msg
    by (rule triple_bind[where R = "\<lambda>_. torI (job_is (td_Id row) (\<lambda>st. st = Failed))"],
        rule triple_conseq[OF triple_SetError[where B = unsettled]])
      (auto simp: unsettled_def intro!: end' simp: settled_def)
  have throw: "triple ?I (throwM e) ?A ?B" for e
    by (rule tripleI) (auto intro: I)
  show ?thesis
    unfolding ImportCompleted_def importCompletedTorrent_def Let_def
    by (intro triple_bind_keeps[where P = ?I and m = has_client] triple_bind_keeps[where P = ?I and m = "lookupTorrent env h" for h]
        triple_bind_keeps[where P = ?I and m = "USER_GetPermissions u" for u]
        triple_bind_keeps[where P = ?I and m = "client_get g" for g] triple_bind_keeps[where P = ?I and m = "mapM g xs" for g xs]
        triple_bind_keeps[where P = ?I and m = "liftO x" for x]
        triple_bind_keeps[where P = ?I and m = "TD_SetImportedFiles i xs" for i xs]
        I triple_if triple_case_option fail seed end' throw)
      (auto intro!: keeps_intros I simp: settled_def)
qed

text \<open>How a tick leaves a complete job: settled, or, after a database failure, still on the list of active jobs.\<close>

definition settled_or_retried :: "int \<Rightarrow> err \<Rightarrow> ('c, 'h, 'mi) tstate \<Rightarrow> bool" where
  "settled_or_retried i e s \<longleftrightarrow> torI (job_is i settled) s \<or> (e = ErrStorageFailure \<and> torI (job_is i polled_status) s)"

lemma unsettled_retried: "torI (job_is i unsettled) s \<Longrightarrow> settled_or_retried i ErrStorageFailure s"
  by (auto simp: settled_or_retried_def torI_def job_is_def unsettled_def settled_def polled_status_def)

lemma triple_runImport:
  "triple (torI (job_is (td_Id row) (\<lambda>st. st = Importing))) (runImport env tokens row)
    (\<lambda>_. torI (job_is (td_Id row) settled)) (settled_or_retried (td_Id row))"
  (is "triple ?I _ ?A ?E")
proof -
  let ?F = "torI (job_is (td_Id row) (\<lambda>st. st = Failed))"
  have F: "?F s \<Longrightarrow> ?E e s" for e s
    by (auto simp: settled_or_retried_def settled_def elim!: torI_job_mono[THEN disjI1])
  have "triple (torI (job_is (td_Id row) unsettled)) (bindM (TD_SetError (td_Id row) (te_errtext env e)) (\<lambda>_.
         bindM (TD_UpdateStatus (td_Id row) Failed) (\<lambda>_.
         bindM (publish_job row') (\<lambda>_. throwM e)))) ?A ?E" for e row'
  proof (intro triple_bind[where R = "\<lambda>_. ?F"])
    show "triple (torI (job_is (td_Id row) unsettled)) (TD_SetError (td_Id row) (te_errtext env e)) (\<lambda>_. ?F) ?E"
      by (rule triple_conseq[OF triple_SetError[where B = unsettled]]) (auto intro: unsettled_retried)
    show "triple ?F (TD_UpdateStatus (td_Id row) Failed) (\<lambda>_. ?F) ?E"
      by (rule triple_conseq[OF triple_UpdateStatus[where B = "\<lambda>st. st = Failed"]])
        (auto simp: indexed_status_def intro: F)
    show "triple ?F (publish_job row') (\<lambda>_. ?F) ?E"
      by (rule triple_keeps) (auto intro: keeps_intros F)
    show "triple ?F (throwM e) ?A ?E"
      by (rule triple_conseq[OF triple_throw[where E = "\<lambda>_. ?F"]]) (auto intro: F)
  qed
  note handle = this
  let ?R = "\<lambda>r. case r of Inr _ \<Rightarrow> torI (job_is (td_Id row) settled) | Inl _ \<Rightarrow> torI (job_is (td_Id row) unsettled)"
  show ?thesis
    unfolding runImport_def
  proof (rule triple_bind[where R = ?R])
    show "triple ?I (tryM (ImportCompleted env tokens row)) ?R ?E"
      by (rule triple_try) (simp add: triple_import)
    show "triple (?R r) (case r of Inl e \<Rightarrow> bindM (TD_SetError (td_Id row) (te_errtext env e)) (\<lambda>_.
         bindM (TD_UpdateStatus (td_Id row) Failed) (\<lambda>_.
         bindM (publish_job (row\<lparr>td_Status := Failed\<rparr>)) (\<lambda>_. throwM e))) | Inr x \<Rightarrow> returnM ()) ?A ?E" for r
      by (cases r) (auto intro!: handle tripleI)
  qed
qed

definition torrent_complete :: "('c, 'h, 'mi) torrent_env \<Rightarrow> 'c \<Rightarrow> 'h \<Rightarrow> bool" where
  "torrent_complete env c tor =
     (case sumFileProgress (FileProgress (tl_Files (te_lib env) c tor)) of (downloaded, all_bytes) \<Rightarrow>
        isComplete downloaded all_bytes)"

text \<open>The tick of a registered torrent, once its state has been read.\<close>

lemma syncRow_registered:
  assumes "w_client (mem s) = Some c" "tl_FromHexString (te_lib env) (td_InfoHash row) = Some k"
    "tl_Torrent (te_lib env) c k = Some tor"
    and "sumFileProgress (FileProgress (tl_Files (te_lib env) c tor)) = (d, a)"
  shows "syncRow env tokens row s =
    (let row' = row\<lparr>td_DownloadedBytes := d, td_TotalBytes := a, td_Files := FileProgress (tl_Files (te_lib env) c tor)\<rparr> in
     bindM (TD_UpdateProgress (td_Id row) d a (td_Files row')) (\<lambda>_.
     bindM (publish_job row') (\<lambda>_.
       if \<not> torrent_complete env c tor then returnM ()
       else bindM (TD_UpdateStatus (td_Id row) Importing) (\<lambda>_.
            bindM (publish_job (row'\<lparr>td_Status := Importing\<rparr>)) (\<lambda>_.
            runImport env tokens (row'\<lparr>td_Status := Importing\<rparr>)))))) s"
  using assms
  by (simp add: syncRow_def sync_lookup_found bindM_def[of "sync_lookup env (td_InfoHash row)"]
      bindM_def[of "client_get f" for f] torrent_complete_def Let_def)

text \<open>C10: a tick that finds a job's selected files complete settles the job: it is done, seeding or failed afterwards.
  The one exception is a database failure, after which the job is still on the list of active jobs, for the next tick.\<close>
theorem syncRow_settles:
  assumes inv: "td_inv (db_torrents (dbase s))"
    and row: "row \<in> set (rows (db_torrents (dbase s)))" "polled_status (td_Status row)"
    and tor: "w_client (mem s) = Some c" "tl_FromHexString (te_lib env) (td_InfoHash row) = Some k"
      "tl_Torrent (te_lib env) c k = Some tor" "torrent_complete env c tor"
    and run: "syncRow env tokens row s = (r, s')" "r \<noteq> Panic"
  shows "\<exists>row' \<in> set (rows (db_torrents (dbase s'))). td_Id row' = td_Id row \<and>
    (td_Status row' \<in> {Done, Seeding, Failed} \<or> r = Err ErrStorageFailure \<and> polled_status (td_Status row'))"
proof -
  let ?P = "torI (job_is (td_Id row) polled_status)" and ?A = "\<lambda>_. torI (job_is (td_Id row) settled)"
  let ?E = "settled_or_retried (td_Id row)"
  let ?fs = "FileProgress (tl_Files (te_lib env) c tor)"
  obtain d a where sums: "sumFileProgress ?fs = (d, a)"
    by (cases "sumFileProgress ?fs")
  let ?row = "row\<lparr>td_DownloadedBytes := d, td_TotalBytes := a, td_Files := ?fs\<rparr>"
  let ?tail = "bindM (TD_UpdateStatus (td_Id row) Importing) (\<lambda>_.
      bindM (publish_job (?row\<lparr>td_Status := Importing\<rparr>)) (\<lambda>_. runImport env tokens (?row\<lparr>td_Status := Importing\<rparr>)))"
  let ?I = "torI (job_is (td_Id row) (\<lambda>st. st = Importing))"
  have "triple ?P ?tail ?A ?E"
  proof (intro triple_bind[where R = "\<lambda>_. ?I"])
    show "triple ?P (TD_UpdateStatus (td_Id row) Importing) (\<lambda>_. ?I) ?E"
      by (rule triple_conseq[OF triple_UpdateStatus[where B = polled_status]])
        (auto simp: indexed_status_def polled_status_def settled_or_retried_def)
    show "triple ?I (publish_job (?row\<lparr>td_Status := Importing\<rparr>)) (\<lambda>_. ?I) ?E"
      by (rule triple_publish)
    show "triple ?I (runImport env tokens (?row\<lparr>td_Status := Importing\<rparr>)) ?A ?E"
      using triple_runImport[of "?row\<lparr>td_Status := Importing\<rparr>"] by simp
  qed
  moreover have "triple ?P (TD_UpdateProgress (td_Id row) d a ?fs) (\<lambda>_. ?P) ?E"
    by (rule tripleI; drule (1) keepsD_eq[OF keeps_job_is(2), rotated])
      (auto simp: settled_or_retried_def TD_UpdateProgress_def on_torrents_def dbcall_cases)
  moreover have "triple ?P (publish_job ?row) (\<lambda>_. ?P) ?E"
    by (rule triple_publish)
  ultimately have all: "triple ?P (bindM (TD_UpdateProgress (td_Id row) d a ?fs) (\<lambda>_. bindM (publish_job ?row) (\<lambda>_. ?tail))) ?A ?E"
    by - (rule triple_bind, assumption, rule triple_bind, assumption, assumption)
  have s: "?P s"
    using inv row by (auto simp: torI_def job_is_def)
  have "syncRow env tokens row s =
      bindM (TD_UpdateProgress (td_Id row) d a ?fs) (\<lambda>_. bindM (publish_job ?row) (\<lambda>_. ?tail)) s"
    using tor(4) by (simp add: syncRow_registered[OF tor(1-3) sums] Let_def)
  then have "torI (job_is (td_Id row) settled) s' \<or> (r = Err ErrStorageFailure \<and> torI (job_is (td_Id row) polled_status) s')"
    using run triple_Ok[OF all s] triple_Err[OF all s] by (cases r) (simp_all add: settled_or_retried_def)
  then show ?thesis
    by (auto simp: torI_def job_is_def settled_def)
qed

text \<open>C11: before its selected files are complete, a tick only writes a job's progress: the job's status, every file
  row, the disk and the torrent client stay as they are.\<close>
theorem syncRow_waits:
  assumes tor: "w_client (mem s) = Some c" "tl_FromHexString (te_lib env) (td_InfoHash row) = Some k"
      "tl_Torrent (te_lib env) c k = Some tor" "\<not> torrent_complete env c tor"
    and sums: "sumFileProgress (FileProgress (tl_Files (te_lib env) c tor)) = (d, a)"
    and run: "syncRow env tokens row s = (r, s')"
  shows "w_disk (mem s') = w_disk (mem s) \<and> w_client (mem s') = Some c \<and> w_pending (mem s') = w_pending (mem s) \<and>
    dbase s' = (if r = Err ErrStorageFailure then dbase s
       else (dbase s)\<lparr>db_torrents := td_UpdateProgress (db_clock (dbase s)) (td_Id row) d a
          (FileProgress (tl_Files (te_lib env) c tor)) (db_torrents (dbase s))\<rparr>)"
proof -
  let ?fs = "FileProgress (tl_Files (te_lib env) c tor)"
  let ?row = "row\<lparr>td_DownloadedBytes := d, td_TotalBytes := a, td_Files := ?fs\<rparr>"
  have steps: "bindM (TD_UpdateProgress (td_Id row) d a ?fs) (\<lambda>_. bindM (publish_job ?row) (\<lambda>_. returnM ())) s = (r, s')"
    using run tor(4) by (simp add: syncRow_registered[OF tor(1-3) sums] Let_def)
  show ?thesis
  proof (cases "next_fault s")
    case True
    then show ?thesis
      using steps tor(1) by (auto simp: TD_UpdateProgress_def on_torrents_def dbcall_def bindM_def)
  next
    case False
    then obtain s1 where "TD_UpdateProgress (td_Id row) d a ?fs s = (Ok (), s1)" and mem1: "mem s1 = mem s"
      and db1: "dbase s1 = (dbase s)\<lparr>db_torrents := td_UpdateProgress (db_clock (dbase s)) (td_Id row) d a ?fs
          (db_torrents (dbase s))\<rparr>"
      by (auto simp: TD_UpdateProgress_def on_torrents_def dbcall_def Let_def)
    then have "bindM (publish_job ?row) (\<lambda>_. returnM ()) s1 = (r, s')"
      using steps by simp
    then obtain q where "publish_job ?row s1 = (q, s')" and r: "r = q"
      by (cases "publish_job ?row s1"; cases "fst (publish_job ?row s1)") (auto simp: bindM_def)
    then have "r \<noteq> Err e" "dbase s' = dbase s1" "\<exists>b. mem s' = (mem s1)\<lparr>w_watch := b\<rparr>" for e
      using publish_job_no_Err publish_job_data by blast+
    then show ?thesis using mem1 db1 tor(1) by auto
  qed
qed

text \<open>A tick that lists the jobs goes on after a job that fails.\<close>

lemma forM_try:
  assumes "forM (\<lambda>x. tryM (f x)) xs s = (r, s')" "r \<noteq> Panic"
  shows "r = Ok () \<and> s' = fold (\<lambda>x s. snd (f x s)) xs s"
  using assms
proof (induction xs arbitrary: s)
  case (Cons x xs)
  obtain q s1 where f: "f x s = (q, s1)" by (cases "f x s")
  then have "forM (\<lambda>x. tryM (f x)) xs s1 = (r, s')"
    using Cons.prems by (cases q) auto
  then show ?case using Cons.IH Cons.prems(2) f by simp
qed simp

text \<open>A tick of the sync task visits every active job, oldest first, whatever the outcome for the jobs before: its
  only error is a failure to list them, and then it changes nothing.\<close>
theorem sync_do_visits_all:
  assumes "sync_do env tokens s = (r, s')" "r \<noteq> Panic"
  shows "(r = Err ErrStorageFailure \<and> dbase s' = dbase s \<and> mem s' = mem s) \<or>
    (r = Ok () \<and> s' = fold (\<lambda>row s. snd (syncRow env (tokens (td_Id row)) row s))
       (td_ListActive (db_torrents (dbase s))) (s\<lparr>faults := tl (faults s)\<rparr>))"
proof (cases "next_fault s")
  case True
  then show ?thesis
    using assms(1) by (auto simp: sync_do_def TD_ListActive_def query_def dbcall_def bindM_def)
next
  case False
  then have "TD_ListActive s = (Ok (td_ListActive (db_torrents (dbase s))), s\<lparr>faults := tl (faults s)\<rparr>)"
    by (simp add: TD_ListActive_def query_def dbcall_def)
  then have "forM (\<lambda>row. tryM (syncRow env (tokens (td_Id row)) row)) (td_ListActive (db_torrents (dbase s)))
      (s\<lparr>faults := tl (faults s)\<rparr>) = (r, s')"
    using assms(1) by (simp add: sync_do_def)
  from forM_try[OF this assms(2)] show ?thesis by blast
qed

section \<open>Examples\<close>

text \<open>Job 1 of the example state, once with the selected file complete and once without.\<close>

definition ex_done :: "nat list \<times> (nat \<Rightarrow> torrent_file list)" where
  "ex_done = ([2], \<lambda>_. [\<lparr>tf_Path = ''a/1.mp3'', tf_Length = 5, tf_BytesCompleted = 5, tf_Priority = 1\<rparr>])"

definition ex_synced :: "(nat list \<times> (nat \<Rightarrow> torrent_file list), nat, string) tstate" where
  "ex_synced = ex_tstate\<lparr>mem := ex_mem\<lparr>w_client := Some ex_done\<rparr>\<rparr>"

lemma ex_synced_facts:
  "w_client (mem ex_synced) = Some ex_done" "dbase ex_synced = dbase ex_tstate" "faults ex_synced = []"
  "tl_FromHexString ex_lib (td_InfoHash ex_job) = Some 2" "tl_Torrent ex_lib ex_done 2 = Some 2"
  "tl_Files ex_lib ex_done 2 = snd ex_done 2" "w_watch (mem ex_synced) = NewBroadcaster"
  by (simp_all add: ex_synced_def ex_done_def ex_job_def ex_lib_def ex_hash_def ex_mem_def)

lemma ex_done_complete: "torrent_complete ex_tenv ex_done 2"
  by (simp add: torrent_complete_def ex_synced_facts)
    (simp add: ex_done_def FileProgress_def selectedFiles_def sumFileProgress_def isComplete_def i64_def)

lemma ex_not_complete: "sumFileProgress (FileProgress (tl_Files ex_lib ex_client 2)) = (0, 0)"
  "\<not> torrent_complete ex_tenv ex_client 2"
  by (simp_all add: torrent_complete_def ex_client_def ex_lib_Files ex_files_def FileProgress_def selectedFiles_def
      sumFileProgress_def isComplete_def)

theorem syncRow_waits_witness:
  "\<exists>r s'. syncRow ex_tenv (\<lambda>_. []) ex_job ex_tstate = (r, s') \<and> w_disk (mem s') = w_disk ex_mem"
proof -
  obtain r s' where run: "syncRow ex_tenv (\<lambda>_. []) ex_job ex_tstate = (r, s')"
    by (cases "syncRow ex_tenv (\<lambda>_. []) ex_job ex_tstate")
  then show ?thesis
    using syncRow_waits[of ex_tstate ex_client ex_tenv ex_job 2 2 0 0 "\<lambda>_. []" r s'] ex_not_complete ex_client_lookups
    by (simp add: ex_synced_facts ex_tenv_simps)
qed

theorem sync_do_visits_all_witness:
  "\<exists>r s'. sync_do ex_tenv (\<lambda>_ _. []) (ex_tstate\<lparr>dbase := empty_database\<rparr>) = (r, s') \<and> r = Ok () \<and>
     s' = ex_tstate\<lparr>dbase := empty_database\<rparr>"
proof -
  let ?s = "ex_tstate\<lparr>dbase := empty_database\<rparr>"
  have none: "td_ListActive (db_torrents (dbase ?s)) = []"
    by (simp add: td_ListActive_def empty_database_def empty_table_def)
  have run: "sync_do ex_tenv (\<lambda>_ _. []) ?s = (Ok (), ?s)"
    using none by (simp add: sync_do_def bindM_def TD_ListActive_def)
  then show ?thesis
    using sync_do_visits_all[OF run] by blast
qed

lemma publish_no_watchers: "w_watch (mem s) = NewBroadcaster \<Longrightarrow> publish_job row s = (Ok (), s)"
  by (cases s; cases "mem s") (simp add: publish_job_def Publish_def NewBroadcaster_def)

text \<open>The owner's permissions cannot be read, nor the failure recorded.\<close>

lemma ex_import_fails:
  assumes "w_client (mem s) = Some ex_done" "faults s = [True, True]" "td_InfoHash row = ''aa''"
  shows "ImportCompleted ex_tenv tokens row s = (Err ErrStorageFailure, s\<lparr>faults := [True]\<rparr>)"
  using assms ex_client_lookups(2) ex_synced_facts(5)
  by (simp add: ImportCompleted_def importCompletedTorrent_def USER_GetPermissions_def query_def dbcall_def next_fault_def
      bindM_def lookupTorrent_def)

lemma ex_sync_fails:
  "\<exists>s'. syncRow ex_tenv (\<lambda>_. []) ex_job (ex_synced\<lparr>faults := [False, False, True, True]\<rparr>) = (Err ErrStorageFailure, s')"
proof -
  let ?s = "ex_synced\<lparr>faults := [False, False, True, True]\<rparr>"
  have 1: "td_UpdateStatus now 1 Importing (td_UpdateProgress now' 1 d n fs \<lparr>rows = [ex_job, ex_job2], next_id = 3\<rparr>) =
      (Ok (), tbl_update (\<lambda>r. td_Id r = 1) (\<lambda>r. r\<lparr>td_Status := Importing, td_UpdatedAt := now\<rparr>)
         (td_UpdateProgress now' 1 d n fs \<lparr>rows = [ex_job, ex_job2], next_id = 3\<rparr>))" for now now' d n fs
    by (simp add: td_UpdateStatus_def td_UpdateProgress_def tbl_find_def ex_job_def td_conflict_def)
  obtain d a where sums: "sumFileProgress (FileProgress (tl_Files ex_lib ex_done 2)) = (d, a)"
    by (cases "sumFileProgress (FileProgress (tl_Files ex_lib ex_done 2))")
  show ?thesis
    using syncRow_registered[of ?s ex_done ex_tenv ex_job 2 2 d a "\<lambda>_. []"] sums ex_done_complete
    by (simp add: ex_synced_facts ex_client_lookups ex_tenv_simps ex_job_facts Let_def bindM_def TD_UpdateProgress_def on_torrents_def
        dbcall_def next_fault_def publish_no_watchers TD_UpdateStatus_def 1 runImport_def ex_import_fails TD_SetError_def)
qed

theorem syncRow_settles_witness:
  "\<exists>s'. syncRow ex_tenv (\<lambda>_. []) ex_job (ex_synced\<lparr>faults := [False, False, True, True]\<rparr>) = (Err ErrStorageFailure, s') \<and>
   (\<exists>row' \<in> set (rows (db_torrents (dbase s'))). td_Id row' = 1 \<and>
      (td_Status row' \<in> {Done, Seeding, Failed} \<or> polled_status (td_Status row')))"
proof -
  obtain s' where run: "syncRow ex_tenv (\<lambda>_. []) ex_job (ex_synced\<lparr>faults := [False, False, True, True]\<rparr>) = (Err ErrStorageFailure, s')"
    using ex_sync_fails by blast
  moreover have "polled_status (td_Status ex_job)"
    by (simp add: ex_job_def polled_status_def)
  ultimately show ?thesis
    using syncRow_settles[OF _ _ _ _ _ _ _ run, of ex_done 2 2] ex_torrents_inv ex_done_complete
    by (simp add: ex_synced_facts ex_client_lookups ex_tenv_simps ex_job_facts)
qed

end
