(* ===== verification/TorrentLosses.thy ===== *)
theory TorrentLosses
  imports TorrentSync
begin

text \<open>
  Which pending magnets lose their torrent.  \<open>releaseTorrent\<close> (internal/service/v1/torrent_service.go) asks for other
  jobs and not for magnets: cancelling, deleting or importing a job drops the torrent of every magnet
  that waits on the same info hash.  Those magnets are counted here, and the invariant of the cache is shown to hold for all others.
\<close>

section \<open>The magnets a release hits\<close>

text \<open>The handles of the cached uploads on one of some info hashes, whatever the case of the digits.\<close>

definition waiting_on :: "('c, 'h, 'mi) torrent_lib \<Rightarrow> string set \<Rightarrow> ('c, 'h, 'mi) tmem \<Rightarrow> string set" where
  "waiting_on L hashes m =
     {i. \<exists>p h. map_of (w_pending m) i = Some p \<and> h \<in> hashes \<and> tl_FromHexString L (pu_infoHash p) = tl_FromHexString L h}"

lemma waiting_on_other [simp]:
  "waiting_on L hashes (m\<lparr>w_disk := d\<rparr>) = waiting_on L hashes m" "waiting_on L hashes (m\<lparr>w_watch := b\<rparr>) = waiting_on L hashes m"
  "waiting_on L hashes (m\<lparr>w_client := c\<rparr>) = waiting_on L hashes m"
  by (simp_all add: waiting_on_def)

lemma pend_inv_watch [simp]: "pend_inv L Q (m\<lparr>w_watch := b\<rparr>) = pend_inv L Q m"
  by (simp add: pend_inv_def)

definition job_hashes :: "int \<Rightarrow> database \<Rightarrow> string set" where
  "job_hashes job d = td_InfoHash ` {r \<in> set (rows (db_torrents d)). td_Id r = job}"

text \<open>A tick imports the job's torrent when the client has it and the chosen files are complete.\<close>

definition imports_now :: "('c, 'h, 'mi) torrent_env \<Rightarrow> TorrentDownload \<Rightarrow> ('c, 'h, 'mi) tstate \<Rightarrow> bool" where
  "imports_now env row s \<longleftrightarrow> (\<exists>c k tor. w_client (mem s) = Some c \<and> tl_FromHexString (te_lib env) (td_InfoHash row) = Some k \<and>
     tl_Torrent (te_lib env) c k = Some tor \<and> torrent_complete env c tor)"

section \<open>What storing and importing files keeps\<close>

text \<open>A property of the memory that is about neither the disk nor the watchers.\<close>

locale memory_part =
  fixes K :: "('c, 'h, 'mi) tmem \<Rightarrow> bool"
  assumes disk_free: "K m \<Longrightarrow> K (m\<lparr>w_disk := d\<rparr>)"
    and watch_free: "K m \<Longrightarrow> K (m\<lparr>w_watch := b\<rparr>)"
begin

lemma disk_calls:
  "keeps (dbI K) (on_disk f)" "keeps (dbI K) (os_open p)" "keeps (dbI K) (os_remove_all p)" "keeps (dbI K) (os_copy p q)"
  "keeps (dbI K) (os_remove p)" "keeps (dbI K) (os_remove_if_exists p)" "keeps (dbI K) (os_write p c)"
  unfolding os_open_def os_remove_all_def os_copy_def os_remove_def os_remove_if_exists_def os_write_def
  by (intro keeps_on_disk disk_free; assumption)+

lemma publishes: "keeps (dbI K) (publish_job row)"
proof (rule keepsI)
  fix s r s'
  assume I: "dbI K s" and "publish_job row s = (r, s')"
  then have "dbase s' = dbase s" "\<exists>b. mem s' = (mem s)\<lparr>w_watch := b\<rparr>" using publish_job_data by blast+
  then show "dbI K s'" using I watch_free by (auto simp: on_data_def)
qed

lemma stores: "keeps (dbI K) (store env token req)"
proof -
  have "keeps (dbI K) (try_disambiguated dir name h lens)" for dir name h lens
  proof (induction lens)
    case Nil
    show ?case unfolding try_disambiguated.simps by (rule keeps_throw)
  next
    case (Cons n lens)
    then show ?case unfolding try_disambiguated.simps by (intro keeps_intros)
  qed
  then have "keeps (dbI K) (resolveTargetPath dir name h)" for dir name h
    unfolding resolveTargetPath_def by (intro keeps_intros)
  moreover have "keeps (dbI K) (check_cover e name tmp)" for e name tmp
    unfolding check_cover_def or_discard_def discard_and_fail_def DeleteTempFile_def GetFile_def
    by (intro keeps_if keeps_bind keeps_try keeps_case_sum keeps_return keeps_throw disk_calls)
      (auto intro!: keeps_bind keeps_try keeps_return keeps_throw keeps_panic disk_calls split: outcome.split)
  ultimately show ?thesis
    unfolding store_def Let_def register_upload_def or_discard_def discard_and_fail_def DeleteTempFile_def
      SaveToTempFolder_def Move_def copy_atomically_def
    by (intro disk_calls keeps_bind keeps_try keeps_case_sum keeps_if keeps_return keeps_throw keeps_FM keeps_JOB)
qed

lemma imports_file: "keeps (dbI K) (importOneFile env token row permissions p)"
  unfolding importOneFile_def capture_def
  by (intro keeps_bind keeps_try keeps_case_sum keeps_case_prod keeps_return keeps_lift stores disk_calls)

lemma deletes_files: "keeps (dbI K) (deleteImportedFiles us env row)"
  unfolding deleteImportedFiles_def deleteImportedFile_def by (intro keeps_intros)

end

section \<open>Releasing a torrent\<close>

text \<open>The invariant of the cache with the handles \<open>Q\<close> given up, among them all that wait on one of the hashes.\<close>

definition released_inv :: "('c, 'h, 'mi) torrent_lib \<Rightarrow> string set \<Rightarrow> string set \<Rightarrow> ('c, 'h, 'mi) tmem \<Rightarrow> bool" where
  "released_inv L Q hashes m \<longleftrightarrow> pend_inv L Q m \<and> waiting_on L hashes m \<subseteq> Q"

interpretation released: memory_part "released_inv L Q hashes" for L Q hashes
  by unfold_locales (simp_all add: released_inv_def)

interpretation cached: memory_part "pend_inv L Q" for L Q
  by unfold_locales simp_all

lemma released_start: "pend_inv L Q m \<Longrightarrow> released_inv L (Q \<union> waiting_on L hashes m) hashes m"
  unfolding released_inv_def using pend_inv_mono by blast

lemma released_client:
  assumes "\<And>c. tl_Torrent L (snd (f c)) = tl_Torrent L c"
  shows "keeps (dbI (released_inv L Q hashes)) (on_client f)"
proof (rule keepsI)
  fix s r s'
  assume I: "dbI (released_inv L Q hashes) s" and run: "on_client f s = (r, s')"
  show "dbI (released_inv L Q hashes) s'"
  proof (cases "w_client (mem s)")
    case (Some c)
    then have "pend_inv L Q ((mem s)\<lparr>w_client := Some (snd (f c))\<rparr>)"
      using I pend_inv_client[of L Q "mem s" c "snd (f c)"] assms by (simp add: on_data_def released_inv_def client_extends_def)
    then show ?thesis
      using I run Some by (auto simp: on_client_def on_data_def released_inv_def split: prod.splits)
  qed (use I run in \<open>simp add: on_client_def\<close>)
qed

lemma released_lookups:
  "keeps (dbI (released_inv L Q hashes)) (client_get g)" "keeps (dbI (released_inv L Q hashes)) has_client"
  "keeps (dbI (released_inv L Q hashes)) (lookupTorrent env h)"
proof -
  show get: "keeps (dbI (released_inv L Q hashes)) (client_get g)" for g
    unfolding client_get_def by (rule released_client) simp
  show "keeps (dbI (released_inv L Q hashes)) has_client"
    unfolding has_client_def by (rule keeps_get_mem)
  show "keeps (dbI (released_inv L Q hashes)) (lookupTorrent env h)"
    unfolding lookupTorrent_def by (intro keeps_case_option keeps_return get)
qed

text \<open>Dropping a torrent loses the magnets on its hash, and no other.\<close>

lemma released_drop:
  assumes laws: "client_laws L" and I: "released_inv L Q hashes m" and hash: "h \<in> hashes"
    and c: "w_client m = Some c" "tl_FromHexString L h = Some k" "tl_Torrent L c k = Some tor"
  shows "released_inv L Q hashes (m\<lparr>w_client := Some (tl_Drop L tor c)\<rparr>)"
proof -
  have entries: "entry_ok L (Some (tl_Drop L tor c)) (i \<in> Q) p" if p: "map_of (w_pending m) i = Some p" for i p
  proof (rule entry_ok_drop_key[OF laws _ c(3)])
    show "entry_ok L (Some c) (i \<in> Q) p" using pend_inv_entry[OF _ p] I c(1) by (metis released_inv_def)
    show "tl_FromHexString L (pu_infoHash p) \<noteq> Some k" if "i \<notin> Q"
      using I that p hash c(2) unfolding released_inv_def waiting_on_def by (metis (mono_tags, lifting) mem_Collect_eq subsetD)
  qed
  have "pend_inv L Q (m\<lparr>w_client := Some (tl_Drop L tor c)\<rparr>)"
    using I entries unfolding released_inv_def pend_inv_def by simp
  then show ?thesis using I by (simp add: released_inv_def)
qed

lemma released_release:
  assumes laws: "client_laws (te_lib env)" and hash: "td_InfoHash row \<in> hashes"
  shows "keeps (dbI (released_inv (te_lib env) Q hashes)) (releaseTorrent env row)"
proof -
  let ?I = "dbI (released_inv (te_lib env) Q hashes)"
  let ?tail = "case torrentScratchPath (te_getwd env) (te_DownloadDir env) (td_TorrentName row) of
      Err _ \<Rightarrow> returnM () | Panic \<Rightarrow> panicM
    | Ok scratchPath \<Rightarrow> bindM (tryM (os_remove_all scratchPath)) (\<lambda>_. returnM ())"
  have tail: "keeps ?I ?tail"
    by (cases "torrentScratchPath (te_getwd env) (te_DownloadDir env) (td_TorrentName row)")
      (auto intro: keeps_return keeps_panic keeps_bind keeps_try released.disk_calls)
  have drop: "keeps ?I (bindM (lookupTorrent env (td_InfoHash row)) (\<lambda>tor.
      bindM (case tor of None \<Rightarrow> returnM () | Some h \<Rightarrow> client_do (tl_Drop (te_lib env) h)) (\<lambda>_. ?tail)))" (is "keeps _ ?drop")
  proof (rule keepsI)
    fix s r s'
    assume I: "?I s" and run: "?drop s = (r, s')"
    show "?I s'"
    proof (cases "\<exists>c k h. w_client (mem s) = Some c \<and> tl_FromHexString (te_lib env) (td_InfoHash row) = Some k \<and>
        tl_Torrent (te_lib env) c k = Some h")
      case True
      then obtain c k h where c: "w_client (mem s) = Some c" "tl_FromHexString (te_lib env) (td_InfoHash row) = Some k"
          "tl_Torrent (te_lib env) c k = Some h" by blast
      let ?s1 = "s\<lparr>mem := (mem s)\<lparr>w_client := Some (tl_Drop (te_lib env) h c)\<rparr>\<rparr>"
      have "?I ?s1" using I released_drop[OF laws _ hash c] by (simp add: on_data_def)
      moreover have "?tail ?s1 = (r, s')"
        using run c by (simp add: bindM_def[of "lookupTorrent env h" for h] lookupTorrent_def bindM_def[of "client_do f" for f])
      ultimately show ?thesis using keepsD_eq[OF tail] by blast
    next
      case False
      then have "?tail s = (r, s') \<or> s' = s"
        using run
        by (cases "w_client (mem s)"; cases "tl_FromHexString (te_lib env) (td_InfoHash row)")
          (auto simp: lookupTorrent_def client_get_def on_client_def bindM_def[of "lookupTorrent env h" for h]
            bindM_def[of "returnM ()"] split: option.splits)
      then show ?thesis using keepsD_eq[OF tail] I by blast
    qed
  qed
  show ?thesis
    unfolding releaseTorrent_def hasOtherActiveJobs_def
    by (rule drop keeps_if keeps_return keeps_try keeps_case_sum released_lookups keeps_TD keeps_bind)+
qed

section \<open>Cancelling, deleting, importing\<close>

lemma found_row: "TD_Get i u s = (Ok row, s1) \<Longrightarrow> td_InfoHash row \<in> job_hashes i (dbase s) \<and> dbase s1 = dbase s \<and> mem s1 = mem s"
  using td_Get_Ok[of i u "db_torrents (dbase s)" row] TD_Get_run[of i u s "Ok row" s1] by (auto simp: job_hashes_def)

text \<open>An operation on the job that is looked up first.\<close>

lemma job_op_released:
  assumes I: "tI L Q s"
    and f: "\<And>row Q'. td_InfoHash row \<in> job_hashes i (dbase s) \<Longrightarrow> keeps (dbI (released_inv L Q' (job_hashes i (dbase s)))) (f row)"
    and run: "job_op f (Some uc) i s = (r, s')"
  shows "tI L (Q \<union> waiting_on L (job_hashes i (dbase s)) (mem s)) s'"
proof -
  let ?H = "job_hashes i (dbase s)" and ?Q = "Q \<union> waiting_on L (job_hashes i (dbase s)) (mem s)"
  have start: "dbI (released_inv L ?Q ?H) s" using I released_start[of L Q "mem s" ?H] by (simp add: on_data_def)
  obtain q s1 where get: "TD_Get i (uc_UserId uc) s = (q, s1)" by (cases "TD_Get i (uc_UserId uc) s")
  have s1: "dbI (released_inv L ?Q ?H) s1" using keepsD_eq[OF keeps_TD(2) get start] .
  have "dbI (released_inv L ?Q ?H) s'"
  proof (cases q)
    case (Ok row)
    then have "f row s1 = (r, s')" using run get by (simp add: job_op_def authenticated_def bindM_def)
    then show ?thesis using keepsD_eq[OF f] found_row[of i "uc_UserId uc" s row s1] get Ok s1 by blast
  qed (use run get s1 in \<open>auto simp: job_op_def authenticated_def bindM_def\<close>)
  then show ?thesis by (simp add: on_data_def released_inv_def)
qed

lemma anonymous_job_op: "op \<in> {CancelJob env None i, DeleteJob us env None i} \<Longrightarrow> snd (op s) = s"
  by (auto simp: CancelJob_def DeleteJob_def authenticated_def)

lemma job_release_tI:
  assumes laws: "client_laws (te_lib env)" and I: "tI (te_lib env) Q s"
    and run: "op s = (r, s')" "op \<in> {CancelJob env uCtx i, DeleteJob us env uCtx i}"
  shows "tI (te_lib env) (Q \<union> waiting_on (te_lib env) (job_hashes i (dbase s)) (mem s)) s'"
proof (cases uCtx)
  case None
  then have "s' = s" using run anonymous_job_op by (metis snd_conv)
  then show ?thesis using I by (auto simp: on_data_def intro: pend_inv_mono)
next
  case (Some uc)
  note release = released_release[OF laws]
  from run(2) show ?thesis
  proof (elim insertE emptyE)
    assume "op = CancelJob env uCtx i"
    then show ?thesis
      using job_op_released[OF I _ run(1)[unfolded \<open>op = _\<close> Some job_ops_shape(1)]] release
      by (auto intro!: keeps_bind keeps_TD)
  next
    assume "op = DeleteJob us env uCtx i"
    then show ?thesis
      using job_op_released[OF I _ run(1)[unfolded \<open>op = _\<close> Some job_ops_shape(4)]] release
      by (auto intro!: keeps_bind keeps_TD released.deletes_files)
  qed
qed

lemma released_import:
  assumes laws: "client_laws (te_lib env)" and hash: "td_InfoHash row \<in> hashes"
  shows "keeps (dbI (released_inv (te_lib env) Q hashes)) (importCompletedTorrent env tokens row)"
  unfolding importCompletedTorrent_def Let_def
  by (intro keeps_bind keeps_if keeps_throw keeps_lift keeps_mapM keeps_case_option released_lookups released.imports_file
      keeps_TD keeps_USER released_release[OF laws hash])

lemma released_runImport:
  assumes "client_laws (te_lib env)" "td_InfoHash row \<in> hashes"
  shows "keeps (dbI (released_inv (te_lib env) Q hashes)) (runImport env tokens row)"
  unfolding runImport_def ImportCompleted_def
  by (intro keeps_bind keeps_try keeps_case_sum keeps_return keeps_throw keeps_TD released.publishes released_import[OF assms])

lemma released_syncRow:
  assumes laws: "client_laws (te_lib env)"
  shows "keeps (dbI (released_inv (te_lib env) Q {td_InfoHash row})) (syncRow env tokens row)"
  unfolding syncRow_def sync_lookup_def Let_def
  by (intro keeps_bind keeps_if keeps_return keeps_case_option keeps_case_prod keeps_TD released_lookups released.publishes
      released_runImport[OF laws]) simp

lemma syncRow_tI:
  assumes laws: "client_laws (te_lib env)" and I: "tI (te_lib env) Q s" and run: "syncRow env tokens row s = (r, s')"
  shows "tI (te_lib env) (Q \<union> (if imports_now env row s then waiting_on (te_lib env) {td_InfoHash row} (mem s) else {})) s'"
proof (cases "imports_now env row s")
  case True
  have "dbI (released_inv (te_lib env) (Q \<union> waiting_on (te_lib env) {td_InfoHash row} (mem s)) {td_InfoHash row}) s"
    using I released_start[of "te_lib env" Q "mem s"] by (simp add: on_data_def)
  from keepsD_eq[OF released_syncRow[OF laws] run this] show ?thesis
    using True by (simp add: on_data_def released_inv_def)
next
  case False
  obtain found s1 where look: "sync_lookup env (td_InfoHash row) s = (Ok found, s)"
    using sync_lookup_state by (metis prod.collapse)
  show ?thesis
  proof (cases found)
    case None
    then have "s' = s" using run look by (simp add: syncRow_def bindM_def)
    then show ?thesis using I False by simp
  next
    case (Some tor)
    then obtain c k where c: "w_client (mem s) = Some c" "tl_FromHexString (te_lib env) (td_InfoHash row) = Some k"
        "tl_Torrent (te_lib env) c k = Some tor"
      using look by (cases "w_client (mem s)") (auto simp: sync_lookup_found split: option.splits)
    then have "\<not> torrent_complete env c tor" using False by (auto simp: imports_now_def)
    moreover obtain d a where sums: "sumFileProgress (FileProgress (tl_Files (te_lib env) c tor)) = (d, a)" by fastforce
    ultimately obtain row' fs where "bindM (TD_UpdateProgress (td_Id row) d a fs) (\<lambda>_. bindM (publish_job row') (\<lambda>_. returnM ())) s = (r, s')"
      using run syncRow_registered[OF c sums, of tokens] by (simp add: Let_def)
    moreover have "keeps (tI (te_lib env) Q) (bindM (TD_UpdateProgress (td_Id row) d a fs) (\<lambda>_. bindM (publish_job row') (\<lambda>_. returnM ())))"
      by (intro keeps_bind keeps_TD keeps_return cached.publishes)
    ultimately show ?thesis using keepsD_eq I False by fastforce
  qed
qed

end
