(* ===== verification/TorrentLifecycle.thy ===== *)
theory TorrentLifecycle
  imports TorrentLosses
begin

text \<open>
  The life of a pending upload, as a transition system: clients upload, inspect, discard and submit, magnets
  resolve, time out and expire, jobs are paused, resumed, cancelled, deleted and imported by the sync task, the clock advances, and the rest of the process changes
  the database, the disk and the watchers or makes calls fail, and the bittorrent client downloads.  A step is one whole operation; it carries the handles of the uploads
  whose torrent it may have released.
\<close>

inductive upload_step ::
  "('c, 'h, 'mi) torrent_env \<Rightarrow> ('c, 'h, 'mi) tstate \<Rightarrow> string set \<Rightarrow> ('c, 'h, 'mi) tstate \<Rightarrow> bool"
  for env
where
  step_upload: "UploadTorrentFile env newId uCtx bytes s = (r1, s') \<Longrightarrow> upload_step env s {} s'"
| step_magnet: "AddTorrentMagnet env newId uCtx uri s = (r2, s') \<Longrightarrow> upload_step env s {} s'"
| step_get: "GetTorrentFile env uCtx i s = (r3, s') \<Longrightarrow> upload_step env s {} s'"
| step_discard: "DiscardTorrentFile env uCtx i s = (r4, s') \<Longrightarrow> upload_step env s {} s'"
| step_submit: "SubmitTorrentFile env canceled uCtx i folder paths s = (r5, s') \<Longrightarrow> upload_step env s {} s'"
| step_direct: "SubmitTorrent env canceled uCtx bytes folder s = (r5, s') \<Longrightarrow> upload_step env s {} s'"
| step_pause: "PauseJob env uCtx job s = (r4, s') \<Longrightarrow> upload_step env s {} s'"
| step_resume: "ResumeJob env uCtx job s = (r4, s') \<Longrightarrow> upload_step env s {} s'"
| step_cancel: "CancelJob env uCtx job s = (r4, s') \<Longrightarrow>
    upload_step env s (waiting_on (te_lib env) (job_hashes job (dbase s)) (mem s)) s'"
| step_delete: "DeleteJob us env uCtx job s = (r4, s') \<Longrightarrow>
    upload_step env s (waiting_on (te_lib env) (job_hashes job (dbase s)) (mem s)) s'"
| step_sync: "syncRow env tokens row s = (r4, s') \<Longrightarrow>
    upload_step env s (if imports_now env row s then waiting_on (te_lib env) {td_InfoHash row} (mem s) else {}) s'"
| step_resolved: "publishMagnetInfo env i tor s = (r4, s') \<Longrightarrow> upload_step env s {} s'"
| step_timeout: "timeOutMagnet env i s = (r4, s') \<Longrightarrow> upload_step env s {} s'"
| step_expire: "expirePendingMagnet env i s = (r4, s') \<Longrightarrow> upload_step env s {} s'"
| step_clock: "w_now (mem s) \<le> t \<Longrightarrow> upload_step env s {} (s\<lparr>mem := (mem s)\<lparr>w_now := t\<rparr>\<rparr>)"
| step_rest: "db_inv d \<Longrightarrow> upload_step env s {} (s\<lparr>dbase := d, faults := fs, mem := (mem s)\<lparr>w_disk := disk, w_watch := b\<rparr>\<rparr>)"
| step_network: "w_client (mem s) = Some c \<Longrightarrow> (\<And>k. tl_Torrent (te_lib env) c' k = tl_Torrent (te_lib env) c k) \<Longrightarrow>
    upload_step env s {} (s\<lparr>mem := (mem s)\<lparr>w_client := Some c'\<rparr>\<rparr>)"

text \<open>A fresh service: an empty cache; the client, the disk and the database may hold anything.\<close>

definition upload_init :: "('c, 'h, 'mi) tstate \<Rightarrow> bool" where
  "upload_init s \<longleftrightarrow> db_inv (dbase s) \<and> w_pending (mem s) = [] \<and> w_closed (mem s) = [] \<and> w_nextchan (mem s) = 0"

text \<open>\<open>upload_reachable env Q s\<close>: a run leads from a fresh service to \<open>s\<close>, and \<open>Q\<close> are the handles that were cached on the info hash of a job when it was
  cancelled, deleted or imported.\<close>

inductive upload_reachable :: "('c, 'h, 'mi) torrent_env \<Rightarrow> string set \<Rightarrow> ('c, 'h, 'mi) tstate \<Rightarrow> bool" for env where
  reach_init: "upload_init s \<Longrightarrow> upload_reachable env {} s"
| reach_step: "upload_reachable env Q s \<Longrightarrow> upload_step env s H s' \<Longrightarrow> upload_reachable env (Q \<union> H) s'"

section \<open>The invariant of the cache holds in every reachable state\<close>

lemma keeps_DataDownload:
  assumes "client_laws L"
  shows "keeps (tI L Q) (client_do (tl_AllowDataDownload L h))" "keeps (tI L Q) (client_do (tl_DisallowDataDownload L h))"
  unfolding client_do_def
  by (rule keeps_on_client; simp add: client_extends_def Torrent_DataDownload[OF assms])+

lemma keeps_pause_resume:
  assumes "client_laws (te_lib env)"
  shows "keeps (tI (te_lib env) Q) (PauseJob env uCtx i)" "keeps (tI (te_lib env) Q) (ResumeJob env uCtx i)"
  unfolding PauseJob_def ResumeJob_def by (intro keeps_intros keeps_DataDownload[OF assms])+

lemma upload_step_tI:
  assumes laws: "client_laws (te_lib env)" and step: "upload_step env s H s'" and I: "tI (te_lib env) Q s"
  shows "tI (te_lib env) (Q \<union> H) s'"
  using step
proof (cases rule: upload_step.cases)
  case step_upload
  then show ?thesis using keepsD_eq[OF keeps_UploadTorrentFile[OF laws] _ I] by simp
next
  case step_magnet
  then show ?thesis using keepsD_eq[OF keeps_AddTorrentMagnet[OF laws] _ I] by simp
next
  case step_get
  then show ?thesis using keepsD_eq[OF keeps_GetTorrentFile[OF laws] _ I] by simp
next
  case step_discard
  then show ?thesis using keepsD_eq[OF keeps_DiscardTorrentFile[OF laws] _ I] by simp
next
  case step_submit
  then show ?thesis using keepsD_eq[OF keeps_SubmitTorrentFile[OF laws] _ I] by simp
next
  case step_direct
  then show ?thesis using keepsD_eq[OF keeps_SubmitTorrent[OF laws] _ I] by simp
next
  case step_pause
  then show ?thesis using keepsD_eq[OF keeps_pause_resume(1)[OF laws] _ I] by simp
next
  case step_resume
  then show ?thesis using keepsD_eq[OF keeps_pause_resume(2)[OF laws] _ I] by simp
next
  case step_resolved
  then show ?thesis using keepsD_eq[OF keeps_publish _ I] by simp
next
  case step_timeout
  then show ?thesis using keepsD_eq[OF keeps_timeOut[OF laws] _ I] by simp
next
  case step_expire
  then show ?thesis using keepsD_eq[OF keeps_expire[OF laws] _ I] by simp
next
  case (step_cancel uCtx job r4)
  then show ?thesis using job_release_tI[OF laws I, where op = "CancelJob env uCtx job" and i = job and uCtx = uCtx] by simp
next
  case (step_delete us uCtx job r4)
  then show ?thesis using job_release_tI[OF laws I, where op = "DeleteJob us env uCtx job" and i = job and uCtx = uCtx and us = us] by simp
next
  case (step_sync tokens row r4)
  then show ?thesis using syncRow_tI[OF laws I] by simp
next
  case (step_network c c')
  then have "pend_inv (te_lib env) Q ((mem s)\<lparr>w_client := Some c'\<rparr>)"
    using pend_inv_client[OF tI_mem[OF I] step_network(3)] by (simp add: client_extends_def)
  then show ?thesis using I step_network by (simp add: on_data_def)
next
  case (step_clock n)
  then show ?thesis using I by (simp add: on_data_def)
next
  case (step_rest d fs disk b)
  then show ?thesis using I by (simp add: on_data_def)
qed

lemma upload_init_tI: "upload_init s \<Longrightarrow> tI L Q s"
  by (simp add: upload_init_def on_data_def pend_inv_def chan_ok_def)

lemma reachable_tI:
  assumes "client_laws (te_lib env)" "upload_reachable env Q s"
  shows "tI (te_lib env) Q s"
  using assms(2) by induction (auto intro: upload_init_tI upload_step_tI[OF assms(1)])

text \<open>C16: whatever operations are run, in any order and whatever calls fail, the database stays consistent, removing any entry of the cache succeeds (its
  channel is never closed twice), and every magnet of the cache that has not timed out is registered with the bittorrent client under its info hash,
  unless a job on the same info hash was cancelled, deleted or imported while the magnet was pending: these release the torrent without asking for magnets.\<close>
theorem pending_magnets_stay_registered:
  assumes laws: "client_laws (te_lib env)" and reach: "upload_reachable env Q s"
  shows "db_inv (dbase s) \<and>
    (\<forall>i p h. map_of (w_pending (mem s)) i = Some p \<and> pu_tor p = Some h \<and> \<not> pu_timedOut p \<and> i \<notin> Q \<longrightarrow>
       (\<exists>c k. w_client (mem s) = Some c \<and> tl_FromHexString (te_lib env) (pu_infoHash p) = Some k \<and>
          tl_Torrent (te_lib env) c k = Some h)) \<and>
    (\<forall>i. fst (deletePendingLocked i s) = Ok () \<and> map_of (w_pending (mem (snd (deletePendingLocked i s)))) i = None)"
proof -
  have I: "tI (te_lib env) Q s" using reachable_tI[OF assms] .
  have reg: "\<exists>c k. w_client (mem s) = Some c \<and> tl_FromHexString (te_lib env) (pu_infoHash p) = Some k \<and>
          tl_Torrent (te_lib env) c k = Some h"
    if "map_of (w_pending (mem s)) i = Some p" "pu_tor p = Some h" "\<not> pu_timedOut p" "i \<notin> Q" for i p h
    using pend_inv_entry[OF tI_mem[OF I] that(1)] that(2-4) by (auto simp: entry_ok_def registered_def)
  have del: "fst (deletePendingLocked i s) = Ok () \<and> map_of (w_pending (mem (snd (deletePendingLocked i s)))) i = None" for i
    using deletePendingLocked_run[OF tI_mem[OF I], of i] by auto
  show ?thesis using I reg del by (auto simp: on_data_def)
qed

section \<open>Taking an upload out of the cache\<close>

lemma lookup_taken:
  assumes I: "tI L Q s" and take: "lookupPendingUpload env i user mode s = (Ok p, s')" "mode \<noteq> LookupPeek"
  shows "\<exists>m'. s' = s\<lparr>mem := m'\<rparr> \<and> map_of (w_pending m') = (map_of (w_pending (mem s)))(i := None) \<and>
    w_client m' = w_client (mem s) \<and> (mode = LookupSubmit \<longrightarrow> \<not> pu_timedOut p)"
proof -
  obtain m' where del: "deletePendingLocked i s = (Ok (), s\<lparr>mem := m'\<rparr>)"
      "map_of (w_pending m') = (map_of (w_pending (mem s)))(i := None)" "w_client m' = w_client (mem s)"
    using deletePendingLocked_run[OF tI_mem[OF I], of i] by blast
  have found: "map_of (w_pending (mem s)) i = Some p" "pu_userId p = user" "\<not> w_now (mem s) > pu_expiresAt p"
    using lookup_result[OF take(1)] by simp_all
  then have "s' = s\<lparr>mem := m'\<rparr>" "mode = LookupSubmit \<Longrightarrow> \<not> pu_timedOut p"
    using take del(1)
    by (auto simp: lookupPendingUpload_def pending_get_def bindM_def split: if_splits)
  then show ?thesis using del(2,3) by blast
qed

text \<open>submitting consumes an upload: after a lookup for submission or discarding succeeds, its handle is unknown,
  whoever asks.\<close>
theorem upload_single_use:
  assumes laws: "client_laws (te_lib env)" and reach: "upload_reachable env Q s"
    and take: "lookupPendingUpload env i user mode s = (Ok p, s')" "mode \<noteq> LookupPeek"
  shows "lookupPendingUpload env i user' mode' s' = (Err ErrTorrentUploadNotFound, s')"
  using lookup_taken[OF reachable_tI[OF laws reach] take]
  by (auto simp: lookupPendingUpload_def pending_get_def bindM_def)

text \<open>C17: until it expires, an upload behaves for everybody but its owner as if it did not exist: reading, discarding and
  submitting it report an unknown upload and leave the cache, the client and the database as they are.\<close>
theorem upload_owner_only:
  assumes p: "map_of (w_pending (mem s)) i = Some p" "w_now (mem s) \<le> pu_expiresAt p"
    and foreign: "pu_userId p \<noteq> uc_UserId uc"
  shows "GetTorrentFile env (Some uc) i s = (Err ErrTorrentUploadNotFound, s) \<and>
    DiscardTorrentFile env (Some uc) i s = (Err ErrTorrentUploadNotFound, s) \<and>
    SubmitTorrentFile env canceled (Some uc) i folder paths s =
      (if \<not> perm_CanUpload (uc_Permissions uc) then Err ErrPermissionDenied
       else if w_client (mem s) = None then Err ErrTorrentClientUnavailable
       else Err ErrTorrentUploadNotFound, s)"
proof -
  have "lookupPendingUpload env i (uc_UserId uc) mode s = (Err ErrTorrentUploadNotFound, s)" for mode
    using p foreign by (simp add: lookupPendingUpload_def pending_get_def bindM_def)
  then show ?thesis
    by (simp add: GetTorrentFile_def DiscardTorrentFile_def SubmitTorrentFile_def authenticated_def uploader_def
        bindM_def[of has_client])
qed

section \<open>What a successful submission leaves behind\<close>

lemma tallyFiles_Some:
  "tallyFiles mx files t prog = Some (n, prog') \<Longrightarrow>
     (\<forall>f \<in> set files. tf_Length f \<le> mx) \<and> n = (if files = [] then t else i64 (t + sum_list (List.map tf_Length files))) \<and>
     prog' = prog @ List.map (\<lambda>f. \<lparr>fp_Path = tf_Path f, fp_DownloadedBytes = 0, fp_TotalBytes = tf_Length f\<rparr>) files"
proof (induction mx files t prog rule: tallyFiles.induct)
  case (2 mx f fs t prog)
  then have "\<not> tf_Length f > mx" by (auto split: if_splits)
  then show ?case using 2 by (auto simp: add.assoc split: if_splits)
qed simp

lemma td_UpdateStatus_Ok:
  assumes "td_UpdateStatus now i st t = (Ok (), t')" "r \<in> set (rows t)" "td_Id r = i"
  shows "r\<lparr>td_Status := st, td_UpdatedAt := now\<rparr> \<in> set (rows t')"
  using assms by (auto simp: td_UpdateStatus_def tbl_find_None image_iff split: option.splits if_splits)

text \<open>The row that \<open>finalizeTorrentSubmission\<close> leaves for an accepted upload.\<close>

definition submitted_row ::
  "UserContext \<Rightarrow> string \<Rightarrow> string \<Rightarrow> torrent_file list \<Rightarrow> int \<Rightarrow> TorrentDownload \<Rightarrow> bool"
where
  "submitted_row uc folder infoHash files job row \<longleftrightarrow>
     td_Id row = job \<and> td_UserId row = uc_UserId uc \<and> td_InfoHash row = infoHash \<and> td_FolderName row = folder \<and>
     td_Status row = Downloading \<and> td_DownloadedBytes row = 0 \<and>
     (\<forall>f \<in> set files. tf_Length f \<le> perm_MaxSongSizeBytes (uc_Permissions uc)) \<and>
     td_TotalBytes row = i64 (sum_list (List.map tf_Length files)) \<and>
     td_TotalBytes row \<le> perm_MaxTotalUploadBytes (uc_Permissions uc) \<and>
     td_Files row = List.map (\<lambda>f. \<lparr>fp_Path = tf_Path f, fp_DownloadedBytes = 0, fp_TotalBytes = tf_Length f\<rparr>) files"

lemma finalize_rows:
  assumes "TD_Add dl s = (Ok row, s1)" "TD_UpdateProgress (td_Id row) 0 n progress s1 = (Ok (), s2)"
    "TD_UpdateStatus (td_Id row) Downloading s2 = (Ok (), s3)"
  shows "mem s3 = mem s \<and> (\<exists>now now'. row\<lparr>td_DownloadedBytes := 0, td_TotalBytes := n, td_Files := progress,
      td_UpdatedAt := now, td_Status := Downloading, td_UpdatedAt := now'\<rparr> \<in> set (rows (db_torrents (dbase s3)))) \<and>
    td_UserId row = td_UserId dl \<and> td_InfoHash row = td_InfoHash dl \<and> td_FolderName row = td_FolderName dl"
proof -
  obtain t1 where add: "td_Add (db_clock (dbase s)) dl (db_torrents (dbase s)) = (Ok row, t1)" and s1:
      "dbase s1 = (dbase s)\<lparr>db_torrents := t1\<rparr>" "mem s1 = mem s"
    using assms(1) by (auto simp: TD_Add_def on_torrents_def dbcall_cases split: prod.splits)
  have row: "row \<in> set (rows t1)" "td_UserId row = td_UserId dl" "td_InfoHash row = td_InfoHash dl"
      "td_FolderName row = td_FolderName dl"
    using add by (auto simp: td_Add_def Let_def tbl_insert_def split: if_splits)
  let ?r2 = "row\<lparr>td_DownloadedBytes := 0, td_TotalBytes := n, td_Files := progress, td_UpdatedAt := db_clock (dbase s)\<rparr>"
  have s2: "mem s2 = mem s" "?r2 \<in> set (rows (db_torrents (dbase s2)))"
    using assms(2) s1 row(1)
    by (auto simp: TD_UpdateProgress_def on_torrents_def dbcall_cases td_UpdateProgress_def image_iff split: prod.splits)
  obtain t3 where upd: "td_UpdateStatus (db_clock (dbase s2)) (td_Id row) Downloading (db_torrents (dbase s2)) = (Ok (), t3)"
      and s3: "db_torrents (dbase s3) = t3" "mem s3 = mem s2"
    using assms(3) by (auto simp: TD_UpdateStatus_def on_torrents_def dbcall_cases split: prod.splits)
  from td_UpdateStatus_Ok[OF upd s2(2)] show ?thesis
    using s2(1) s3 row by auto
qed

lemma bind_try_Ok:
  "bindM (tryM m) f s = (Ok b, s') \<longleftrightarrow>
     (\<exists>a s1. m s = (Ok a, s1) \<and> f (Inr a) s1 = (Ok b, s')) \<or> (\<exists>e s1. m s = (Err e, s1) \<and> f (Inl e) s1 = (Ok b, s'))"
  by (cases "m s"; cases "fst (m s)") (auto simp: bindM_def)

lemma bind_throw_not_Ok: "bindM m (\<lambda>_. throwM e) s \<noteq> (Ok b, s')"
  by (simp add: bindM_eq_Ok)

lemma client_get_Ok: "client_get f s = (Ok a, s') \<longleftrightarrow> (\<exists>c. w_client (mem s) = Some c \<and> a = f c \<and> s' = s)"
  by (cases "w_client (mem s)") (auto simp: client_get_def on_client_def)

lemma finalize_Ok:
  assumes run: "finalizeTorrentSubmission env uc tor folder infoHash files s = (Ok job, s')"
  shows "mem s' = mem s \<and> (\<exists>row \<in> set (rows (db_torrents (dbase s'))). submitted_row uc folder infoHash files job row)"
proof -
  obtain n progress where tally: "tallyFiles (perm_MaxSongSizeBytes (uc_Permissions uc)) files 0 [] = Some (n, progress)"
    using run by (cases "tallyFiles (perm_MaxSongSizeBytes (uc_Permissions uc)) files 0 []")
      (auto simp: finalizeTorrentSubmission_def bindM_eq_Ok)
  have n: "\<not> n > perm_MaxTotalUploadBytes (uc_Permissions uc)"
  proof
    assume "n > perm_MaxTotalUploadBytes (uc_Permissions uc)"
    then show False using run by (simp add: finalizeTorrentSubmission_def tally bindM_eq_Ok)
  qed
  obtain c where c: "w_client (mem s) = Some c"
    using run n by (auto simp: finalizeTorrentSubmission_def tally bindM_eq_Ok[of "client_get f" for f] client_get_Ok)
  let ?dl = "newDownload env (uc_UserId uc) tor folder infoHash c"
  have "bindM (tryM (TD_Add ?dl)) (\<lambda>r. case r of
      Inl e \<Rightarrow> bindM (dropUnusedTorrent env infoHash) (\<lambda>_. throwM e)
    | Inr row \<Rightarrow> bindM (TD_UpdateProgress (td_Id row) 0 n progress) (\<lambda>_.
        bindM (TD_UpdateStatus (td_Id row) Downloading) (\<lambda>_. returnM (td_Id row)))) s = (Ok job, s')"
    using run n c by (simp add: finalizeTorrentSubmission_def tally)
  then obtain row s1 s2 where steps: "TD_Add ?dl s = (Ok row, s1)"
      "TD_UpdateProgress (td_Id row) 0 n progress s1 = (Ok (), s2)"
      "TD_UpdateStatus (td_Id row) Downloading s2 = (Ok (), s')" "job = td_Id row"
    unfolding bind_try_Ok sum.case by (auto simp: bindM_eq_Ok)
  from finalize_rows[OF steps(1-3)] tallyFiles_Some[OF tally] n steps(4) show ?thesis
    by (auto simp: submitted_row_def newDownload_def i64_def intro: rev_bexI)
qed

lemma or_drop_Ok:
  "or_drop env p m f s = (Ok b, s') \<longleftrightarrow> (\<exists>a s1. m s = (Ok a, s1) \<and> f a s1 = (Ok b, s'))"
  unfolding or_drop_def bind_try_Ok by (auto simp: bindM_eq_Ok)

lemma on_client_Ok: "on_client f s = (Ok a, s') \<longleftrightarrow>
    (\<exists>c c'. w_client (mem s) = Some c \<and> f c = (Ok a, c') \<and> s' = s\<lparr>mem := (mem s)\<lparr>w_client := Some c'\<rparr>\<rparr>)"
  by (cases "w_client (mem s)") (auto simp: on_client_def split: prod.splits)

lemma checkSubmitQuota_Ok: "checkSubmitQuota env u n s = (Ok x, s') \<Longrightarrow> mem s' = mem s \<and> dbase s' = dbase s"
  by (auto simp: checkSubmitQuota_def bindM_eq_Ok ListFiles_def on_disk_def iocall_def Let_def TD_ListByUser_def query_cases
      split: if_splits prod.splits)

lemma applySelected_Ok:
  assumes "client_laws L" "applySelectedPriority L h paths c = (Ok files, c')"
  shows "files \<noteq> [] \<and> set paths = tf_Path ` set files \<and> (\<forall>f \<in> set files. isSupportedUpload (tf_Path f)) \<and>
    List.map file_id (selectedFilesOf L h c') = List.map file_id files \<and> (\<forall>k. tl_Torrent L c' k = tl_Torrent L c k)"
proof -
  have files: "files = List.filter (wanted_file (set paths)) (tl_Files L c h)" "files \<noteq> []"
      "\<forall>p \<in> set paths. p \<in> tf_Path ` set files"
    and c': "c' = prio_loop L h (\<lambda>f. if wanted_file (set paths) f then PiecePriorityNormal else PiecePriorityNone)
         (enumerate 0 (tl_Files L c h)) c"
    using assms(2) by (auto simp: applySelectedPriority_eq Let_def split: if_splits)
  have "tf_Path ` set files \<subseteq> set paths" "\<forall>f \<in> set files. isSupportedUpload (tf_Path f)"
    unfolding files(1) by (auto simp: wanted_file_def)
  then show ?thesis
    using files selectedFilesOf_prio[OF assms(1) c'] prio_loop_Torrent[OF assms(1)] unfolding c' by auto
qed

text \<open>The upload's torrent, taken from the magnet or added from the metainfo, is registered under its hash.\<close>

lemma torrent_of_upload:
  assumes laws: "client_laws (te_lib env)" and I: "tI (te_lib env) Q s0" and p: "map_of (w_pending (mem s0)) i = Some p"
    and live: "\<not> pu_timedOut p" and same: "w_client (mem s) = w_client (mem s0)"
    and run: "(case pu_tor p of Some tor \<Rightarrow> returnM tor
      | None \<Rightarrow> (case pu_metaInfo p of None \<Rightarrow> panicM | Some mi \<Rightarrow> on_client (tl_AddTorrent (te_lib env) mi))) s = (Ok tor, s')"
  shows "(i \<notin> Q \<longrightarrow> registered (te_lib env) (w_client (mem s')) (pu_infoHash p) tor) \<and> w_pending (mem s') = w_pending (mem s)"
proof (cases "pu_tor p")
  case (Some h)
  then show ?thesis
    using pend_inv_entry[OF tI_mem[OF I] p] live run same by (auto simp: entry_ok_def)
next
  case None
  then obtain mi where mi: "pu_metaInfo p = Some mi" "pu_infoHash p = tl_HashInfo (te_lib env) mi"
    using pend_inv_entry[OF tI_mem[OF I] p] by (auto simp: entry_ok_def)
  then obtain c c' where "w_client (mem s) = Some c" "tl_AddTorrent (te_lib env) mi c = (Ok tor, c')"
      "s' = s\<lparr>mem := (mem s)\<lparr>w_client := Some c'\<rparr>\<rparr>"
    using run None by (auto simp: on_client_Ok)
  then show ?thesis
    using added_extends(2)[OF adds_torrents_Ok[OF client_laws_split(4)[OF laws]]] mi by simp
qed

text \<open>The part of \<open>SubmitTorrentFile\<close> after the upload was taken.\<close>

definition submit_taken ::
  "('c, 'h, 'mi) torrent_env \<Rightarrow> bool \<Rightarrow> UserContext \<Rightarrow> string \<Rightarrow> string list \<Rightarrow> ('h, 'mi) pendingTorrentUpload \<Rightarrow>
     ('c, 'h, 'mi, int) tprog"
where
  "submit_taken env canceled uc folderName selectedPaths pending =
     or_drop env pending (liftO (sanitizedFolder folderName)) (\<lambda>folderRelDir.
     or_drop env pending (TD_GetByUserAndInfoHash (uc_UserId uc) (pu_infoHash pending)) (\<lambda>existing.
     case existing of
       Some row \<Rightarrow> bindM (dropPendingTorrent env pending) (\<lambda>_. throwM (ErrTorrentAlreadyExists (td_Id row)))
     | None \<Rightarrow>
       or_drop env pending
         (checkSubmitQuota env (uc_UserId uc) (perm_MaxPendingTracks (uc_Permissions uc))) (\<lambda>_.
       bindM (case pu_tor pending of
            Some tor \<Rightarrow> returnM tor
          | None \<Rightarrow> (case pu_metaInfo pending of
                None \<Rightarrow> panicM | Some mi \<Rightarrow> on_client (tl_AddTorrent (te_lib env) mi))) (\<lambda>tor.
       if canceled then bindM (dropPendingTorrent env pending) (\<lambda>_. throwM ErrContextCanceled) else
       bindM (tryM (on_client (applySelectedPriority (te_lib env) tor selectedPaths))) (\<lambda>r. case r of
         Inl e \<Rightarrow> bindM (dropUnusedTorrent env (pu_infoHash pending)) (\<lambda>_. throwM e)
       | Inr chosen \<Rightarrow>
           finalizeTorrentSubmission env uc tor folderRelDir (pu_infoHash pending) chosen)))))"

lemma submit_taken_Ok:
  assumes "submit_taken env canceled uc folderName paths p s1 = (Ok job, s')"
  shows "\<exists>folder s2 s3 s4 s5 tor files. sanitizedFolder folderName = Ok folder \<and>
    TD_GetByUserAndInfoHash (uc_UserId uc) (pu_infoHash p) s1 = (Ok None, s2) \<and>
    checkSubmitQuota env (uc_UserId uc) (perm_MaxPendingTracks (uc_Permissions uc)) s2 = (Ok (), s3) \<and>
    (case pu_tor p of Some tor \<Rightarrow> returnM tor
      | None \<Rightarrow> (case pu_metaInfo p of None \<Rightarrow> panicM | Some mi \<Rightarrow> on_client (tl_AddTorrent (te_lib env) mi))) s3 = (Ok tor, s4) \<and>
    \<not> canceled \<and> on_client (applySelectedPriority (te_lib env) tor paths) s4 = (Ok files, s5) \<and>
    finalizeTorrentSubmission env uc tor folder (pu_infoHash p) files s5 = (Ok job, s')"
proof -
  obtain folder ex s2 where 1: "sanitizedFolder folderName = Ok folder"
      "TD_GetByUserAndInfoHash (uc_UserId uc) (pu_infoHash p) s1 = (Ok ex, s2)" and rest:
      "(case ex of
       Some row \<Rightarrow> bindM (dropPendingTorrent env p) (\<lambda>_. throwM (ErrTorrentAlreadyExists (td_Id row)))
     | None \<Rightarrow>
       or_drop env p
         (checkSubmitQuota env (uc_UserId uc) (perm_MaxPendingTracks (uc_Permissions uc))) (\<lambda>_.
       bindM (case pu_tor p of
            Some tor \<Rightarrow> returnM tor
          | None \<Rightarrow> (case pu_metaInfo p of
                None \<Rightarrow> panicM | Some mi \<Rightarrow> on_client (tl_AddTorrent (te_lib env) mi))) (\<lambda>tor.
       if canceled then bindM (dropPendingTorrent env p) (\<lambda>_. throwM ErrContextCanceled) else
       bindM (tryM (on_client (applySelectedPriority (te_lib env) tor paths))) (\<lambda>r. case r of
         Inl e \<Rightarrow> bindM (dropUnusedTorrent env (pu_infoHash p)) (\<lambda>_. throwM e)
       | Inr chosen \<Rightarrow>
           finalizeTorrentSubmission env uc tor folder (pu_infoHash p) chosen)))) s2 = (Ok job, s')"
    using assms by (auto simp: submit_taken_def or_drop_Ok)
  have ex: "ex = None" using rest by (cases ex) (simp_all add: bind_throw_not_Ok)
  from rest show ?thesis
    using 1 unfolding ex option.case or_drop_Ok bindM_eq_Ok[of "case_option a b c" for a b c]
    by (cases canceled) (auto simp: bind_throw_not_Ok bind_try_Ok)
qed

text \<open>The steps of a submission that succeeds: the upload is taken, its torrent gets the selection, the job its row.\<close>

lemma submit_steps:
  assumes laws: "client_laws (te_lib env)" and I: "tI (te_lib env) Q s"
    and run: "SubmitTorrentFile env canceled (Some uc) i folderName paths s = (Ok job, s')"
  obtains p c0 c tor folder files s5 where "perm_CanUpload (uc_Permissions uc)" "\<not> canceled"
    "map_of (w_pending (mem s)) i = Some p" "pu_userId p = uc_UserId uc" "w_now (mem s) \<le> pu_expiresAt p"
    "sanitizedFolder folderName = Ok folder"
    "i \<notin> Q \<longrightarrow> registered (te_lib env) (Some c0) (pu_infoHash p) tor"
    "applySelectedPriority (te_lib env) tor paths c0 = (Ok files, c)"
    "w_client (mem s5) = Some c" "map_of (w_pending (mem s5)) i = None"
    "finalizeTorrentSubmission env uc tor folder (pu_infoHash p) files s5 = (Ok job, s')"
proof -
  let ?L = "te_lib env"
  have up: "perm_CanUpload (uc_Permissions uc)" and client: "w_client (mem s) \<noteq> None"
    using run by (auto simp: SubmitTorrentFile_def uploader_def authenticated_def bindM_def[of has_client] split: if_splits)
  obtain p s1 where look: "lookupPendingUpload env i (uc_UserId uc) LookupSubmit s = (Ok p, s1)"
    and rest: "submit_taken env canceled uc folderName paths p s1 = (Ok job, s')"
    using run up client
    by (auto simp: SubmitTorrentFile_def submit_taken_def uploader_def authenticated_def bindM_def[of has_client]
        bindM_eq_Ok[of "lookupPendingUpload e j u m" for e j u m])
  obtain folder s2 s3 s4 s5 tor files where folder: "sanitizedFolder folderName = Ok folder"
    and query: "TD_GetByUserAndInfoHash (uc_UserId uc) (pu_infoHash p) s1 = (Ok None, s2)"
    and quota: "checkSubmitQuota env (uc_UserId uc) (perm_MaxPendingTracks (uc_Permissions uc)) s2 = (Ok (), s3)"
    and tor: "(case pu_tor p of Some tor \<Rightarrow> returnM tor
      | None \<Rightarrow> (case pu_metaInfo p of None \<Rightarrow> panicM | Some mi \<Rightarrow> on_client (tl_AddTorrent ?L mi))) s3 = (Ok tor, s4)"
    and live: "\<not> canceled"
    and select: "on_client (applySelectedPriority ?L tor paths) s4 = (Ok files, s5)"
    and fin: "finalizeTorrentSubmission env uc tor folder (pu_infoHash p) files s5 = (Ok job, s')"
    using submit_taken_Ok[OF rest] by blast
  obtain m' where s1: "s1 = s\<lparr>mem := m'\<rparr>" "map_of (w_pending m') = (map_of (w_pending (mem s)))(i := None)"
      "w_client m' = w_client (mem s)" "\<not> pu_timedOut p"
    using lookup_taken[OF I look] by auto
  have p: "map_of (w_pending (mem s)) i = Some p" "pu_userId p = uc_UserId uc" "w_now (mem s) \<le> pu_expiresAt p"
    using lookup_result[OF look] by auto
  have s3: "mem s3 = m'"
    using query checkSubmitQuota_Ok[OF quota] s1 by (auto simp: TD_GetByUserAndInfoHash_def query_cases)
  have reg: "i \<notin> Q \<longrightarrow> registered ?L (w_client (mem s4)) (pu_infoHash p) tor" "w_pending (mem s4) = w_pending m'"
    using torrent_of_upload[OF laws I p(1) s1(4) _ tor] s3 s1(3) by auto
  obtain c0 c where c: "w_client (mem s4) = Some c0" "applySelectedPriority ?L tor paths c0 = (Ok files, c)"
      "s5 = s4\<lparr>mem := (mem s4)\<lparr>w_client := Some c\<rparr>\<rparr>"
    using select by (auto simp: on_client_Ok)
  then have "i \<notin> Q \<longrightarrow> registered ?L (Some c0) (pu_infoHash p) tor" "w_client (mem s5) = Some c" "map_of (w_pending (mem s5)) i = None"
    using reg s1(2) by auto
  note post = this
  show thesis by (rule that[OF up live p folder post(1) c(2) post(2,3) fin])
qed

text \<open>C15: when a submission of an uploaded torrent or magnet succeeds, the caller may upload and owned the unexpired
  upload, its handle is gone from the cache, the upload's torrent has exactly the chosen
  files marked for download, every one of them supported and within the caller's limits, and the job is downloading with
  zero progress over exactly those files.  The client has the torrent under the upload's info hash, unless a job on the same hash was cancelled, deleted or imported
  while the upload was pending: then the magnet's torrent was released, and the job that is submitted with it may never download.\<close>
theorem SubmitTorrentFile_success:
  assumes laws: "client_laws (te_lib env)" and reach: "upload_reachable env Q s"
    and run: "SubmitTorrentFile env canceled (Some uc) i folderName paths s = (Ok job, s')"
  shows "\<exists>p c tor files row folder.
    perm_CanUpload (uc_Permissions uc) \<and> \<not> canceled \<and>
    map_of (w_pending (mem s)) i = Some p \<and> pu_userId p = uc_UserId uc \<and> w_now (mem s) \<le> pu_expiresAt p \<and>
    map_of (w_pending (mem s')) i = None \<and> w_client (mem s') = Some c \<and>
    (i \<notin> Q \<longrightarrow> (\<exists>k. tl_FromHexString (te_lib env) (pu_infoHash p) = Some k \<and> tl_Torrent (te_lib env) c k = Some tor)) \<and>
    set paths = tf_Path ` set files \<and> (\<forall>f \<in> set files. isSupportedUpload (tf_Path f)) \<and> files \<noteq> [] \<and>
    List.map file_id (selectedFilesOf (te_lib env) tor c) = List.map file_id files \<and>
    sanitizedFolder folderName = Ok folder \<and>
    row \<in> set (rows (db_torrents (dbase s'))) \<and> submitted_row uc folder (pu_infoHash p) files job row"
proof -
  obtain p c0 c tor folder files s5 where up: "perm_CanUpload (uc_Permissions uc)" "\<not> canceled"
    and p: "map_of (w_pending (mem s)) i = Some p" "pu_userId p = uc_UserId uc" "w_now (mem s) \<le> pu_expiresAt p"
    and folder: "sanitizedFolder folderName = Ok folder"
    and reg: "i \<notin> Q \<longrightarrow> registered (te_lib env) (Some c0) (pu_infoHash p) tor"
    and select: "applySelectedPriority (te_lib env) tor paths c0 = (Ok files, c)"
    and s5: "w_client (mem s5) = Some c" "map_of (w_pending (mem s5)) i = None"
    and fin: "finalizeTorrentSubmission env uc tor folder (pu_infoHash p) files s5 = (Ok job, s')"
    by (rule submit_steps[OF laws reachable_tI[OF laws reach] run], rule that)
  obtain row where row: "row \<in> set (rows (db_torrents (dbase s')))" "submitted_row uc folder (pu_infoHash p) files job row"
      and "mem s' = mem s5"
    using finalize_Ok[OF fin] by blast
  moreover have "i \<notin> Q \<longrightarrow> (\<exists>k. tl_FromHexString (te_lib env) (pu_infoHash p) = Some k \<and> tl_Torrent (te_lib env) c k = Some tor)"
    using reg applySelected_Ok[OF laws select] by (auto simp: registered_def)
  ultimately show ?thesis
    using up p folder s5 applySelected_Ok[OF laws select]
    by (intro exI[of _ p] exI[of _ c] exI[of _ tor] exI[of _ files] exI[of _ row] exI[of _ folder]) simp
qed

section \<open>Another job on the same torrent\<close>

text \<open>The job \<open>i\<close> has progress over the files \<open>fs\<close>.\<close>

definition job_files :: "int \<Rightarrow> TorrentFileProgress list \<Rightarrow> torrent_table \<Rightarrow> bool" where
  "job_files i fs t \<longleftrightarrow> (\<exists>r \<in> set (rows t). td_Id r = i \<and> td_Files r = fs)"

lemma job_files_update:
  assumes "job_files i fs t" "\<And>r. td_Id (f r) = td_Id r" "\<And>r. td_Files (f r) = td_Files r"
  shows "job_files i fs (tbl_update p f t)"
proof -
  obtain r where "r \<in> set (rows t)" "td_Id r = i" "td_Files r = fs" using assms(1) by (auto simp: job_files_def)
  then have "(if p r then f r else r) \<in> set (rows (tbl_update p f t))" "td_Id (if p r then f r else r) = i"
      "td_Files (if p r then f r else r) = fs"
    using assms(2,3) by (auto simp: tbl_update_def)
  then show ?thesis unfolding job_files_def by blast
qed

lemma keeps_job_files:
  "keeps (torI (job_files i fs)) (TD_UpdateStatus j st)" "keeps (torI (job_files i fs)) (TD_SetError j msg)"
  "keeps (torI (job_files i fs)) (TD_SetImportedFiles j fls)"
  unfolding TD_UpdateStatus_def TD_SetError_def TD_SetImportedFiles_def
  by (rule keeps_torI_on_torrents,
      auto simp: td_UpdateStatus_def td_SetError_def td_SetImportedFiles_def intro!: job_files_update split: option.split)+

lemma job_files_runImport: "keeps (torI (job_files i fs)) (runImport env tokens row)"
  unfolding runImport_def ImportCompleted_def importCompletedTorrent_def Let_def
  by (intro keeps_bind keeps_try keeps_case_sum keeps_if keeps_throw keeps_return keeps_lift keeps_mapM keeps_case_option
      keeps_job_files keeps_torI_publish keeps_torI_reads keeps_torI_mem keeps_torI_import keeps_torI_release)

text \<open>A tick writes the progress of the torrent's chosen files to the job's row, whoever chose them.\<close>

lemma syncRow_job_files:
  assumes tor: "w_client (mem s) = Some c" "tl_FromHexString (te_lib env) (td_InfoHash row) = Some k"
      "tl_Torrent (te_lib env) c k = Some tor"
    and row: "row \<in> set (rows (db_torrents (dbase s)))" and ok: "\<not> next_fault s"
    and run: "syncRow env tokens row s = (r, s')"
  shows "torI (job_files (td_Id row) (FileProgress (tl_Files (te_lib env) c tor))) s'"
proof -
  let ?fs = "FileProgress (tl_Files (te_lib env) c tor)"
  obtain d a where sums: "sumFileProgress ?fs = (d, a)" by fastforce
  obtain s1 where prog: "TD_UpdateProgress (td_Id row) d a ?fs s = (Ok (), s1)"
    and s1: "db_torrents (dbase s1) = td_UpdateProgress (db_clock (dbase s)) (td_Id row) d a ?fs (db_torrents (dbase s))"
    using ok by (auto simp: TD_UpdateProgress_def on_torrents_def dbcall_def Let_def)
  have "row\<lparr>td_DownloadedBytes := d, td_TotalBytes := a, td_Files := ?fs, td_UpdatedAt := db_clock (dbase s)\<rparr>
      \<in> set (rows (db_torrents (dbase s1)))"
    using row unfolding s1 td_UpdateProgress_def tbl_update_def by (auto simp: image_iff intro!: bexI[of _ row])
  then have start: "torI (job_files (td_Id row) ?fs) s1" unfolding torI_def job_files_def by (rule rev_bexI) simp
  let ?row = "row\<lparr>td_DownloadedBytes := d, td_TotalBytes := a, td_Files := ?fs\<rparr>"
  let ?rest = "bindM (publish_job ?row) (\<lambda>_.
       if \<not> torrent_complete env c tor then returnM ()
       else bindM (TD_UpdateStatus (td_Id row) Importing) (\<lambda>_.
            bindM (publish_job (?row\<lparr>td_Status := Importing\<rparr>)) (\<lambda>_.
            runImport env tokens (?row\<lparr>td_Status := Importing\<rparr>))))"
  have rest: "?rest s1 = (r, s')"
    using run prog by (simp add: syncRow_registered[OF tor sums] Let_def)
  have "keeps (torI (job_files (td_Id row) ?fs)) ?rest"
    by (intro keeps_bind keeps_if keeps_return keeps_torI_publish keeps_job_files job_files_runImport)
  from keepsD_eq[OF this rest start] show ?thesis .
qed

lemma chosen_files:
  assumes "List.map file_id (selectedFilesOf L tor c) = List.map file_id files"
  shows "fp_Path ` set (FileProgress (tl_Files L c tor)) = tf_Path ` set files"
    "f \<in> set (tl_Files L c tor) \<Longrightarrow> tf_Path f \<notin> tf_Path ` set files \<Longrightarrow> tf_Priority f = PiecePriorityNone"
proof -
  have "tf_Path ` set (selectedFilesOf L tor c) = fst ` set (List.map file_id (selectedFilesOf L tor c))"
    by (simp add: file_id_def image_image)
  also have "\<dots> = tf_Path ` set files" unfolding assms by (simp add: file_id_def image_image)
  finally have sel: "tf_Path ` set (selectedFilesOf L tor c) = tf_Path ` set files" .
  then show "fp_Path ` set (FileProgress (tl_Files L c tor)) = tf_Path ` set files"
    by (simp add: FileProgress_def selectedFiles_def selectedFilesOf_def image_image)
  show "tf_Priority f = PiecePriorityNone" if "f \<in> set (tl_Files L c tor)" "tf_Path f \<notin> tf_Path ` set files"
  proof (rule ccontr)
    assume "tf_Priority f \<noteq> PiecePriorityNone"
    then have "f \<in> set (selectedFilesOf L tor c)" using that(1) by (simp add: selectedFilesOf_def)
    then show False using that(2) sel by blast
  qed
qed

text \<open>C18: the bittorrent client holds one torrent per info hash, with one selection.  After a submission (of an upload whose torrent was not released), the client downloads of the torrent
  only files that were chosen now, and the next tick of the sync task for any other job on the info hash, another user's too, replaces the files of that job by exactly
  those: the files that only he had chosen are no longer downloaded nor counted.  When the files chosen now are complete, his job, if it is active, is imported and settled without them (done, seeding or
  failed), unless a database call fails or the process panics.\<close>
theorem submission_overwrites_selection:
  assumes laws: "client_laws (te_lib env)" and reach: "upload_reachable env Q s" "i \<notin> Q"
    and run: "SubmitTorrentFile env canceled (Some uc) i folderName paths s = (Ok job, s')"
    and mine: "mine \<in> set (rows (db_torrents (dbase s')))" "td_Id mine = job"
    and other: "other \<in> set (rows (db_torrents (dbase s')))" "td_InfoHash other = td_InfoHash mine"
    and tick: "syncRow env tokens other s' = (r, s'')" "\<not> next_fault s'"
  shows "\<exists>c k tor. w_client (mem s') = Some c \<and> tl_FromHexString (te_lib env) (td_InfoHash other) = Some k \<and>
    tl_Torrent (te_lib env) c k = Some tor \<and>
    (\<forall>f \<in> set (tl_Files (te_lib env) c tor). tf_Path f \<notin> set paths \<longrightarrow> tf_Priority f = PiecePriorityNone) \<and>
    (\<exists>row \<in> set (rows (db_torrents (dbase s''))). td_Id row = td_Id other \<and> fp_Path ` set (td_Files row) = set paths) \<and>
    (torrent_complete env c tor \<and> polled_status (td_Status other) \<and> r \<noteq> Panic \<and> r \<noteq> Err ErrStorageFailure \<longrightarrow>
      (\<exists>row \<in> set (rows (db_torrents (dbase s''))). td_Id row = td_Id other \<and> td_Status row \<in> {Done, Seeding, Failed}))"
proof -
  obtain p c0 c tor folder files s5 where "perm_CanUpload (uc_Permissions uc)" "\<not> canceled"
      "map_of (w_pending (mem s)) i = Some p" "pu_userId p = uc_UserId uc" "w_now (mem s) \<le> pu_expiresAt p"
      "sanitizedFolder folderName = Ok folder"
    and reg: "i \<notin> Q \<longrightarrow> registered (te_lib env) (Some c0) (pu_infoHash p) tor"
    and select: "applySelectedPriority (te_lib env) tor paths c0 = (Ok files, c)"
    and s5: "w_client (mem s5) = Some c" "map_of (w_pending (mem s5)) i = None"
    and fin: "finalizeTorrentSubmission env uc tor folder (pu_infoHash p) files s5 = (Ok job, s')"
    by (rule submit_steps[OF laws reachable_tI[OF laws reach(1)] run], rule that)
  note chosen = applySelected_Ok[OF laws select]
  have inv: "td_inv (db_torrents (dbase s'))"
    using reachable_tI[OF laws reach_step[OF reach(1) step_submit[OF run]]] by (simp add: on_data_def db_inv_def)
  obtain row where row: "row \<in> set (rows (db_torrents (dbase s')))" "td_Id row = job" "td_InfoHash row = pu_infoHash p"
      and "mem s' = mem s5"
    using finalize_Ok[OF fin] by (auto simp: submitted_row_def)
  then have c: "w_client (mem s') = Some c" and hash: "td_InfoHash other = pu_infoHash p"
    using s5 other(2) mine table_wf_key_inj[of td_Id "db_torrents (dbase s')" mine row] inv by (auto simp: td_inv_def)
  obtain k where k: "tl_FromHexString (te_lib env) (td_InfoHash other) = Some k" "tl_Torrent (te_lib env) c k = Some tor"
    using reg reach(2) chosen hash by (auto simp: registered_def)
  have "\<forall>f \<in> set (tl_Files (te_lib env) c tor). tf_Path f \<notin> set paths \<longrightarrow> tf_Priority f = PiecePriorityNone"
    using chosen_files(2)[of "te_lib env" tor c files] chosen by blast
  moreover have "\<exists>row \<in> set (rows (db_torrents (dbase s''))). td_Id row = td_Id other \<and> fp_Path ` set (td_Files row) = set paths"
    using syncRow_job_files[OF c k other(1) tick(2,1)] chosen_files(1)[of "te_lib env" tor c files] chosen
    unfolding torI_def job_files_def by (elim bexE conjE) (rule rev_bexI, auto)
  moreover have "\<exists>row \<in> set (rows (db_torrents (dbase s''))). td_Id row = td_Id other \<and> td_Status row \<in> {Done, Seeding, Failed}"
    if "torrent_complete env c tor" "polled_status (td_Status other)" "r \<noteq> Panic" "r \<noteq> Err ErrStorageFailure"
    using syncRow_settles[OF inv other(1) that(2) c k that(1) tick(1) that(3)] that(4) by blast
  ultimately show ?thesis using c k by blast
qed

section \<open>Examples\<close>

text \<open>A fresh service to which user 7 uploads a torrent file and a magnet; user 8 has a job on the same torrent, of which he chose the second file.\<close>

definition ex_other :: TorrentDownload where
  "ex_other = ex_job\<lparr>td_UserId := 8, td_InfoHash := ''aaa'', td_Files := [\<lparr>fp_Path = ''a/2.mp3'', fp_DownloadedBytes = 0, fp_TotalBytes = 9\<rparr>]\<rparr>"

definition ex_torrents :: torrent_table where
  "ex_torrents = \<lparr>rows = [ex_other], next_id = 2\<rparr>"

definition ex_fresh :: "(nat list \<times> (nat \<Rightarrow> torrent_file list), nat, string) tstate" where
  "ex_fresh = \<lparr>faults = [], dbase = empty_database\<lparr>db_torrents := ex_torrents\<rparr>, mem = ex_mem\<lparr>w_disk := []\<rparr>\<rparr>"

definition ex_entries :: "TorrentFileEntry list" where
  "ex_entries = torrentFileEntriesOf \<lparr>ti_BestName = ''a'', ti_FilesLen = 1, ti_Length = 0,
     ti_Upverted = [([''1.mp3''], 5)], ti_Private = None\<rparr>"

definition ex_upload :: "(nat, string) pendingTorrentUpload" where
  "ex_upload = \<lparr>pu_userId = 7, pu_metaInfo = Some ''xyz'', pu_infoHash = ''aaa'', pu_torrentName = ''a'',
     pu_files = Some ex_entries, pu_expiresAt = pendingTorrentUploadTTL, pu_tor = None, pu_done = None,
     pu_expiryTimer = None, pu_timedOut = False\<rparr>"

definition ex_uploaded :: "(nat list \<times> (nat \<Rightarrow> torrent_file list), nat, string) tstate" where
  "ex_uploaded = ex_fresh\<lparr>mem := (mem ex_fresh)\<lparr>w_pending := [(''u1'', ex_upload)]\<rparr>\<rparr>"

lemma ex_upload_run: "UploadTorrentFile ex_tenv ''u1'' (Some ex_uc) ''xyz'' ex_fresh =
    (Ok \<lparr>tfl_Id = ''u1'', tfl_TorrentName = ''a'', tfl_Files = ex_entries, tfl_IsResolving = False\<rparr>, ex_uploaded)"
  by (simp add: UploadTorrentFile_def uploader_def authenticated_def ex_uc_def ex_perms_def parseTorrentFile_def ex_lib_def
      ex_fresh_def ex_mem_def bindM_def sweepExpiredPendingUploadsLocked_def pending_put_def dropPendingTorrents_def
      ex_uploaded_def ex_upload_def ex_entries_def Let_def)

lemma ex_fresh_inv: "db_inv (dbase ex_fresh)"
proof -
  have "td_inv ex_torrents"
    by (simp add: td_inv_def table_wf_def td_unique_active_def td_clash_def ex_torrents_def ex_other_def ex_job_def)
  then show ?thesis using db_inv_empty by (simp add: db_inv_def ex_fresh_def)
qed

lemma ex_fresh_reachable: "upload_reachable ex_tenv {} ex_fresh"
  by (rule reach_init) (simp add: upload_init_def ex_fresh_inv, simp add: ex_fresh_def ex_mem_def)

lemma ex_uploaded_reachable: "upload_reachable ex_tenv {} ex_uploaded"
  using reach_step[OF ex_fresh_reachable step_upload[OF ex_upload_run]] by simp

lemma ex_uploaded_lookup:
  "map_of (w_pending (mem ex_uploaded)) ''u1'' = Some ex_upload" "w_now (mem ex_uploaded) \<le> pu_expiresAt ex_upload"
  "w_now (mem ex_uploaded) = 0" "faults ex_uploaded = []" "dbase ex_uploaded = empty_database\<lparr>db_torrents := ex_torrents\<rparr>"
  "w_client (mem ex_uploaded) = Some ex_client" "w_disk (mem ex_uploaded) = []"
  by (simp_all add: ex_uploaded_def ex_upload_def ex_fresh_def ex_mem_def pendingTorrentUploadTTL_def ex_client_def)

definition ex_taken :: "(nat list \<times> (nat \<Rightarrow> torrent_file list), nat, string) tstate" where
  "ex_taken = ex_uploaded\<lparr>mem := (mem ex_uploaded)\<lparr>w_pending := []\<rparr>\<rparr>"

lemma ex_take: "mode \<noteq> LookupPeek \<Longrightarrow> lookupPendingUpload ex_tenv ''u1'' 7 mode ex_uploaded = (Ok ex_upload, ex_taken)"
  using ex_uploaded_lookup
  by (simp add: lookupPendingUpload_def pending_get_def deletePendingLocked_def bindM_def ex_taken_def)
    (simp add: ex_uploaded_def ex_upload_def)

theorem upload_single_use_witness:
  "lookupPendingUpload ex_tenv ''u1'' 8 LookupPeek ex_taken = (Err ErrTorrentUploadNotFound, ex_taken)"
  using upload_single_use[of ex_tenv, OF _ ex_uploaded_reachable ex_take[of LookupDiscard]] ex_lib_laws by simp

theorem upload_owner_only_witness:
  "DiscardTorrentFile ex_tenv (Some (ex_uc\<lparr>uc_UserId := 8\<rparr>)) ''u1'' ex_uploaded = (Err ErrTorrentUploadNotFound, ex_uploaded)"
  using upload_owner_only[OF ex_uploaded_lookup(1,2), of "ex_uc\<lparr>uc_UserId := 8\<rparr>" ex_tenv False "[]" "[]"]
  by (simp add: ex_upload_def)

definition ex_magnet :: "(nat, string) pendingTorrentUpload" where
  "ex_magnet = \<lparr>pu_userId = 7, pu_metaInfo = None, pu_infoHash = ''aaa'', pu_torrentName = ''aaa'',
     pu_files = None, pu_expiresAt = pendingTorrentUploadTTL, pu_tor = Some 3, pu_done = Some 0,
     pu_expiryTimer = Some ''m1'', pu_timedOut = False\<rparr>"

lemma ex_magnet_run:
  "\<exists>r s'. AddTorrentMagnet ex_tenv ''m1'' (Some ex_uc) ''xyz'' ex_fresh = (r, s') \<and>
     map_of (w_pending (mem s')) ''m1'' = Some ex_magnet"
  by (simp add: AddTorrentMagnet_def uploader_def authenticated_def ex_uc_def ex_perms_def ex_lib_def ex_hash_def
      ex_fresh_def ex_mem_def bindM_def[of has_client] bindM_def[of "TD_GetByUserAndInfoHash u h" for u h]
      TD_GetByUserAndInfoHash_def td_GetByUserAndInfoHash_def tbl_find_def ex_torrents_def ex_other_def
      registerPendingMagnet_def sweepExpiredPendingUploadsLocked_def bindM_def on_client_def pending_put_def
      dropPendingTorrents_def ex_magnet_def magnetName_def)

theorem pending_magnets_stay_registered_witness:
  "\<exists>r s'. AddTorrentMagnet ex_tenv ''m1'' (Some ex_uc) ''xyz'' ex_fresh = (r, s') \<and>
     (\<exists>c k. w_client (mem s') = Some c \<and> tl_Torrent ex_lib c k = Some 3)"
proof -
  obtain r s' where run: "AddTorrentMagnet ex_tenv ''m1'' (Some ex_uc) ''xyz'' ex_fresh = (r, s')"
    and p: "map_of (w_pending (mem s')) ''m1'' = Some ex_magnet"
    using ex_magnet_run by blast
  have "client_laws (te_lib ex_tenv)" "pu_tor ex_magnet = Some 3" "\<not> pu_timedOut ex_magnet"
    using ex_lib_laws by (simp_all add: ex_magnet_def)
  then have "\<exists>c k. w_client (mem s') = Some c \<and> tl_FromHexString (te_lib ex_tenv) (pu_infoHash ex_magnet) = Some k \<and>
      tl_Torrent (te_lib ex_tenv) c k = Some 3"
    using pending_magnets_stay_registered[OF _ reach_step[OF ex_fresh_reachable step_magnet[OF run]]] p by blast
  then have "\<exists>c k. w_client (mem s') = Some c \<and> tl_Torrent ex_lib c k = Some 3"
    unfolding ex_tenv_simps by blast
  then show ?thesis using run by blast
qed

definition ex_chosen_client :: "nat list \<times> (nat \<Rightarrow> torrent_file list)" where
  "ex_chosen_client = snd (applySelectedPriority ex_lib 3 [''a/1.mp3''] ([3, 2], \<lambda>_. ex_files))"

lemma ex_select: "applySelectedPriority ex_lib 3 [''a/1.mp3''] ([3, 2], \<lambda>_. ex_files) = (Ok [ex_files ! 0], ex_chosen_client)"
proof -
  have "fst (applySelectedPriority ex_lib 3 [''a/1.mp3''] ([3, 2], \<lambda>_. ex_files)) = Ok [ex_files ! 0]"
    by (simp add: applySelectedPriority_eq Let_def ex_lib_Files wanted_file_def[abs_def] ex_files_def ex_supported)
  then show ?thesis by (simp add: ex_chosen_client_def prod_eq_iff)
qed

lemma ex_quota: "checkSubmitQuota ex_tenv 7 10 ex_taken = (Ok (), ex_taken)"
  using ex_uploaded_lookup
  by (simp add: checkSubmitQuota_def ListFiles_def on_disk_def files_below_def ex_taken_def bindM_def TD_ListByUser_def
      ex_tenv_def td_ListByUser_def ex_torrents_def ex_other_def)

lemma ex_submit_run:
  "\<exists>s' row. SubmitTorrentFile ex_tenv False (Some ex_uc) ''u1'' [] [''a/1.mp3''] ex_uploaded = (Ok 2, s') \<and> faults s' = [] \<and>
     rows (db_torrents (dbase s')) = [ex_other, row] \<and> td_Id row = 2 \<and> td_InfoHash row = ''aaa''"
proof -
  have query: "TD_GetByUserAndInfoHash 7 h ex_taken = (Ok None, ex_taken)" for h
    using ex_uploaded_lookup by (simp add: ex_taken_def TD_GetByUserAndInfoHash_def td_GetByUserAndInfoHash_def
        tbl_find_def ex_torrents_def ex_other_def)
  let ?s = "ex_taken\<lparr>mem := (mem ex_taken)\<lparr>w_client := Some ([3, 2], \<lambda>_. ex_files)\<rparr>\<rparr>"
  let ?s' = "?s\<lparr>mem := (mem ?s)\<lparr>w_client := Some ex_chosen_client\<rparr>\<rparr>"
  have add: "on_client (tl_AddTorrent ex_lib ''xyz'') ex_taken = (Ok 3, ?s)"
    using ex_uploaded_lookup by (simp add: ex_taken_def on_client_def ex_client_def ex_lib_def ex_hash_def)
  have sel: "on_client (applySelectedPriority ex_lib 3 [''a/1.mp3'']) ?s = (Ok [ex_files ! 0], ?s')"
    by (simp add: on_client_def ex_select)
  have job: "td_UserId ex_other = 8" "td_Id ex_other = 1" by (simp_all add: ex_other_def ex_job_def)
  have fin: "\<exists>s'' row. finalizeTorrentSubmission ex_tenv ex_uc 3 [] ''aaa'' [ex_files ! 0] ?s' = (Ok 2, s'') \<and> faults s'' = [] \<and>
      rows (db_torrents (dbase s'')) = [ex_other, row] \<and> td_Id row = 2 \<and> td_InfoHash row = ''aaa''"
    using ex_uploaded_lookup(4,5) job
    by (simp add: finalizeTorrentSubmission_def ex_files_def ex_uc_def ex_perms_def i64_def bindM_def ex_taken_def tryM_def
        TD_Add_def on_torrents_def td_Add_def newDownload_def td_conflict_def ex_torrents_def Let_def
        TD_UpdateProgress_def td_UpdateProgress_def TD_UpdateStatus_def td_UpdateStatus_def tbl_find_def tbl_insert_def
        tbl_update_def)
  have "SubmitTorrentFile ex_tenv False (Some ex_uc) ''u1'' [] [''a/1.mp3''] ex_uploaded =
      finalizeTorrentSubmission ex_tenv ex_uc 3 [] ''aaa'' [ex_files ! 0] ?s'"
    using ex_take[of LookupSubmit] query ex_quota add sel ex_uploaded_lookup(6)
    by (simp add: SubmitTorrentFile_def uploader_def authenticated_def ex_uc_def ex_perms_def bindM_def[of has_client]
        or_drop_def sanitizedFolder_def bindM_def tryM_def ex_upload_def)
  then show ?thesis using fin by simp
qed

theorem SubmitTorrentFile_success_witness:
  "\<exists>s' row. SubmitTorrentFile ex_tenv False (Some ex_uc) ''u1'' [] [''a/1.mp3''] ex_uploaded = (Ok 2, s') \<and>
     row \<in> set (rows (db_torrents (dbase s'))) \<and> td_Id row = 2 \<and> td_UserId row = 7 \<and> td_Status row = Downloading"
proof -
  obtain s' where run: "SubmitTorrentFile ex_tenv False (Some ex_uc) ''u1'' [] [''a/1.mp3''] ex_uploaded = (Ok 2, s')"
    using ex_submit_run by blast
  from SubmitTorrentFile_success[OF _ ex_uploaded_reachable run] ex_lib_laws show ?thesis
    using run by (auto simp: submitted_row_def)
qed

theorem submission_overwrites_selection_witness:
  "\<exists>s' r s''. SubmitTorrentFile ex_tenv False (Some ex_uc) ''u1'' [] [''a/1.mp3''] ex_uploaded = (Ok 2, s') \<and>
     syncRow ex_tenv (\<lambda>_. []) ex_other s' = (r, s'') \<and> td_UserId ex_other = 8 \<and> fp_Path ` set (td_Files ex_other) = {''a/2.mp3''} \<and>
     (\<exists>row \<in> set (rows (db_torrents (dbase s''))). td_Id row = td_Id ex_other \<and> fp_Path ` set (td_Files row) = {''a/1.mp3''})"
proof -
  obtain s' row where run: "SubmitTorrentFile ex_tenv False (Some ex_uc) ''u1'' [] [''a/1.mp3''] ex_uploaded = (Ok 2, s')"
    and s': "faults s' = []" "rows (db_torrents (dbase s')) = [ex_other, row]" "td_Id row = 2" "td_InfoHash row = ''aaa''"
    using ex_submit_run by blast
  obtain r s'' where tick: "syncRow ex_tenv (\<lambda>_. []) ex_other s' = (r, s'')" by fastforce
  have laws: "client_laws (te_lib ex_tenv)" and kept: "''u1'' \<notin> {}" and hash: "td_InfoHash ex_other = td_InfoHash row" and ok: "\<not> next_fault s'"
    and rows: "row \<in> set (rows (db_torrents (dbase s')))" "ex_other \<in> set (rows (db_torrents (dbase s')))"
    using ex_lib_laws s' by (simp_all add: ex_other_def next_fault_def)
  have "\<exists>row \<in> set (rows (db_torrents (dbase s''))). td_Id row = td_Id ex_other \<and> fp_Path ` set (td_Files row) = set [''a/1.mp3'']"
    using submission_overwrites_selection[OF laws ex_uploaded_reachable kept run rows(1) s'(3) rows(2) hash tick ok] by (elim exE conjE) simp
  moreover have "td_UserId ex_other = 8" "fp_Path ` set (td_Files ex_other) = {''a/2.mp3''}" by (simp_all add: ex_other_def)
  ultimately show ?thesis
    using run tick by (intro exI[of _ s'] exI[of _ r] exI[of _ s'']) simp
qed

end
