(* ===== verification/AudioParsers.thy ===== *)
theory AudioParsers
  imports AudioFormat
begin

text \<open>
  The audio parsers (internal/audio_parsers): duration and size of AAC, FLAC, M4A and MP3 streams.  A stream is its
  whole content; a reader is the bytes not read yet, and the bytes counted by \<open>countingReader\<close> are those that
  are gone.  Reading never fails except at the end of the stream.  Bytes are numbers below 256; shifts and
  masks of bytes are written as multiplication, div and mod.  The MP3 frame decoder (github.com/tcolgate/mp3) is an argument.
\<close>

record AudioInfo =
  ai_Duration :: int
  ai_SizeBytes :: int

section \<open>Readers\<close>

definition byte :: "char \<Rightarrow> int" where
  "byte c = of_char c"

text \<open>\<open>io.ReadFull\<close> of a buffer of \<open>k\<close> bytes: None at the end of the stream or inside the last bytes of it, which
  are then consumed.\<close>

definition read_full :: "nat \<Rightarrow> string \<Rightarrow> string option \<times> string" where
  "read_full k r = (if k \<le> length r then (Some (take k r), drop k r) else (None, []))"

text \<open>\<open>io.CopyN(io.Discard, r, k)\<close>: False when the stream ends first.  A negative count copies nothing.\<close>

definition copy_discard :: "int \<Rightarrow> string \<Rightarrow> bool \<times> string" where
  "copy_discard k r = (if nat k \<le> length r then (True, drop (nat k) r) else (False, []))"

text \<open>Go's integer division truncates towards zero.\<close>

definition go_div :: "int \<Rightarrow> int \<Rightarrow> int" where
  "go_div a b = sgn a * sgn b * (\<bar>a\<bar> div \<bar>b\<bar>)"

text \<open>\<open>time.Duration(n) * time.Second / time.Duration(rate)\<close> in int64.\<close>

definition samples_duration :: "int \<Rightarrow> int \<Rightarrow> int" where
  "samples_duration n rate = go_div (i64 (n * 1000000000)) rate"

lemma read_full_length: "read_full k r = (Some b, r') \<Longrightarrow> length b = k \<and> length r' + k = length r"
  by (auto simp: read_full_def split: if_splits)

lemma read_full_None: "read_full k r = (None, r') \<Longrightarrow> r' = []"
  by (simp add: read_full_def split: if_splits)

lemma copy_discard_length: "copy_discard k r = (ok, r') \<Longrightarrow> length r' \<le> length r \<and> (\<not> ok \<longrightarrow> r' = [])"
  by (auto simp: copy_discard_def split: if_splits)

lemma samples_duration_eq:
  "0 \<le> n \<Longrightarrow> 0 < rate \<Longrightarrow> n * 1000000000 < 9223372036854775808 \<Longrightarrow> samples_duration n rate = n * 1000000000 div rate"
  by (cases "n = 0") (simp_all add: samples_duration_def go_div_def i64_id_bounds)

section \<open>AAC\<close>

definition adtsSampleRates :: "int list" where
  "adtsSampleRates = [96000, 88200, 64000, 48000, 44100, 32000, 24000, 22050, 16000, 12000, 11025, 8000, 7350]"

text \<open>The fields of an ADTS header.\<close>

definition adts_sync :: "string \<Rightarrow> bool" where
  "adts_sync buf \<longleftrightarrow> byte (buf ! 0) = 255 \<and> byte (buf ! 1) div 16 = 15"

definition adts_header_size :: "string \<Rightarrow> nat" where
  "adts_header_size buf = (if byte (buf ! 1) mod 2 = 0 then 9 else 7)"

definition adts_rate_index :: "string \<Rightarrow> nat" where
  "adts_rate_index buf = nat (byte (buf ! 2) div 4 mod 16)"

definition adts_frame_len :: "string \<Rightarrow> int" where
  "adts_frame_len buf = byte (buf ! 3) mod 4 * 2048 + byte (buf ! 4) * 8 + byte (buf ! 5) div 32"

definition adts_blocks :: "string \<Rightarrow> int" where
  "adts_blocks buf = byte (buf ! 6) mod 4 + 1"

text \<open>The loop over the frames: the total of samples, the sample rate (0 before the first frame) and the bytes
  left when the loop ends.\<close>

function aac_loop :: "int \<Rightarrow> int \<Rightarrow> string \<Rightarrow> (int \<times> int \<times> string) outcome" where
  "aac_loop totalSamples sampleRate cr =
     (case read_full 7 cr of
        (None, cr1) \<Rightarrow> Ok (totalSamples, sampleRate, cr1)
      | (Some buf, cr1) \<Rightarrow>
          if \<not> adts_sync buf then Err ErrMalformed
          else
            (case (if adts_header_size buf = 9 then read_full 2 cr1 else (Some [], cr1)) of
               (None, cr2) \<Rightarrow> Ok (totalSamples, sampleRate, cr2)
             | (Some _, cr2) \<Rightarrow>
                 if adts_rate_index buf \<ge> length adtsSampleRates then Err ErrMalformed
                 else
                   let sampleRate' = (if sampleRate = 0 then adtsSampleRates ! adts_rate_index buf else sampleRate);
                       totalSamples' = i64 (totalSamples + adts_blocks buf * 1024);
                       skipBytes = adts_frame_len buf - int (adts_header_size buf)
                   in if skipBytes < 0 then Err ErrMalformed
                      else if skipBytes > 0 then
                        (case copy_discard skipBytes cr2 of
                           (False, cr3) \<Rightarrow> Ok (totalSamples', sampleRate', cr3)
                         | (True, cr3) \<Rightarrow> aac_loop totalSamples' sampleRate' cr3)
                      else aac_loop totalSamples' sampleRate' cr2))"
  by pat_completeness auto

lemma read_full_shrinks:
  assumes "(Some buf, cr1) = read_full 7 cr" "(Some x, cr2) = (if b then read_full 2 cr1 else (Some [], cr1))"
  shows "length cr2 < length cr"
  using read_full_length[OF assms(1)[symmetric]] read_full_length[of 2 cr1 x cr2] assms(2)
  by (cases b) auto

termination aac_loop
  by (relation "measure (\<lambda>(_, _, cr). length cr)")
    (auto dest!: read_full_shrinks dest: copy_discard_length[OF sym] order.strict_trans1)

declare aac_loop.simps [simp del]

definition ParseAAC :: "string \<Rightarrow> AudioInfo outcome" where
  "ParseAAC content =
     bindO (aac_loop 0 0 content) (\<lambda>(totalSamples, sampleRate, cr).
       if sampleRate = 0 then Err ErrMalformed
       else Ok \<lparr>ai_Duration = samples_duration totalSamples sampleRate,
                ai_SizeBytes = int (length content - length cr)\<rparr>)"

section \<open>FLAC\<close>

definition flac_sample_rate :: "string \<Rightarrow> int" where
  "flac_sample_rate data = byte (data ! 10) * 4096 + byte (data ! 11) * 16 + byte (data ! 12) div 16"

definition flac_total_samples :: "string \<Rightarrow> int" where
  "flac_total_samples data = byte (data ! 13) mod 16 * 4294967296 + byte (data ! 14) * 16777216 +
     byte (data ! 15) * 65536 + byte (data ! 16) * 256 + byte (data ! 17)"

text \<open>Reading the fields of a STREAMINFO block: an index past its end panics.\<close>

definition flac_streaminfo :: "string \<Rightarrow> int outcome" where
  "flac_streaminfo data =
     (if length data \<le> 12 then Panic
      else if flac_sample_rate data = 0 then Err ErrMalformed
      else if length data \<le> 17 then Panic
      else Ok (samples_duration (flac_total_samples data) (flac_sample_rate data)))"

definition flac_block_len :: "string \<Rightarrow> int" where
  "flac_block_len blockHeader =
     byte (blockHeader ! 1) * 65536 + byte (blockHeader ! 2) * 256 + byte (blockHeader ! 3)"

function flac_loop :: "string \<Rightarrow> (int \<times> string) outcome" where
  "flac_loop cr =
     (case read_full 4 cr of
        (None, _) \<Rightarrow> Err ErrMalformed
      | (Some blockHeader, cr1) \<Rightarrow>
          let isLast = byte (blockHeader ! 0) \<ge> 128;
              blockType = byte (blockHeader ! 0) mod 128;
              blockLen = flac_block_len blockHeader
          in if blockType = 0 then
               (case read_full (nat blockLen) cr1 of
                  (None, _) \<Rightarrow> Err ErrMalformed
                | (Some data, cr2) \<Rightarrow> bindO (flac_streaminfo data) (\<lambda>duration. Ok (duration, [])))
             else
               (case copy_discard blockLen cr1 of
                  (False, _) \<Rightarrow> Err ErrMalformed
                | (True, cr2) \<Rightarrow> if isLast then Err ErrMalformed else flac_loop cr2))"
  by pat_completeness auto

lemma flac_skip_shrinks:
  "(Some b, r1) = read_full 4 r \<Longrightarrow> (ok, r2) = copy_discard k r1 \<Longrightarrow> length r2 < length r"
  using read_full_length[of 4 r b r1] copy_discard_length[of k r1 ok r2] by auto

termination flac_loop
  by (relation "measure length") (auto dest: flac_skip_shrinks)

declare flac_loop.simps [simp del]

definition ParseFLAC :: "string \<Rightarrow> AudioInfo outcome" where
  "ParseFLAC content =
     (case read_full 4 content of
        (None, _) \<Rightarrow> Err ErrMalformed
      | (Some marker, cr) \<Rightarrow>
          if marker \<noteq> ''fLaC'' then Err ErrMalformed
          else bindO (flac_loop cr) (\<lambda>(duration, cr').
                 Ok \<lparr>ai_Duration = duration, ai_SizeBytes = int (length content - length cr')\<rparr>))"

section \<open>M4A\<close>

definition be_num :: "string \<Rightarrow> int" where
  "be_num bs = foldl (\<lambda>acc c. acc * 256 + byte c) 0 bs"

definition m4aBoxHeaderSize :: int where "m4aBoxHeaderSize = 8"
definition m4aLargeSizeFieldSize :: int where "m4aLargeSizeFieldSize = 8"
definition m4aBoxExtendsToEOF :: int where "m4aBoxExtendsToEOF = -1"

text \<open>A header: the end of the stream, a malformed one, or the box type and the length of the payload.\<close>

datatype m4a_header = BoxEOF | BoxBad | Box string int string

definition readM4ABoxHeader :: "string \<Rightarrow> m4a_header" where
  "readM4ABoxHeader r =
     (case read_full 8 r of
        (None, _) \<Rightarrow> BoxEOF
      | (Some header, r1) \<Rightarrow>
          let size = be_num (take 4 header); boxType = drop 4 header in
          if size = 0 then Box boxType m4aBoxExtendsToEOF r1
          else if size = 1 then
            (case read_full 8 r1 of
               (None, _) \<Rightarrow> BoxBad
             | (Some largeSizeBuf, r2) \<Rightarrow>
                 let largeSize = be_num largeSizeBuf in
                 if largeSize < m4aBoxHeaderSize + m4aLargeSizeFieldSize then BoxBad
                 else Box boxType (i64 (i64 largeSize - m4aBoxHeaderSize - m4aLargeSizeFieldSize)) r2)
          else if size < m4aBoxHeaderSize then BoxBad
          else Box boxType (size - m4aBoxHeaderSize) r1)"

definition skipM4ABoxPayload :: "string \<Rightarrow> int \<Rightarrow> bool \<times> string" where
  "skipM4ABoxPayload r payloadLen =
     (if payloadLen = m4aBoxExtendsToEOF then (True, []) else copy_discard payloadLen r)"

definition parseM4AMvhdPayload :: "string \<Rightarrow> int outcome" where
  "parseM4AMvhdPayload payload =
     (if length payload < 1 then Err ErrMalformed
      else if byte (payload ! 0) = 0 then
        (if length payload < 20 then Err ErrMalformed
         else
           let timescale = be_num (take 4 (drop 12 payload)); duration = be_num (take 4 (drop 16 payload)) in
           if timescale = 0 then Err ErrMalformed
           else if duration = 4294967295 then Err ErrMalformed
           else Ok (samples_duration (i64 duration) timescale))
      else if byte (payload ! 0) = 1 then
        (if length payload < 32 then Err ErrMalformed
         else
           let timescale = be_num (take 4 (drop 20 payload)); duration = be_num (take 8 (drop 24 payload)) in
           if timescale = 0 then Err ErrMalformed
           else if duration = 18446744073709551615 then Err ErrMalformed
           else Ok (samples_duration (i64 duration) timescale))
      else Err ErrMalformed)"

text \<open>\<open>make([]byte, n)\<close> panics on a negative length and on one above the address space of the runtime (2^48 bytes on
  the 64-bit platforms).\<close>

definition max_alloc :: int where "max_alloc = 281474976710656"

definition make_panics :: "int \<Rightarrow> bool" where
  "make_panics n \<longleftrightarrow> n < 0 \<or> n > max_alloc"

text \<open>None when moov ends before an mvhd box.\<close>

function findM4AMvhdInMoov_loop :: "string \<Rightarrow> int option outcome" where
  "findM4AMvhdInMoov_loop childReader =
     (case readM4ABoxHeader childReader of
        BoxEOF \<Rightarrow> Ok None
      | BoxBad \<Rightarrow> Err ErrMalformed
      | Box boxType payloadLen r1 \<Rightarrow>
          if boxType \<noteq> ''mvhd'' then
            (case skipM4ABoxPayload r1 payloadLen of
               (False, _) \<Rightarrow> Err ErrMalformed
             | (True, r2) \<Rightarrow> findM4AMvhdInMoov_loop r2)
          else if payloadLen = m4aBoxExtendsToEOF then Err ErrMalformed
          else if make_panics payloadLen then Panic
          else
            (case read_full (nat payloadLen) r1 of
               (None, _) \<Rightarrow> Err ErrMalformed
             | (Some payload, _) \<Rightarrow> bindO (parseM4AMvhdPayload payload) (\<lambda>duration. Ok (Some duration))))"
  by pat_completeness auto

lemma readM4ABoxHeader_shrinks: "readM4ABoxHeader r = Box ty n r' \<Longrightarrow> length r' < length r"
  by (auto simp: readM4ABoxHeader_def Let_def dest!: read_full_length split: prod.splits option.splits if_splits)

lemma skipM4ABoxPayload_length: "skipM4ABoxPayload r n = (ok, r') \<Longrightarrow> length r' \<le> length r"
  by (auto simp: skipM4ABoxPayload_def dest: copy_discard_length split: if_splits)

lemma next_box_shrinks:
  "readM4ABoxHeader r = Box ty n r1 \<Longrightarrow> (ok, r2) = skipM4ABoxPayload r1 m \<Longrightarrow> length r2 < length r"
  using readM4ABoxHeader_shrinks skipM4ABoxPayload_length[of r1 m ok r2] by (metis order.strict_trans1)

termination findM4AMvhdInMoov_loop
  by (relation "measure length") (auto dest: next_box_shrinks)

declare findM4AMvhdInMoov_loop.simps [simp del]

text \<open>The reader of moov's children: limited to its payload, unless that extends to the end of the stream.\<close>

definition findM4AMvhdInMoov :: "string \<Rightarrow> int \<Rightarrow> int option outcome" where
  "findM4AMvhdInMoov cr moovLen =
     findM4AMvhdInMoov_loop (if moovLen \<noteq> m4aBoxExtendsToEOF then take (nat moovLen) cr else cr)"

function findM4AMvhdDuration :: "string \<Rightarrow> int outcome" where
  "findM4AMvhdDuration cr =
     (case readM4ABoxHeader cr of
        BoxEOF \<Rightarrow> Err ErrMalformed
      | BoxBad \<Rightarrow> Err ErrMalformed
      | Box boxType payloadLen cr1 \<Rightarrow>
          if boxType \<noteq> ''moov'' then
            (case skipM4ABoxPayload cr1 payloadLen of
               (False, _) \<Rightarrow> Err ErrMalformed
             | (True, cr2) \<Rightarrow> findM4AMvhdDuration cr2)
          else
            bindO (findM4AMvhdInMoov cr1 payloadLen) (\<lambda>found. case found of
               None \<Rightarrow> Err ErrMalformed | Some duration \<Rightarrow> Ok duration))"
  by pat_completeness auto

termination findM4AMvhdDuration
  by (relation "measure length") (auto dest: next_box_shrinks)

declare findM4AMvhdDuration.simps [simp del]

text \<open>What is left after the duration was found is drained, so every byte is counted.\<close>

definition ParseM4A :: "string \<Rightarrow> AudioInfo outcome" where
  "ParseM4A content =
     (case readM4ABoxHeader content of
        BoxEOF \<Rightarrow> Err ErrMalformed
      | BoxBad \<Rightarrow> Err ErrMalformed
      | Box boxType payloadLen cr \<Rightarrow>
          if boxType \<noteq> ''ftyp'' then Err ErrMalformed
          else
            (case skipM4ABoxPayload cr payloadLen of
               (False, _) \<Rightarrow> Err ErrMalformed
             | (True, cr1) \<Rightarrow>
                 bindO (findM4AMvhdDuration cr1) (\<lambda>duration.
                   Ok \<lparr>ai_Duration = duration, ai_SizeBytes = int (length content)\<rparr>)))"

section \<open>MP3\<close>

text \<open>A decoder in state \<open>d\<close> yields a frame of some duration, an error of one frame, or the end of the stream; the fields of the
  first frame's header are informational and dropped by \<open>Parse\<close>.\<close>

datatype mp3_event = Mp3Frame int | Mp3Error | Mp3EOF

partial_function (option) mp3_loop ::
  "('d \<Rightarrow> mp3_event \<times> 'd) \<Rightarrow> int \<Rightarrow> bool \<Rightarrow> 'd \<Rightarrow> (int \<times> bool \<times> 'd) option"
where
  "mp3_loop dec duration firstFrame d =
     (case dec d of
        (Mp3EOF, d') \<Rightarrow> Some (duration, firstFrame, d')
      | (Mp3Error, d') \<Rightarrow> mp3_loop dec duration firstFrame d'
      | (Mp3Frame t, d') \<Rightarrow> mp3_loop dec (i64 (duration + t)) False d')"

text \<open>\<open>consumed d\<close>: the bytes the decoder has read.\<close>

definition ParseMP3 :: "('d \<Rightarrow> mp3_event \<times> 'd) \<Rightarrow> ('d \<Rightarrow> int) \<Rightarrow> 'd \<Rightarrow> AudioInfo outcome option" where
  "ParseMP3 dec consumed d =
     map_option (\<lambda>(duration, firstFrame, d').
       if firstFrame then Err ErrMalformed
       else Ok \<lparr>ai_Duration = duration, ai_SizeBytes = consumed d'\<rparr>) (mp3_loop dec 0 True d)"

section \<open>Parsing by extension\<close>

text \<open>The MP3 decoder over a stored file, whose content ends, is given by the events it yields before the end.\<close>

definition mp3_events_result :: "mp3_event list \<Rightarrow> string \<Rightarrow> AudioInfo outcome" where
  "mp3_events_result events content =
     (if List.filter (\<lambda>e. e \<noteq> Mp3Error) events = [] then Err ErrMalformed
      else Ok \<lparr>ai_Duration = foldl (\<lambda>d e. case e of Mp3Frame t \<Rightarrow> i64 (d + t) | _ \<Rightarrow> d) 0 events,
               ai_SizeBytes = int (length content)\<rparr>)"

definition Parse :: "(string \<Rightarrow> mp3_event list) \<Rightarrow> string \<Rightarrow> string \<Rightarrow> AudioInfo outcome" where
  "Parse mp3_events filePath content =
     (let ext = ascii_lower (path_Ext filePath) in
      if ext = ''.mp3'' then mp3_events_result (mp3_events content) content
      else if ext = ''.flac'' then ParseFLAC content
      else if ext = ''.aac'' then ParseAAC content
      else if ext = ''.m4a'' then ParseM4A content
      else Err ErrUnsupportedFormat)"

section \<open>Facts about AAC\<close>

lemma byte_char_of [simp]: "byte (char_of (n :: int)) = n mod 256"
  by (simp add: byte_def)

lemma byte_char_of_nat [simp]: "byte (char_of (n :: nat)) = int n mod 256"
  using of_nat_of_char[of "char_of n", where ?'a = int] by (simp add: byte_def zmod_int)

lemma byte_mod [simp]: "byte c mod 256 = byte c"
  by (simp add: byte_def)

lemma byte_range: "0 \<le> byte c" "byte c < 256"
  using pos_mod_bound[of 256 "byte c"] pos_mod_sign[of 256 "byte c"] by simp_all

text \<open>An ADTS frame without CRC, of one block, for a rate index and a payload.\<close>

definition adts_frame :: "int \<Rightarrow> string \<Rightarrow> string" where
  "adts_frame idx payload =
     (let n = 7 + int (length payload)
      in [char_of (255::int), char_of (241::int), char_of (idx * 4), char_of (n div 2048), char_of (n div 8),
          char_of (n mod 8 * 32), char_of (0::int)] @ payload)"

lemma adts_frame_fields:
  assumes "0 \<le> idx" "idx < 13" "length payload \<le> 8184"
  shows "\<exists>buf. read_full 7 (adts_frame idx payload @ rest) = (Some buf, payload @ rest) \<and>
    adts_sync buf \<and> adts_header_size buf = 7 \<and> adts_rate_index buf = nat idx \<and>
    adts_frame_len buf = 7 + int (length payload) \<and> adts_blocks buf = 1"
proof -
  let ?n = "7 + int (length payload)"
  let ?buf = "[char_of (255::int), char_of (241::int), char_of (idx * 4), char_of (?n div 2048), char_of (?n div 8),
          char_of (?n mod 8 * 32), char_of (0::int)]"
  have "?n div 2048 mod 256 mod 4 * 2048 + ?n div 8 mod 256 * 8 + ?n mod 8 * 32 mod 256 div 32 = ?n"
  proof -
    have "?n div 2048 mod 256 mod 4 = ?n div 2048" "?n mod 8 * 32 mod 256 div 32 = ?n mod 8"
      using assms(3) by simp_all
    moreover have "?n div 2048 * 256 + ?n div 8 mod 256 = ?n div 8"
      using div_mult_mod_eq[of "?n div 8" 256] zdiv_zmult2_eq[of 256 ?n 8] by simp
    moreover have "?n div 8 * 8 + ?n mod 8 = ?n" by (rule div_mult_mod_eq)
    ultimately show ?thesis by linarith
  qed
  moreover have "?n div 2048 mod 4 = ?n div 2048" using assms(3) by simp
  moreover have "?n div 2048 < 256" using assms(3) by linarith
  moreover have "idx * 4 mod 256 div 4 mod 16 = idx" using assms by simp
  ultimately have "adts_sync ?buf \<and> adts_header_size ?buf = 7 \<and> adts_rate_index ?buf = nat idx \<and>
      adts_frame_len ?buf = ?n \<and> adts_blocks ?buf = 1"
    using assms(1,2)
    by (simp add: adts_sync_def adts_header_size_def adts_rate_index_def adts_frame_len_def adts_blocks_def
        pos_imp_zdiv_nonneg_iff)
  moreover have "read_full 7 (adts_frame idx payload @ rest) = (Some ?buf, payload @ rest)"
    by (simp add: read_full_def adts_frame_def Let_def)
  ultimately show ?thesis by blast
qed

lemma aac_loop_frame:
  assumes "0 \<le> idx" "idx < 13" "length payload \<le> 8184"
  shows "aac_loop n rate (adts_frame idx payload @ rest) =
    aac_loop (i64 (n + 1024)) (if rate = 0 then adtsSampleRates ! nat idx else rate) rest"
proof -
  obtain buf where buf: "read_full 7 (adts_frame idx payload @ rest) = (Some buf, payload @ rest)"
      "adts_sync buf" "adts_header_size buf = 7" "adts_rate_index buf = nat idx"
      "adts_frame_len buf = 7 + int (length payload)" "adts_blocks buf = 1"
    using adts_frame_fields[OF assms] by blast
  have "\<not> adts_rate_index buf \<ge> length adtsSampleRates"
    using buf(4) assms(1,2) by (simp add: adtsSampleRates_def)
  then show ?thesis
    by (subst aac_loop.simps) (simp add: buf Let_def copy_discard_def)
qed

lemma aac_loop_frames:
  assumes "0 \<le> idx" "idx < 13" "\<forall>p \<in> set payloads. length p \<le> 8184" "rate = 0 \<or> rate = adtsSampleRates ! nat idx"
    "0 \<le> n" "n + 1024 * int (length payloads) < 9223372036854775808"
  shows "aac_loop n rate (concat (List.map (adts_frame idx) payloads)) =
    Ok (n + 1024 * int (length payloads), if payloads = [] then rate else adtsSampleRates ! nat idx, [])"
  using assms(3-)
proof (induction payloads arbitrary: n rate)
  case Nil
  show ?case by (subst aac_loop.simps) (simp add: read_full_def)
next
  case (Cons p ps)
  have nz: "adtsSampleRates ! nat idx \<noteq> 0"
  proof -
    have "adtsSampleRates ! nat idx \<in> set adtsSampleRates"
      using assms(1,2) by (intro nth_mem) (simp add: adtsSampleRates_def)
    then show ?thesis by (auto simp: adtsSampleRates_def)
  qed
  have "i64 (n + 1024) = n + 1024" using Cons.prems by (intro i64_id_bounds) auto
  then show ?case
    using Cons.prems Cons.IH[of "adtsSampleRates ! nat idx" "n + 1024"] nz
    by (auto simp: aac_loop_frame[OF assms(1,2)])
qed

text \<open>a stream of ADTS frames of one sample rate parses to its size and to 1024 samples per frame at that rate.\<close>
theorem ParseAAC_frames:
  assumes "0 \<le> idx" "idx < 13" "\<forall>p \<in> set payloads. length p \<le> 8184" "payloads \<noteq> []"
    and "1024 * int (length payloads) * 1000000000 < 9223372036854775808"
  shows "ParseAAC (concat (List.map (adts_frame idx) payloads)) =
    Ok \<lparr>ai_Duration = 1024 * int (length payloads) * 1000000000 div (adtsSampleRates ! nat idx),
        ai_SizeBytes = int (length (concat (List.map (adts_frame idx) payloads)))\<rparr>"
proof -
  have "adtsSampleRates ! nat idx \<in> set adtsSampleRates"
    using assms(1,2) by (intro nth_mem) (simp add: adtsSampleRates_def)
  then have rate: "0 < adtsSampleRates ! nat idx" by (auto simp: adtsSampleRates_def)
  then show ?thesis
    using aac_loop_frames[of idx payloads 0 0] assms samples_duration_eq[OF _ rate, of "1024 * int (length payloads)"]
    by (simp add: ParseAAC_def)
qed

theorem ParseAAC_frames_witness:
  "ParseAAC (concat (List.map (adts_frame 4) [''abc'', [], ''z''])) = Ok \<lparr>ai_Duration = 69659863, ai_SizeBytes = 25\<rparr>"
  using ParseAAC_frames[of 4 "[''abc'', [], ''z'']"] by (simp add: adtsSampleRates_def adts_frame_def)

section \<open>Facts about FLAC and M4A\<close>

definition be32 :: "int \<Rightarrow> string" where
  "be32 n = [char_of (n div 16777216), char_of (n div 65536), char_of (n div 256), char_of n]"

lemma length_be32 [simp]: "length (be32 n) = 4"
  by (simp add: be32_def)

lemma be_num_be32 [simp]:
  assumes "0 \<le> n" "n < 4294967296"
  shows "be_num (be32 n) = n"
proof -
  have 1: "n div 16777216 mod 256 = n div 16777216" using assms by simp
  have "n div 16777216 * 256 + n div 65536 mod 256 = n div 65536"
    using div_mult_mod_eq[of "n div 65536" 256] zdiv_zmult2_eq[of 256 n 65536] by simp
  moreover have "n div 65536 * 256 + n div 256 mod 256 = n div 256"
    using div_mult_mod_eq[of "n div 256" 256] zdiv_zmult2_eq[of 256 n 256] by simp
  ultimately show ?thesis
    unfolding be_num_def be32_def by (simp add: 1)
qed

definition flac_stream :: "bool \<Rightarrow> string \<Rightarrow> string \<Rightarrow> string" where
  "flac_stream final data rest =
     ''fLaC'' @ char_of (if final then 128 else 0 :: int) # tl (be32 (int (length data))) @ data @ rest"

lemma ParseFLAC_stream:
  assumes "length data < 16777216"
  shows "ParseFLAC (flac_stream final data rest) =
    bindO (flac_streaminfo data) (\<lambda>d. Ok \<lparr>ai_Duration = d, ai_SizeBytes = int (length (flac_stream final data rest))\<rparr>)"
proof -
  let ?n = "int (length data)"
  let ?h = "char_of (if final then 128 else 0 :: int) # tl (be32 ?n)"
  have sum: "?n div 65536 mod 256 * 65536 + ?n div 256 mod 256 * 256 + ?n mod 256 = ?n"
  proof -
    have "?n div 65536 mod 256 = ?n div 65536" using assms by simp
    moreover have "?n div 65536 * 256 + ?n div 256 mod 256 = ?n div 256"
      using div_mult_mod_eq[of "?n div 256" 256] zdiv_zmult2_eq[of 256 ?n 256] by simp
    ultimately show ?thesis using div_mult_mod_eq[of ?n 256] by linarith
  qed
  have len: "nat (flac_block_len ?h) = length data"
    using sum assms by (simp add: be32_def flac_block_len_def)
  have "read_full 4 (?h @ data @ rest) = (Some ?h, data @ rest)" "read_full (length data) (data @ rest) = (Some data, rest)"
    by (simp_all add: read_full_def be32_def)
  then have "flac_loop (?h @ data @ rest) = bindO (flac_streaminfo data) (\<lambda>d. Ok (d, []))"
    using len by (subst flac_loop.simps) (simp add: Let_def)
  then show ?thesis
    by (cases "flac_streaminfo data") (simp_all add: ParseFLAC_def flac_stream_def read_full_def bindO_def)
qed

lemma be_num_append: "be_num (a @ b) = be_num a * 256 ^ length b + be_num b"
proof -
  have step: "foldl (\<lambda>acc c. acc * 256 + byte c) x b = x * 256 ^ length b + be_num b" for x
    unfolding be_num_def
  proof (induction b arbitrary: x rule: rev_induct)
    case (snoc c b)
    show ?case using snoc[of x] by (simp add: algebra_simps)
  qed simp
  have "be_num (a @ b) = foldl (\<lambda>acc c. acc * 256 + byte c) (be_num a) b"
    by (simp add: be_num_def)
  then show ?thesis unfolding step .
qed

definition be64 :: "int \<Rightarrow> string" where
  "be64 n = be32 (n div 4294967296) @ be32 (n mod 4294967296)"

lemma length_be64 [simp]: "length (be64 n) = 8"
  by (simp add: be64_def)

lemma be_num_be64 [simp]:
  assumes "0 \<le> n" "n < 18446744073709551616"
  shows "be_num (be64 n) = n"
  using assms by (simp add: be64_def be_num_append)

text \<open>An MP4 box, with its size in 32 bits, in 64 bits, or left open, which makes it extend to the end of the stream.\<close>

datatype box_size = Size32 | Size64 | SizeOpen

definition m4a_box :: "string \<Rightarrow> string \<Rightarrow> string" where
  "m4a_box ty payload = be32 (8 + int (length payload)) @ ty @ payload"

definition sized_box :: "box_size \<times> string \<times> string \<Rightarrow> string" where
  "sized_box b = (case b of (z, ty, payload) \<Rightarrow>
     (case z of
        Size32 \<Rightarrow> m4a_box ty payload
      | Size64 \<Rightarrow> be32 1 @ ty @ be64 (16 + int (length payload)) @ payload
      | SizeOpen \<Rightarrow> be32 0 @ ty @ payload))"

definition m4a_fits :: "box_size \<times> string \<times> string \<Rightarrow> bool" where
  "m4a_fits b = (case b of (z, ty, payload) \<Rightarrow> length ty = 4 \<and>
     (case z of Size32 \<Rightarrow> length payload < 4294967288 | Size64 \<Rightarrow> length payload < 9223372036854775792 | SizeOpen \<Rightarrow> False))"

lemma sized_header:
  assumes "m4a_fits (z, ty, payload)"
  shows "readM4ABoxHeader (sized_box (z, ty, payload) @ rest) = Box ty (int (length payload)) (payload @ rest)"
proof (cases z)
  case Size32
  then have "read_full 8 (sized_box (z, ty, payload) @ rest) = (Some (be32 (8 + int (length payload)) @ ty), payload @ rest)"
    using assms by (simp add: read_full_def sized_box_def m4a_box_def m4a_fits_def)
  then show ?thesis
    using assms Size32 by (simp add: readM4ABoxHeader_def Let_def m4aBoxHeaderSize_def m4a_fits_def)
next
  case Size64
  let ?large = "be64 (16 + int (length payload))"
  have "read_full 8 (sized_box (z, ty, payload) @ rest) = (Some (be32 1 @ ty), ?large @ payload @ rest)"
    "read_full 8 (?large @ payload @ rest) = (Some ?large, payload @ rest)"
    using assms Size64 by (simp_all add: read_full_def sized_box_def m4a_fits_def)
  then show ?thesis
    using assms Size64
    by (simp add: readM4ABoxHeader_def Let_def m4aBoxHeaderSize_def m4aLargeSizeFieldSize_def m4a_fits_def i64_id_bounds)
qed (use assms in \<open>simp add: m4a_fits_def\<close>)

lemma open_header:
  assumes "length ty = 4"
  shows "readM4ABoxHeader (sized_box (SizeOpen, ty, payload)) = Box ty m4aBoxExtendsToEOF payload"
proof -
  have "read_full 8 (sized_box (SizeOpen, ty, payload)) = (Some (be32 0 @ ty), payload)"
    using assms by (simp add: read_full_def sized_box_def)
  then show ?thesis by (simp add: readM4ABoxHeader_def Let_def)
qed

lemma m4a_skip: "skipM4ABoxPayload (payload @ rest) (int (length payload)) = (True, rest)"
  by (simp add: skipM4ABoxPayload_def m4aBoxExtendsToEOF_def copy_discard_def)

definition mvhd_result :: "string \<Rightarrow> int option outcome" where
  "mvhd_result payload = bindO (parseM4AMvhdPayload payload) (\<lambda>duration. Ok (Some duration))"

abbreviation sized_boxes :: "(box_size \<times> string \<times> string) list \<Rightarrow> string" where
  "sized_boxes boxes \<equiv> concat (List.map sized_box boxes)"

lemma findInMoov_boxes:
  assumes "\<forall>b \<in> set boxes. m4a_fits b \<and> fst (snd b) \<noteq> ''mvhd''"
    and "m4a_fits (z, ''mvhd'', payload)" "int (length payload) \<le> max_alloc"
  shows "findM4AMvhdInMoov_loop (sized_boxes boxes @ sized_box (z, ''mvhd'', payload) @ extra) = mvhd_result payload"
  using assms(1)
proof (induction boxes)
  case Nil
  have "\<not> make_panics (int (length payload))" "int (length payload) \<noteq> m4aBoxExtendsToEOF"
    using assms(3) by (simp_all add: make_panics_def m4aBoxExtendsToEOF_def)
  then show ?case
    using sized_header[OF assms(2), of extra]
    by (subst findM4AMvhdInMoov_loop.simps) (simp add: read_full_def mvhd_result_def)
next
  case (Cons b boxes)
  obtain y ty p where b: "b = (y, ty, p)" "m4a_fits (y, ty, p)" "ty \<noteq> ''mvhd''"
    using Cons.prems by (cases b) auto
  then show ?case
    using Cons sized_header[OF b(2)] m4a_skip
    by (subst findM4AMvhdInMoov_loop.simps) simp
qed

text \<open>A moov box fits when its size does, or when it is left open and nothing follows.\<close>

definition moov_fits :: "box_size \<Rightarrow> string \<Rightarrow> string \<Rightarrow> bool" where
  "moov_fits z moov rest \<longleftrightarrow> m4a_fits (z, ''moov'', moov) \<or> z = SizeOpen \<and> rest = []"

lemma findDuration_boxes:
  assumes "\<forall>b \<in> set boxes. m4a_fits b \<and> fst (snd b) \<noteq> ''moov''" "moov_fits z moov rest"
  shows "findM4AMvhdDuration (sized_boxes boxes @ sized_box (z, ''moov'', moov) @ rest) =
    bindO (findM4AMvhdInMoov_loop moov) (\<lambda>found. case found of None \<Rightarrow> Err ErrMalformed | Some d \<Rightarrow> Ok d)"
  using assms(1)
proof (induction boxes)
  case Nil
  consider "m4a_fits (z, ''moov'', moov)" | "z = SizeOpen" "rest = []" using assms(2) by (auto simp: moov_fits_def)
  then show ?case
  proof cases
    case 1
    then show ?thesis
      using sized_header[OF 1, of rest]
      by (subst findM4AMvhdDuration.simps) (simp add: findM4AMvhdInMoov_def m4aBoxExtendsToEOF_def)
  next
    case 2
    then show ?thesis
      using open_header[of "''moov''" moov] by (subst findM4AMvhdDuration.simps) (simp add: findM4AMvhdInMoov_def)
  qed
next
  case (Cons b boxes)
  obtain y ty p where b: "b = (y, ty, p)" "m4a_fits (y, ty, p)" "ty \<noteq> ''moov''"
    using Cons.prems by (cases b) auto
  then show ?case
    using Cons sized_header[OF b(2)] m4a_skip
    by (subst findM4AMvhdDuration.simps) simp
qed

text \<open>The payload of an mvhd box of version 0 or 1: flags and the times of creation and modification (11 or 19 bytes after the version),
  the timescale, the duration, and the rest of its fields.\<close>

definition mvhd_payload :: "bool \<Rightarrow> string \<Rightarrow> int \<Rightarrow> int \<Rightarrow> string \<Rightarrow> string" where
  "mvhd_payload long stamps timescale duration more_fields =
     (if long then CHR 0x01 # stamps @ be32 timescale @ be64 duration @ more_fields
      else CHR 0x00 # stamps @ be32 timescale @ be32 duration @ more_fields)"

lemma mvhd_payload_result:
  assumes "length stamps = (if long then 19 else 11)" "0 < timescale" "timescale < 4294967296"
    and "0 \<le> duration" "duration < (if long then 18446744073709551615 else 4294967295)"
  shows "parseM4AMvhdPayload (mvhd_payload long stamps timescale duration more_fields) = Ok (samples_duration (i64 duration) timescale)"
  using assms by (cases long) (simp_all add: mvhd_payload_def parseM4AMvhdPayload_def Let_def byte_def)

text \<open>A file: an ftyp box, any boxes but moov, moov holding any boxes but mvhd and then mvhd, and anything after it.\<close>

definition m4a_file ::
  "string \<Rightarrow> (box_size \<times> string \<times> string) list \<Rightarrow> box_size \<Rightarrow> (box_size \<times> string \<times> string) list \<Rightarrow> box_size \<times> string \<Rightarrow> string \<Rightarrow> string \<Rightarrow> string"
where
  "m4a_file ftyp boxes z children mvhd extra rest = m4a_box ''ftyp'' ftyp @ sized_boxes boxes @
     sized_box (z, ''moov'', sized_boxes children @ sized_box (fst mvhd, ''mvhd'', snd mvhd) @ extra) @ rest"

text \<open>C19: the duration of an M4A file is read from the mvhd box inside moov, whatever boxes stand before them (with 32-bit or 64-bit sizes;
  moov may also extend to the end of the file), and its size is the whole file.  The mvhd box is of version 0 or 1, with any
  flags, times and further fields, up to what can be allocated; its duration is the exact quotient of duration and timescale up to 9223372036 units, which
  is every box of version 0; beyond that the multiplication wraps around.\<close>
theorem ParseM4A_finds_mvhd:
  assumes boxes: "m4a_fits (Size32, ''ftyp'', ftyp)" "\<forall>b \<in> set boxes. m4a_fits b \<and> fst (snd b) \<noteq> ''moov''"
    and children: "\<forall>b \<in> set children. m4a_fits b \<and> fst (snd b) \<noteq> ''mvhd''"
    and moov: "moov_fits z (sized_boxes children @ sized_box (y, ''mvhd'', mvhd) @ extra) rest"
    and size: "m4a_fits (y, ''mvhd'', mvhd)" "int (length mvhd) \<le> max_alloc"
    and mvhd: "mvhd = mvhd_payload long stamps timescale duration more_fields" "length stamps = (if long then 19 else 11)"
    and "0 < timescale" "timescale < 4294967296" "0 \<le> duration" "duration < (if long then 18446744073709551615 else 4294967295)"
  shows "ParseM4A (m4a_file ftyp boxes z children (y, mvhd) extra rest) =
      Ok \<lparr>ai_Duration = samples_duration (i64 duration) timescale,
          ai_SizeBytes = int (length (m4a_file ftyp boxes z children (y, mvhd) extra rest))\<rparr> \<and>
    (duration \<le> 9223372036 \<longrightarrow> samples_duration (i64 duration) timescale = duration * 1000000000 div timescale)"
proof
  have "findM4AMvhdDuration (sized_boxes boxes @
      sized_box (z, ''moov'', sized_boxes children @ sized_box (y, ''mvhd'', mvhd) @ extra) @ rest) =
      Ok (samples_duration (i64 duration) timescale)"
    using findDuration_boxes[OF boxes(2) moov] findInMoov_boxes[OF children size, of extra]
      mvhd_payload_result[OF mvhd(2) assms(9-12), of more_fields]
    by (simp add: mvhd_result_def mvhd(1)[symmetric])
  then show "ParseM4A (m4a_file ftyp boxes z children (y, mvhd) extra rest) =
      Ok \<lparr>ai_Duration = samples_duration (i64 duration) timescale,
          ai_SizeBytes = int (length (m4a_file ftyp boxes z children (y, mvhd) extra rest))\<rparr>"
    using sized_header[OF boxes(1)] m4a_skip by (simp add: ParseM4A_def m4a_file_def sized_box_def)
  show "duration \<le> 9223372036 \<longrightarrow> samples_duration (i64 duration) timescale = duration * 1000000000 div timescale"
    using assms(9-12) by (simp add: i64_id_bounds samples_duration_eq)
qed

text \<open>C21: two malformed files crash the parser instead of failing: a FLAC file whose STREAMINFO block has fewer than 13
  bytes, and an M4A file whose mvhd box declares a 64-bit size above the address space.\<close>
theorem parsers_panic:
  assumes "length data < 13" "281474976710672 < sz" "sz < 9223372036854775808"
    and large: "large = be32 1 @ ''mvhd'' @ be32 (sz div 4294967296) @ be32 (sz mod 4294967296)"
  shows "ParseFLAC (flac_stream final data rest) = Panic \<and>
    ParseM4A (m4a_box ''ftyp'' [] @ m4a_box ''moov'' large @ rest) = Panic"
proof
  show "ParseFLAC (flac_stream final data rest) = Panic"
    using assms(1) by (simp add: ParseFLAC_stream flac_streaminfo_def)
  have "be_num (be32 (sz div 4294967296) @ be32 (sz mod 4294967296)) = sz"
    using assms(2,3) by (simp add: be_num_append)
  then have "readM4ABoxHeader large = Box ''mvhd'' (sz - 16) []"
    using assms(2,3)
    by (simp add: readM4ABoxHeader_def read_full_def large Let_def m4aBoxHeaderSize_def m4aLargeSizeFieldSize_def
        i64_id_bounds)
  then have "findM4AMvhdInMoov_loop large = Panic"
    using assms(2) by (subst findM4AMvhdInMoov_loop.simps)
      (simp add: make_panics_def max_alloc_def m4aBoxExtendsToEOF_def)
  moreover have "length large < 4294967288" by (simp add: large)
  ultimately have "findM4AMvhdDuration (m4a_box ''moov'' large @ rest) = Panic"
    using findDuration_boxes[of "[]" Size32 large rest] by (simp add: moov_fits_def m4a_fits_def sized_box_def)
  then show "ParseM4A (m4a_box ''ftyp'' [] @ m4a_box ''moov'' large @ rest) = Panic"
    using sized_header[of Size32 "''ftyp''" "[]"] m4a_skip[of "[]"]
    by (simp add: ParseM4A_def sized_box_def m4a_fits_def)
qed

theorem parsers_panic_witness:
  "ParseFLAC (flac_stream True ''short'' []) = Panic \<and>
   ParseM4A (m4a_box ''ftyp'' [] @ m4a_box ''moov''
     (be32 1 @ ''mvhd'' @ be32 (4611686018427387904 div 4294967296) @ be32 (4611686018427387904 mod 4294967296)) @ []) = Panic"
  by (rule parsers_panic[OF _ _ _ refl]) simp_all

theorem ParseM4A_finds_mvhd_witness:
  "ParseM4A (m4a_file ''M4A '' [(Size64, ''mdat'', ''abc'')] SizeOpen [(Size32, ''iods'', [])]
     (Size32, mvhd_payload False ''aaabbbbcccc'' 1000 2500 ''volume'') [] []) = Ok \<lparr>ai_Duration = 2500000000, ai_SizeBytes = 81\<rparr> \<and>
   ParseM4A (m4a_file ''M4A '' [] Size64 []
     (Size32, mvhd_payload True ''aaabbbbbbbbcccccccc'' 1000 9000000000 ''volume'') ''x'' ''mdat'') =
     Ok \<lparr>ai_Duration = 9000000000000000, ai_SizeBytes = 79\<rparr>"
proof
  have fits: "m4a_fits (Size32, ''ftyp'', ''M4A '')" "m4a_fits (Size64, ''mdat'', ''abc'')" "m4a_fits (Size32, ''iods'', [])"
    by (simp_all add: m4a_fits_def)
  let ?short = "mvhd_payload False ''aaabbbbcccc'' 1000 2500 ''volume''" and ?long = "mvhd_payload True ''aaabbbbbbbbcccccccc'' 1000 9000000000 ''volume''"
  have size: "m4a_fits (Size32, ''mvhd'', ?short)" "int (length ?short) \<le> max_alloc" "m4a_fits (Size32, ''mvhd'', ?long)" "int (length ?long) \<le> max_alloc"
    by (simp_all add: m4a_fits_def mvhd_payload_def max_alloc_def)
  have moov: "moov_fits SizeOpen (sized_boxes [(Size32, ''iods'', [])] @ sized_box (Size32, ''mvhd'', ?short) @ []) []"
    "moov_fits Size64 (sized_boxes [] @ sized_box (Size32, ''mvhd'', ?long) @ ''x'') ''mdat''"
    by (simp_all add: moov_fits_def m4a_fits_def sized_box_def m4a_box_def mvhd_payload_def)
  have boxes: "\<forall>b \<in> set [(Size64, ''mdat'', ''abc'')]. m4a_fits b \<and> fst (snd b) \<noteq> ''moov''"
    "\<forall>b \<in> set [(Size32, ''iods'', [])]. m4a_fits b \<and> fst (snd b) \<noteq> ''mvhd''"
    "\<forall>b \<in> set []. m4a_fits b \<and> fst (snd b) \<noteq> ''moov''" "\<forall>b \<in> set []. m4a_fits b \<and> fst (snd b) \<noteq> ''mvhd''"
    using fits by simp_all
  have "int (length (m4a_file ''M4A '' [(Size64, ''mdat'', ''abc'')] SizeOpen [(Size32, ''iods'', [])] (Size32, ?short) [] [])) = 81"
    "int (length (m4a_file ''M4A '' [] Size64 [] (Size32, ?long) ''x'' ''mdat'')) = 79"
    by (simp_all add: m4a_file_def sized_box_def m4a_box_def mvhd_payload_def)
  note counted = this
  show "ParseM4A (m4a_file ''M4A '' [(Size64, ''mdat'', ''abc'')] SizeOpen [(Size32, ''iods'', [])]
     (Size32, ?short) [] []) = Ok \<lparr>ai_Duration = 2500000000, ai_SizeBytes = 81\<rparr>"
    using ParseM4A_finds_mvhd[OF fits(1) boxes(1,2) moov(1) size(1,2) refl] counted(1) by simp
  show "ParseM4A (m4a_file ''M4A '' [] Size64 [] (Size32, ?long) ''x'' ''mdat'') = Ok \<lparr>ai_Duration = 9000000000000000, ai_SizeBytes = 79\<rparr>"
    using ParseM4A_finds_mvhd[OF fits(1) boxes(3,4) moov(2) size(3,4) refl] counted(2) by simp
qed

section \<open>Facts about MP3\<close>

text \<open>A decoder that yields the events \<open>es\<close> from state \<open>d\<close> and then the end of the stream, in state \<open>d'\<close>.\<close>

primrec mp3_yields :: "('d \<Rightarrow> mp3_event \<times> 'd) \<Rightarrow> mp3_event list \<Rightarrow> 'd \<Rightarrow> 'd \<Rightarrow> bool" where
  "mp3_yields dec [] d d' \<longleftrightarrow> dec d = (Mp3EOF, d')"
| "mp3_yields dec (e # es) d d' \<longleftrightarrow> e \<noteq> Mp3EOF \<and> (\<exists>d1. dec d = (e, d1) \<and> mp3_yields dec es d1 d')"

lemma mp3_loop_yields:
  "mp3_yields dec es d d' \<Longrightarrow> mp3_loop dec t first d =
     Some (foldl (\<lambda>d e. case e of Mp3Frame t \<Rightarrow> i64 (d + t) | _ \<Rightarrow> d) t es,
           first \<and> List.filter (\<lambda>e. e \<noteq> Mp3Error) es = [], d')"
proof (induction es arbitrary: d t first)
  case Nil
  then show ?case by (subst mp3_loop.simps) simp
next
  case (Cons e es)
  then obtain d1 where "dec d = (e, d1)" "mp3_yields dec es d1 d'" "e \<noteq> Mp3EOF" by auto
  then show ?case
    using Cons.IH[of d1] by (subst mp3_loop.simps) (cases e; simp)
qed

definition only_fails :: "'d set \<Rightarrow> ('d \<Rightarrow> mp3_event \<times> 'd) \<Rightarrow> bool" where
  "only_fails S dec \<longleftrightarrow> (\<forall>d \<in> S. \<exists>d' \<in> S. dec d = (Mp3Error, d'))"

lemma only_failsD: "only_fails S dec \<Longrightarrow> d \<in> S \<Longrightarrow> dec d = (e, d') \<Longrightarrow> e = Mp3Error \<and> d' \<in> S"
  by (auto simp: only_fails_def)

lemma mp3_loop_stuck: "mp3_loop dec t first d = Some r \<Longrightarrow> only_fails S dec \<longrightarrow> d \<notin> S"
  by (rule mp3_loop.raw_induct[of "\<lambda>dec _ _ d _. only_fails S dec \<longrightarrow> d \<notin> S"])
    (auto split: prod.splits mp3_event.splits, (frule (2) only_failsD, blast)+)

text \<open>C20: parsing an MP3 stream adds up the frames that decode and skips the ones that do not, and succeeds when there is one;
  but it returns only when the decoder reaches the end of the stream: a decoder that keeps failing, as on
  a broken connection, keeps it busy for ever.\<close>
theorem ParseMP3_result:
  "(mp3_yields dec es d d' \<longrightarrow> ParseMP3 dec consumed d =
      Some (if List.filter (\<lambda>e. e \<noteq> Mp3Error) es = [] then Err ErrMalformed
            else Ok \<lparr>ai_Duration = foldl (\<lambda>d e. case e of Mp3Frame t \<Rightarrow> i64 (d + t) | _ \<Rightarrow> d) 0 es,
                     ai_SizeBytes = consumed d'\<rparr>)) \<and>
   (d \<in> S \<longrightarrow> (\<forall>d \<in> S. \<exists>d' \<in> S. dec d = (Mp3Error, d')) \<longrightarrow> ParseMP3 dec consumed d = None)"
proof (intro conjI impI)
  assume "d \<in> S" "\<forall>d \<in> S. \<exists>d' \<in> S. dec d = (Mp3Error, d')"
  then have "mp3_loop dec 0 True d = None"
    using mp3_loop_stuck[of dec 0 True d _ S] by (cases "mp3_loop dec 0 True d") (auto simp: only_fails_def)
  then show "ParseMP3 dec consumed d = None" by (simp add: ParseMP3_def)
qed (simp add: ParseMP3_def mp3_loop_yields)

theorem ParseMP3_result_witness:
  "ParseMP3 (\<lambda>d. (if d = 0 then Mp3EOF else Mp3Frame 26, d - 1 :: nat)) int 2 = Some (Ok \<lparr>ai_Duration = 52, ai_SizeBytes = 0\<rparr>) \<and>
   ParseMP3 (\<lambda>d. (Mp3Error, d + 1 :: nat)) int 0 = None"
proof
  show "ParseMP3 (\<lambda>d. (if d = 0 then Mp3EOF else Mp3Frame 26, d - 1 :: nat)) int 2 = Some (Ok \<lparr>ai_Duration = 52, ai_SizeBytes = 0\<rparr>)"
    using ParseMP3_result[of "\<lambda>d. (if d = 0 then Mp3EOF else Mp3Frame 26, d - 1 :: nat)" "[Mp3Frame 26, Mp3Frame 26]" 2 0 int]
    by (simp add: i64_def)
  show "ParseMP3 (\<lambda>d. (Mp3Error, d + 1 :: nat)) int 0 = None"
    using ParseMP3_result[of "\<lambda>d. (Mp3Error, d + 1 :: nat)" "[]" 0 0 int UNIV] by simp
qed

text \<open>The result for a stored file is the parser's on any decoder that yields its events and has then read it all.\<close>

lemma mp3_events_result_eq:
  "mp3_yields dec es d d' \<Longrightarrow> consumed d' = int (length content) \<Longrightarrow>
   ParseMP3 dec consumed d = Some (mp3_events_result es content)"
  by (simp add: ParseMP3_def mp3_events_result_def mp3_loop_yields)

end
