(* ===== verification/ContentStore.thy ===== *)
theory ContentStore
  imports LocalStorage
begin

text \<open>
  Where the bytes of files live (internal/storage/file_storage_providers): the local disk (local_content.go) and
  the remote storages, behind one interface (\<open>ContentStorage\<close>), and the registry that finds the provider of a storage id,
  builds it from the stored configuration and caches it (registry.go).

  The operations of the remote providers are reached through a table (\<open>remote_lib\<close>), as the registry reaches them through the interface; theory RemoteContent
  fills it with those of S3 and WebDAV.  The locale \<open>content_storage\<close> is the interface: what each operation
  promises about the content at a location.  It is interpreted for the local disk; theory RemoteContent shows it for S3.  It does not hold of the others
  without more: a WebDAV server deletes or overwrites a collection with all it contains, and Google Drive knows files by ids and may hold several of one name.
\<close>

section \<open>The interface\<close>

locale content_storage =
  fixes put :: "string \<Rightarrow> string \<Rightarrow> ('s, unit) prog"
    and get :: "string \<Rightarrow> ('s, string) prog"
    and copy :: "string \<Rightarrow> string \<Rightarrow> ('s, unit) prog"
    and del :: "string \<Rightarrow> ('s, unit) prog"
    and key :: "string \<Rightarrow> 'l"
    and view :: "'s \<Rightarrow> 'l \<Rightarrow> string option"
    and rest :: "'s \<Rightarrow> 'd"
  assumes put_Ok: "put p c s = (Ok (), s') \<Longrightarrow> view s' (key p) = Some c"
    and put_only: "put p c s = (r, s') \<Longrightarrow> rest s' = rest s \<and> (\<forall>l. l \<noteq> key p \<longrightarrow> view s' l = view s l)"
    and get_Ok: "get p s = (Ok c, s') \<Longrightarrow> view s (key p) = Some c"
    and get_only: "get p s = (rg, s') \<Longrightarrow> rest s' = rest s \<and> view s' = view s"
    and copy_Ok: "copy p q s = (Ok (), s') \<Longrightarrow> view s (key p) \<noteq> None \<and> view s' (key q) = view s (key p)"
    and copy_only: "copy p q s = (r, s') \<Longrightarrow> rest s' = rest s \<and> (\<forall>l. l \<noteq> key q \<longrightarrow> view s' l = view s l)"
    and del_Ok: "del p s = (Ok (), s') \<Longrightarrow> view s' (key p) = None"
    and del_only: "del p s = (r, s') \<Longrightarrow> rest s' = rest s \<and> (\<forall>l. l \<noteq> key p \<longrightarrow> view s' l = view s l)"
begin

lemma only_here:
  "put p c s = (r, s') \<Longrightarrow> rest s' = rest s" "get p s = (rg, s') \<Longrightarrow> rest s' = rest s"
  "copy p q s = (r, s') \<Longrightarrow> rest s' = rest s" "del p s = (r, s') \<Longrightarrow> rest s' = rest s"
  using put_only get_only copy_only del_only by blast+

text \<open>What is read after a write, a copy or a deletion.\<close>

lemma get_after_put: "put p c s = (Ok (), s1) \<Longrightarrow> get p s1 = (Ok c', s2) \<Longrightarrow> c' = c"
  using put_Ok get_Ok by fastforce

lemma get_after_copy: "copy p q s = (Ok (), s1) \<Longrightarrow> get q s1 = (Ok c', s2) \<Longrightarrow> view s (key p) = Some c'"
  using copy_Ok get_Ok by fastforce

lemma no_get_after_del: "del p s = (Ok (), s1) \<Longrightarrow> get p s1 \<noteq> (Ok c, s2)"
  using del_Ok get_Ok by fastforce

text \<open>Copy, then delete the source: the content is at the target unless that is the source.\<close>

lemma moved:
  assumes "copy p q s = (Ok (), s1)" "del p s1 = (r, s2)" "key p \<noteq> key q"
  shows "view s2 (key q) = view s (key p) \<and> view s (key p) \<noteq> None"
  using assms copy_Ok del_only by metis

lemma copied_onto_itself:
  assumes "copy p q s = (Ok (), s1)" "del p s1 = (Ok (), s2)" "key p = key q"
  shows "view s2 (key q) = None"
  using del_Ok[OF assms(2)] assms(3) by simp

end

section \<open>The providers\<close>

datatype provider =
    LocalProvider
  | S3Provider S3Config
  | WebdavProvider WebdavConfig
  | DriveProvider GoogleDriveConfig

record ('r, 'l) remote_lib =
  rl_New :: "provider \<Rightarrow> unit outcome"
  rl_Put :: "provider \<Rightarrow> string \<Rightarrow> string \<Rightarrow> ('r, unit) prog"
  rl_Get :: "provider \<Rightarrow> string \<Rightarrow> ('r, string) prog"
  rl_Copy :: "provider \<Rightarrow> string \<Rightarrow> string \<Rightarrow> ('r, unit) prog"
  rl_Delete :: "provider \<Rightarrow> string \<Rightarrow> ('r, unit) prog"
  rl_Probe :: "provider \<Rightarrow> string \<Rightarrow> ('r, unit) prog"
  rl_Key :: "provider \<Rightarrow> string \<Rightarrow> 'l"
  rl_View :: "'r \<Rightarrow> 'l \<Rightarrow> string option"

text \<open>A provider's operations keep the contract.\<close>

definition keeps_contract :: "('r, 'l) remote_lib \<Rightarrow> provider \<Rightarrow> bool" where
  "keeps_contract L p \<longleftrightarrow>
     content_storage (rl_Put L p) (rl_Get L p) (rl_Copy L p) (rl_Delete L p) (rl_Key L p) (rl_View L) (\<lambda>_. ())"

text \<open>The memory: the disk, the remote services, the registry's cache.\<close>

record 'r storemem = diskmem +
  w_remote :: 'r
  w_cache :: "(uuid \<times> provider) list"

type_synonym ('r, 'a) storeprog = "((database, 'r storemem) st, 'a) prog"

record ('r, 'l) store_env =
  se_root :: string
  se_lib :: "('r, 'l) remote_lib"
  se_crypto :: crypto
  se_secretsKey :: string
  se_uuid_String :: "uuid \<Rightarrow> string"
  se_uuid_Parse :: "string \<Rightarrow> uuid option"

definition on_remote :: "('r, 'a) prog \<Rightarrow> ('r, 'a) storeprog" where
  "on_remote f = iocall (\<lambda>m. case f (w_remote m) of (r, x) \<Rightarrow> (r, m\<lparr>w_remote := x\<rparr>))"

section \<open>The local provider\<close>

text \<open>Writing is one step here; theory AtomicCopy has the steps it is made of.\<close>

definition local_Put :: "string \<Rightarrow> string \<Rightarrow> string \<Rightarrow> ('z, unit) diskprog" where
  "local_Put root filePath content = os_write (path_Join [root, filePath]) content"

definition local_Get :: "string \<Rightarrow> string \<Rightarrow> ('z, string) diskprog" where
  "local_Get root filePath = os_open (path_Join [root, filePath])"

definition local_Copy :: "string \<Rightarrow> string \<Rightarrow> string \<Rightarrow> ('z, unit) diskprog" where
  "local_Copy root fromPath toPath = copy_atomically (path_Join [root, fromPath]) (path_Join [root, toPath])"

definition local_Delete :: "string \<Rightarrow> string \<Rightarrow> ('z, unit) diskprog" where
  "local_Delete root filePath = os_remove_if_exists (path_Join [root, filePath])"

text \<open>Write, read and delete a probe file; a failed deletion is retried once (\<open>removeTempFile\<close>) and its outcome ignored.
  The token of its name is random.\<close>

definition deleteProbe :: "string \<Rightarrow> string \<Rightarrow> ('z, unit) diskprog" where
  "deleteProbe root probePath =
     bindM (tryM (local_Delete root probePath)) (\<lambda>r. case r of
       Inr _ \<Rightarrow> returnM ()
     | Inl _ \<Rightarrow> bindM (tryM (os_remove (path_Join [root, probePath]))) (\<lambda>_. returnM ()))"

definition local_Probe :: "string \<Rightarrow> string \<Rightarrow> ('z, unit) diskprog" where
  "local_Probe root token =
     (let probePath = ''.probe-'' @ token in
      bindM (local_Put root probePath ''probe'') (\<lambda>_.
      bindM (tryM (local_Get root probePath)) (\<lambda>r.
      bindM (deleteProbe root probePath) (\<lambda>_.
      case r of Inl e \<Rightarrow> throwM e | Inr _ \<Rightarrow> returnM ()))))"

section \<open>One interface for all of them\<close>

definition cs_Put :: "('r, 'l) store_env \<Rightarrow> provider \<Rightarrow> string \<Rightarrow> string \<Rightarrow> ('r, unit) storeprog" where
  "cs_Put env p path c = (if p = LocalProvider then local_Put (se_root env) path c else on_remote (rl_Put (se_lib env) p path c))"

definition cs_Get :: "('r, 'l) store_env \<Rightarrow> provider \<Rightarrow> string \<Rightarrow> ('r, string) storeprog" where
  "cs_Get env p path = (if p = LocalProvider then local_Get (se_root env) path else on_remote (rl_Get (se_lib env) p path))"

definition cs_Copy :: "('r, 'l) store_env \<Rightarrow> provider \<Rightarrow> string \<Rightarrow> string \<Rightarrow> ('r, unit) storeprog" where
  "cs_Copy env p path path' =
     (if p = LocalProvider then local_Copy (se_root env) path path' else on_remote (rl_Copy (se_lib env) p path path'))"

definition cs_Delete :: "('r, 'l) store_env \<Rightarrow> provider \<Rightarrow> string \<Rightarrow> ('r, unit) storeprog" where
  "cs_Delete env p path =
     (if p = LocalProvider then local_Delete (se_root env) path else on_remote (rl_Delete (se_lib env) p path))"

definition cs_Probe :: "('r, 'l) store_env \<Rightarrow> string \<Rightarrow> provider \<Rightarrow> ('r, unit) storeprog" where
  "cs_Probe env token p = (if p = LocalProvider then local_Probe (se_root env) token else on_remote (rl_Probe (se_lib env) p token))"

text \<open>The location a path has in a provider, and the content there.\<close>

definition loc :: "('r, 'l) store_env \<Rightarrow> provider \<Rightarrow> string \<Rightarrow> string + 'l" where
  "loc env p path = (if p = LocalProvider then Inl (path_Join [se_root env, path]) else Inr (rl_Key (se_lib env) p path))"

definition content_at ::
  "('r, 'l) store_env \<Rightarrow> (database, 'r storemem) st \<Rightarrow> (string + 'l) \<Rightarrow> string option" where
  "content_at env s l =
     (case l of Inl path \<Rightarrow> map_of (w_disk (mem s)) path | Inr x \<Rightarrow> rl_View (se_lib env) (w_remote (mem s)) x)"

definition kept :: "(database, 'r storemem) st \<Rightarrow> database \<times> (uuid \<times> provider) list" where
  "kept s = (dbase s, w_cache (mem s))"

section \<open>The local disk keeps the contract\<close>

definition disk_rest :: "(database, 'z diskmem_scheme) st \<Rightarrow> database \<times> 'z" where
  "disk_rest s = (dbase s, diskmem.more (mem s))"

lemma on_disk_run:
  assumes "on_disk f s = (r, s')"
  shows "disk_rest s' = disk_rest s \<and>
    (r = Err ErrStorageFailure \<and> w_disk (mem s') = w_disk (mem s) \<or>
     r = fst (f (w_disk (mem s))) \<and> w_disk (mem s') = snd (f (w_disk (mem s))))"
  using assms by (auto simp: on_disk_def iocall_def Let_def disk_rest_def split: if_splits prod.splits)

lemma on_disk_rest: "on_disk f s = (r, s') \<Longrightarrow> disk_rest s' = disk_rest s"
  using on_disk_run by blast

interpretation local_content: content_storage "local_Put root" "local_Get root" "local_Copy root" "local_Delete root"
  "\<lambda>p. path_Join [root, p]" "\<lambda>s l. map_of (w_disk (mem s)) l" disk_rest
  for root
  unfolding local_Put_def local_Get_def local_Copy_def local_Delete_def os_write_def os_open_def os_copy_def
    copy_atomically_def os_remove_if_exists_def
  by unfold_locales
    (auto dest!: on_disk_run simp: update_conv' delete_conv' split: option.splits)

section \<open>So does every provider\<close>

lemma on_remote_run:
  assumes "on_remote f s = (r, s')"
  shows "dbase s' = dbase s \<and> w_disk (mem s') = w_disk (mem s) \<and> w_cache (mem s') = w_cache (mem s) \<and>
    (r = Err ErrStorageFailure \<and> w_remote (mem s') = w_remote (mem s) \<or>
     f (w_remote (mem s)) = (r, w_remote (mem s')))"
  using assms by (auto simp: on_remote_def iocall_def Let_def split: if_splits prod.splits)

lemma disk_rest_more: "disk_rest s' = disk_rest s \<Longrightarrow>
  kept s' = kept s \<and> w_remote (mem (s' :: (database, 'r storemem) st)) = w_remote (mem s)"
  by (cases "mem s"; cases "mem s'") (auto simp: disk_rest_def kept_def)

lemma content_at_simps [simp]:
  "content_at env s (Inl path) = map_of (w_disk (mem s)) path"
  "content_at env s (Inr x) = rl_View (se_lib env) (w_remote (mem s)) x"
  by (simp_all add: content_at_def)

lemma content_at_remote_eq: "dbase s' = dbase s \<and> w_disk (mem s') = w_disk (mem s) \<and> w_cache (mem s') = w_cache (mem s) \<Longrightarrow>
  kept s' = kept s \<and> (\<forall>path. content_at env s' (Inl path) = content_at env s (Inl path))"
  by (simp add: kept_def)

text \<open>The local disk, seen from the whole memory.\<close>

lemma local_provider: "content_storage (cs_Put env LocalProvider) (cs_Get env LocalProvider) (cs_Copy env LocalProvider)
  (cs_Delete env LocalProvider) (loc env LocalProvider) (content_at env) kept"
proof
  fix p q c l r rg and s s' :: "(database, 'a storemem) st"
  note cs = cs_Put_def cs_Get_def cs_Copy_def cs_Delete_def loc_def
  show "cs_Put env LocalProvider p c s = (Ok (), s') \<Longrightarrow> content_at env s' (loc env LocalProvider p) = Some c"
    using local_content.put_Ok by (simp add: cs)
  show "cs_Put env LocalProvider p c s = (r, s') \<Longrightarrow>
      kept s' = kept s \<and> (\<forall>l. l \<noteq> loc env LocalProvider p \<longrightarrow> content_at env s' l = content_at env s l)"
    using local_content.put_only[of "se_root env" p c s r s'] disk_rest_more[of s' s] by (auto simp: cs content_at_def split: sum.split)
  show "cs_Get env LocalProvider p s = (Ok c, s') \<Longrightarrow> content_at env s (loc env LocalProvider p) = Some c"
    using local_content.get_Ok by (simp add: cs)
  show "cs_Get env LocalProvider p s = (rg, s') \<Longrightarrow> kept s' = kept s \<and> content_at env s' = content_at env s"
    using local_content.get_only[of "se_root env" p s rg s'] disk_rest_more[of s' s]
    by (auto simp: cs content_at_def fun_eq_iff split: sum.split)
  show "cs_Copy env LocalProvider p q s = (Ok (), s') \<Longrightarrow> content_at env s (loc env LocalProvider p) \<noteq> None \<and>
      content_at env s' (loc env LocalProvider q) = content_at env s (loc env LocalProvider p)"
    using local_content.copy_Ok[of "se_root env" p q s s'] by (simp add: cs)
  show "cs_Copy env LocalProvider p q s = (r, s') \<Longrightarrow>
      kept s' = kept s \<and> (\<forall>l. l \<noteq> loc env LocalProvider q \<longrightarrow> content_at env s' l = content_at env s l)"
    using local_content.copy_only[of "se_root env" p q s r s'] disk_rest_more[of s' s] by (auto simp: cs content_at_def split: sum.split)
  show "cs_Delete env LocalProvider p s = (Ok (), s') \<Longrightarrow> content_at env s' (loc env LocalProvider p) = None"
    using local_content.del_Ok by (simp add: cs)
  show "cs_Delete env LocalProvider p s = (r, s') \<Longrightarrow>
      kept s' = kept s \<and> (\<forall>l. l \<noteq> loc env LocalProvider p \<longrightarrow> content_at env s' l = content_at env s l)"
    using local_content.del_only[of "se_root env" p s r s'] disk_rest_more[of s' s] by (auto simp: cs content_at_def split: sum.split)
qed

lemma remote_provider:
  assumes laws: "keeps_contract (se_lib env) p" and p: "p \<noteq> LocalProvider"
  shows "content_storage (cs_Put env p) (cs_Get env p) (cs_Copy env p) (cs_Delete env p) (loc env p) (content_at env) kept"
proof -
  have r: "content_storage (rl_Put (se_lib env) p) (rl_Get (se_lib env) p) (rl_Copy (se_lib env) p)
      (rl_Delete (se_lib env) p) (rl_Key (se_lib env) p) (rl_View (se_lib env)) (\<lambda>_. ())"
    using laws by (simp add: keeps_contract_def)
  note oks = content_storage.put_Ok[OF r] content_storage.get_Ok[OF r] content_storage.copy_Ok[OF r]
    content_storage.del_Ok[OF r]
  note onlys = content_storage.put_only[OF r] content_storage.get_only[OF r] content_storage.copy_only[OF r]
    content_storage.del_only[OF r]
  show ?thesis
    unfolding cs_Put_def cs_Get_def cs_Copy_def cs_Delete_def loc_def if_not_P[OF p]
    by unfold_locales
      (auto dest!: on_remote_run dest: oks onlys simp: kept_def content_at_def fun_eq_iff split: sum.splits)
qed

definition reliable :: "('r, 'l) store_env \<Rightarrow> provider \<Rightarrow> bool" where
  "reliable env p \<longleftrightarrow> p = LocalProvider \<or> keeps_contract (se_lib env) p"

lemma provider_storage:
  "reliable env p \<Longrightarrow>
    content_storage (cs_Put env p) (cs_Get env p) (cs_Copy env p) (cs_Delete env p) (loc env p) (content_at env) kept"
  using local_provider remote_provider unfolding reliable_def by (cases "p = LocalProvider") auto

end
