(* ===== verification/Registry.thy ===== *)
theory Registry
  imports ContentStore
begin

text \<open>
  The registry of storage providers (internal/storage/file_storage_providers/registry.go): a storage id gives the
  provider built from the decrypted configuration of its row, cached until the row changes.

  Facts: as long as whoever changes a row invalidates its entry, the cache is invisible: a lookup gives what building from the
  current row gives.  Transferring a file copies its content and touches nothing else.
\<close>

definition Registry_construct :: "('r, 'l) store_env \<Rightarrow> StorageKind \<Rightarrow> StorageConfig \<Rightarrow> provider outcome" where
  "Registry_construct env kind cfg =
     (case kind of
        StorageKindS3 \<Rightarrow> (case cfg_S3 cfg of None \<Rightarrow> Err ErrStorageInvalidConfig
          | Some c \<Rightarrow> bindO (rl_New (se_lib env) (S3Provider c)) (\<lambda>_. Ok (S3Provider c)))
      | StorageKindWebdav \<Rightarrow> (case cfg_Webdav cfg of None \<Rightarrow> Err ErrStorageInvalidConfig
          | Some c \<Rightarrow> bindO (rl_New (se_lib env) (WebdavProvider c)) (\<lambda>_. Ok (WebdavProvider c)))
      | StorageKindGoogleDrive \<Rightarrow> (case cfg_GoogleDrive cfg of None \<Rightarrow> Err ErrStorageInvalidConfig
          | Some c \<Rightarrow> bindO (rl_New (se_lib env) (DriveProvider c)) (\<lambda>_. Ok (DriveProvider c)))
      | StorageKindLocal \<Rightarrow> Err ErrStorageInvalidConfig)"

definition cached_provider :: "uuid \<Rightarrow> ('r, provider option) storeprog" where
  "cached_provider i = get_mem (\<lambda>m. map_of (w_cache m) i)"

text \<open>Building does not hold the lock until it enters the provider; an entry made meanwhile wins.\<close>

definition Registry_build :: "('r, 'l) store_env \<Rightarrow> StorageRow \<Rightarrow> ('r, provider) storeprog" where
  "Registry_build env row =
     bindM (liftO (Decode (se_crypto env) (se_secretsKey env) (sr_ConfigEnc row))) (\<lambda>cfg.
     bindM (liftO (Registry_construct env (sr_Kind row) cfg)) (\<lambda>content.
     bindM (cached_provider (sr_Uuid row)) (\<lambda>existing. case existing of
       Some p \<Rightarrow> returnM p
     | None \<Rightarrow>
         bindM (put_mem (\<lambda>m. m\<lparr>w_cache := AList.update (sr_Uuid row) content (w_cache m)\<rparr>)) (\<lambda>_.
         returnM content))))"

definition Registry_Get :: "('r, 'l) store_env \<Rightarrow> uuid \<Rightarrow> ('r, provider) storeprog" where
  "Registry_Get env storageId =
     (if storageId = LocalStorageUuid then returnM LocalProvider
      else
        bindM (cached_provider storageId) (\<lambda>cached. case cached of
          Some p \<Rightarrow> returnM p
        | None \<Rightarrow>
            bindM (ST_Get storageId) (\<lambda>row. case row of
              None \<Rightarrow> throwM ErrStorageNotFound
            | Some r \<Rightarrow> Registry_build env r)))"

definition Registry_Default :: "('r, 'l) store_env \<Rightarrow> ('r, uuid \<times> provider) storeprog" where
  "Registry_Default env =
     bindM ST_GetDefault (\<lambda>row.
     bindM (Registry_Get env (sr_Uuid row)) (\<lambda>content.
     returnM (sr_Uuid row, content)))"

definition Registry_Invalidate :: "uuid \<Rightarrow> ('r, unit) storeprog" where
  "Registry_Invalidate storageId = put_mem (\<lambda>m. m\<lparr>w_cache := AList.delete storageId (w_cache m)\<rparr>)"

definition Registry_Transfer ::
  "('r, 'l) store_env \<Rightarrow> uuid \<Rightarrow> string \<Rightarrow> uuid \<Rightarrow> string \<Rightarrow> ('r, unit) storeprog" where
  "Registry_Transfer env fromId fromPath toId toPath =
     bindM (Registry_Get env fromId) (\<lambda>src.
     if fromId = toId then cs_Copy env src fromPath toPath
     else
       bindM (Registry_Get env toId) (\<lambda>dst.
       bindM (cs_Get env src fromPath) (\<lambda>content. cs_Put env dst toPath content)))"

section \<open>The cache is invisible\<close>

text \<open>What building from a row gives, and from the row of an id.\<close>

definition built_from :: "('r, 'l) store_env \<Rightarrow> StorageRow \<Rightarrow> provider outcome" where
  "built_from env row =
     bindO (Decode (se_crypto env) (se_secretsKey env) (sr_ConfigEnc row)) (Registry_construct env (sr_Kind row))"

definition provider_of :: "('r, 'l) store_env \<Rightarrow> database \<Rightarrow> uuid \<Rightarrow> provider outcome" where
  "provider_of env d i =
     (if i = LocalStorageUuid then Ok LocalProvider
      else (case st_Get i (db_storages d) of None \<Rightarrow> Err ErrStorageNotFound | Some r \<Rightarrow> built_from env r))"

definition cache_ok :: "('r, 'l) store_env \<Rightarrow> (database, 'r storemem) st \<Rightarrow> bool" where
  "cache_ok env s \<longleftrightarrow>
     (\<forall>i p. i \<noteq> LocalStorageUuid \<longrightarrow> map_of (w_cache (mem s)) i = Some p \<longrightarrow> provider_of env (dbase s) i = Ok p)"

text \<open>A lookup touches only the cache.\<close>

definition same_world :: "(database, 'r storemem) st \<Rightarrow> (database, 'r storemem) st \<Rightarrow> bool" where
  "same_world s s' \<longleftrightarrow> dbase s' = dbase s \<and> w_disk (mem s') = w_disk (mem s) \<and> w_remote (mem s') = w_remote (mem s)"

lemma same_world_refl [simp]: "same_world s s"
  by (simp add: same_world_def)

lemma same_world_trans: "same_world s t \<Longrightarrow> same_world t u \<Longrightarrow> same_world s u"
  by (simp add: same_world_def)

lemma same_world_content: "same_world s s' \<Longrightarrow> content_at env s' = content_at env s"
  by (auto simp: same_world_def content_at_def fun_eq_iff split: sum.split)

lemma cached_provider_run [simp]: "cached_provider i s = (Ok (map_of (w_cache (mem s)) i), s)"
  by (simp add: cached_provider_def get_mem_def)

lemma cache_okD:
  "cache_ok env s \<Longrightarrow> i \<noteq> LocalStorageUuid \<Longrightarrow> map_of (w_cache (mem s)) i = Some p \<Longrightarrow>
   provider_of env (dbase s) i = Ok p"
  by (simp add: cache_ok_def)

lemma cache_ok_enter:
  assumes "cache_ok env s" "provider_of env (dbase s) i = Ok p"
  shows "cache_ok env (s\<lparr>mem := (mem s)\<lparr>w_cache := AList.update i p (w_cache (mem s))\<rparr>\<rparr>)"
  using assms by (auto simp: cache_ok_def update_conv')

lemma Registry_build_run:
  assumes run: "Registry_build env row s = (r, s')" and ok: "cache_ok env s"
    and row: "st_Get (sr_Uuid row) (db_storages (dbase s)) = Some row" "sr_Uuid row \<noteq> LocalStorageUuid"
    and free: "map_of (w_cache (mem s)) (sr_Uuid row) = None"
  shows "r = built_from env row \<and> same_world s s' \<and> cache_ok env s'"
proof (cases "built_from env row")
  case (Ok p)
  then obtain cfg where cfg: "Decode (se_crypto env) (se_secretsKey env) (sr_ConfigEnc row) = Ok cfg"
      "Registry_construct env (sr_Kind row) cfg = Ok p"
    by (auto simp: built_from_def bindO_eq_Ok)
  have "provider_of env (dbase s) (sr_Uuid row) = Ok p" using row Ok by (simp add: provider_of_def)
  then show ?thesis
    using run free cfg Ok cache_ok_enter[OF ok, of "sr_Uuid row" p]
    by (auto simp: Registry_build_def prog_simps put_mem_def same_world_def)
qed (use run ok in \<open>auto simp: Registry_build_def prog_simps built_from_def bindO_def split: outcome.splits\<close>)

lemma ST_Get_run:
  "ST_Get i s = (r, s') \<Longrightarrow> mem s' = mem s \<and> dbase s' = dbase s \<and>
     (r = Err ErrStorageFailure \<or> r = Ok (st_Get i (db_storages (dbase s))))"
  by (auto simp: ST_Get_def query_cases)

lemma cache_ok_cong: "mem s' = mem s \<Longrightarrow> dbase s' = dbase s \<Longrightarrow> cache_ok env s' = cache_ok env s"
  by (simp add: cache_ok_def)

lemma Registry_Get_run:
  assumes run: "Registry_Get env i s = (r, s')" and ok: "cache_ok env s"
  shows "(r = provider_of env (dbase s) i \<or> r = Err ErrStorageFailure) \<and> same_world s s' \<and> cache_ok env s'"
proof (cases "i = LocalStorageUuid \<or> map_of (w_cache (mem s)) i \<noteq> None")
  case True
  then show ?thesis
    using run ok cache_okD[OF ok, of i]
    by (cases "i = LocalStorageUuid") (auto simp: Registry_Get_def provider_of_def prog_simps)
next
  case False
  obtain q s1 where get: "ST_Get i s = (q, s1)" by (cases "ST_Get i s")
  note s1 = ST_Get_run[OF get]
  have ok1: "cache_ok env s1" using ok s1 cache_ok_cong by blast
  show ?thesis
  proof (cases "q = Err ErrStorageFailure")
    case True
    then show ?thesis using run False get s1 ok1 by (auto simp: Registry_Get_def prog_simps same_world_def)
  next
    case found: False
    then have q: "q = Ok (st_Get i (db_storages (dbase s)))" using s1 by blast
    show ?thesis
    proof (cases "st_Get i (db_storages (dbase s))")
      case None
      then show ?thesis
        using run False get s1 ok1 q by (auto simp: Registry_Get_def prog_simps same_world_def provider_of_def)
    next
      case (Some row)
      then have row: "sr_Uuid row = i" using st_Get_Some by blast
      have "Registry_build env row s1 = (r, s')"
        using run False get q Some by (simp add: Registry_Get_def prog_simps)
      then show ?thesis
        using Registry_build_run[of env row s1 r s', OF _ ok1] row Some False s1
        by (auto simp: provider_of_def same_world_def)
    qed
  qed
qed

lemma Registry_Default_run:
  assumes run: "Registry_Default env s = (Ok (i, p), s')" and ok: "cache_ok env s"
  shows "(\<exists>row. st_GetDefault (db_storages (dbase s)) = Ok row \<and> sr_Uuid row = i) \<and>
    provider_of env (dbase s) i = Ok p \<and> same_world s s' \<and> cache_ok env s'"
proof -
  obtain row s1 where s1: "ST_GetDefault s = (Ok row, s1)" "Registry_Get env i s1 = (Ok p, s')" "sr_Uuid row = i"
    using run by (auto simp: Registry_Default_def bindM_eq_Ok)
  have w: "st_GetDefault (db_storages (dbase s)) = Ok row" "mem s1 = mem s" "dbase s1 = dbase s"
    using s1(1) by (auto simp: ST_GetDefault_def dbcall_cases)
  then show ?thesis
    using Registry_Get_run[OF s1(2)] ok cache_ok_cong[OF w(2,3), of env] s1(3) by (auto simp: same_world_def)
qed

text \<open>A transfer puts the content of the source location at the target location and changes no other.\<close>

lemma Registry_Transfer_run:
  assumes laws: "\<And>k pr. k \<in> {i, j} \<Longrightarrow> provider_of env (dbase s) k = Ok pr \<Longrightarrow> reliable env pr"
    and run: "Registry_Transfer env i p j q s = (Ok (), s')" and ok: "cache_ok env s"
  shows "\<exists>src dst. provider_of env (dbase s) i = Ok src \<and> provider_of env (dbase s) j = Ok dst \<and>
    content_at env s (loc env src p) \<noteq> None \<and> content_at env s' (loc env dst q) = content_at env s (loc env src p) \<and>
    (\<forall>l. l \<noteq> loc env dst q \<longrightarrow> content_at env s' l = content_at env s l) \<and> dbase s' = dbase s \<and> cache_ok env s'"
proof -
  obtain src s1 where src: "Registry_Get env i s = (Ok src, s1)"
    and rest: "(if i = j then cs_Copy env src p q
      else bindM (Registry_Get env j) (\<lambda>dst. bindM (cs_Get env src p) (\<lambda>content. cs_Put env dst q content))) s1 = (Ok (), s')"
    using run by (auto simp: Registry_Transfer_def bindM_eq_Ok)
  have w1: "provider_of env (dbase s) i = Ok src" "same_world s s1" "cache_ok env s1"
    using Registry_Get_run[OF src ok] by auto
  note c1 = same_world_content[OF w1(2), of env]
  note srcC = provider_storage[OF laws[OF _ w1(1)], simplified]
  show ?thesis
  proof (cases "i = j")
    case True
    then have copy: "cs_Copy env src p q s1 = (Ok (), s')" using rest by simp
    have "kept s' = kept s1" using content_storage.copy_only[OF srcC copy] by simp
    then have "dbase s' = dbase s" "cache_ok env s'" using w1 by (auto simp: kept_def same_world_def cache_ok_def)
    then show ?thesis
      using content_storage.copy_Ok[OF srcC copy]
        content_storage.copy_only[OF srcC copy] w1(1) True
      unfolding c1 by blast
  next
    case False
    then obtain dst s2 c s3 where dst: "Registry_Get env j s1 = (Ok dst, s2)" and get: "cs_Get env src p s2 = (Ok c, s3)"
      and put: "cs_Put env dst q c s3 = (Ok (), s')"
      using rest by (auto simp: bindM_eq_Ok)
    have w2: "provider_of env (dbase s1) j = Ok dst" "same_world s1 s2" "cache_ok env s2"
      using Registry_Get_run[OF dst w1(3)] by auto
    note c2 = same_world_content[OF w2(2), of env]
    have "provider_of env (dbase s) j = Ok dst" using w1(2) w2(1) by (simp add: same_world_def)
    then have dstC: "content_storage (cs_Put env dst) (cs_Get env dst) (cs_Copy env dst) (cs_Delete env dst) (loc env dst) (content_at env) kept"
      using laws provider_storage by blast
    have c3: "content_at env s3 = content_at env s2" "kept s3 = kept s2"
      using content_storage.get_only[OF srcC get] by auto
    have k: "kept s' = kept s3" using content_storage.put_only[OF dstC put] by simp
    have "dbase s' = dbase s" "cache_ok env s'" "dbase s1 = dbase s"
      using w1 w2 c3 k by (auto simp: kept_def same_world_def cache_ok_def)
    then show ?thesis
      using content_storage.get_Ok[OF srcC get] content_storage.put_Ok[OF dstC put]
        content_storage.put_only[OF dstC put] w1(1) w2(1) c1 c2 c3(1)
      by (intro exI[of _ src] exI[of _ dst]) auto
  qed
qed

end
