(* ===== verification/OauthState.thy ===== *)
theory OauthState
  imports FileStore GoStrings
begin

text \<open>
  The state parameter of the Google Drive consent flow (internal/service/v1/storage_oauth_state.go): a storage id and an
  expiry, signed with HMAC-SHA-256 under the hash of the secrets key, in unpadded URL-safe base64 (encoding/base64,
  \<open>RawURLEncoding\<close>).  HMAC and SHA-256 are arguments, as are the text form of a UUID and its reader.  Times are
  nanoseconds.

  Facts: a signed state is accepted until it expires and names the storage it was signed for; whatever is accepted carries the
  code of its own payload.
\<close>

section \<open>Base64\<close>

definition base64_alphabet :: string where
  "base64_alphabet = ''ABCDEFGHIJKLMNOPQRSTUVWXYZabcdefghijklmnopqrstuvwxyz0123456789-_''"

definition base64_char :: "nat \<Rightarrow> char" where
  "base64_char n = base64_alphabet ! n"

definition base64_value :: "char \<Rightarrow> nat option" where
  "base64_value c = (let n = length (takeWhile (\<lambda>x. x \<noteq> c) base64_alphabet) in if n < 64 then Some n else None)"

fun base64_digits :: "nat list \<Rightarrow> nat list" where
  "base64_digits (a # b # c # bs) =
     (a div 4) # (a mod 4 * 16 + b div 16) # (b mod 16 * 4 + c div 64) # (c mod 64) # base64_digits bs"
| "base64_digits [a, b] = [a div 4, a mod 4 * 16 + b div 16, b mod 16 * 4]"
| "base64_digits [a] = [a div 4, a mod 4 * 16]"
| "base64_digits [] = []"

definition base64_EncodeToString :: "string \<Rightarrow> string" where
  "base64_EncodeToString s = List.map base64_char (base64_digits (List.map of_char s))"

text \<open>The decoder does not look at the bits a last short group leaves over; a last group of one digit is an error.\<close>

fun base64_bytes :: "nat list \<Rightarrow> nat list option" where
  "base64_bytes (p # q # r # s # ds) =
     map_option (\<lambda>bs. (p * 4 + q div 16) # (q mod 16 * 16 + r div 4) # (r mod 4 * 64 + s) # bs) (base64_bytes ds)"
| "base64_bytes [p, q, r] = Some [p * 4 + q div 16, q mod 16 * 16 + r div 4]"
| "base64_bytes [p, q] = Some [p * 4 + q div 16]"
| "base64_bytes [p] = None"
| "base64_bytes [] = Some []"

text \<open>Line breaks are skipped; any other byte outside the alphabet is an error.\<close>

definition base64_DecodeString :: "string \<Rightarrow> string option" where
  "base64_DecodeString s =
     (let cs = List.filter (\<lambda>c. of_char c \<noteq> (10 :: nat) \<and> of_char c \<noteq> (13 :: nat)) s in
      if list_all (\<lambda>c. base64_value c \<noteq> None) cs
      then map_option (List.map char_of) (base64_bytes (List.map (\<lambda>c. the (base64_value c)) cs))
      else None)"

lemma base64_value_char: "n < 64 \<Longrightarrow> base64_value (base64_char n) = Some n"
proof -
  have "list_all (\<lambda>n. base64_value (base64_char n) = Some n) [0..<64]" by code_simp
  then show "n < 64 \<Longrightarrow> base64_value (base64_char n) = Some n" by (simp add: list_all_iff)
qed

lemma base64_char_plain:
  assumes "n < 64"
  shows "of_char (base64_char n) \<noteq> (10 :: nat) \<and> of_char (base64_char n) \<noteq> (13 :: nat) \<and> base64_char n \<noteq> CHR ''.''"
proof -
  have "list_all (\<lambda>n. of_char (base64_char n) \<noteq> (10 :: nat) \<and> of_char (base64_char n) \<noteq> (13 :: nat) \<and>
    base64_char n \<noteq> CHR ''.'') [0..<64]" by code_simp
  then show ?thesis using assms by (simp add: list_all_iff)
qed

lemma high_low: "(r :: nat) < m \<Longrightarrow> (k * m + r) div m = k" "(r :: nat) < m \<Longrightarrow> (k * m + r) mod m = r"
  by simp_all

lemma div4_mod: "(a :: nat) div 4 * 4 + (a mod 4 * 16 + b div 16) div 16 = a" if "b < 256" for a b
  using that high_low(1)[of "b div 16" 16 "a mod 4"] by simp

lemma div16_mod: "((a :: nat) mod 4 * 16 + b div 16) mod 16 * 16 + (b mod 16 * 4 + c div 64) div 4 = b"
  if "b < 256" "c < 256" for a b c
  using that high_low(2)[of "b div 16" 16 "a mod 4"] high_low(1)[of "c div 64" 4 "b mod 16"] by simp

lemma div64_mod: "((b :: nat) mod 16 * 4 + c div 64) mod 4 * 64 + c mod 64 = c" if "c < 256" for b c
  using that high_low(2)[of "c div 64" 4 "b mod 16"] by simp

lemma base64_bytes_digits: "\<forall>b \<in> set bs. b < 256 \<Longrightarrow> base64_bytes (base64_digits bs) = Some bs"
proof (induction bs rule: base64_digits.induct)
  case (1 a b c bs)
  then show ?case using div4_mod[of b a] div16_mod[of b c a] div64_mod[of c b] by simp
next
  case (2 a b)
  then show ?case using div4_mod[of b a] div16_mod[of b 0 a] by simp
next
  case (3 a)
  then show ?case using div4_mod[of 0 a] by simp
qed simp

lemma base64_digits_bound: "\<forall>b \<in> set bs. b < 256 \<Longrightarrow> d \<in> set (base64_digits bs) \<Longrightarrow> d < 64"
proof (induction bs rule: base64_digits.induct)
  case (1 a b c bs)
  have "a div 4 < 64" "(a mod 4) * 16 + b div 16 < 64" "(b mod 16) * 4 + c div 64 < 64" using 1(2) by auto
  then show ?case using 1 by auto
qed auto

lemma base64_EncodeToString_chars: "c \<in> set (base64_EncodeToString s) \<Longrightarrow> \<exists>n < 64. c = base64_char n"
  using base64_digits_bound[of "List.map of_char s"] by (auto simp: base64_EncodeToString_def)

lemma base64_roundtrip: "base64_DecodeString (base64_EncodeToString s) = Some s"
proof -
  let ?ds = "base64_digits (List.map of_char s)"
  have d: "\<forall>d \<in> set ?ds. d < 64" using base64_digits_bound[of "List.map of_char s"] by auto
  have "List.filter (\<lambda>c. of_char c \<noteq> (10 :: nat) \<and> of_char c \<noteq> (13 :: nat)) (base64_EncodeToString s) = base64_EncodeToString s"
    using d base64_char_plain by (auto simp: base64_EncodeToString_def filter_id_conv)
  moreover have "list_all (\<lambda>c. base64_value c \<noteq> None) (base64_EncodeToString s)"
    using d base64_value_char by (auto simp: base64_EncodeToString_def list_all_iff)
  moreover have "List.map (\<lambda>c. the (base64_value c)) (base64_EncodeToString s) = ?ds"
    using d base64_value_char by (auto simp: base64_EncodeToString_def intro: map_idI)
  ultimately show ?thesis
    using base64_bytes_digits[of "List.map of_char s"] by (simp add: base64_DecodeString_def comp_def)
qed

section \<open>Signing and verifying\<close>

text \<open>\<open>strings.Cut\<close> at a one-byte separator.\<close>

definition strings_Cut :: "char \<Rightarrow> string \<Rightarrow> (string \<times> string) option" where
  "strings_Cut sep s =
     (let before = takeWhile (\<lambda>c. c \<noteq> sep) s in
      if length before < length s then Some (before, drop (length before + 1) s) else None)"

definition oauthStateTtl :: int where "oauthStateTtl = 600000000000"
definition oauthStatePayloadSeparator :: char where "oauthStatePayloadSeparator = CHR ''|''"
definition oauthStateSignatureSeparator :: char where "oauthStateSignatureSeparator = CHR ''.''"

text \<open>\<open>Time.Unix\<close>.\<close>

definition unix_seconds :: "int \<Rightarrow> int" where
  "unix_seconds t = t div 1000000000"

record oauth_lib =
  oa_Sha256 :: "string \<Rightarrow> string"
  oa_Hmac :: "string \<Rightarrow> string \<Rightarrow> string"
  oa_uuid_String :: "uuid \<Rightarrow> string"
  oa_uuid_Parse :: "string \<Rightarrow> uuid option"

definition oauthStateMac :: "oauth_lib \<Rightarrow> string \<Rightarrow> string \<Rightarrow> string" where
  "oauthStateMac L secretsKey payload = oa_Hmac L (oa_Sha256 L secretsKey) payload"

definition oauth_payload :: "oauth_lib \<Rightarrow> uuid \<Rightarrow> int \<Rightarrow> string" where
  "oauth_payload L storageUuid now =
     (let expiry = unix_seconds (now + oauthStateTtl)
      in oa_uuid_String L storageUuid @ oauthStatePayloadSeparator # FormatInt expiry)"

definition signOauthState :: "oauth_lib \<Rightarrow> string \<Rightarrow> uuid \<Rightarrow> int \<Rightarrow> string" where
  "signOauthState L secretsKey storageUuid now =
     (let payload = oauth_payload L storageUuid now;
          encodedPayload = base64_EncodeToString payload;
          signature = base64_EncodeToString (oauthStateMac L secretsKey payload)
      in encodedPayload @ oauthStateSignatureSeparator # signature)"

definition verifyOauthState :: "oauth_lib \<Rightarrow> string \<Rightarrow> string \<Rightarrow> int \<Rightarrow> uuid outcome" where
  "verifyOauthState L secretsKey state now =
     (case strings_Cut oauthStateSignatureSeparator state of
        None \<Rightarrow> Err ErrUnauthorized
      | Some (encodedPayload, encodedSignature) \<Rightarrow>
     (case base64_DecodeString encodedPayload of
        None \<Rightarrow> Err ErrUnauthorized
      | Some payload \<Rightarrow>
     (case base64_DecodeString encodedSignature of
        None \<Rightarrow> Err ErrUnauthorized
      | Some signature \<Rightarrow>
     if signature \<noteq> oauthStateMac L secretsKey payload then Err ErrUnauthorized
     else
     (case strings_Cut oauthStatePayloadSeparator payload of
        None \<Rightarrow> Err ErrUnauthorized
      | Some (rawUuid, rawExpiry) \<Rightarrow>
     (case ParseInt rawExpiry of
        None \<Rightarrow> Err ErrUnauthorized
      | Some expiry \<Rightarrow>
     if unix_seconds now > expiry then Err ErrUnauthorized
     else
     (case oa_uuid_Parse L rawUuid of
        None \<Rightarrow> Err ErrUnauthorized
      | Some storageUuid \<Rightarrow> Ok storageUuid))))))"

section \<open>What is accepted\<close>

text \<open>A UUID prints without the separator and is read back.\<close>

definition oauth_laws :: "oauth_lib \<Rightarrow> bool" where
  "oauth_laws L \<longleftrightarrow> (\<forall>i. oa_uuid_Parse L (oa_uuid_String L i) = Some i \<and> CHR ''|'' \<notin> set (oa_uuid_String L i))"

lemma strings_Cut_append: "sep \<notin> set a \<Longrightarrow> strings_Cut sep (a @ sep # b) = Some (a, b)"
proof -
  assume "sep \<notin> set a"
  then have "takeWhile (\<lambda>c. c \<noteq> sep) (a @ sep # b) = a" by (subst takeWhile_append2) auto
  then show ?thesis by (simp add: strings_Cut_def Let_def)
qed

text \<open>Accepting, in one condition.\<close>

lemma verifyOauthState_Ok:
  "verifyOauthState L key state now = Ok i \<longleftrightarrow>
     (\<exists>e g payload raw rawExpiry expiry. strings_Cut oauthStateSignatureSeparator state = Some (e, g) \<and>
        base64_DecodeString e = Some payload \<and> base64_DecodeString g = Some (oauthStateMac L key payload) \<and>
        strings_Cut oauthStatePayloadSeparator payload = Some (raw, rawExpiry) \<and> ParseInt rawExpiry = Some expiry \<and>
        unix_seconds now \<le> expiry \<and> oa_uuid_Parse L raw = Some i)"
  by (auto simp: verifyOauthState_def split: option.splits prod.splits if_splits)

lemma payload_cut:
  "oauth_laws L \<Longrightarrow> strings_Cut oauthStatePayloadSeparator (oauth_payload L i t) =
     Some (oa_uuid_String L i, FormatInt (unix_seconds (t + oauthStateTtl)))"
  by (simp add: oauth_payload_def Let_def oauthStatePayloadSeparator_def oauth_laws_def strings_Cut_append)

lemma sign_cut:
  "strings_Cut oauthStateSignatureSeparator (signOauthState L key i t) =
     Some (base64_EncodeToString (oauth_payload L i t), base64_EncodeToString (oauthStateMac L key (oauth_payload L i t)))"
proof -
  have "CHR ''.'' \<notin> set (base64_EncodeToString (oauth_payload L i t))"
    using base64_EncodeToString_chars[of "CHR ''.''"] base64_char_plain by metis
  then show ?thesis by (simp add: signOauthState_def Let_def oauthStateSignatureSeparator_def strings_Cut_append)
qed

text \<open>C25: The state of the Google Drive consent flow.  A state signed for a storage at time \<open>t0\<close> is accepted, and names that
  storage, exactly until the second of \<open>t0\<close> plus ten minutes has passed.  No accepted state can be made without the code of
  its payload: if a state is accepted and its signature decodes to the one the backend gave out with the state for storage \<open>i\<close> at
  time \<open>t0\<close>, and no other payload has that code, then it names storage \<open>i\<close> and is within that state's lifetime - so neither
  the id nor the expiry can be edited.\<close>
theorem oauth_state_authentic:
  assumes laws: "oauth_laws L" and range: "i64_range (unix_seconds (t0 + oauthStateTtl))"
  shows "verifyOauthState L key (signOauthState L key i t0) t =
      (if unix_seconds t \<le> unix_seconds (t0 + oauthStateTtl) then Ok i else Err ErrUnauthorized) \<and>
    (\<forall>e g j. verifyOauthState L key (e @ CHR ''.'' # g) t = Ok j \<longrightarrow> CHR ''.'' \<notin> set e \<longrightarrow>
       base64_DecodeString g = Some (oauthStateMac L key (oauth_payload L i t0)) \<longrightarrow>
       (\<forall>p. oauthStateMac L key p = oauthStateMac L key (oauth_payload L i t0) \<longrightarrow> p = oauth_payload L i t0) \<longrightarrow>
       j = i \<and> unix_seconds t \<le> unix_seconds (t0 + oauthStateTtl))"
proof (intro conjI allI impI)
  have parse: "oa_uuid_Parse L (oa_uuid_String L i) = Some i" using laws by (simp add: oauth_laws_def)
  show "verifyOauthState L key (signOauthState L key i t0) t =
      (if unix_seconds t \<le> unix_seconds (t0 + oauthStateTtl) then Ok i else Err ErrUnauthorized)"
    by (simp add: verifyOauthState_def sign_cut base64_roundtrip payload_cut[OF laws] ParseInt_FormatInt[OF range] parse)
next
  fix e g j
  assume ok: "verifyOauthState L key (e @ CHR ''.'' # g) t = Ok j" and e: "CHR ''.'' \<notin> set e"
    and g: "base64_DecodeString g = Some (oauthStateMac L key (oauth_payload L i t0))"
    and unique: "\<forall>p. oauthStateMac L key p = oauthStateMac L key (oauth_payload L i t0) \<longrightarrow> p = oauth_payload L i t0"
  have "strings_Cut oauthStateSignatureSeparator (e @ CHR ''.'' # g) = Some (e, g)"
    using e by (simp add: oauthStateSignatureSeparator_def strings_Cut_append)
  then obtain payload raw rawExpiry expiry where v: "oauthStateMac L key payload = oauthStateMac L key (oauth_payload L i t0)"
      "strings_Cut oauthStatePayloadSeparator payload = Some (raw, rawExpiry)" "ParseInt rawExpiry = Some expiry"
      "unix_seconds t \<le> expiry" "oa_uuid_Parse L raw = Some j"
    using ok g unfolding verifyOauthState_Ok by auto
  then have "payload = oauth_payload L i t0" using unique by blast
  then have "raw = oa_uuid_String L i" "expiry = unix_seconds (t0 + oauthStateTtl)"
    using v(2,3) by (auto simp: payload_cut[OF laws] ParseInt_FormatInt[OF range])
  then show "j = i" "unix_seconds t \<le> unix_seconds (t0 + oauthStateTtl)"
    using v(4,5) laws by (auto simp: oauth_laws_def)
qed

definition ex_oauth :: oauth_lib where
  "ex_oauth = \<lparr>oa_Sha256 = (\<lambda>s. s), oa_Hmac = (\<lambda>k p. rev p @ k), oa_uuid_String = (\<lambda>i. digits (unat i)),
     oa_uuid_Parse = (\<lambda>s. Some (word_of_int (digits_value s)))\<rparr>"

lemma ex_oauth_laws: "oauth_laws ex_oauth"
proof -
  have "CHR ''|'' \<notin> set (digits n)" for n
    using list_all_digits[of n] by (auto simp: list_all_iff is_digit_def)
  then show ?thesis by (simp add: oauth_laws_def ex_oauth_def digits_value_digits)
qed

theorem oauth_state_authentic_witness:
  "verifyOauthState ex_oauth ''key'' (signOauthState ex_oauth ''key'' 7 0) 600999999999 = Ok 7 \<and>
   verifyOauthState ex_oauth ''key'' (signOauthState ex_oauth ''key'' 7 0) 601000000000 = Err ErrUnauthorized \<and>
   verifyOauthState ex_oauth ''key'' (base64_EncodeToString ''8|600'' @ CHR ''.'' # base64_EncodeToString
        (oauthStateMac ex_oauth ''key'' (oauth_payload ex_oauth 7 0))) 0 \<noteq> Ok 8"
proof -
  have range: "i64_range (unix_seconds (0 + oauthStateTtl))"
    by (simp add: i64_range_def unix_seconds_def oauthStateTtl_def)
  have unique: "\<forall>p. oauthStateMac ex_oauth ''key'' p = oauthStateMac ex_oauth ''key'' (oauth_payload ex_oauth 7 0) \<longrightarrow>
    p = oauth_payload ex_oauth 7 0"
    by (simp add: oauthStateMac_def ex_oauth_def)
  have plain: "CHR ''.'' \<notin> set (base64_EncodeToString ''8|600'')"
    using base64_EncodeToString_chars[of "CHR ''.''"] base64_char_plain by metis
  note at = oauth_state_authentic[OF ex_oauth_laws range, of "''key''" 7]
  have t: "unix_seconds 600999999999 \<le> unix_seconds (0 + oauthStateTtl)" "\<not> unix_seconds 601000000000 \<le> unix_seconds (0 + oauthStateTtl)"
    by (simp_all add: unix_seconds_def oauthStateTtl_def)
  have "j = 7" if "verifyOauthState ex_oauth ''key'' (base64_EncodeToString ''8|600'' @ CHR ''.'' # base64_EncodeToString
        (oauthStateMac ex_oauth ''key'' (oauth_payload ex_oauth 7 0))) 0 = Ok j" for j
    using at[of 0] that plain base64_roundtrip unique by blast
  then show ?thesis using at[of 600999999999] at[of 601000000000] t by fastforce
qed

end
