(* ===== verification/RemoteContent.thy ===== *)
theory RemoteContent
  imports ContentStore OauthState
begin

text \<open>
  The providers for S3 (internal/storage/file_storage_providers/s3/s3.go) and WebDAV (webdav/webdav.go).  Their network is an argument:
  the calls of the S3 client (github.com/minio/minio-go) and the exchange of an HTTP request for a response.  The tokens of probe files are
  arguments; responses are read whole.  The Google Drive provider stays an argument (\<open>remote_lib\<close>): each instance holds a cache of file ids of its own.

  Facts: when the S3 calls do what they are documented to do (\<open>s3_laws\<close>), the S3 provider keeps the contract of theory ContentStore.
\<close>

section \<open>S3\<close>

record minio_client =
  mc_Host :: string
  mc_Secure :: bool
  mc_AccessKeyId :: string
  mc_SecretAccessKey :: string
  mc_Region :: string
  mc_PathStyle :: bool

text \<open>\<open>s3a_Key\<close> names the object that a client, a bucket and a path lead to, for the statements.\<close>

record ('r, 'o, 'l) s3_api =
  s3a_New :: "minio_client \<Rightarrow> unit outcome"
  s3a_PutObject :: "minio_client \<Rightarrow> string \<Rightarrow> string \<Rightarrow> string \<Rightarrow> ('r, unit) prog"
  s3a_GetObject :: "minio_client \<Rightarrow> string \<Rightarrow> string \<Rightarrow> ('r, 'o) prog"
  s3a_Stat :: "'o \<Rightarrow> ('r, unit) prog"
  s3a_Read :: "'o \<Rightarrow> ('r, string) prog"
  s3a_CopyObject :: "minio_client \<Rightarrow> string \<times> string \<Rightarrow> string \<times> string \<Rightarrow> ('r, unit) prog"
  s3a_RemoveObject :: "minio_client \<Rightarrow> string \<Rightarrow> string \<Rightarrow> ('r, unit) prog"
  s3a_Key :: "minio_client \<Rightarrow> string \<Rightarrow> string \<Rightarrow> 'l"

definition trim_right_slashes :: "string \<Rightarrow> string" where
  "trim_right_slashes s = rev (dropWhile (\<lambda>c. c = slash) (rev s))"

definition splitEndpoint :: "string \<Rightarrow> string \<times> bool" where
  "splitEndpoint endpoint =
     (let e = TrimSpace endpoint in
      if has_prefix e ''http://'' then (trim_right_slashes (drop 7 e), False)
      else if has_prefix e ''https://'' then (trim_right_slashes (drop 8 e), True)
      else (trim_right_slashes e, True))"

definition s3_client :: "S3Config \<Rightarrow> minio_client" where
  "s3_client cfg = \<lparr>mc_Host = fst (splitEndpoint (s3_Endpoint cfg)), mc_Secure = snd (splitEndpoint (s3_Endpoint cfg)),
     mc_AccessKeyId = s3_AccessKeyId cfg, mc_SecretAccessKey = s3_SecretAccessKey cfg, mc_Region = s3_Region cfg,
     mc_PathStyle = s3_IsPathStyle cfg\<rparr>"

definition s3_New :: "('r, 'o, 'l) s3_api \<Rightarrow> S3Config \<Rightarrow> unit outcome" where
  "s3_New A cfg =
     (if s3_Bucket cfg = [] then Err ErrBucketRequired
      else if fst (splitEndpoint (s3_Endpoint cfg)) = [] then Err ErrEndpointRequired
      else s3a_New A (s3_client cfg))"

definition s3_Put :: "('r, 'o, 'l) s3_api \<Rightarrow> S3Config \<Rightarrow> string \<Rightarrow> string \<Rightarrow> ('r, unit) prog" where
  "s3_Put A cfg path content = s3a_PutObject A (s3_client cfg) (s3_Bucket cfg) path content"

definition s3_Get :: "('r, 'o, 'l) s3_api \<Rightarrow> S3Config \<Rightarrow> string \<Rightarrow> ('r, string) prog" where
  "s3_Get A cfg path =
     bindM (s3a_GetObject A (s3_client cfg) (s3_Bucket cfg) path) (\<lambda>obj.
     bindM (s3a_Stat A obj) (\<lambda>_. s3a_Read A obj))"

definition s3_Copy :: "('r, 'o, 'l) s3_api \<Rightarrow> S3Config \<Rightarrow> string \<Rightarrow> string \<Rightarrow> ('r, unit) prog" where
  "s3_Copy A cfg fromPath toPath = s3a_CopyObject A (s3_client cfg) (s3_Bucket cfg, toPath) (s3_Bucket cfg, fromPath)"

definition s3_Delete :: "('r, 'o, 'l) s3_api \<Rightarrow> S3Config \<Rightarrow> string \<Rightarrow> ('r, unit) prog" where
  "s3_Delete A cfg path = s3a_RemoveObject A (s3_client cfg) (s3_Bucket cfg) path"

text \<open>A deferred clean-up, whose outcome is dropped.\<close>

definition deferM :: "('s, 'a) prog \<Rightarrow> ('s, 'b) prog \<Rightarrow> ('s, 'a) prog" where
  "deferM m cleanup s = (case m s of (r, s1) \<Rightarrow> (r, snd (cleanup s1)))"

text \<open>Both providers probe in the same way: write a file, read it back, delete it, and delete it once more on the way out.\<close>

definition probe_with ::
  "(string \<Rightarrow> string \<Rightarrow> ('r, unit) prog) \<Rightarrow> (string \<Rightarrow> ('r, string) prog) \<Rightarrow> (string \<Rightarrow> ('r, unit) prog) \<Rightarrow> string \<Rightarrow> ('r, unit) prog"
where
  "probe_with put get del token =
     (let path = ''.probe-'' @ token in
      bindM (put path path) (\<lambda>_.
      deferM
        (bindM (get path) (\<lambda>got. if got \<noteq> path then throwM ErrProbeMismatch else del path))
        (del path)))"

definition s3_Probe :: "('r, 'o, 'l) s3_api \<Rightarrow> S3Config \<Rightarrow> string \<Rightarrow> ('r, unit) prog" where
  "s3_Probe A cfg token = probe_with (s3_Put A cfg) (s3_Get A cfg) (s3_Delete A cfg) token"

section \<open>WebDAV\<close>

record http_request =
  hr_Method :: string
  hr_Url :: string
  hr_Body :: string
  hr_Headers :: "(string \<times> string) list"

text \<open>\<open>wa_Do\<close> sends a request and yields the status and the body of the response.\<close>

record ('r, 'l) webdav_api =
  wa_Do :: "http_request \<Rightarrow> ('r, int \<times> string) prog"
  wa_Key :: "string \<Rightarrow> 'l"

definition splitSegments :: "string \<Rightarrow> string list" where
  "splitSegments path = List.filter (\<lambda>part. part \<noteq> []) (split_on slash path)"

text \<open>\<open>url.PathEscape\<close>: unreserved characters and a few others stay, every other byte becomes a percent escape.\<close>

definition unescaped :: "char \<Rightarrow> bool" where
  "unescaped c \<longleftrightarrow> c \<in> set ''abcdefghijklmnopqrstuvwxyzABCDEFGHIJKLMNOPQRSTUVWXYZ0123456789-_.~$&+:=@''"

definition upper_hex :: "nat \<Rightarrow> char" where
  "upper_hex n = ''0123456789ABCDEF'' ! n"

definition PathEscape :: "string \<Rightarrow> string" where
  "PathEscape s = concat (List.map (\<lambda>c.
     if unescaped c then [c] else [CHR ''%'', upper_hex (of_char c div 16), upper_hex (of_char c mod 16)]) s)"

definition escapeSegments :: "string list \<Rightarrow> string" where
  "escapeSegments segments = join_with [slash] (List.map PathEscape segments)"

definition webdav_serverUrl :: "WebdavConfig \<Rightarrow> string" where
  "webdav_serverUrl cfg = trim_right_slashes (TrimSpace (wd_Url cfg))"

definition webdav_New :: "WebdavConfig \<Rightarrow> unit outcome" where
  "webdav_New cfg = (if webdav_serverUrl cfg = [] then Err ErrUrlRequired else Ok ())"

text \<open>\<open>base64.StdEncoding\<close>: the other alphabet, and padding.\<close>

definition base64_std :: "string \<Rightarrow> string" where
  "base64_std s =
     List.map (\<lambda>n. ''ABCDEFGHIJKLMNOPQRSTUVWXYZabcdefghijklmnopqrstuvwxyz0123456789+/'' ! n) (base64_digits (List.map of_char s)) @
     replicate ((3 - length s mod 3) mod 3) (CHR ''='')"

definition webdav_authHeader :: "WebdavConfig \<Rightarrow> string" where
  "webdav_authHeader cfg =
     (if wd_Username cfg \<noteq> [] \<or> wd_Password cfg \<noteq> []
      then ''Basic '' @ base64_std (wd_Username cfg @ '':'' @ wd_Password cfg) else [])"

definition urlOf :: "WebdavConfig \<Rightarrow> string list \<Rightarrow> string" where
  "urlOf cfg segments =
     (let all_segments = splitSegments (wd_RootPath cfg) @ segments in
      if all_segments = [] then webdav_serverUrl cfg else webdav_serverUrl cfg @ [slash] @ escapeSegments all_segments)"

definition webdav_do ::
  "('r, 'l) webdav_api \<Rightarrow> WebdavConfig \<Rightarrow> string \<Rightarrow> string \<Rightarrow> string \<Rightarrow> (string \<times> string) list \<Rightarrow> ('r, int \<times> string) prog"
where
  "webdav_do H cfg meth target body headers =
     wa_Do H \<lparr>hr_Method = meth, hr_Url = target, hr_Body = body,
       hr_Headers = headers @ (if webdav_authHeader cfg \<noteq> [] then [(''Authorization'', webdav_authHeader cfg)] else [])\<rparr>"

definition checkStatusCode :: "int \<Rightarrow> unit outcome" where
  "checkStatusCode status =
     (if status = 404 then Err ErrRemoteNotFound
      else if status < 200 \<or> status \<ge> 300 then Err (ErrUnexpectedStatus status) else Ok ())"

fun make_collections :: "('r, 'l) webdav_api \<Rightarrow> WebdavConfig \<Rightarrow> string list \<Rightarrow> ('r, unit) prog" where
  "make_collections H cfg [] = returnM ()"
| "make_collections H cfg (collectionUrl # urls) =
     bindM (webdav_do H cfg ''MKCOL'' collectionUrl [] []) (\<lambda>(status, _).
     if status = 405 then make_collections H cfg urls
     else bindM (liftO (checkStatusCode status)) (\<lambda>_. make_collections H cfg urls))"

definition ensureParents :: "('r, 'l) webdav_api \<Rightarrow> WebdavConfig \<Rightarrow> string list \<Rightarrow> ('r, unit) prog" where
  "ensureParents H cfg segments =
     (if segments = [] then returnM ()
      else
        let parents = splitSegments (wd_RootPath cfg) @ butlast segments in
        make_collections H cfg (List.map (\<lambda>i. webdav_serverUrl cfg @ [slash] @ escapeSegments (take (i + 1) parents))
          [0..<length parents]))"

definition webdav_Put :: "('r, 'l) webdav_api \<Rightarrow> WebdavConfig \<Rightarrow> string \<Rightarrow> string \<Rightarrow> ('r, unit) prog" where
  "webdav_Put H cfg path content =
     bindM (ensureParents H cfg (splitSegments path)) (\<lambda>_.
     bindM (webdav_do H cfg ''PUT'' (urlOf cfg (splitSegments path)) content []) (\<lambda>(status, _). liftO (checkStatusCode status)))"

definition webdav_Get :: "('r, 'l) webdav_api \<Rightarrow> WebdavConfig \<Rightarrow> string \<Rightarrow> ('r, string) prog" where
  "webdav_Get H cfg path =
     bindM (webdav_do H cfg ''GET'' (urlOf cfg (splitSegments path)) [] []) (\<lambda>(status, body).
     bindM (liftO (checkStatusCode status)) (\<lambda>_. returnM body))"

definition webdav_Copy :: "('r, 'l) webdav_api \<Rightarrow> WebdavConfig \<Rightarrow> string \<Rightarrow> string \<Rightarrow> ('r, unit) prog" where
  "webdav_Copy H cfg fromPath toPath =
     bindM (ensureParents H cfg (splitSegments toPath)) (\<lambda>_.
     bindM (webdav_do H cfg ''COPY'' (urlOf cfg (splitSegments fromPath)) []
        [(''Destination'', urlOf cfg (splitSegments toPath)), (''Overwrite'', ''T'')]) (\<lambda>(status, _). liftO (checkStatusCode status)))"

definition webdav_Delete :: "('r, 'l) webdav_api \<Rightarrow> WebdavConfig \<Rightarrow> string \<Rightarrow> ('r, unit) prog" where
  "webdav_Delete H cfg path =
     bindM (webdav_do H cfg ''DELETE'' (urlOf cfg (splitSegments path)) [] []) (\<lambda>(status, _).
     if status = 404 then returnM () else liftO (checkStatusCode status))"

definition webdav_Probe :: "('r, 'l) webdav_api \<Rightarrow> WebdavConfig \<Rightarrow> string \<Rightarrow> ('r, unit) prog" where
  "webdav_Probe H cfg token = probe_with (webdav_Put H cfg) (webdav_Get H cfg) (webdav_Delete H cfg) token"

section \<open>All remote providers\<close>

text \<open>The operations of the providers of S3 and WebDAV, and those of \<open>L\<close> for Google Drive.\<close>

definition remote_providers ::
  "('r, 'o, 'l) s3_api \<Rightarrow> ('r, 'l) webdav_api \<Rightarrow> ('r, 'l) remote_lib \<Rightarrow> ('r, 'l) remote_lib"
where
  "remote_providers A H L = \<lparr>
     rl_New = (\<lambda>p. case p of S3Provider c \<Rightarrow> s3_New A c | WebdavProvider c \<Rightarrow> webdav_New c | _ \<Rightarrow> rl_New L p),
     rl_Put = (\<lambda>p. case p of S3Provider c \<Rightarrow> s3_Put A c | WebdavProvider c \<Rightarrow> webdav_Put H c | _ \<Rightarrow> rl_Put L p),
     rl_Get = (\<lambda>p. case p of S3Provider c \<Rightarrow> s3_Get A c | WebdavProvider c \<Rightarrow> webdav_Get H c | _ \<Rightarrow> rl_Get L p),
     rl_Copy = (\<lambda>p. case p of S3Provider c \<Rightarrow> s3_Copy A c | WebdavProvider c \<Rightarrow> webdav_Copy H c | _ \<Rightarrow> rl_Copy L p),
     rl_Delete = (\<lambda>p. case p of S3Provider c \<Rightarrow> s3_Delete A c | WebdavProvider c \<Rightarrow> webdav_Delete H c | _ \<Rightarrow> rl_Delete L p),
     rl_Probe = (\<lambda>p. case p of S3Provider c \<Rightarrow> s3_Probe A c | WebdavProvider c \<Rightarrow> webdav_Probe H c | _ \<Rightarrow> rl_Probe L p),
     rl_Key = (\<lambda>p path. case p of S3Provider c \<Rightarrow> s3a_Key A (s3_client c) (s3_Bucket c) path
        | WebdavProvider c \<Rightarrow> wa_Key H (urlOf c (splitSegments path)) | _ \<Rightarrow> rl_Key L p path),
     rl_View = rl_View L\<rparr>"

section \<open>The S3 provider keeps the contract\<close>

text \<open>The documented behaviour of the S3 calls: a successful write makes the content the object's, what is read is the object's content, a copy needs
  its source, a removed object is gone; no call changes another object.\<close>

definition s3_laws :: "('r, 'o, 'l) s3_api \<Rightarrow> ('r \<Rightarrow> 'l \<Rightarrow> string option) \<Rightarrow> bool" where
  "s3_laws A V \<longleftrightarrow>
     (\<forall>cl b p c x r x'. s3a_PutObject A cl b p c x = (r, x') \<longrightarrow>
        (r = Ok () \<longrightarrow> V x' (s3a_Key A cl b p) = Some c) \<and> (\<forall>l. l \<noteq> s3a_Key A cl b p \<longrightarrow> V x' l = V x l)) \<and>
     (\<forall>cl b p x r x'. s3a_GetObject A cl b p x = (r, x') \<longrightarrow> V x' = V x \<and>
        (\<forall>obj y c y'. r = Ok obj \<longrightarrow> s3a_Read A obj y = (Ok c, y') \<longrightarrow> V y (s3a_Key A cl b p) = Some c)) \<and>
     (\<forall>obj x. V (snd (s3a_Stat A obj x)) = V x \<and> V (snd (s3a_Read A obj x)) = V x) \<and>
     (\<forall>cl b b' p q x r x'. s3a_CopyObject A cl (b', q) (b, p) x = (r, x') \<longrightarrow>
        (r = Ok () \<longrightarrow> V x (s3a_Key A cl b p) \<noteq> None \<and> V x' (s3a_Key A cl b' q) = V x (s3a_Key A cl b p)) \<and>
        (\<forall>l. l \<noteq> s3a_Key A cl b' q \<longrightarrow> V x' l = V x l)) \<and>
     (\<forall>cl b p x r x'. s3a_RemoveObject A cl b p x = (r, x') \<longrightarrow>
        (r = Ok () \<longrightarrow> V x' (s3a_Key A cl b p) = None) \<and> (\<forall>l. l \<noteq> s3a_Key A cl b p \<longrightarrow> V x' l = V x l))"

lemma s3_lawsD:
  assumes "s3_laws A V"
  shows "s3a_PutObject A cl b p c x = (r, x') \<Longrightarrow>
      (r = Ok () \<longrightarrow> V x' (s3a_Key A cl b p) = Some c) \<and> (\<forall>l. l \<noteq> s3a_Key A cl b p \<longrightarrow> V x' l = V x l)"
    and "s3a_GetObject A cl b p x = (rg, x') \<Longrightarrow> V x' = V x"
    and "s3a_GetObject A cl b p x = (Ok obj, x') \<Longrightarrow> s3a_Read A obj y = (Ok c, y') \<Longrightarrow> V y (s3a_Key A cl b p) = Some c"
    and "s3a_Stat A obj x = (r, x') \<Longrightarrow> V x' = V x"
    and "s3a_Read A obj x = (rr, x') \<Longrightarrow> V x' = V x"
    and "s3a_CopyObject A cl (b', q) (b, p) x = (r, x') \<Longrightarrow>
      (r = Ok () \<longrightarrow> V x (s3a_Key A cl b p) \<noteq> None \<and> V x' (s3a_Key A cl b' q) = V x (s3a_Key A cl b p)) \<and>
      (\<forall>l. l \<noteq> s3a_Key A cl b' q \<longrightarrow> V x' l = V x l)"
    and "s3a_RemoveObject A cl b p x = (r, x') \<Longrightarrow>
      (r = Ok () \<longrightarrow> V x' (s3a_Key A cl b p) = None) \<and> (\<forall>l. l \<noteq> s3a_Key A cl b p \<longrightarrow> V x' l = V x l)"
proof -
  note laws = assms[unfolded s3_laws_def]
  show "s3a_PutObject A cl b p c x = (r, x') \<Longrightarrow>
      (r = Ok () \<longrightarrow> V x' (s3a_Key A cl b p) = Some c) \<and> (\<forall>l. l \<noteq> s3a_Key A cl b p \<longrightarrow> V x' l = V x l)"
    using laws[THEN conjunct1] by blast
  show "s3a_GetObject A cl b p x = (rg, x') \<Longrightarrow> V x' = V x"
    "s3a_GetObject A cl b p x = (Ok obj, x') \<Longrightarrow> s3a_Read A obj y = (Ok c, y') \<Longrightarrow> V y (s3a_Key A cl b p) = Some c"
    using laws[THEN conjunct2, THEN conjunct1] by blast+
  show "s3a_Stat A obj x = (r, x') \<Longrightarrow> V x' = V x" "s3a_Read A obj x = (rr, x') \<Longrightarrow> V x' = V x"
    using laws[THEN conjunct2, THEN conjunct2, THEN conjunct1] by (metis snd_conv)+
  show "s3a_CopyObject A cl (b', q) (b, p) x = (r, x') \<Longrightarrow>
      (r = Ok () \<longrightarrow> V x (s3a_Key A cl b p) \<noteq> None \<and> V x' (s3a_Key A cl b' q) = V x (s3a_Key A cl b p)) \<and>
      (\<forall>l. l \<noteq> s3a_Key A cl b' q \<longrightarrow> V x' l = V x l)"
    using laws[THEN conjunct2, THEN conjunct2, THEN conjunct2, THEN conjunct1] by blast
  show "s3a_RemoveObject A cl b p x = (r, x') \<Longrightarrow>
      (r = Ok () \<longrightarrow> V x' (s3a_Key A cl b p) = None) \<and> (\<forall>l. l \<noteq> s3a_Key A cl b p \<longrightarrow> V x' l = V x l)"
    using laws[THEN conjunct2, THEN conjunct2, THEN conjunct2, THEN conjunct2] by blast
qed

lemma s3_Get_run:
  assumes laws: "s3_laws A V" and run: "s3_Get A cfg p x = (r, x')"
  shows "V x' = V x \<and> (\<forall>c. r = Ok c \<longrightarrow> V x (s3a_Key A (s3_client cfg) (s3_Bucket cfg) p) = Some c)"
proof -
  obtain q x1 where get: "s3a_GetObject A (s3_client cfg) (s3_Bucket cfg) p x = (q, x1)" by fastforce
  note g = s3_lawsD(2)[OF laws get]
  show ?thesis
  proof (cases q)
    case (Ok obj)
    obtain st x2 where stat: "s3a_Stat A obj x1 = (st, x2)" by fastforce
    note s = s3_lawsD(4)[OF laws stat]
    show ?thesis
    proof (cases "st = Ok ()")
      case True
      then have "s3a_Read A obj x2 = (r, x')" using run get Ok stat by (simp add: s3_Get_def bindM_def)
      then show ?thesis using g s s3_lawsD(5)[OF laws] s3_lawsD(3)[OF laws get[unfolded Ok]] by metis
    next
      case False
      then show ?thesis using run get Ok stat g s by (cases st) (auto simp: s3_Get_def bindM_def)
    qed
  qed (use run get g in \<open>auto simp: s3_Get_def bindM_def\<close>)
qed

lemma s3_contract:
  assumes "s3_laws A (rl_View L)"
  shows "keeps_contract (remote_providers A H L) (S3Provider cfg)"
proof -
  note laws = s3_lawsD[OF assms]
  have "content_storage (s3_Put A cfg) (s3_Get A cfg) (s3_Copy A cfg) (s3_Delete A cfg)
      (s3a_Key A (s3_client cfg) (s3_Bucket cfg)) (rl_View L) (\<lambda>_. ())"
    unfolding s3_Put_def s3_Copy_def s3_Delete_def
    by unfold_locales (auto dest!: laws(1) laws(6) laws(7) s3_Get_run[OF assms])
  then show ?thesis by (simp add: keeps_contract_def remote_providers_def)
qed

end
