(* ===== verification/FilePlacement.thy ===== *)
theory FilePlacement
  imports Registry RemoteContent AudioParsers
begin

text \<open>
  Reading stored files, moving a staged file to its permanent place (internal/service/v1/file_placement.go), and the two
  handlers of background jobs: the garbage collector and the audio parser (internal/async/handlers).

  Facts: a placed file has the content of the staged one and its row names the place; collecting the staged copy afterwards
  leaves it intact, unless both are the same file.  Both storages are the local disk or S3.
\<close>

definition norm_storage :: "uuid \<Rightarrow> uuid" where
  "norm_storage storageId = (if storageId = uuid_Nil then LocalStorageUuid else storageId)"

definition openStoredFile :: "('r, 'l) store_env \<Rightarrow> uuid \<Rightarrow> string \<Rightarrow> ('r, string) storeprog" where
  "openStoredFile env storageId filePath =
     bindM (Registry_Get env (norm_storage storageId)) (\<lambda>content. cs_Get env content filePath)"

definition openStoredFileByPath :: "('r, 'l) store_env \<Rightarrow> string \<Rightarrow> ('r, string) storeprog" where
  "openStoredFileByPath env filePath =
     bindM (FM_GetByPath filePath) (\<lambda>meta. openStoredFile env (fm_StorageId meta) filePath)"

definition placeFileInDefaultStorage :: "('r, 'l) store_env \<Rightarrow> FileMeta \<Rightarrow> string \<Rightarrow> ('r, unit) storeprog" where
  "placeFileInDefaultStorage env meta newPath =
     (let sourceId = norm_storage (fm_StorageId meta) in
      bindM (Registry_Default env) (\<lambda>(defaultId, _).
      bindM (Registry_Transfer env sourceId (f_FilePath (fm_File meta)) defaultId newPath) (\<lambda>_.
      bindM (FM_UpdateLocation (fm_Id meta) defaultId newPath) (\<lambda>_.
      JOB_EnqueueGarbageFile (se_uuid_String env) sourceId (f_FilePath (fm_File meta))))))"

section \<open>The garbage collector\<close>

definition resolveStorageId :: "('r, 'l) store_env \<Rightarrow> string \<Rightarrow> uuid outcome" where
  "resolveStorageId env raw =
     (if raw = [] then Ok LocalStorageUuid
      else (case se_uuid_Parse env raw of
          None \<Rightarrow> Err ErrMalformed
        | Some storageId \<Rightarrow> if storageId = uuid_Nil then Ok LocalStorageUuid else Ok storageId))"

definition HandleGarbageFile :: "('r, 'l) store_env \<Rightarrow> string \<Rightarrow> string \<Rightarrow> ('r, unit) storeprog" where
  "HandleGarbageFile env rawStorageId filePath =
     bindM (liftO (resolveStorageId env rawStorageId)) (\<lambda>storageId.
     bindM (Registry_Get env storageId) (\<lambda>content. cs_Delete env content filePath))"

section \<open>Verifying an audio file\<close>

definition verified_file :: "File \<Rightarrow> AudioInfo \<Rightarrow> File" where
  "verified_file file info = file\<lparr>f_Duration := ai_Duration info, f_SizeBytes := ai_SizeBytes info, f_Verified := True\<rparr>"

text \<open>The job handler reads from the local storage.\<close>

definition HandleAudioParse ::
  "(string \<Rightarrow> mp3_event list) \<Rightarrow> ('r, 'l) store_env \<Rightarrow> int \<Rightarrow> string \<Rightarrow> ('r, unit) storeprog" where
  "HandleAudioParse mp3 env fileId filePath =
     bindM (FM_Get fileId) (\<lambda>file.
     if f_Verified (fm_File file) then returnM ()
     else
       bindM (GetFile (se_root env) filePath) (\<lambda>content.
       bindM (liftO (Parse mp3 filePath content)) (\<lambda>info.
       FM_Update (fm_Id file) (verified_file (fm_File file) info))))"

text \<open>\<open>FileService.GetFile\<close> does the same on demand, from whatever storage holds the file.\<close>

definition FileService_GetFile ::
  "(string \<Rightarrow> mp3_event list) \<Rightarrow> ('r, 'l) store_env \<Rightarrow> int \<Rightarrow> ('r, FileMeta) storeprog" where
  "FileService_GetFile mp3 env fileId =
     bindM (FM_Get fileId) (\<lambda>file.
     if f_Verified (fm_File file) then returnM file
     else
       bindM (openStoredFile env (fm_StorageId file) (f_FilePath (fm_File file))) (\<lambda>content.
       bindM (liftO (Parse mp3 (f_FilePath (fm_File file)) content)) (\<lambda>info.
       bindM (FM_Update (fm_Id file) (verified_file (fm_File file) info)) (\<lambda>_.
       returnM (file\<lparr>fm_File := verified_file (fm_File file) info\<rparr>)))))"

section \<open>Placing and collecting\<close>

definition uuid_laws :: "('r, 'l) store_env \<Rightarrow> bool" where
  "uuid_laws env \<longleftrightarrow> (\<forall>i. se_uuid_Parse env (se_uuid_String env i) = Some i \<and> se_uuid_String env i \<noteq> [])"

lemma resolve_String: "uuid_laws env \<Longrightarrow> resolveStorageId env (se_uuid_String env (norm_storage i)) = Ok (norm_storage i)"
  by (auto simp: uuid_laws_def resolveStorageId_def norm_storage_def LocalStorageUuid_def uuid_Nil_def)

lemma FM_UpdateLocation_Ok:
  assumes "FM_UpdateLocation i sid p s = (Ok (), s')"
  shows "mem s' = mem s \<and> db_jobs (dbase s') = db_jobs (dbase s) \<and> db_storages (dbase s') = db_storages (dbase s) \<and>
    db_files (dbase s') = tbl_update (\<lambda>r. fm_Id r = i)
      (\<lambda>r. r\<lparr>fm_StorageId := sid, fm_File := (fm_File r)\<lparr>f_FilePath := p\<rparr>\<rparr>) (db_files (dbase s))"
  using assms
  by (auto simp: FM_UpdateLocation_def dbcall_cases db_update_location_def fm_UpdateLocation_def split: if_splits)

lemma EnqueueGarbage_Ok:
  assumes "JOB_EnqueueGarbageFile us sid p s = (Ok (), s')"
  shows "mem s' = mem s \<and> db_files (dbase s') = db_files (dbase s) \<and> db_storages (dbase s') = db_storages (dbase s) \<and>
    (\<exists>j \<in> set (rows (db_jobs (dbase s'))). job_Payload j = GarbageFilePayload (us sid) p \<and> job_Status j = JobPending)"
  using assms
  by (auto simp: JOB_EnqueueGarbageFile_def on_jobs_def dbcall_cases job_EnqueueGarbageFile_def job_Enqueue_def)

lemma provider_of_cong: "db_storages d' = db_storages d \<Longrightarrow> provider_of env d' i = provider_of env d i"
  by (simp add: provider_of_def)

text \<open>What a successful placement has done.\<close>

lemma place_Ok:
  assumes laws: "\<forall>pr. provider_of env (dbase s) (norm_storage (fm_StorageId meta)) = Ok pr \<longrightarrow> reliable env pr"
      "\<forall>def pr. st_GetDefault (db_storages (dbase s)) = Ok def \<longrightarrow> provider_of env (dbase s) (sr_Uuid def) = Ok pr \<longrightarrow> reliable env pr"
    and ok: "cache_ok env s"
    and run: "placeFileInDefaultStorage env meta newPath s = (Ok (), s1)"
  shows "\<exists>src dst def. provider_of env (dbase s) (norm_storage (fm_StorageId meta)) = Ok src \<and>
    st_GetDefault (db_storages (dbase s)) = Ok def \<and> provider_of env (dbase s) (sr_Uuid def) = Ok dst \<and>
    content_at env s (loc env src (f_FilePath (fm_File meta))) \<noteq> None \<and>
    content_at env s1 (loc env dst newPath) = content_at env s (loc env src (f_FilePath (fm_File meta))) \<and>
    (\<forall>l. l \<noteq> loc env dst newPath \<longrightarrow> content_at env s1 l = content_at env s l) \<and>
    db_files (dbase s1) = tbl_update (\<lambda>r. fm_Id r = fm_Id meta)
      (\<lambda>r. r\<lparr>fm_StorageId := sr_Uuid def, fm_File := (fm_File r)\<lparr>f_FilePath := newPath\<rparr>\<rparr>) (db_files (dbase s)) \<and>
    (\<exists>j \<in> set (rows (db_jobs (dbase s1))). job_Status j = JobPending \<and>
       job_Payload j = GarbageFilePayload (se_uuid_String env (norm_storage (fm_StorageId meta))) (f_FilePath (fm_File meta))) \<and>
    db_storages (dbase s1) = db_storages (dbase s) \<and> cache_ok env s1"
proof -
  let ?i = "norm_storage (fm_StorageId meta)" and ?p = "f_FilePath (fm_File meta)"
  obtain j pr s2 s3 s4 where def: "Registry_Default env s = (Ok (j, pr), s2)"
    and move: "Registry_Transfer env ?i ?p j newPath s2 = (Ok (), s3)"
    and upd: "FM_UpdateLocation (fm_Id meta) j newPath s3 = (Ok (), s4)"
    and gc: "JOB_EnqueueGarbageFile (se_uuid_String env) ?i ?p s4 = (Ok (), s1)"
    using run by (auto simp: placeFileInDefaultStorage_def Let_def bindM_eq_Ok split: prod.splits)
  note d = Registry_Default_run[OF def ok]
  then obtain row where row: "st_GetDefault (db_storages (dbase s)) = Ok row" "sr_Uuid row = j" by blast
  have w2: "dbase s2 = dbase s" "content_at env s2 = content_at env s" "cache_ok env s2"
    using d same_world_content[of s s2 env] by (auto simp: same_world_def)
  obtain src dst where t: "provider_of env (dbase s) ?i = Ok src" "provider_of env (dbase s) j = Ok dst"
      "content_at env s (loc env src ?p) \<noteq> None"
      "content_at env s3 (loc env dst newPath) = content_at env s (loc env src ?p)"
      "\<And>l. l \<noteq> loc env dst newPath \<Longrightarrow> content_at env s3 l = content_at env s l" "dbase s3 = dbase s" "cache_ok env s3"
    using Registry_Transfer_run[OF _ move w2(3)] laws(1) laws(2)[rule_format, OF row(1)] unfolding w2(1,2) row(2) by blast
  note u = FM_UpdateLocation_Ok[OF upd] and g = EnqueueGarbage_Ok[OF gc]
  have "mem s1 = mem s3" using u g by simp
  then have c: "content_at env s1 = content_at env s3" by (auto simp: content_at_def fun_eq_iff split: sum.split)
  have "db_storages (dbase s1) = db_storages (dbase s3)" using u g by simp
  then have "cache_ok env s1"
    using t(7) \<open>mem s1 = mem s3\<close> provider_of_cong[of "dbase s1" "dbase s3" env] by (simp add: cache_ok_def)
  then show ?thesis
    using t u g row unfolding c
    by (intro exI[of _ src] exI[of _ dst] exI[of _ row]) auto
qed

text \<open>What collecting a file does: its content is gone, and nothing else.\<close>

lemma collect_Ok:
  assumes ok: "cache_ok env s" and uuids: "uuid_laws env"
    and src: "provider_of env (dbase s) (norm_storage i) = Ok src" and laws: "reliable env src"
    and run: "HandleGarbageFile env (se_uuid_String env (norm_storage i)) path s = (Ok (), s')"
  shows "content_at env s' (loc env src path) = None \<and>
    (\<forall>l. l \<noteq> loc env src path \<longrightarrow> content_at env s' l = content_at env s l) \<and> dbase s' = dbase s"
proof -
  obtain pr s1 where get: "Registry_Get env (norm_storage i) s = (Ok pr, s1)" and del: "cs_Delete env pr path s1 = (Ok (), s')"
    using run resolve_String[OF uuids, of i] by (auto simp: HandleGarbageFile_def bindM_eq_Ok)
  have w: "pr = src" "same_world s s1" using Registry_Get_run[OF get ok] src by auto
  note store = provider_storage[OF laws, folded w(1)]
  from w show ?thesis
    using content_storage.del_Ok[OF store del] content_storage.del_only[OF store del]
      same_world_content[OF w(2), of env] by (auto simp: kept_def same_world_def)
qed

text \<open>The storages the property below is about.\<close>

fun local_or_s3 :: "provider \<Rightarrow> bool" where
  "local_or_s3 LocalProvider = True"
| "local_or_s3 (S3Provider _) = True"
| "local_or_s3 _ = False"

lemma local_or_s3_reliable:
  "se_lib env = remote_providers A H L \<Longrightarrow> s3_laws A (rl_View L) \<Longrightarrow> local_or_s3 p \<Longrightarrow> reliable env p"
  by (cases p) (simp_all add: reliable_def s3_contract)

text \<open>C23: Placing a staged file in the default storage, where the staged file's storage and the default one are each the
  local disk or an S3 bucket (the S3 calls doing what they are documented to do): when it succeeds, the file's row names the default storage and the new
  path, the content there is the staged file's content, no other file's content and no other row has changed, and a job is waiting to
  collect the staged copy.  When the garbage collector then handles that job with success, the staged copy is gone and the placed
  file is as it was - except when the staged and the placed location are the same one (a file placed where
  it already is): then the only copy is deleted.  Nothing is said of WebDAV and Google Drive, which do not keep the contract: WebDAV deletes a
  collection with all in it, Drive reports a deletion as done when only a stale file id was unknown.\<close>
theorem place_then_collect:
  assumes laws: "se_lib env = remote_providers A H L" "s3_laws A (rl_View L)" "uuid_laws env"
    and providers: "\<forall>pr. provider_of env (dbase s) (norm_storage (fm_StorageId meta)) = Ok pr \<longrightarrow> local_or_s3 pr"
      "\<forall>def pr. st_GetDefault (db_storages (dbase s)) = Ok def \<longrightarrow> provider_of env (dbase s) (sr_Uuid def) = Ok pr \<longrightarrow> local_or_s3 pr"
    and inv: "db_inv (dbase s)" "cache_ok env s"
    and meta: "meta \<in> set (rows (db_files (dbase s)))"
    and place: "placeFileInDefaultStorage env meta newPath s = (Ok (), s1)"
    and collect: "HandleGarbageFile env (se_uuid_String env (norm_storage (fm_StorageId meta))) (f_FilePath (fm_File meta)) s1 =
      (Ok (), s2)"
  shows "\<exists>src dst def row c. provider_of env (dbase s) (norm_storage (fm_StorageId meta)) = Ok src \<and>
    st_GetDefault (db_storages (dbase s)) = Ok def \<and> provider_of env (dbase s) (sr_Uuid def) = Ok dst \<and>
    row \<in> set (rows (db_files (dbase s1))) \<and> fm_Id row = fm_Id meta \<and> fm_StorageId row = sr_Uuid def \<and>
    f_FilePath (fm_File row) = newPath \<and>
    (\<forall>r \<in> set (rows (db_files (dbase s))). fm_Id r \<noteq> fm_Id meta \<longrightarrow> r \<in> set (rows (db_files (dbase s1)))) \<and>
    content_at env s (loc env src (f_FilePath (fm_File meta))) = Some c \<and>
    content_at env s1 (loc env dst newPath) = Some c \<and>
    (\<forall>l. l \<noteq> loc env dst newPath \<longrightarrow> content_at env s1 l = content_at env s l) \<and>
    (\<exists>j \<in> set (rows (db_jobs (dbase s1))). job_Status j = JobPending \<and> job_Payload j =
       GarbageFilePayload (se_uuid_String env (norm_storage (fm_StorageId meta))) (f_FilePath (fm_File meta))) \<and>
    content_at env s2 (loc env src (f_FilePath (fm_File meta))) = None \<and>
    content_at env s2 (loc env dst newPath) =
      (if loc env src (f_FilePath (fm_File meta)) = loc env dst newPath then None else Some c) \<and>
    dbase s2 = dbase s1"
proof -
  have reliable: "\<forall>pr. provider_of env (dbase s) (norm_storage (fm_StorageId meta)) = Ok pr \<longrightarrow> reliable env pr"
      "\<forall>def pr. st_GetDefault (db_storages (dbase s)) = Ok def \<longrightarrow> provider_of env (dbase s) (sr_Uuid def) = Ok pr \<longrightarrow> reliable env pr"
    using local_or_s3_reliable[OF laws(1,2)] providers by blast+
  obtain src dst def where p: "provider_of env (dbase s) (norm_storage (fm_StorageId meta)) = Ok src"
      "st_GetDefault (db_storages (dbase s)) = Ok def" "provider_of env (dbase s) (sr_Uuid def) = Ok dst"
      "content_at env s (loc env src (f_FilePath (fm_File meta))) \<noteq> None"
      "content_at env s1 (loc env dst newPath) = content_at env s (loc env src (f_FilePath (fm_File meta)))"
      "\<forall>l. l \<noteq> loc env dst newPath \<longrightarrow> content_at env s1 l = content_at env s l"
      "db_files (dbase s1) = tbl_update (\<lambda>r. fm_Id r = fm_Id meta)
        (\<lambda>r. r\<lparr>fm_StorageId := sr_Uuid def, fm_File := (fm_File r)\<lparr>f_FilePath := newPath\<rparr>\<rparr>) (db_files (dbase s))"
      "\<exists>j \<in> set (rows (db_jobs (dbase s1))). job_Status j = JobPending \<and> job_Payload j =
        GarbageFilePayload (se_uuid_String env (norm_storage (fm_StorageId meta))) (f_FilePath (fm_File meta))"
      "db_storages (dbase s1) = db_storages (dbase s)" "cache_ok env s1"
    using place_Ok[OF reliable inv(2) place] by blast
  have src1: "provider_of env (dbase s1) (norm_storage (fm_StorageId meta)) = Ok src"
    unfolding provider_of_cong[OF p(9)] by (rule p(1))
  note g = collect_Ok[OF p(10) laws(3) src1 reliable(1)[rule_format, OF p(1)] collect]
  obtain c where c: "content_at env s (loc env src (f_FilePath (fm_File meta))) = Some c" using p(4) by auto
  let ?row = "meta\<lparr>fm_StorageId := sr_Uuid def, fm_File := (fm_File meta)\<lparr>f_FilePath := newPath\<rparr>\<rparr>"
  have "?row \<in> set (rows (db_files (dbase s1)))" using meta unfolding p(7) by force
  then show ?thesis
    using p c g
    by (intro exI[of _ src] exI[of _ dst] exI[of _ def] exI[of _ ?row] exI[of _ c]) auto
qed

section \<open>Example\<close>

text \<open>Objects are kept by bucket and path; an opened object is its key.\<close>

definition ex_key :: "string \<Rightarrow> string \<Rightarrow> string" where
  "ex_key bucket path = bucket @ ''/'' @ path"

definition ex_read :: "string \<Rightarrow> (string \<times> string) list \<Rightarrow> string outcome" where
  "ex_read k x = (case map_of x k of Some c \<Rightarrow> Ok c | None \<Rightarrow> Err ErrRemoteNotFound)"

definition ex_s3 :: "((string \<times> string) list, string, string) s3_api" where
  "ex_s3 = \<lparr>s3a_New = (\<lambda>_. Ok ()),
     s3a_PutObject = (\<lambda>cl b p c x. (Ok (), AList.update (ex_key b p) c x)),
     s3a_GetObject = (\<lambda>cl b p x. (Ok (ex_key b p), x)),
     s3a_Stat = (\<lambda>k x. (bindO (ex_read k x) (\<lambda>_. Ok ()), x)),
     s3a_Read = (\<lambda>k x. (ex_read k x, x)),
     s3a_CopyObject = (\<lambda>cl (b', q) (b, p) x. (case ex_read (ex_key b p) x of
        Ok c \<Rightarrow> (Ok (), AList.update (ex_key b' q) c x) | Err e \<Rightarrow> (Err e, x) | Panic \<Rightarrow> (Panic, x))),
     s3a_RemoveObject = (\<lambda>cl b p x. (Ok (), AList.delete (ex_key b p) x)),
     s3a_Key = (\<lambda>cl. ex_key)\<rparr>"

definition ex_webdav :: "((string \<times> string) list, string) webdav_api" where
  "ex_webdav = \<lparr>wa_Do = (\<lambda>req x. (Ok (404, []), x)), wa_Key = id\<rparr>"

definition ex_remote :: "((string \<times> string) list, string) remote_lib" where
  "ex_remote = \<lparr>rl_New = (\<lambda>_. Ok ()), rl_Put = (\<lambda>p path c x. (Err ErrRemoteNotFound, x)),
     rl_Get = (\<lambda>p path x. (Err ErrRemoteNotFound, x)), rl_Copy = (\<lambda>p path path' x. (Err ErrRemoteNotFound, x)),
     rl_Delete = (\<lambda>p path x. (Err ErrRemoteNotFound, x)), rl_Probe = (\<lambda>p token x. (Ok (), x)), rl_Key = (\<lambda>p path. path), rl_View = map_of\<rparr>"

lemma ex_s3_laws: "s3_laws ex_s3 (rl_View ex_remote)"
  by (auto simp: s3_laws_def ex_s3_def ex_remote_def ex_read_def update_conv' delete_conv' split: option.splits)

definition ex_store_env :: "((string \<times> string) list, string) store_env" where
  "ex_store_env = \<lparr>se_root = ''/r'', se_lib = remote_providers ex_s3 ex_webdav ex_remote, se_crypto = ex_crypto, se_secretsKey = ''key'',
     se_uuid_String = (\<lambda>i. CHR ''u'' # replicate (unat i) (CHR ''1'')),
     se_uuid_Parse = (\<lambda>s. Some (word_of_nat (length s - 1)))\<rparr>"

definition ex_staged :: FileMeta where
  "ex_staged = \<lparr>fm_Id = 1, fm_File = \<lparr>f_FilePath = ''tmp/7/a.mp3'', f_SizeBytes = 1, f_Duration = 0, f_Verified = True,
     f_ContentHash = ''h''\<rparr>, fm_AddedById = 7, fm_StorageId = LocalStorageUuid\<rparr>"

definition ex_s3_config :: S3Config where
  "ex_s3_config = \<lparr>s3_Endpoint = ''http://h/'', s3_Region = [], s3_Bucket = ''b'', s3_AccessKeyId = ''k'', s3_SecretAccessKey = ''s'',
     s3_IsPathStyle = True\<rparr>"

text \<open>The default storage is an S3 bucket.\<close>

definition ex_s3_row :: StorageRow where
  "ex_s3_row = \<lparr>sr_Uuid = 7, sr_Name = ''bucket'', sr_Kind = StorageKindS3,
     sr_ConfigEnc = (case Encode ex_crypto (replicate 12 (CHR ''n'')) ''key'' (no_config\<lparr>cfg_S3 := Some ex_s3_config\<rparr>) of Ok blob \<Rightarrow> blob),
     sr_IsDefault = True, sr_OwnerUserId = None, sr_QuotaBytes = None, sr_UsedBytes = 0\<rparr>"

definition ex_store_state :: "(database, (string \<times> string) list storemem) st" where
  "ex_store_state = \<lparr>faults = [], dbase = empty_database\<lparr>db_files := \<lparr>rows = [ex_staged], next_id = 2\<rparr>,
       db_storages := [local_storage_row\<lparr>sr_IsDefault := False\<rparr>, ex_s3_row]\<rparr>,
     mem = \<lparr>w_disk = [(''/r/tmp/7/a.mp3'', ''x'')], w_remote = [], w_cache = []\<rparr>\<rparr>"

lemma ex_store_inv: "db_inv (dbase ex_store_state)" "cache_ok ex_store_env ex_store_state"
    "se_lib ex_store_env = remote_providers ex_s3 ex_webdav ex_remote" "uuid_laws ex_store_env"
    "ex_staged \<in> set (rows (db_files (dbase ex_store_state)))"
  using db_inv_empty
  by (simp_all add: db_inv_def ex_store_state_def fm_inv_def table_wf_def files_placed_def ex_staged_def ex_s3_row_def
      empty_database_def local_storage_row_def cache_ok_def ex_store_env_def uuid_laws_def storages_ok_def LocalStorageUuid_def)

lemma ex_decoded_s3: "Decode ex_crypto ''key'' (sr_ConfigEnc ex_s3_row) = Ok (no_config\<lparr>cfg_S3 := Some ex_s3_config\<rparr>)"
proof -
  let ?cfg = "no_config\<lparr>cfg_S3 := Some ex_s3_config\<rparr>" and ?nonce = "replicate 12 (CHR ''n'')"
  obtain blob where "Encode ex_crypto ?nonce ''key'' ?cfg = Ok blob" by (auto simp: Encode_def Encrypt_def newGcm_def)
  moreover from this have "sr_ConfigEnc ex_s3_row = blob" by (simp add: ex_s3_row_def)
  moreover have "valid_config ?cfg = ?cfg"
    by (simp add: valid_config_def no_config_def valid_s3_def ex_s3_config_def to_valid_ascii)
  ultimately show ?thesis using Decode_Encode[OF ex_crypto_laws, of ?nonce] by (simp add: nonceSize_def)
qed

lemma ex_s3_opened: "rl_New (remote_providers ex_s3 ex_webdav ex_remote) (S3Provider ex_s3_config) = Ok ()"
proof -
  have "splitEndpoint ''http://h/'' = (''h'', False)" by code_simp
  then show ?thesis by (simp add: remote_providers_def s3_New_def ex_s3_config_def ex_s3_def)
qed

lemma ex_store_providers:
  "provider_of ex_store_env d LocalStorageUuid = Ok LocalProvider"
  "provider_of ex_store_env (dbase ex_store_state) 7 = Ok (S3Provider ex_s3_config)"
  "st_GetDefault (db_storages (dbase ex_store_state)) = Ok ex_s3_row" "sr_Uuid ex_s3_row = 7"
  using ex_decoded_s3 ex_s3_opened
  by (simp_all add: provider_of_def built_from_def Registry_construct_def ex_store_state_def st_Get_def local_storage_row_def
      LocalStorageUuid_def ex_s3_row_def ex_store_env_def no_config_def st_GetDefault_def)

lemma ex_store_paths:
  "path_Join [''/r'', ''tmp/7/a.mp3''] = ''/r/tmp/7/a.mp3''" "path_Join [''/r'', ''a.mp3''] = ''/r/a.mp3''"
  by code_simp+

lemma ex_opened: "\<exists>s1. Registry_Get ex_store_env 7 ex_store_state = (Ok (S3Provider ex_s3_config), s1) \<and>
    s1 = ex_store_state\<lparr>mem := (mem ex_store_state)\<lparr>w_cache := [(7, S3Provider ex_s3_config)]\<rparr>\<rparr>"
  using ex_decoded_s3 ex_s3_opened
  by (simp add: Registry_Get_def Registry_build_def LocalStorageUuid_def ST_Get_def st_Get_def ex_store_state_def
      local_storage_row_def ex_s3_row_def ex_store_env_def Registry_construct_def no_config_def)

lemma ex_placed:
  obtains s1 where "placeFileInDefaultStorage ex_store_env ex_staged ''a.mp3'' ex_store_state = (Ok (), s1)" "faults s1 = []"
    "w_disk (mem s1) = [(''/r/tmp/7/a.mp3'', ''x'')]" "w_remote (mem s1) = [(''b/a.mp3'', ''x'')]"
proof -
  have def: "Registry_Default ex_store_env ex_store_state = (Ok (7, S3Provider ex_s3_config),
      ex_store_state\<lparr>mem := (mem ex_store_state)\<lparr>w_cache := [(7, S3Provider ex_s3_config)]\<rparr>\<rparr>)"
    using ex_opened ex_store_providers(3,4)
    by (simp add: Registry_Default_def ST_GetDefault_def ex_store_state_def)
  have "\<exists>s1. placeFileInDefaultStorage ex_store_env ex_staged ''a.mp3'' ex_store_state = (Ok (), s1) \<and> faults s1 = [] \<and>
      w_disk (mem s1) = [(''/r/tmp/7/a.mp3'', ''x'')] \<and> w_remote (mem s1) = [(''b/a.mp3'', ''x'')]"
    unfolding placeFileInDefaultStorage_def Let_def bindM_def[of "Registry_Default ex_store_env"] def
    by (simp add: Registry_Get_def Registry_Transfer_def
        ex_store_state_def empty_database_def local_storage_row_def ex_staged_def
        norm_storage_def LocalStorageUuid_def uuid_Nil_def cs_Get_def local_Get_def os_open_def cs_Put_def on_remote_def
        remote_providers_def s3_Put_def ex_s3_def ex_key_def ex_s3_config_def ex_s3_row_def
        on_disk_def ex_store_env_def ex_store_paths FM_UpdateLocation_def db_update_location_def fm_UpdateLocation_def
        fm_path_taken_def storage_known_def st_Get_def tbl_find_def JOB_EnqueueGarbageFile_def on_jobs_def)
  then show ?thesis using that by blast
qed

theorem place_then_collect_witness:
  "\<exists>s1 s2. placeFileInDefaultStorage ex_store_env ex_staged ''a.mp3'' ex_store_state = (Ok (), s1) \<and>
     HandleGarbageFile ex_store_env (se_uuid_String ex_store_env LocalStorageUuid) ''tmp/7/a.mp3'' s1 = (Ok (), s2) \<and>
     content_at ex_store_env s2 (Inr ''b/a.mp3'') = Some ''x'' \<and> content_at ex_store_env s2 (Inl ''/r/tmp/7/a.mp3'') = None"
proof -
  obtain s1 where s1: "placeFileInDefaultStorage ex_store_env ex_staged ''a.mp3'' ex_store_state = (Ok (), s1)" "faults s1 = []"
      "w_disk (mem s1) = [(''/r/tmp/7/a.mp3'', ''x'')]" "w_remote (mem s1) = [(''b/a.mp3'', ''x'')]" by (rule ex_placed)
  have raw: "norm_storage (fm_StorageId ex_staged) = LocalStorageUuid" "f_FilePath (fm_File ex_staged) = ''tmp/7/a.mp3''"
    by (simp_all add: norm_storage_def ex_staged_def LocalStorageUuid_def uuid_Nil_def)
  have "\<exists>s2. HandleGarbageFile ex_store_env (se_uuid_String ex_store_env LocalStorageUuid) ''tmp/7/a.mp3'' s1 = (Ok (), s2)"
    using resolve_String[OF ex_store_inv(4), of LocalStorageUuid] s1(2)
    by (simp add: HandleGarbageFile_def norm_storage_def LocalStorageUuid_def uuid_Nil_def Registry_Get_def cs_Delete_def
        local_Delete_def os_remove_if_exists_def on_disk_def)
  then obtain s2 where s2: "HandleGarbageFile ex_store_env (se_uuid_String ex_store_env LocalStorageUuid) ''tmp/7/a.mp3'' s1 =
    (Ok (), s2)" by blast
  have locs: "loc ex_store_env LocalProvider ''tmp/7/a.mp3'' = Inl ''/r/tmp/7/a.mp3''"
      "loc ex_store_env (S3Provider ex_s3_config) ''a.mp3'' = Inr ''b/a.mp3''"
    by (simp_all add: loc_def ex_store_env_def ex_store_paths remote_providers_def ex_s3_def ex_key_def ex_s3_config_def)
  have p: "\<forall>pr. provider_of ex_store_env (dbase ex_store_state) LocalStorageUuid = Ok pr \<longrightarrow> local_or_s3 pr"
      "\<forall>def pr. st_GetDefault (db_storages (dbase ex_store_state)) = Ok def \<longrightarrow>
         provider_of ex_store_env (dbase ex_store_state) (sr_Uuid def) = Ok pr \<longrightarrow> local_or_s3 pr"
    using ex_store_providers by auto
  have "content_at ex_store_env s2 (Inr ''b/a.mp3'') = Some ''x'' \<and> content_at ex_store_env s2 (Inl ''/r/tmp/7/a.mp3'') = None"
    using place_then_collect[OF ex_store_inv(3) ex_s3_laws ex_store_inv(4) p(1)[folded raw(1)] p(2) ex_store_inv(1,2,5) s1(1), of s2] s2
      ex_store_providers
    unfolding raw
    by (auto simp: locs ex_store_state_def)
  then show ?thesis using s1(1) s2 by blast
qed

end
