(* ===== verification/DriveContent.thy ===== *)
theory DriveContent
  imports RemoteContent
begin

text \<open>
  The provider for Google Drive (internal/storage/file_storage_providers/gdrive/gdrive.go), one instance of it: Drive names files by ids, and the instance remembers
  the ids of the paths it has looked up.  The token source, the exchange of a request for a response and the boundary of a multipart body are arguments.
  The registry makes a new instance, with an empty cache, whenever a storage is edited; there the operations stay arguments (\<open>remote_lib\<close>).

  Facts: the cache stays bounded; a deletion of a path whose cached id is unknown to Drive reports success although nothing was deleted, and a write to it
  adds a file and deletes none.
\<close>

section \<open>State\<close>

record 'r drive_state =
  ds_ids :: "(string \<times> string) list"
  ds_remote :: 'r

record 'r drive_api =
  da_Token :: "GoogleDriveConfig \<Rightarrow> ('r, string) prog"
  da_Do :: "http_request \<Rightarrow> ('r, int \<times> string) prog"

type_synonym ('r, 'a) driveprog = "('r drive_state, 'a) prog"

definition drive_remote :: "('r, 'a) prog \<Rightarrow> ('r, 'a) driveprog" where
  "drive_remote m s = (case m (ds_remote s) of (r, x) \<Rightarrow> (r, s\<lparr>ds_remote := x\<rparr>))"

definition maxCachedIds :: nat where
  "maxCachedIds = 50000"

definition drive_apiBase :: string where
  "drive_apiBase = ''https://www.googleapis.com/drive/v3''"

definition drive_uploadBase :: string where
  "drive_uploadBase = ''https://www.googleapis.com/upload/drive/v3''"

definition drive_rootId :: "GoogleDriveConfig \<Rightarrow> string" where
  "drive_rootId cfg = (if gd_RootFolderId cfg = [] then ''root'' else gd_RootFolderId cfg)"

section \<open>The cache of ids\<close>

definition drive_cached :: "string \<Rightarrow> ('r, string option) driveprog" where
  "drive_cached path = getM (\<lambda>s. map_of (ds_ids s) path)"

definition drive_remember :: "string \<Rightarrow> string \<Rightarrow> ('r, unit) driveprog" where
  "drive_remember path fileId = putM (\<lambda>s.
     s\<lparr>ds_ids := AList.update path fileId (if length (ds_ids s) \<ge> maxCachedIds then [] else ds_ids s)\<rparr>)"

definition drive_forget :: "string \<Rightarrow> ('r, unit) driveprog" where
  "drive_forget path = putM (\<lambda>s. s\<lparr>ds_ids := AList.delete path (ds_ids s)\<rparr>)"

section \<open>Requests\<close>

definition drive_token :: "'r drive_api \<Rightarrow> GoogleDriveConfig \<Rightarrow> ('r, string) driveprog" where
  "drive_token A cfg = (if gd_RefreshToken cfg = [] then throwM ErrDriveNotConnected else drive_remote (da_Token A cfg))"

definition drive_call ::
  "'r drive_api \<Rightarrow> GoogleDriveConfig \<Rightarrow> string \<Rightarrow> string \<Rightarrow> string \<Rightarrow> string \<Rightarrow> ('r, int \<times> string) driveprog"
where
  "drive_call A cfg meth target contentType body =
     bindM (drive_token A cfg) (\<lambda>accessToken.
     drive_remote (da_Do A \<lparr>hr_Method = meth, hr_Url = target, hr_Body = body,
       hr_Headers = (''Authorization'', ''Bearer '' @ accessToken) # (if contentType \<noteq> [] then [(''Content-Type'', contentType)] else [])\<rparr>))"

definition drive_checkStatus :: "int \<Rightarrow> string \<Rightarrow> ('r, unit) driveprog" where
  "drive_checkStatus status path =
     (if status = 404 then bindM (drive_forget path) (\<lambda>_. throwM ErrRemoteNotFound)
      else if status < 200 \<or> status \<ge> 300 then throwM (ErrUnexpectedStatus status)
      else returnM ())"

definition drive_callBytes ::
  "'r drive_api \<Rightarrow> GoogleDriveConfig \<Rightarrow> string \<Rightarrow> string \<Rightarrow> string \<Rightarrow> string \<Rightarrow> ('r, string) driveprog"
where
  "drive_callBytes A cfg meth target contentType body =
     bindM (drive_call A cfg meth target contentType body) (\<lambda>(status, raw).
     bindM (drive_checkStatus status []) (\<lambda>_. returnM raw))"

text \<open>\<open>fileRef\<close> and \<open>fileList\<close>: the ids are all that is read.\<close>

definition file_ref_field :: "string \<Rightarrow> json \<Rightarrow> string \<Rightarrow> string option" where
  "file_ref_field k v fileId = (if k = ''id'' then str_field (\<lambda>x. x) fileId v else Some fileId)"

fun file_refs :: "json list \<Rightarrow> string list option" where
  "file_refs [] = Some []"
| "file_refs (v # vs) =
     (case unmarshal_object file_ref_field [] v of None \<Rightarrow> None
      | Some fileId \<Rightarrow> map_option (\<lambda>ids. fileId # ids) (file_refs vs))"

definition file_list_field :: "string \<Rightarrow> json \<Rightarrow> string list \<Rightarrow> string list option" where
  "file_list_field k v ids =
     (if k = ''files'' then (case v of JArr vs \<Rightarrow> file_refs vs | JNull \<Rightarrow> Some [] | _ \<Rightarrow> None) else Some ids)"

definition drive_callRef ::
  "'r drive_api \<Rightarrow> GoogleDriveConfig \<Rightarrow> string \<Rightarrow> string \<Rightarrow> string \<Rightarrow> string \<Rightarrow> ('r, string) driveprog"
where
  "drive_callRef A cfg meth target contentType body =
     bindM (drive_callBytes A cfg meth target contentType body) (\<lambda>raw.
     case Unmarshal file_ref_field [] raw of None \<Rightarrow> throwM ErrMalformed | Some fileId \<Rightarrow> returnM fileId)"

section \<open>Names\<close>

definition replace_char :: "char \<Rightarrow> string \<Rightarrow> string \<Rightarrow> string" where
  "replace_char old new s = concat (List.map (\<lambda>c. if c = old then new else [c]) s)"

definition escapeQueryLiteral :: "string \<Rightarrow> string" where
  "escapeQueryLiteral s = replace_char (CHR 0x27) [CHR 0x5C, CHR 0x27] (replace_char (CHR 0x5C) [CHR 0x5C, CHR 0x5C] s)"

text \<open>\<open>url.QueryEscape\<close>.\<close>

definition QueryEscape :: "string \<Rightarrow> string" where
  "QueryEscape s = concat (List.map (\<lambda>c.
     if c \<in> set ''abcdefghijklmnopqrstuvwxyzABCDEFGHIJKLMNOPQRSTUVWXYZ0123456789-_.~'' then [c]
     else if c = CHR '' '' then ''+''
     else [CHR ''%'', upper_hex (of_char c div 16), upper_hex (of_char c mod 16)]) s)"

definition drive_list_query :: "GoogleDriveConfig \<Rightarrow> string \<Rightarrow> string" where
  "drive_list_query cfg path =
     ''name = '' @ [CHR 0x27] @ escapeQueryLiteral path @ [CHR 0x27] @ '' and '' @ [CHR 0x27] @ escapeQueryLiteral (drive_rootId cfg) @
     [CHR 0x27] @ '' in parents and trashed = false''"

text \<open>The parameters are written in the order of their names.\<close>

definition drive_list_url :: "GoogleDriveConfig \<Rightarrow> string \<Rightarrow> string" where
  "drive_list_url cfg path = drive_apiBase @ ''/files?fields='' @ QueryEscape ''files(id)'' @
     ''&includeItemsFromAllDrives=true&pageSize=1&q='' @ QueryEscape (drive_list_query cfg path) @ ''&supportsAllDrives=true''"

definition drive_lookup :: "'r drive_api \<Rightarrow> GoogleDriveConfig \<Rightarrow> string \<Rightarrow> ('r, string option) driveprog" where
  "drive_lookup A cfg path =
     bindM (drive_cached path) (\<lambda>cachedId. case cachedId of
       Some fileId \<Rightarrow> returnM (Some fileId)
     | None \<Rightarrow>
         bindM (drive_callBytes A cfg ''GET'' (drive_list_url cfg path) [] []) (\<lambda>raw.
         case Unmarshal file_list_field [] raw of
           None \<Rightarrow> throwM ErrMalformed
         | Some [] \<Rightarrow> returnM None
         | Some (fileId # _) \<Rightarrow> bindM (drive_remember path fileId) (\<lambda>_. returnM (Some fileId))))"

definition requireId :: "'r drive_api \<Rightarrow> GoogleDriveConfig \<Rightarrow> string \<Rightarrow> ('r, string) driveprog" where
  "requireId A cfg path =
     bindM (drive_lookup A cfg path) (\<lambda>found. case found of None \<Rightarrow> throwM ErrRemoteNotFound | Some fileId \<Rightarrow> returnM fileId)"

section \<open>Operations\<close>

definition drive_file_url :: "string \<Rightarrow> string" where
  "drive_file_url fileId = drive_apiBase @ ''/files/'' @ PathEscape fileId"

definition deleteByName :: "'r drive_api \<Rightarrow> GoogleDriveConfig \<Rightarrow> string \<Rightarrow> ('r, unit) driveprog" where
  "deleteByName A cfg path =
     bindM (drive_lookup A cfg path) (\<lambda>found. case found of
       None \<Rightarrow> returnM ()
     | Some fileId \<Rightarrow>
         bindM (drive_call A cfg ''DELETE'' (drive_file_url fileId @ ''?supportsAllDrives=true'') [] []) (\<lambda>(status, _).
         bindM (drive_forget path) (\<lambda>_.
         if status = 404 then returnM () else drive_checkStatus status path)))"

definition file_metadata :: "GoogleDriveConfig \<Rightarrow> string \<Rightarrow> string" where
  "file_metadata cfg path = json_object [(''name'', json_quote path), (''parents'', ''['' @ json_quote (drive_rootId cfg) @ '']'')]"

definition crlf :: string where
  "crlf = [CHR 0x0D, CHR 0x0A]"

text \<open>The two parts of an upload; \<open>Encode\<close> ends the metadata with a line feed.\<close>

definition writeMultipartParts :: "string \<Rightarrow> string \<Rightarrow> string \<Rightarrow> string" where
  "writeMultipartParts boundary metadata content =
     ''--'' @ boundary @ crlf @ ''Content-Type: application/json; charset=UTF-8'' @ crlf @ crlf @ metadata @ [CHR 0x0A] @
     crlf @ ''--'' @ boundary @ crlf @ ''Content-Type: application/octet-stream'' @ crlf @ crlf @ content @
     crlf @ ''--'' @ boundary @ ''--'' @ crlf"

definition drive_Put :: "'r drive_api \<Rightarrow> GoogleDriveConfig \<Rightarrow> string \<Rightarrow> string \<Rightarrow> string \<Rightarrow> ('r, unit) driveprog" where
  "drive_Put A cfg boundary path content =
     bindM (deleteByName A cfg path) (\<lambda>_.
     bindM (drive_callRef A cfg ''POST'' (drive_uploadBase @ ''/files?uploadType=multipart&supportsAllDrives=true&fields=id'')
       (''multipart/related; boundary='' @ boundary) (writeMultipartParts boundary (file_metadata cfg path) content)) (\<lambda>fileId.
     drive_remember path fileId))"

definition drive_Get :: "'r drive_api \<Rightarrow> GoogleDriveConfig \<Rightarrow> string \<Rightarrow> ('r, string) driveprog" where
  "drive_Get A cfg path =
     bindM (requireId A cfg path) (\<lambda>fileId.
     bindM (drive_call A cfg ''GET'' (drive_file_url fileId @ ''?alt=media&supportsAllDrives=true'') [] []) (\<lambda>(status, body).
     bindM (drive_checkStatus status path) (\<lambda>_. returnM body)))"

definition drive_Copy :: "'r drive_api \<Rightarrow> GoogleDriveConfig \<Rightarrow> string \<Rightarrow> string \<Rightarrow> ('r, unit) driveprog" where
  "drive_Copy A cfg fromPath toPath =
     bindM (requireId A cfg fromPath) (\<lambda>srcId.
     bindM (deleteByName A cfg toPath) (\<lambda>_.
     bindM (drive_callRef A cfg ''POST'' (drive_file_url srcId @ ''/copy?supportsAllDrives=true&fields=id'') ''application/json''
       (file_metadata cfg toPath)) (\<lambda>fileId.
     drive_remember toPath fileId)))"

definition drive_Delete :: "'r drive_api \<Rightarrow> GoogleDriveConfig \<Rightarrow> string \<Rightarrow> ('r, unit) driveprog" where
  "drive_Delete A cfg path = deleteByName A cfg path"

definition drive_Probe :: "'r drive_api \<Rightarrow> GoogleDriveConfig \<Rightarrow> string \<Rightarrow> string \<Rightarrow> ('r, unit) driveprog" where
  "drive_Probe A cfg boundary token = probe_with (drive_Put A cfg boundary) (drive_Get A cfg) (drive_Delete A cfg) token"

section \<open>The cache stays bounded\<close>

definition ids_bounded :: "'r drive_state \<Rightarrow> bool" where
  "ids_bounded s \<longleftrightarrow> length (ds_ids s) \<le> maxCachedIds"

lemma keeps_defer: "keeps I m \<Longrightarrow> keeps I c \<Longrightarrow> keeps I (deferM m c)"
  by (auto simp: keeps_def deferM_def split: prod.split)

lemma keeps_drive_remote: "keeps ids_bounded (drive_remote m)"
  by (auto simp: keeps_def drive_remote_def ids_bounded_def split: prod.split)

lemma length_AList_update: "length (AList.update k v xs) \<le> Suc (length xs)"
  by (induction xs) auto

lemma keeps_drive_remember: "keeps ids_bounded (drive_remember p i)"
proof (rule keepsI)
  fix s r s' assume s: "ids_bounded s" "drive_remember p i s = (r, s')"
  show "ids_bounded s'"
    using s length_AList_update[of p i "ds_ids s"] by (auto simp: drive_remember_def ids_bounded_def putM_def maxCachedIds_def)
qed

lemma keeps_drive_cache:
  "keeps ids_bounded (drive_cached p)" "keeps ids_bounded (drive_forget p)"
  by (auto simp: keeps_def drive_cached_def drive_forget_def ids_bounded_def getM_def putM_def
      intro: order_trans[OF AList.length_delete_le])

lemmas keeps_ids = keeps_intros keeps_defer keeps_drive_remote keeps_drive_remember keeps_drive_cache

lemma keeps_drive_requests:
  "keeps ids_bounded (drive_checkStatus st p)" "keeps ids_bounded (drive_call A cfg m u t b)"
  "keeps ids_bounded (drive_callBytes A cfg m u t b)" "keeps ids_bounded (drive_callRef A cfg m u t b)"
  unfolding drive_callRef_def drive_callBytes_def drive_call_def drive_token_def drive_checkStatus_def
  by (auto intro!: keeps_ids split: option.split)

lemma keeps_drive_lookup: "keeps ids_bounded (drive_lookup A cfg p)" "keeps ids_bounded (requireId A cfg p)"
  unfolding drive_lookup_def requireId_def
  by (auto intro!: keeps_ids keeps_drive_requests split: option.split list.split)

lemma keeps_deleteByName: "keeps ids_bounded (deleteByName A cfg p)"
  unfolding deleteByName_def
  by (auto intro!: keeps_ids keeps_drive_requests keeps_drive_lookup split: option.split)

lemma drive_ids_bounded:
  "keeps ids_bounded (drive_Put A cfg b p c)" "keeps ids_bounded (drive_Get A cfg p)" "keeps ids_bounded (drive_Copy A cfg p q)"
  "keeps ids_bounded (drive_Delete A cfg p)" "keeps ids_bounded (drive_Probe A cfg b t)"
  unfolding drive_Put_def drive_Get_def drive_Copy_def drive_Delete_def drive_Probe_def probe_with_def Let_def
  by (auto intro!: keeps_ids keeps_drive_requests keeps_drive_lookup keeps_deleteByName)

section \<open>Stale ids\<close>

text \<open>An id that is cached and unknown to Drive: the one request of a deletion is refused, and the deletion reports success.\<close>

lemma stale_delete:
  assumes cached: "map_of (ds_ids s) path = Some fileId" and connected: "gd_RefreshToken cfg \<noteq> []"
    and token: "da_Token A cfg (ds_remote s) = (Ok accessToken, x)"
    and unknown: "da_Do A \<lparr>hr_Method = ''DELETE'', hr_Url = drive_file_url fileId @ ''?supportsAllDrives=true'', hr_Body = [],
      hr_Headers = [(''Authorization'', ''Bearer '' @ accessToken)]\<rparr> x = (Ok (404, body), y)"
  shows "drive_Delete A cfg path s = (Ok (), s\<lparr>ds_ids := AList.delete path (ds_ids s), ds_remote := y\<rparr>)"
  using assms
  by (simp add: drive_Delete_def deleteByName_def drive_lookup_def drive_cached_def drive_call_def drive_token_def drive_remote_def
      drive_forget_def bindM_def getM_def putM_def returnM_def)

text \<open>A write then adds a file, whatever files of the name there are.\<close>

lemma stale_put:
  assumes "drive_Delete A cfg path s = (Ok (), s1)"
  shows "drive_Put A cfg boundary path content s =
    bindM (drive_callRef A cfg ''POST'' (drive_uploadBase @ ''/files?uploadType=multipart&supportsAllDrives=true&fields=id'')
       (''multipart/related; boundary='' @ boundary) (writeMultipartParts boundary (file_metadata cfg path) content))
     (drive_remember path) s1"
  using assms by (simp add: drive_Put_def drive_Delete_def bindM_def[of "deleteByName A cfg path"])

end
