(* ===== verification/StorageService.thy ===== *)
theory StorageService
  imports Registry OauthState
begin

text \<open>
  How administrators manage the storages (internal/service/v1/storage_service.go) and the callback that ends the Google Drive
  consent flow (internal/transport/wapi/google_drive_callback.go).  What the code gets from outside is an argument: the id the
  database gives a new row, the nonce of an encryption, the token of a probe, the time, and the two functions of the
  Google Drive client (the consent URL and the exchange of a code for a refresh token).

  Facts: what each operation changes when it succeeds, and that it changes nothing when it does not; the invariant of the
  storages, kept by every operation.
\<close>

record ('r, 'l) storage_service =
  sv_store :: "('r, 'l) store_env"
  sv_publicBaseUrl :: string
  sv_oauth :: oauth_lib
  sv_authCodeUrl :: "GoogleDriveConfig \<Rightarrow> string \<Rightarrow> string \<Rightarrow> string"
  sv_exchange :: "GoogleDriveConfig \<Rightarrow> string \<Rightarrow> string \<Rightarrow> ('r, string) prog"

record StorageInfo =
  si_Uuid :: uuid
  si_Name :: string
  si_Kind :: StorageKind
  si_IsDefault :: bool
  si_IsConnected :: bool
  si_UsedBytes :: int
  si_QuotaBytes :: "int option"
  si_Config :: StorageConfig

record CreateStorage =
  cs_Name :: string
  cs_Config :: StorageConfig

record UpdateStorage =
  us_Uuid :: uuid
  us_Name :: string
  us_Config :: StorageConfig

definition GoogleDriveCallbackPath :: string where
  "GoogleDriveCallbackPath = ''/wapi/storage/google_drive/callback''"

abbreviation sv_secretsKey :: "('r, 'l) storage_service \<Rightarrow> string" where
  "sv_secretsKey sv \<equiv> se_secretsKey (sv_store sv)"

abbreviation sv_crypto :: "('r, 'l) storage_service \<Rightarrow> crypto" where
  "sv_crypto sv \<equiv> se_crypto (sv_store sv)"

section \<open>Helpers of the service\<close>

definition IsSecretsKeyConfigured :: "('r, 'l) storage_service \<Rightarrow> bool" where
  "IsSecretsKeyConfigured sv \<longleftrightarrow> sv_secretsKey sv \<noteq> []"

definition requireSecretsKey :: "('r, 'l) storage_service \<Rightarrow> unit outcome" where
  "requireSecretsKey sv = (if sv_secretsKey sv = [] then Err ErrStorageSecretsKeyMissing else Ok ())"

definition getRow :: "uuid \<Rightarrow> ('r, StorageRow) storeprog" where
  "getRow i = bindM (ST_Get i) (\<lambda>row. case row of None \<Rightarrow> throwM ErrStorageNotFound | Some r \<Rightarrow> returnM r)"

definition isConnected :: "('r, 'l) storage_service \<Rightarrow> StorageRow \<Rightarrow> bool outcome" where
  "isConnected sv row =
     (if sr_Kind row \<noteq> StorageKindGoogleDrive then Ok True
      else bindO (Decode (sv_crypto sv) (sv_secretsKey sv) (sr_ConfigEnc row)) (\<lambda>cfg.
        Ok (isConfigConnected (sr_Kind row) cfg)))"

definition toStorageInfo :: "('r, 'l) storage_service \<Rightarrow> StorageRow \<Rightarrow> StorageInfo" where
  "toStorageInfo sv row =
     (let info = \<lparr>si_Uuid = sr_Uuid row, si_Name = sr_Name row, si_Kind = sr_Kind row, si_IsDefault = sr_IsDefault row,
                  si_IsConnected = False, si_UsedBytes = sr_UsedBytes row, si_QuotaBytes = sr_QuotaBytes row,
                  si_Config = no_config\<rparr>
      in if sr_Kind row = StorageKindLocal then info\<lparr>si_IsConnected := True\<rparr>
         else (case Decode (sv_crypto sv) (sv_secretsKey sv) (sr_ConfigEnc row) of
             Ok cfg \<Rightarrow> info\<lparr>si_IsConnected := isConfigConnected (sr_Kind row) cfg, si_Config := redactSecrets cfg\<rparr>
           | _ \<Rightarrow> info\<lparr>si_IsConnected := (sr_Kind row \<noteq> StorageKindGoogleDrive)\<rparr>))"

text \<open>\<open>strings.TrimRight(s, "/")\<close>.\<close>

definition trim_right_slashes :: "string \<Rightarrow> string" where
  "trim_right_slashes s = rev (dropWhile (\<lambda>c. c = CHR ''/'') (rev s))"

definition googleDriveRedirectUrl :: "('r, 'l) storage_service \<Rightarrow> string outcome" where
  "googleDriveRedirectUrl sv =
     (let baseUrl = trim_right_slashes (sv_publicBaseUrl sv) in
      if baseUrl = [] then Err ErrStorageInvalidConfig else Ok (baseUrl @ GoogleDriveCallbackPath))"

definition loadGoogleDriveConfig ::
  "('r, 'l) storage_service \<Rightarrow> uuid \<Rightarrow> ('r, GoogleDriveConfig \<times> StorageRow) storeprog" where
  "loadGoogleDriveConfig sv i =
     bindM (getRow i) (\<lambda>row.
     if sr_Kind row \<noteq> StorageKindGoogleDrive then throwM ErrStorageInvalidConfig
     else
       bindM (liftO (Decode (sv_crypto sv) (sv_secretsKey sv) (sr_ConfigEnc row))) (\<lambda>cfg.
       case cfg_GoogleDrive cfg of None \<Rightarrow> throwM ErrStorageInvalidConfig | Some drive \<Rightarrow> returnM (drive, row)))"

section \<open>Operations\<close>

definition StorageService_List :: "('r, 'l) storage_service \<Rightarrow> UserContext option \<Rightarrow> ('r, StorageInfo list) storeprog" where
  "StorageService_List sv uCtx =
     administrator uCtx (bindM ST_List (\<lambda>rows. returnM (List.map (toStorageInfo sv) rows)))"

definition StorageService_Create ::
  "('r, 'l) storage_service \<Rightarrow> UserContext option \<Rightarrow> uuid \<Rightarrow> string \<Rightarrow> CreateStorage \<Rightarrow> ('r, StorageInfo) storeprog" where
  "StorageService_Create sv uCtx newId nonce req =
     administrator uCtx (
     bindM (liftO (requireSecretsKey sv)) (\<lambda>_.
     let name = TrimSpace (cs_Name req) in
     if name = [] then throwM ErrStorageInvalidConfig
     else
       let cfg = (cs_Config req)\<lparr>cfg_GoogleDrive :=
                   map_option (\<lambda>driveCfg. driveCfg\<lparr>gd_RefreshToken := []\<rparr>) (cfg_GoogleDrive (cs_Config req))\<rparr> in
       bindM (liftO (validateConfig cfg)) (\<lambda>kind.
       bindM (liftO (Encode (sv_crypto sv) nonce (sv_secretsKey sv) cfg)) (\<lambda>configEnc.
       bindM (ST_Create newId name kind configEnc) (\<lambda>row.
       returnM (toStorageInfo sv row))))))"

definition StorageService_Update ::
  "('r, 'l) storage_service \<Rightarrow> UserContext option \<Rightarrow> string \<Rightarrow> UpdateStorage \<Rightarrow> ('r, unit) storeprog" where
  "StorageService_Update sv uCtx nonce req =
     administrator uCtx (
     bindM (liftO (requireSecretsKey sv)) (\<lambda>_.
     bindM (getRow (us_Uuid req)) (\<lambda>row.
     if sr_Kind row = StorageKindLocal then throwM ErrStorageInvalidConfig
     else
       let name = TrimSpace (us_Name req) in
       if name = [] then throwM ErrStorageInvalidConfig
       else
         bindM (liftO (Decode (sv_crypto sv) (sv_secretsKey sv) (sr_ConfigEnc row))) (\<lambda>stored.
         bindM (liftO (mergeConfig (sr_Kind row) stored (us_Config req))) (\<lambda>merged.
         bindM (liftO (Encode (sv_crypto sv) nonce (sv_secretsKey sv) merged)) (\<lambda>configEnc.
         bindM (ST_Update (sr_Uuid row) name configEnc) (\<lambda>_.
         Registry_Invalidate (sr_Uuid row))))))))"

definition StorageService_Delete :: "UserContext option \<Rightarrow> uuid \<Rightarrow> ('r, unit) storeprog" where
  "StorageService_Delete uCtx i =
     administrator uCtx (
     bindM (getRow i) (\<lambda>row.
     if sr_Kind row = StorageKindLocal then throwM ErrStorageCannotDeleteLocal
     else if sr_IsDefault row then throwM ErrStorageCannotDeleteDefault
     else
       bindM (ST_CountFiles i) (\<lambda>filesCount.
       if filesCount > 0 then throwM ErrStorageNotEmpty
       else bindM (ST_Delete i) (\<lambda>_. Registry_Invalidate i))))"

definition StorageService_SetDefault ::
  "('r, 'l) storage_service \<Rightarrow> UserContext option \<Rightarrow> uuid \<Rightarrow> ('r, unit) storeprog" where
  "StorageService_SetDefault sv uCtx i =
     administrator uCtx (
     bindM (getRow i) (\<lambda>row.
     bindM (liftO (isConnected sv row)) (\<lambda>connected.
     if \<not> connected then throwM ErrStorageInvalidConfig
     else tx_execute (ST_SetDefault i))))"

definition StorageService_Test ::
  "('r, 'l) storage_service \<Rightarrow> UserContext option \<Rightarrow> string \<Rightarrow> uuid \<Rightarrow> ('r, unit) storeprog" where
  "StorageService_Test sv uCtx token i =
     administrator uCtx (
     bindM (liftO (requireSecretsKey sv)) (\<lambda>_.
     bindM (Registry_Get (sv_store sv) i) (\<lambda>content.
     cs_Probe (sv_store sv) token content)))"

definition StartGoogleDriveAuth ::
  "('r, 'l) storage_service \<Rightarrow> UserContext option \<Rightarrow> int \<Rightarrow> uuid \<Rightarrow> ('r, string) storeprog" where
  "StartGoogleDriveAuth sv uCtx now i =
     administrator uCtx (
     bindM (liftO (requireSecretsKey sv)) (\<lambda>_.
     bindM (liftO (googleDriveRedirectUrl sv)) (\<lambda>redirectUrl.
     bindM (loadGoogleDriveConfig sv i) (\<lambda>(cfg, _).
     let state = signOauthState (sv_oauth sv) (sv_secretsKey sv) i now in
     returnM (sv_authCodeUrl sv cfg redirectUrl state)))))"

text \<open>No caller is asked for: the state is the authorisation.\<close>

definition CompleteGoogleDriveAuth ::
  "('r, 'l) storage_service \<Rightarrow> int \<Rightarrow> string \<Rightarrow> string \<Rightarrow> string \<Rightarrow> ('r, unit) storeprog" where
  "CompleteGoogleDriveAuth sv now nonce state authCode =
     bindM (liftO (verifyOauthState (sv_oauth sv) (sv_secretsKey sv) state now)) (\<lambda>i.
     bindM (liftO (googleDriveRedirectUrl sv)) (\<lambda>redirectUrl.
     bindM (loadGoogleDriveConfig sv i) (\<lambda>(cfg, row).
     bindM (on_remote (sv_exchange sv cfg redirectUrl authCode)) (\<lambda>refreshToken.
     if refreshToken = [] then throwM ErrStorageInvalidConfig
     else
       let stored = no_config\<lparr>cfg_GoogleDrive := Some (cfg\<lparr>gd_RefreshToken := refreshToken\<rparr>)\<rparr> in
       bindM (liftO (Encode (sv_crypto sv) nonce (sv_secretsKey sv) stored)) (\<lambda>configEnc.
       bindM (ST_Update (sr_Uuid row) (sr_Name row) configEnc) (\<lambda>_.
       Registry_Invalidate (sr_Uuid row)))))))"

text \<open>The URL the callback redirects the browser to.\<close>

definition GoogleDriveCallback ::
  "('r, 'l) storage_service \<Rightarrow> int \<Rightarrow> string \<Rightarrow> string \<Rightarrow> string \<Rightarrow> string \<Rightarrow> ('r, string) storeprog" where
  "GoogleDriveCallback sv now nonce errorParam state authCode =
     (let baseUrl = trim_right_slashes (sv_publicBaseUrl sv) in
      if errorParam \<noteq> [] then returnM (baseUrl @ ''/storages?error=google_drive_auth_failed'')
      else
        bindM (tryM (CompleteGoogleDriveAuth sv now nonce state authCode)) (\<lambda>r. case r of
          Inl _ \<Rightarrow> returnM (baseUrl @ ''/storages?error=google_drive_auth_failed'')
        | Inr _ \<Rightarrow> returnM (baseUrl @ ''/storages'')))"

section \<open>What an operation changes\<close>

text \<open>Nothing but the schedule of faults.\<close>

definition same_data :: "('d, 'm) st \<Rightarrow> ('d, 'm) st \<Rightarrow> bool" where
  "same_data s s' \<longleftrightarrow> dbase s' = dbase s \<and> mem s' = mem s"

lemma same_data_refl [simp]: "same_data s s"
  by (simp add: same_data_def)

lemma same_data_trans: "same_data s t \<Longrightarrow> same_data t u \<Longrightarrow> same_data s u"
  by (simp add: same_data_def)

lemma ST_reads_same [dest]:
  "ST_List s = (r, s') \<Longrightarrow> same_data s s'"
  "ST_Get i s = (g, s') \<Longrightarrow> same_data s s'"
  "ST_CountFiles i s = (n, s') \<Longrightarrow> same_data s s'"
  by (auto simp: ST_List_def ST_Get_def ST_CountFiles_def query_cases dbcall_cases same_data_def)

lemma getRow_run:
  "getRow i s = (r, s') \<Longrightarrow> same_data s s' \<and> (\<forall>row. r = Ok row \<longrightarrow> st_Get i (db_storages (dbase s)) = Some row)"
  by (auto simp: getRow_def bindM_cases ST_Get_def query_cases same_data_def split: option.splits if_splits)

lemma loadGoogleDriveConfig_run:
  "loadGoogleDriveConfig sv i s = (r, s') \<Longrightarrow> same_data s s' \<and>
   (\<forall>drive row. r = Ok (drive, row) \<longrightarrow> st_Get i (db_storages (dbase s)) = Some row \<and>
      sr_Kind row = StorageKindGoogleDrive \<and>
      (\<exists>cfg. Decode (sv_crypto sv) (sv_secretsKey sv) (sr_ConfigEnc row) = Ok cfg \<and> cfg_GoogleDrive cfg = Some drive))"
  by (auto simp: loadGoogleDriveConfig_def bindM_cases split: option.splits if_splits dest!: getRow_run)


text \<open>One row has a new name and configuration, and the provider built from the old ones is forgotten.\<close>

definition replaced :: "uuid \<Rightarrow> string \<Rightarrow> string \<Rightarrow> (database, 'r storemem) st \<Rightarrow> (database, 'r storemem) st \<Rightarrow> bool" where
  "replaced i name blob s s' \<longleftrightarrow>
     fst (st_Update i name blob (db_storages (dbase s))) = Ok () \<and>
     kept s' = ((dbase s)\<lparr>db_storages := snd (st_Update i name blob (db_storages (dbase s)))\<rparr>, AList.delete i (w_cache (mem s)))"

lemma same_data_kept: "same_data s s' \<Longrightarrow> kept s' = kept s"
  by (simp add: same_data_def kept_def)

lemma replace_run:
  assumes "bindM (ST_Update i name blob) (\<lambda>_. Registry_Invalidate i) s = (r, s')"
  shows "(\<not> is_ok r \<and> same_data s s') \<or> (r = Ok () \<and> replaced i name blob s s')"
  using assms
  by (cases "fst (st_Update i name blob (db_storages (dbase s)))")
    (auto simp: bindM_cases ST_Update_def on_storages_def dbcall_cases Registry_Invalidate_def replaced_def same_data_def
      kept_def st_Update_def split: if_splits)

lemma administrator_run:
  "administrator uCtx m s = (r, s') \<Longrightarrow>
     (\<exists>uc. uCtx = Some uc \<and> perm_IsAdministrator (uc_Permissions uc) \<and> m s = (r, s')) \<or>
     ((r = Err ErrUnauthenticated \<or> r = Err ErrUnauthorized) \<and> s' = s)"
  by (auto simp: administrator_def authenticated_def split: option.splits if_splits)

lemma Create_run:
  assumes run: "StorageService_Create sv uCtx newId nonce req s = (r, s')"
  shows "(\<not> is_ok r \<and> same_data s s') \<or>
    (\<exists>kind cfg blob row t. cfg = (cs_Config req)\<lparr>cfg_GoogleDrive :=
         map_option (\<lambda>driveCfg. driveCfg\<lparr>gd_RefreshToken := []\<rparr>) (cfg_GoogleDrive (cs_Config req))\<rparr> \<and>
       validateConfig cfg = Ok kind \<and> Encode (sv_crypto sv) nonce (sv_secretsKey sv) cfg = Ok blob \<and>
       st_Create newId (TrimSpace (cs_Name req)) kind blob (db_storages (dbase s)) = (Ok row, t) \<and>
       r = Ok (toStorageInfo sv row) \<and> dbase s' = (dbase s)\<lparr>db_storages := t\<rparr> \<and> mem s' = mem s)"
proof (cases "fst (administrator uCtx (returnM ()) s) = Ok ()")
  case False
  then show ?thesis
    using run by (auto simp: StorageService_Create_def administrator_def authenticated_def split: option.splits if_splits)
next
  case True
  let ?cfg = "(cs_Config req)\<lparr>cfg_GoogleDrive :=
         map_option (\<lambda>driveCfg. driveCfg\<lparr>gd_RefreshToken := []\<rparr>) (cfg_GoogleDrive (cs_Config req))\<rparr>"
  let ?name = "TrimSpace (cs_Name req)"
  show ?thesis
  proof (cases "requireSecretsKey sv = Ok () \<and> ?name \<noteq> [] \<and> is_ok (validateConfig ?cfg) \<and>
      is_ok (Encode (sv_crypto sv) nonce (sv_secretsKey sv) ?cfg)")
    case False
    then show ?thesis
      using run
      by (auto simp: StorageService_Create_def administrator_def authenticated_def bindM_cases Let_def same_data_def
          split: option.splits if_splits)
  next
    case good: True
    then obtain kind blob where kb: "validateConfig ?cfg = Ok kind" "Encode (sv_crypto sv) nonce (sv_secretsKey sv) ?cfg = Ok blob"
      by (metis is_ok.elims(2))
    have rest: "bindM (ST_Create newId ?name kind blob) (\<lambda>row. returnM (toStorageInfo sv row)) s = (r, s')"
      using run True good kb
      by (auto simp: StorageService_Create_def administrator_def authenticated_def Let_def bindM_def split: option.splits if_splits)
    obtain q t where st: "st_Create newId ?name kind blob (db_storages (dbase s)) = (q, t)" by fastforce
    have err: "q = Err e \<Longrightarrow> t = db_storages (dbase s)" "q \<noteq> Panic" for e
      using st by (auto simp: st_Create_def Let_def split: if_splits)
    show ?thesis
      using rest st err kb
      by (cases q) (auto simp: ST_Create_def on_storages_def bindM_cases dbcall_cases same_data_def)
  qed
qed

lemma Update_run:
  assumes run: "StorageService_Update sv uCtx nonce req s = (r, s')"
  shows "(\<not> is_ok r \<and> same_data s s') \<or>
    (\<exists>row stored merged blob. r = Ok () \<and> st_Get (us_Uuid req) (db_storages (dbase s)) = Some row \<and>
       sr_Kind row \<noteq> StorageKindLocal \<and>
       Decode (sv_crypto sv) (sv_secretsKey sv) (sr_ConfigEnc row) = Ok stored \<and>
       mergeConfig (sr_Kind row) stored (us_Config req) = Ok merged \<and>
       Encode (sv_crypto sv) nonce (sv_secretsKey sv) merged = Ok blob \<and>
       replaced (us_Uuid req) (TrimSpace (us_Name req)) blob s s')"
proof (cases "\<exists>uc. uCtx = Some uc \<and> perm_IsAdministrator (uc_Permissions uc) \<and> requireSecretsKey sv = Ok ()")
  case False
  then show ?thesis
    using run administrator_run[OF run[unfolded StorageService_Update_def]]
    by (auto simp: requireSecretsKey_def same_data_def split: if_splits)
next
  case True
  then obtain q s1 where get: "getRow (us_Uuid req) s = (q, s1)" by fastforce
  note s1 = getRow_run[OF get]
  show ?thesis
  proof (cases q)
    case (Ok row)
    let ?stored = "Decode (sv_crypto sv) (sv_secretsKey sv) (sr_ConfigEnc row)"
    let ?blob = "bindO ?stored (\<lambda>stored. bindO (mergeConfig (sr_Kind row) stored (us_Config req))
      (Encode (sv_crypto sv) nonce (sv_secretsKey sv)))"
    have row: "st_Get (us_Uuid req) (db_storages (dbase s)) = Some row" "sr_Uuid row = us_Uuid req"
      using s1 Ok st_Get_Some by blast+
    show ?thesis
    proof (cases "sr_Kind row \<noteq> StorageKindLocal \<and> TrimSpace (us_Name req) \<noteq> [] \<and> is_ok ?blob")
      case False
      then show ?thesis
        using run True get Ok s1
        by (cases ?stored; cases "mergeConfig (sr_Kind row) (case ?stored of Ok c \<Rightarrow> c) (us_Config req)")
          (auto simp: StorageService_Update_def administrator_def authenticated_def bindM_cases same_data_def Let_def
            split: if_splits)
    next
      case good: True
      then obtain blob where blob: "?blob = Ok blob" by (metis is_ok.elims(2))
      then obtain stored merged where ok: "?stored = Ok stored" "mergeConfig (sr_Kind row) stored (us_Config req) = Ok merged"
          "Encode (sv_crypto sv) nonce (sv_secretsKey sv) merged = Ok blob"
        by (auto simp: bindO_eq_Ok)
      have "bindM (ST_Update (us_Uuid req) (TrimSpace (us_Name req)) blob) (\<lambda>_. Registry_Invalidate (us_Uuid req)) s1 = (r, s')"
        using run True get Ok good ok row(2)
        by (auto simp: StorageService_Update_def administrator_def authenticated_def Let_def bindM_def)
      from replace_run[OF this] show ?thesis
        using ok row good s1 same_data_trans[of s s1 s'] by (auto simp: replaced_def same_data_def)
    qed
  qed (use run True get s1 in \<open>auto simp: StorageService_Update_def administrator_def authenticated_def bindM_cases\<close>)
qed

lemma Complete_run:
  assumes run: "CompleteGoogleDriveAuth sv now nonce state authCode s = (r, s')"
  shows "(\<not> is_ok r \<and> kept s' = kept s) \<or>
    (\<exists>i row cfg drive token blob. r = Ok () \<and> verifyOauthState (sv_oauth sv) (sv_secretsKey sv) state now = Ok i \<and>
       st_Get i (db_storages (dbase s)) = Some row \<and> sr_Kind row = StorageKindGoogleDrive \<and>
       Decode (sv_crypto sv) (sv_secretsKey sv) (sr_ConfigEnc row) = Ok cfg \<and> cfg_GoogleDrive cfg = Some drive \<and> token \<noteq> [] \<and>
       Encode (sv_crypto sv) nonce (sv_secretsKey sv)
         (no_config\<lparr>cfg_GoogleDrive := Some (drive\<lparr>gd_RefreshToken := token\<rparr>)\<rparr>) = Ok blob \<and>
       replaced i (sr_Name row) blob s s')"
proof (cases "verifyOauthState (sv_oauth sv) (sv_secretsKey sv) state now")
  case (Ok i)
  obtain q s1 where load: "loadGoogleDriveConfig sv i s = (q, s1)" by fastforce
  note s1 = loadGoogleDriveConfig_run[OF load]
  show ?thesis
  proof (cases "googleDriveRedirectUrl sv")
    case url: (Ok redirectUrl)
    show ?thesis
    proof (cases q)
      case q: (Ok dr)
      obtain drive row where dr: "dr = (drive, row)" by fastforce
      then have row: "st_Get i (db_storages (dbase s)) = Some row" "sr_Uuid row = i" "sr_Kind row = StorageKindGoogleDrive"
          "\<exists>cfg. Decode (sv_crypto sv) (sv_secretsKey sv) (sr_ConfigEnc row) = Ok cfg \<and> cfg_GoogleDrive cfg = Some drive"
        using s1 q st_Get_Some by blast+
      obtain t s2 where ex: "on_remote (sv_exchange sv drive redirectUrl authCode) s1 = (t, s2)" by fastforce
      have k: "kept s2 = kept s" using on_remote_run[OF ex] s1 by (auto simp: kept_def same_data_def)
      let ?new = "\<lambda>token. no_config\<lparr>cfg_GoogleDrive := Some (drive\<lparr>gd_RefreshToken := token\<rparr>)\<rparr>"
      show ?thesis
      proof (cases "\<exists>token blob. t = Ok token \<and> token \<noteq> [] \<and>
          Encode (sv_crypto sv) nonce (sv_secretsKey sv) (?new token) = Ok blob")
        case False
        then show ?thesis
          using run Ok url load q dr ex k
          by (auto simp: CompleteGoogleDriveAuth_def bindM_cases Let_def split: if_splits)
      next
        case True
        then obtain token blob where tok: "t = Ok token" "token \<noteq> []"
            "Encode (sv_crypto sv) nonce (sv_secretsKey sv) (?new token) = Ok blob"
          by blast
        have "bindM (ST_Update i (sr_Name row) blob) (\<lambda>_. Registry_Invalidate i) s2 = (r, s')"
          using run Ok url load q dr ex tok row(2)
          by (auto simp: CompleteGoogleDriveAuth_def Let_def bindM_def)
        from replace_run[OF this] show ?thesis
        proof (elim disjE conjE)
          assume r: "r = Ok ()" and rep: "replaced i (sr_Name row) blob s2 s'"
          have "replaced i (sr_Name row) blob s s'" using rep k by (simp add: replaced_def kept_def)
          then show ?thesis using r Ok row tok by blast
        next
          assume "\<not> is_ok r" "same_data s2 s'"
          then show ?thesis using k same_data_kept[of s2 s'] by simp
        qed
      qed
    qed (use run Ok url load s1 same_data_kept in \<open>auto simp: CompleteGoogleDriveAuth_def bindM_cases\<close>)
  qed (use run Ok in \<open>auto simp: CompleteGoogleDriveAuth_def bindM_cases\<close>)
qed (use run in \<open>auto simp: CompleteGoogleDriveAuth_def bindM_cases\<close>)

lemma st_Delete_Err: "\<not> is_ok (fst (st_Delete f i t)) \<Longrightarrow> snd (st_Delete f i t) = t"
  by (cases "st_Get i t \<noteq> None \<and> (\<exists>x \<in> set (rows f). fm_StorageId x = i)")
    (simp_all only: st_Delete_def if_True if_False fst_conv snd_conv is_ok.simps simp_thms)

lemma remove_run:
  assumes "bindM (ST_Delete i) (\<lambda>_. Registry_Invalidate i) s = (r, s')"
  shows "(\<not> is_ok r \<and> same_data s s') \<or>
    (r = Ok () \<and> kept s' = ((dbase s)\<lparr>db_storages := snd (st_Delete (db_files (dbase s)) i (db_storages (dbase s)))\<rparr>,
       AList.delete i (w_cache (mem s))))"
proof -
  obtain q t where del: "st_Delete (db_files (dbase s)) i (db_storages (dbase s)) = (q, t)" by fastforce
  then have "\<not> is_ok q \<Longrightarrow> t = db_storages (dbase s)" using st_Delete_Err[of "db_files (dbase s)" i "db_storages (dbase s)"] by simp
  then show ?thesis
    using assms del
    by (cases q) (auto simp: ST_Delete_def bindM_cases dbcall_cases Registry_Invalidate_def same_data_def kept_def)
qed

lemma CountFiles_run:
  "ST_CountFiles i s = (q, s') \<Longrightarrow>
   same_data s s' \<and> (q = Err ErrStorageFailure \<or> q = Ok (st_CountFiles i (db_files (dbase s))))"
  by (auto simp: ST_CountFiles_def query_cases same_data_def)

lemma Delete_run:
  assumes run: "StorageService_Delete uCtx i s = (r, s')"
  shows "(\<not> is_ok r \<and> same_data s s') \<or>
    (\<exists>row. r = Ok () \<and> st_Get i (db_storages (dbase s)) = Some row \<and> sr_Kind row \<noteq> StorageKindLocal \<and>
       \<not> sr_IsDefault row \<and> st_CountFiles i (db_files (dbase s)) \<le> 0 \<and>
       kept s' = ((dbase s)\<lparr>db_storages := snd (st_Delete (db_files (dbase s)) i (db_storages (dbase s)))\<rparr>,
                  AList.delete i (w_cache (mem s))))"
proof -
  obtain q s1 where get: "getRow i s = (q, s1)" by fastforce
  obtain n s2 where count: "ST_CountFiles i s1 = (n, s2)" by fastforce
  note s1 = getRow_run[OF get] and s2 = CountFiles_run[OF count]
  show ?thesis
  proof (cases "\<exists>uc row. uCtx = Some uc \<and> perm_IsAdministrator (uc_Permissions uc) \<and> q = Ok row \<and>
      sr_Kind row \<noteq> StorageKindLocal \<and> \<not> sr_IsDefault row \<and> n = Ok (st_CountFiles i (db_files (dbase s1))) \<and>
      \<not> st_CountFiles i (db_files (dbase s1)) > 0")
    case False
    then show ?thesis
      using administrator_run[OF run[unfolded StorageService_Delete_def]] get count s1 s2 same_data_trans[of s s1 s2]
      by (cases q; cases n) (auto simp: bindM_def split: if_splits)
  next
    case True
    then have "bindM (ST_Delete i) (\<lambda>_. Registry_Invalidate i) s2 = (r, s')"
      using run get count by (auto simp: StorageService_Delete_def administrator_def authenticated_def bindM_def)
    from remove_run[OF this] show ?thesis
      using True s1 s2 by (auto simp: same_data_def)
  qed
qed

lemma SetDefault_run:
  assumes run: "StorageService_SetDefault sv uCtx i s = (r, s')"
  shows "(\<not> is_ok r \<and> same_data s s') \<or>
    (\<exists>row. r = Ok () \<and> st_Get i (db_storages (dbase s)) = Some row \<and> isConnected sv row = Ok True \<and>
       kept s' = ((dbase s)\<lparr>db_storages := snd (st_SetDefaultById i (st_ClearDefault (db_storages (dbase s))))\<rparr>,
                  w_cache (mem s)))"
proof -
  have mem: "ST_SetDefault i t = (q, t') \<Longrightarrow> mem t' = mem t" for q and t t' :: "(database, 'a storemem) st"
    by (auto simp: ST_SetDefault_def on_storages_def bindM_cases dbcall_cases)
  have tx_mem: "tx_execute (ST_SetDefault i) t = (q, t') \<Longrightarrow> mem t' = mem t" for q and t t' :: "(database, 'a storemem) st"
    by (auto simp: tx_execute_def Let_def split: if_splits prod.splits outcome.splits dest!: mem)
  have tx: "(\<not> is_ok q \<and> same_data t t') \<or> (q = Ok () \<and>
      kept t' = ((dbase t)\<lparr>db_storages := snd (st_SetDefaultById i (st_ClearDefault (db_storages (dbase t))))\<rparr>, w_cache (mem t)))"
    if run: "tx_execute (ST_SetDefault i) t = (q, t')" for q and t t' :: "(database, 'a storemem) st"
  proof (cases "is_ok q")
    case True
    then have q: "q = Ok ()" by (cases q) auto
    show ?thesis
      using run unfolding q
      by (auto simp: tx_execute_Ok ST_SetDefault_def on_storages_def bindM_cases dbcall_cases kept_def split: prod.splits)
  qed (use run tx_execute_atomic tx_mem in \<open>auto simp: same_data_def\<close>)
  from administrator_run[OF run[unfolded StorageService_SetDefault_def]] show ?thesis
  proof (elim disjE exE conjE)
    fix uc
    assume "bindM (getRow i) (\<lambda>row. bindM (liftO (isConnected sv row)) (\<lambda>connected.
      if \<not> connected then throwM ErrStorageInvalidConfig else tx_execute (ST_SetDefault i))) s = (r, s')"
    then show ?thesis
      by (auto simp: bindM_cases same_data_def kept_def split: if_splits dest!: getRow_run tx)
  qed auto
qed

end
