(* ===== verification/StorageInvariants.thy ===== *)
theory StorageInvariants
  imports StorageService FilePlacement
begin

text \<open>
  What holds of the storages whatever administrators do: the invariant every operation of the storage service keeps,
  with the lookups of the registry that run between them; what a client can learn of the stored secrets; and what editing a storage
  does to it.
\<close>

section \<open>The invariant\<close>

text \<open>A remote row's configuration decodes, under the secrets key, to a complete one of the row's kind.\<close>

definition config_typed :: "('r, 'l) storage_service \<Rightarrow> StorageRow \<Rightarrow> bool" where
  "config_typed sv row \<longleftrightarrow> sr_Kind row = StorageKindLocal \<or>
     (\<exists>cfg. Decode (sv_crypto sv) (sv_secretsKey sv) (sr_ConfigEnc row) = Ok cfg \<and> validateConfig cfg = Ok (sr_Kind row))"

definition one_default :: "StorageRow list \<Rightarrow> bool" where
  "one_default t \<longleftrightarrow> length (List.filter sr_IsDefault t) = 1"

definition storage_inv :: "('r, 'l) storage_service \<Rightarrow> (database, 'r storemem) st \<Rightarrow> bool" where
  "storage_inv sv s \<longleftrightarrow> db_inv (dbase s) \<and> cache_ok (sv_store sv) s \<and> one_default (db_storages (dbase s)) \<and>
     (\<forall>row \<in> set (db_storages (dbase s)). config_typed sv row)"

lemma storage_inv_cong: "kept s' = kept s \<Longrightarrow> storage_inv sv s' = storage_inv sv s"
  by (simp add: storage_inv_def kept_def cache_ok_def)

lemma storage_inv_same: "same_data s s' \<Longrightarrow> storage_inv sv s \<Longrightarrow> storage_inv sv s'"
  using storage_inv_cong same_data_kept by blast

lemma to_valid_Nil [simp]: "to_valid s = [] \<longleftrightarrow> s = []"
proof (cases s)
  case (Cons c cs)
  have "replacement \<noteq> []" by (simp add: replacement_def)
  then show ?thesis using Cons by (simp add: to_valid.simps(2) Let_def)
qed simp

lemma validateConfig_valid: "validateConfig (valid_config cfg) = validateConfig cfg"
  by (cases "cfg_S3 cfg"; cases "cfg_Webdav cfg"; cases "cfg_GoogleDrive cfg")
    (auto simp: validateConfig_def kindOfConfig_def complete_config_def valid_config_def valid_s3_def valid_webdav_def
      valid_drive_def)

lemma config_typed_Encode:
  assumes "aead_laws (sv_crypto sv)" "length nonce = nonceSize"
    and "Encode (sv_crypto sv) nonce (sv_secretsKey sv) cfg = Ok (sr_ConfigEnc row)" "validateConfig cfg = Ok (sr_Kind row)"
  shows "config_typed sv row"
  using Decode_Encode[OF assms(1-3)] assms(4) validateConfig_valid[of cfg] by (simp add: config_typed_def)

lemma mergeConfig_valid:
  assumes "mergeConfig kind stored incoming = Ok merged"
  shows "validateConfig merged = Ok kind"
proof -
  have "kindOfConfig merged = Some kind"
    using assms
    by (cases kind) (auto simp: mergeConfig_def Let_def bindO_eq_Ok kindOfConfig_eq no_config_def split: if_splits)
  moreover obtain k where "validateConfig merged = Ok k"
    using assms by (auto simp: mergeConfig_def Let_def bindO_eq_Ok split: if_splits)
  ultimately show ?thesis by (simp add: validateConfig_Ok)
qed

lemma validateConfig_token:
  assumes "validateConfig cfg = Ok StorageKindGoogleDrive" "cfg_GoogleDrive cfg = Some drive"
  shows "validateConfig (no_config\<lparr>cfg_GoogleDrive := Some (drive\<lparr>gd_RefreshToken := token\<rparr>)\<rparr>) = Ok StorageKindGoogleDrive"
  using assms by (auto simp: validateConfig_Ok kindOfConfig_eq complete_config_def no_config_def)

text \<open>Replacing a row's configuration by one of the same kind, and forgetting its provider.\<close>

lemma provider_of_other:
  assumes "st_Get j t' = st_Get j (db_storages d)"
  shows "provider_of env (d\<lparr>db_storages := t'\<rparr>) j = provider_of env d j"
  using assms by (simp add: provider_of_def)

lemma cache_ok_delete:
  assumes "cache_ok env s" "kept s' = ((dbase s)\<lparr>db_storages := t'\<rparr>, AList.delete i (w_cache (mem s)))"
    and "\<And>j. j \<noteq> i \<Longrightarrow> st_Get j t' = st_Get j (db_storages (dbase s))"
  shows "cache_ok env s'"
  using assms by (auto simp: cache_ok_def kept_def delete_conv' provider_of_other)

lemma find_map_same: "(\<And>x. P (f x) = P x) \<Longrightarrow> find P (List.map f xs) = map_option f (find P xs)"
  by (induction xs) auto

lemma st_Get_map:
  assumes "\<And>r. sr_Uuid (f r) = sr_Uuid r" "\<And>r. sr_Uuid r = j \<Longrightarrow> f r = r"
  shows "st_Get j (List.map f t) = st_Get j t"
proof -
  have "st_Get j (List.map f t) = map_option f (st_Get j t)"
    unfolding st_Get_def by (rule find_map_same) (simp add: assms(1))
  then show ?thesis using st_Get_Some[of j t] assms(2) by (cases "st_Get j t") auto
qed

lemma st_Get_Update:
  "fst (st_Update i name blob t) = Ok () \<Longrightarrow> j \<noteq> i \<Longrightarrow> st_Get j (snd (st_Update i name blob t)) = st_Get j t"
  by (auto simp: st_Update_def intro!: st_Get_map split: if_splits)

lemma st_Get_Delete: "j \<noteq> i \<Longrightarrow> st_Get j (snd (st_Delete f i t)) = st_Get j t"
proof -
  assume "j \<noteq> i"
  then have "find (\<lambda>r. sr_Uuid r = j) (List.filter (\<lambda>r. sr_Uuid r \<noteq> i) t) = find (\<lambda>r. sr_Uuid r = j) t"
    by (induction t) auto
  then show ?thesis by (auto simp: st_Delete_def st_Get_def)
qed

lemma files_placed_map: "(\<And>r. sr_Uuid (f r) = sr_Uuid r) \<Longrightarrow> files_placed files (List.map f t) = files_placed files t"
  by (simp add: files_placed_def image_comp comp_def)

lemma replaced_inv:
  assumes inv: "storage_inv sv s" and rep: "replaced i name blob s s'"
    and row: "st_Get i (db_storages (dbase s)) = Some row" "config_typed sv (row\<lparr>sr_Name := name, sr_ConfigEnc := blob\<rparr>)"
  shows "storage_inv sv s'"
proof -
  let ?t = "db_storages (dbase s)"
  let ?t' = "snd (st_Update i name blob ?t)"
  let ?f = "\<lambda>r. if sr_Uuid r = i then r\<lparr>sr_Name := name, sr_ConfigEnc := blob\<rparr> else r"
  have ok: "storages_ok ?t" "files_placed (db_files (dbase s)) ?t" "one_default ?t" "cache_ok (sv_store sv) s"
    using inv by (simp_all add: storage_inv_def db_inv_def)
  have st: "fst (st_Update i name blob ?t) = Ok ()" and k: "kept s' = ((dbase s)\<lparr>db_storages := ?t'\<rparr>, AList.delete i (w_cache (mem s)))"
    using rep by (simp_all add: replaced_def)
  have t': "?t' = List.map ?f ?t" using st by (auto simp: st_Update_def split: if_splits)
  have d: "dbase s' = (dbase s)\<lparr>db_storages := ?t'\<rparr>" using k by (simp add: kept_def)
  have "db_inv (dbase s')"
    using inv storages_ok_Update[OF ok(1), of i name blob] ok(2) files_placed_map[of ?f "db_files (dbase s)" ?t] unfolding d
    by (simp add: storage_inv_def db_inv_def t')
  moreover have "one_default (db_storages (dbase s'))"
  proof -
    have "List.filter (\<lambda>r. sr_IsDefault (?f r)) ?t = List.filter sr_IsDefault ?t" by (rule filter_cong) auto
    then show ?thesis using ok(3) unfolding d by (simp add: one_default_def t' filter_map comp_def)
  qed
  moreover have "cache_ok (sv_store sv) s'" using cache_ok_delete[OF ok(4) k] st_Get_Update[OF st] by blast
  moreover have "config_typed sv r" if "r \<in> set (db_storages (dbase s'))" for r
  proof -
    have "r \<in> ?f ` set ?t" using that unfolding d t' by simp
    then obtain r0 where "r0 \<in> set ?t" "r = ?f r0" by blast
    moreover have "r0 = row" if "sr_Uuid r0 = i" using storage_unique[OF ok(1)] calculation(1) st_Get_Some[OF row(1)] that by auto
    ultimately show ?thesis using row(2) inv by (auto simp: storage_inv_def)
  qed
  ultimately show ?thesis by (simp add: storage_inv_def)
qed

lemma Delete_inv:
  assumes inv: "storage_inv sv s" and row: "st_Get i (db_storages (dbase s)) = Some row" "sr_Kind row \<noteq> StorageKindLocal"
      "\<not> sr_IsDefault row" "st_CountFiles i (db_files (dbase s)) \<le> 0"
    and k: "kept s' = ((dbase s)\<lparr>db_storages := snd (st_Delete (db_files (dbase s)) i (db_storages (dbase s)))\<rparr>,
      AList.delete i (w_cache (mem s)))"
  shows "storage_inv sv s'"
proof -
  let ?t = "db_storages (dbase s)" and ?fs = "db_files (dbase s)"
  have ok: "storages_ok ?t" "files_placed ?fs ?t" "one_default ?t" "cache_ok (sv_store sv) s"
    using inv by (simp_all add: storage_inv_def db_inv_def)
  have no_files: "\<forall>f \<in> set (rows ?fs). fm_StorageId f \<noteq> i"
    using row(4) by (auto simp: st_CountFiles_def filter_empty_conv)
  then have t': "snd (st_Delete ?fs i ?t) = List.filter (\<lambda>r. sr_Uuid r \<noteq> i) ?t" by (auto simp: st_Delete_def)
  have d: "dbase s' = (dbase s)\<lparr>db_storages := List.filter (\<lambda>r. sr_Uuid r \<noteq> i) ?t\<rparr>" using k t' by (simp add: kept_def)
  have placed: "files_placed ?fs (List.filter (\<lambda>r. sr_Uuid r \<noteq> i) ?t)"
    unfolding files_placed_def
  proof
    fix f
    assume "f \<in> set (rows ?fs)"
    then obtain r where "r \<in> set ?t" "sr_Uuid r = fm_StorageId f" "fm_StorageId f \<noteq> i"
      using ok(2) no_files by (auto simp: files_placed_def)
    then show "fm_StorageId f \<in> sr_Uuid ` set (List.filter (\<lambda>r. sr_Uuid r \<noteq> i) ?t)" by force
  qed
  have "i \<noteq> LocalStorageUuid" using row(2) st_Get_Some[OF row(1)] ok(1) by (auto simp: storages_ok_def)
  then have "db_inv (dbase s')"
    using inv storages_ok_Delete[OF ok(1), of i ?fs] placed unfolding d t' by (simp add: storage_inv_def db_inv_def)
  moreover have "one_default (db_storages (dbase s'))"
  proof -
    have "\<not> sr_IsDefault r" if "r \<in> set ?t" "sr_Uuid r = i" for r
      using storage_unique[OF ok(1), of r row] st_Get_Some[OF row(1)] that row(3) by auto
    then have "List.filter (\<lambda>r. sr_IsDefault r \<and> sr_Uuid r \<noteq> i) ?t = List.filter sr_IsDefault ?t"
      by (intro filter_cong) auto
    then show ?thesis using ok(3) unfolding d by (simp add: one_default_def conj_commute)
  qed
  moreover have "cache_ok (sv_store sv) s'" using cache_ok_delete[OF ok(4) k] st_Get_Delete by blast
  ultimately show ?thesis using inv unfolding storage_inv_def d by simp
qed

lemma SetDefault_inv:
  assumes inv: "storage_inv sv s" and row: "st_Get i (db_storages (dbase s)) = Some row"
    and k: "kept s' = ((dbase s)\<lparr>db_storages := snd (st_SetDefaultById i (st_ClearDefault (db_storages (dbase s))))\<rparr>,
      w_cache (mem s))"
  shows "storage_inv sv s'"
proof -
  let ?t = "db_storages (dbase s)"
  let ?f = "\<lambda>r. r\<lparr>sr_IsDefault := (sr_Uuid r = i)\<rparr>"
  have ok: "storages_ok ?t" "files_placed (db_files (dbase s)) ?t" "cache_ok (sv_store sv) s"
    using inv by (simp_all add: storage_inv_def db_inv_def)
  have t': "snd (st_SetDefaultById i (st_ClearDefault ?t)) = List.map ?f ?t"
    by (auto simp: st_SetDefaultById_def st_ClearDefault_def)
  have d: "dbase s' = (dbase s)\<lparr>db_storages := List.map ?f ?t\<rparr>" "w_cache (mem s') = w_cache (mem s)"
    using k t' by (simp_all add: kept_def)
  have "storages_ok (List.map ?f ?t)" using storages_ok_SetDefault[OF ok(1), of i] t' by simp
  then have "db_inv (dbase s')"
    using inv ok(2) files_placed_map[of ?f "db_files (dbase s)" ?t] unfolding d by (simp add: storage_inv_def db_inv_def)
  moreover have "one_default (db_storages (dbase s'))"
  proof -
    have "length (List.filter (\<lambda>r. sr_Uuid r = i) ?t) \<le> 1"
      using filter_key_one[of sr_Uuid ?t i] ok(1) by (simp add: storages_ok_def)
    moreover have "List.filter (\<lambda>r. sr_Uuid r = i) ?t \<noteq> []"
      using st_Get_Some[OF row] by (auto simp: filter_empty_conv)
    ultimately show ?thesis unfolding d by (cases "List.filter (\<lambda>r. sr_Uuid r = i) ?t") (auto simp: one_default_def filter_map comp_def)
  qed
  moreover have "provider_of (sv_store sv) (dbase s') j = provider_of (sv_store sv) (dbase s) j" for j
  proof -
    have "st_Get j (List.map ?f ?t) = map_option ?f (st_Get j ?t)"
      unfolding st_Get_def by (rule find_map_same) simp
    then show ?thesis unfolding d by (cases "st_Get j ?t") (simp_all add: provider_of_def built_from_def)
  qed
  then have "cache_ok (sv_store sv) s'" using ok(3) d(2) by (simp add: cache_ok_def)
  moreover have "config_typed sv (?f r) = config_typed sv r" for r by (simp add: config_typed_def)
  ultimately show ?thesis using inv unfolding storage_inv_def d(1) by auto
qed

lemma st_Get_append: "st_Get j t \<noteq> None \<Longrightarrow> st_Get j (t @ u) = st_Get j t"
  unfolding st_Get_def by (induction t) auto

lemma Create_inv:
  assumes inv: "storage_inv sv s" and laws: "aead_laws (sv_crypto sv)" "length nonce = nonceSize"
    and v: "validateConfig cfg = Ok kind" "Encode (sv_crypto sv) nonce (sv_secretsKey sv) cfg = Ok blob"
    and st: "st_Create newId name kind blob (db_storages (dbase s)) = (Ok row, t)"
    and s': "dbase s' = (dbase s)\<lparr>db_storages := t\<rparr>" "mem s' = mem s" and new: "newId \<noteq> LocalStorageUuid"
  shows "storage_inv sv s'"
proof -
  let ?t = "db_storages (dbase s)"
  have ok: "storages_ok ?t" "files_placed (db_files (dbase s)) ?t" "one_default ?t" "cache_ok (sv_store sv) s"
    using inv by (simp_all add: storage_inv_def db_inv_def)
  have row: "t = ?t @ [row]" "sr_Uuid row = newId" "sr_Kind row = kind" "sr_ConfigEnc row = blob" "\<not> sr_IsDefault row"
      "newId \<notin> sr_Uuid ` set ?t"
    using st by (auto simp: st_Create_def Let_def split: if_splits)
  have "kind \<noteq> StorageKindLocal" using v(1) by (auto simp: validateConfig_Ok complete_config_def)
  then have "storages_ok t" using storages_ok_Create[OF ok(1) new, of kind name blob] st by simp
  then have "db_inv (dbase s')"
    using inv ok(2) unfolding s' by (auto simp: storage_inv_def db_inv_def files_placed_def row(1))
  moreover have "one_default t" using ok(3) row(1,5) by (simp add: one_default_def)
  moreover have "cache_ok (sv_store sv) s'"
    unfolding cache_ok_def
  proof (intro allI impI)
    fix j p
    assume j: "j \<noteq> LocalStorageUuid" "map_of (w_cache (mem s')) j = Some p"
    then have p: "provider_of (sv_store sv) (dbase s) j = Ok p" using ok(4) s'(2) by (simp add: cache_ok_def)
    then have "st_Get j ?t \<noteq> None" using j(1) by (auto simp: provider_of_def split: option.splits)
    then have "st_Get j t = st_Get j ?t" unfolding row(1) by (rule st_Get_append)
    then show "provider_of (sv_store sv) (dbase s') j = Ok p"
      using p provider_of_other[of j t "dbase s" "sv_store sv"] unfolding s' by simp
  qed
  moreover have "config_typed sv row" by (rule config_typed_Encode[OF laws, of cfg]) (use v row in auto)
  ultimately show ?thesis using inv row(1) unfolding storage_inv_def s' by auto
qed

section \<open>Sequences of calls\<close>

text \<open>A call of the service with what it gets from outside, a call of the callback, or a lookup of the registry on behalf of
  another service.\<close>

datatype storage_call =
    ListCall "UserContext option"
  | CreateCall "UserContext option" uuid string CreateStorage
  | UpdateCall "UserContext option" string UpdateStorage
  | DeleteCall "UserContext option" uuid
  | SetDefaultCall "UserContext option" uuid
  | TestCall "UserContext option" string uuid
  | StartAuthCall "UserContext option" int uuid
  | CallbackCall int string string string string
  | LookupCall uuid

text \<open>What the call leaves behind; its result does not matter here.\<close>

fun run_call :: "('r, 'l) storage_service \<Rightarrow> storage_call \<Rightarrow> (database, 'r storemem) st \<Rightarrow> (database, 'r storemem) st" where
  "run_call sv (ListCall u) s = snd (StorageService_List sv u s)"
| "run_call sv (CreateCall u newId nonce req) s = snd (StorageService_Create sv u newId nonce req s)"
| "run_call sv (UpdateCall u nonce req) s = snd (StorageService_Update sv u nonce req s)"
| "run_call sv (DeleteCall u i) s = snd (StorageService_Delete u i s)"
| "run_call sv (SetDefaultCall u i) s = snd (StorageService_SetDefault sv u i s)"
| "run_call sv (TestCall u token i) s = snd (StorageService_Test sv u token i s)"
| "run_call sv (StartAuthCall u now i) s = snd (StartGoogleDriveAuth sv u now i s)"
| "run_call sv (CallbackCall now nonce e state c) s = snd (GoogleDriveCallback sv now nonce e state c s)"
| "run_call sv (LookupCall i) s = snd (Registry_Get (sv_store sv) i s)"

text \<open>Nonces have their size; the database does not hand out the id of the built-in storage.\<close>

fun proper_call :: "storage_call \<Rightarrow> bool" where
  "proper_call (CreateCall u newId nonce req) = (newId \<noteq> LocalStorageUuid \<and> length nonce = nonceSize)"
| "proper_call (UpdateCall u nonce req) = (length nonce = nonceSize)"
| "proper_call (CallbackCall now nonce e state c) = (length nonce = nonceSize)"
| "proper_call _ = True"

lemma List_run: "StorageService_List sv uCtx s = (r, s') \<Longrightarrow> kept s' = kept s"
  unfolding StorageService_List_def
  by (drule administrator_run) (auto simp: bindM_cases kept_def same_data_def dest!: ST_reads_same)

lemma Start_run: "StartGoogleDriveAuth sv uCtx now i s = (r, s') \<Longrightarrow> kept s' = kept s"
  unfolding StartGoogleDriveAuth_def
  by (drule administrator_run)
    (auto simp: bindM_cases kept_def same_data_def Let_def dest!: loadGoogleDriveConfig_run split: prod.splits)

lemma keeps_disk_rest:
  "keeps (\<lambda>s. disk_rest s = k) (local_Put root p c)" "keeps (\<lambda>s. disk_rest s = k) (local_Get root p)"
  "keeps (\<lambda>s. disk_rest s = k) (local_Delete root p)" "keeps (\<lambda>s. disk_rest s = k) (os_remove p)"
  unfolding os_remove_def
  by (rule keepsI; use local_content.put_only local_content.get_only local_content.del_only on_disk_rest in fastforce)+

lemma local_Probe_rest: "local_Probe root token s = (r, s') \<Longrightarrow> disk_rest s' = disk_rest s"
proof -
  have "keeps (\<lambda>x. disk_rest x = disk_rest s) (local_Probe root token)"
    unfolding local_Probe_def deleteProbe_def Let_def by (intro keeps_intros keeps_disk_rest)
  then show "local_Probe root token s = (r, s') \<Longrightarrow> disk_rest s' = disk_rest s" using keepsD_eq by fastforce
qed

lemma cs_Probe_kept: "cs_Probe env token p s = (r, s') \<Longrightarrow> kept s' = kept s"
  using on_remote_run[of "rl_Probe (se_lib env) p token" s r s'] local_Probe_rest[of "se_root env" token s r s'] disk_rest_more[of s' s]
  by (auto simp: cs_Probe_def kept_def split: if_splits)

lemma Registry_Get_inv: "Registry_Get (sv_store sv) i s = (r, s') \<Longrightarrow> storage_inv sv s \<Longrightarrow> storage_inv sv s'"
  using Registry_Get_run[of "sv_store sv" i s r s'] by (auto simp: storage_inv_def same_world_def)

lemma Test_inv: "StorageService_Test sv uCtx token i s = (r, s') \<Longrightarrow> storage_inv sv s \<Longrightarrow> storage_inv sv s'"
  unfolding StorageService_Test_def
  by (drule administrator_run)
    (auto simp: bindM_cases requireSecretsKey_def storage_inv_cong[OF cs_Probe_kept] dest: Registry_Get_inv split: if_splits)

lemma Complete_inv:
  assumes "CompleteGoogleDriveAuth sv now nonce state authCode s = (r, s')" "storage_inv sv s" "aead_laws (sv_crypto sv)"
    "length nonce = nonceSize"
  shows "storage_inv sv s'"
  using Complete_run[OF assms(1)]
proof (elim disjE exE conjE)
  fix i and row :: StorageRow and cfg drive token blob
  let ?new = "no_config\<lparr>cfg_GoogleDrive := Some (drive\<lparr>gd_RefreshToken := token\<rparr>)\<rparr>"
  assume row: "st_Get i (db_storages (dbase s)) = Some row" "sr_Kind row = StorageKindGoogleDrive"
    and cfg: "Decode (sv_crypto sv) (sv_secretsKey sv) (sr_ConfigEnc row) = Ok cfg" "cfg_GoogleDrive cfg = Some drive"
    and blob: "Encode (sv_crypto sv) nonce (sv_secretsKey sv) ?new = Ok blob" and rep: "replaced i (sr_Name row) blob s s'"
  have "config_typed sv row" using assms(2) st_Get_Some[OF row(1)] by (simp add: storage_inv_def)
  then have "validateConfig cfg = Ok StorageKindGoogleDrive" using cfg(1) row(2) by (simp add: config_typed_def)
  then have "validateConfig ?new = Ok StorageKindGoogleDrive" using validateConfig_token cfg(2) by blast
  then have "config_typed sv (row\<lparr>sr_ConfigEnc := blob\<rparr>)"
    using config_typed_Encode[OF assms(3,4), where row = "row\<lparr>sr_ConfigEnc := blob\<rparr>" and cfg = ?new] blob row(2) by simp
  then show ?thesis using replaced_inv[OF assms(2) rep row(1)] by simp
qed (use assms(2) storage_inv_cong in blast)

lemma Update_inv:
  assumes "StorageService_Update sv uCtx nonce req s = (r, s')" "storage_inv sv s" "aead_laws (sv_crypto sv)"
    "length nonce = nonceSize"
  shows "storage_inv sv s'"
  using Update_run[OF assms(1)]
proof (elim disjE exE conjE)
  fix row :: StorageRow and stored merged blob
  let ?row = "row\<lparr>sr_Name := TrimSpace (us_Name req), sr_ConfigEnc := blob\<rparr>"
  assume row: "st_Get (us_Uuid req) (db_storages (dbase s)) = Some row"
    and merged: "mergeConfig (sr_Kind row) stored (us_Config req) = Ok merged"
    and blob: "Encode (sv_crypto sv) nonce (sv_secretsKey sv) merged = Ok blob"
    and rep: "replaced (us_Uuid req) (TrimSpace (us_Name req)) blob s s'"
  have "config_typed sv ?row"
    using config_typed_Encode[OF assms(3,4), where row = ?row and cfg = merged] blob mergeConfig_valid[OF merged] by simp
  then show ?thesis using replaced_inv[OF assms(2) rep row] by simp
qed (use assms(2) storage_inv_same in blast)

lemma run_call_inv:
  assumes "aead_laws (sv_crypto sv)" "proper_call c" "storage_inv sv s"
  shows "storage_inv sv (run_call sv c s)"
proof (cases c)
  case (ListCall u)
  then show ?thesis using List_run[of sv u s] assms(3) storage_inv_cong by (metis prod.collapse run_call.simps(1))
next
  case (CreateCall u newId nonce req)
  obtain r s' where run: "StorageService_Create sv u newId nonce req s = (r, s')" by fastforce
  then show ?thesis
    using Create_run[OF run] assms(2,3) CreateCall by (auto intro: Create_inv[OF assms(3,1)] storage_inv_same)
next
  case (UpdateCall u nonce req)
  obtain r s' where run: "StorageService_Update sv u nonce req s = (r, s')" by fastforce
  then show ?thesis using Update_inv[OF run assms(3,1)] UpdateCall assms(2) by simp
next
  case (DeleteCall u i)
  obtain r s' where run: "StorageService_Delete u i s = (r, s')" by fastforce
  then show ?thesis using Delete_run[OF run] DeleteCall assms(3) by (auto intro: Delete_inv storage_inv_same)
next
  case (SetDefaultCall u i)
  obtain r s' where run: "StorageService_SetDefault sv u i s = (r, s')" by fastforce
  then show ?thesis
    using SetDefault_run[OF run] SetDefaultCall assms(3) by (auto intro: SetDefault_inv storage_inv_same)
next
  case (TestCall u token i)
  then show ?thesis using Test_inv[of sv u token i s] assms(3) by (metis prod.collapse run_call.simps(6))
next
  case (StartAuthCall u now i)
  then show ?thesis using Start_run[of sv u now i s] assms(3) storage_inv_cong by (metis prod.collapse run_call.simps(7))
next
  case (CallbackCall now nonce e state c)
  obtain r s' where run: "CompleteGoogleDriveAuth sv now nonce state c s = (r, s')" by fastforce
  then show ?thesis
    using Complete_inv[OF run assms(3,1)] CallbackCall assms(2,3)
    by (cases r) (simp_all add: GoogleDriveCallback_def Let_def bindM_def tryM_def)
next
  case (LookupCall i)
  then show ?thesis using Registry_Get_inv[of sv i s] assms(3) by (metis prod.collapse run_call.simps(9))
qed

lemma run_calls_inv:
  "aead_laws (sv_crypto sv) \<Longrightarrow> list_all proper_call calls \<Longrightarrow> storage_inv sv s \<Longrightarrow> storage_inv sv (fold (run_call sv) calls s)"
  by (induction calls arbitrary: s) (auto intro: run_call_inv)

lemma one_default_GetDefault: "one_default t \<Longrightarrow> \<exists>row \<in> set t. st_GetDefault t = Ok row \<and> sr_IsDefault row"
proof -
  assume one: "one_default t"
  then obtain row where "List.filter sr_IsDefault t = [row]" by (auto simp: one_default_def length_Suc_conv)
  then have "row \<in> set t \<and> sr_IsDefault row" by (metis filter_set list.set_intros(1) mem_Collect_eq set_filter)
  then obtain r where "find sr_IsDefault t = Some r" by (metis find_None_iff option.exhaust)
  moreover from this have "r \<in> set t \<and> sr_IsDefault r" by (auto simp: find_Some_iff)
  ultimately show ?thesis by (auto simp: st_GetDefault_def)
qed

text \<open>C26: Whatever administrators, other callers and the consent callback do with the storages, in any order, between lookups
  of other services and whatever database or network call fails: the tables stay well formed (unique ids and names, the built-in
  storage is there and is the only local one, every file's storage exists), there is exactly one default storage, every remote
  row's configuration still decodes to a complete one of the row's kind, and the provider cache stays invisible - a
  lookup gives the provider its row describes, or reports a database failure.\<close>
theorem storage_calls_keep_invariant:
  assumes laws: "aead_laws (sv_crypto sv)" and calls: "list_all proper_call calls"
    and start: "storage_inv sv s" and s': "s' = fold (run_call sv) calls s"
  shows "db_inv (dbase s') \<and> (\<exists>row \<in> set (db_storages (dbase s')). st_GetDefault (db_storages (dbase s')) = Ok row \<and>
      (\<forall>r \<in> set (db_storages (dbase s')). sr_IsDefault r \<longrightarrow> r = row)) \<and>
    (\<forall>row \<in> set (db_storages (dbase s')). config_typed sv row) \<and>
    (\<forall>i r s''. Registry_Get (sv_store sv) i s' = (r, s'') \<longrightarrow>
       r = provider_of (sv_store sv) (dbase s') i \<or> r = Err ErrStorageFailure)"
proof -
  have inv: "storage_inv sv s'" using run_calls_inv[OF laws calls start] s' by simp
  then have one: "one_default (db_storages (dbase s'))" by (simp add: storage_inv_def)
  then obtain row where row: "row \<in> set (db_storages (dbase s'))" "st_GetDefault (db_storages (dbase s')) = Ok row" "sr_IsDefault row"
    using one_default_GetDefault by blast
  have "r = row" if "r \<in> set (db_storages (dbase s'))" "sr_IsDefault r" for r
  proof -
    obtain x where "List.filter sr_IsDefault (db_storages (dbase s')) = [x]"
      using one by (auto simp: one_default_def length_Suc_conv)
    then have only: "{r \<in> set (db_storages (dbase s')). sr_IsDefault r} = {x}" by (metis list.set(1) list.simps(15) set_filter)
    have "r \<in> {x}" "row \<in> {x}" unfolding only[symmetric] using that row by simp_all
    then show ?thesis by simp
  qed
  then show ?thesis using inv row Registry_Get_run unfolding storage_inv_def by blast
qed

section \<open>What clients see of secrets\<close>

text \<open>Two databases that look the same to a client without the secrets: rows differ in nothing but the blob, and the blobs
  decode to configurations that agree up to their secrets and on whether the storage is connected.\<close>

definition same_but_secrets :: "('r, 'l) storage_service \<Rightarrow> StorageRow \<Rightarrow> StorageRow \<Rightarrow> bool" where
  "same_but_secrets sv r1 r2 \<longleftrightarrow> r2 = r1\<lparr>sr_ConfigEnc := sr_ConfigEnc r2\<rparr> \<and>
     (\<exists>c1 c2. Decode (sv_crypto sv) (sv_secretsKey sv) (sr_ConfigEnc r1) = Ok c1 \<and>
        Decode (sv_crypto sv) (sv_secretsKey sv) (sr_ConfigEnc r2) = Ok c2 \<and>
        redactSecrets c1 = redactSecrets c2 \<and> isConfigConnected (sr_Kind r1) c1 = isConfigConnected (sr_Kind r1) c2)"

lemma info_no_secret: "holds_no_secret (si_Config (toStorageInfo sv row))"
proof -
  have "holds_no_secret no_config" by (simp add: holds_no_secret_def no_config_def)
  then show ?thesis using redacted_no_secret by (simp add: toStorageInfo_def Let_def split: outcome.split)
qed

lemma same_row_fields:
  "same_but_secrets sv r1 r2 \<Longrightarrow> sr_Uuid r2 = sr_Uuid r1 \<and> sr_Name r2 = sr_Name r1 \<and> sr_Kind r2 = sr_Kind r1 \<and>
     sr_IsDefault r2 = sr_IsDefault r1 \<and> sr_QuotaBytes r2 = sr_QuotaBytes r1"
  unfolding same_but_secrets_def by (metis StorageRow.select_convs(1-3,5,7) StorageRow.surjective StorageRow.update_convs(4))

lemma same_info:
  "same_but_secrets sv r1 r2 \<Longrightarrow> toStorageInfo sv (r2\<lparr>sr_UsedBytes := n\<rparr>) = toStorageInfo sv (r1\<lparr>sr_UsedBytes := n\<rparr>)"
  using same_row_fields[of sv r1 r2] by (auto simp: toStorageInfo_def Let_def same_but_secrets_def)

lemma same_List:
  assumes "list_all2 (same_but_secrets sv) t1 t2"
  shows "(case st_List files t1 of Ok rs \<Rightarrow> Ok (List.map (toStorageInfo sv) rs) | Err e \<Rightarrow> Err e | Panic \<Rightarrow> Panic) =
    (case st_List files t2 of Ok rs \<Rightarrow> Ok (List.map (toStorageInfo sv) rs) | Err e \<Rightarrow> Err e | Panic \<Rightarrow> Panic)"
proof -
  let ?shown = "\<lambda>r. toStorageInfo sv (r\<lparr>sr_UsedBytes := storage_used (sr_Uuid r) files\<rparr>)"
  have "(\<exists>r \<in> set t1. \<not> i64_range (storage_used (sr_Uuid r) files)) =
      (\<exists>r \<in> set t2. \<not> i64_range (storage_used (sr_Uuid r) files))"
    using assms by (induction rule: list_all2_induct) (auto dest: same_row_fields)
  moreover have "List.map ?shown t1 = List.map ?shown t2"
    using assms
  proof (induction rule: list_all2_induct)
    case (Cons r1 t1 r2 t2)
    then show ?case
      using same_info[OF Cons(1), of "storage_used (sr_Uuid r1) files"] same_row_fields[OF Cons(1)] by simp
  qed simp
  ultimately show ?thesis by (simp add: st_List_def comp_def)
qed

lemma List_result:
  "fst (StorageService_List sv uCtx s) =
     (case uCtx of None \<Rightarrow> Err ErrUnauthenticated
      | Some uc \<Rightarrow> if \<not> perm_IsAdministrator (uc_Permissions uc) then Err ErrUnauthorized
          else if next_fault s then Err ErrStorageFailure
          else (case st_List (db_files (dbase s)) (db_storages (dbase s)) of
              Ok rs \<Rightarrow> Ok (List.map (toStorageInfo sv) rs) | Err e \<Rightarrow> Err e | Panic \<Rightarrow> Panic))"
  by (auto simp: StorageService_List_def administrator_def authenticated_def bindM_def ST_List_def dbcall_def Let_def
      split: option.split outcome.split)

text \<open>C27: Listing the storages reveals no stored secret: only an administrator gets an answer, the answer holds no secret
  access key, password, client secret or refresh token, and it is the same for any two databases that differ in nothing but the
  secrets of the stored configurations (as long as the same storages are connected) - so no secret can be inferred from it.  The answer
  to creating a storage holds no secret either.\<close>
theorem storage_secrets_hidden:
  assumes same: "list_all2 (same_but_secrets sv) (db_storages (dbase s1)) (db_storages (dbase s2))"
    and rest: "db_files (dbase s1) = db_files (dbase s2)" "next_fault s1 = next_fault s2"
  shows "fst (StorageService_List sv uCtx s1) = fst (StorageService_List sv uCtx s2) \<and>
    (\<forall>infos. fst (StorageService_List sv uCtx s1) = Ok infos \<longrightarrow>
       (\<exists>uc. uCtx = Some uc \<and> perm_IsAdministrator (uc_Permissions uc)) \<and>
       (\<forall>info \<in> set infos. holds_no_secret (si_Config info))) \<and>
    (\<forall>newId nonce req info s. fst (StorageService_Create sv uCtx newId nonce req s) = Ok info \<longrightarrow>
       holds_no_secret (si_Config info))"
proof (intro conjI allI impI)
  show "fst (StorageService_List sv uCtx s1) = fst (StorageService_List sv uCtx s2)"
    using same_List[OF same, of "db_files (dbase s1)"] rest unfolding List_result by (simp split: option.split)
next
  fix infos
  assume "fst (StorageService_List sv uCtx s1) = Ok infos"
  then show "\<exists>uc. uCtx = Some uc \<and> perm_IsAdministrator (uc_Permissions uc)" "\<forall>info \<in> set infos. holds_no_secret (si_Config info)"
    using info_no_secret unfolding List_result by (auto split: option.splits if_splits outcome.splits)
next
  fix newId nonce req info and s :: "(database, 'a storemem) st"
  assume "fst (StorageService_Create sv uCtx newId nonce req s) = Ok info"
  then show "holds_no_secret (si_Config info)"
    using Create_run[of sv uCtx newId nonce req s] info_no_secret by (metis is_ok.simps(1) outcome.inject(1) prod.collapse)
qed

section \<open>Editing a storage\<close>

definition edited_rows :: "uuid \<Rightarrow> string \<Rightarrow> string \<Rightarrow> StorageRow list \<Rightarrow> StorageRow list" where
  "edited_rows i name blob t = List.map (\<lambda>r. if sr_Uuid r = i then r\<lparr>sr_Name := name, sr_ConfigEnc := blob\<rparr> else r) t"

lemma Encode_total: "key \<noteq> [] \<Longrightarrow> \<exists>blob. Encode C nonce key cfg = Ok blob"
  by (simp add: Encode_def Encrypt_def newGcm_def)

lemma Update_success:
  assumes admin: "uCtx = Some uc" "perm_IsAdministrator (uc_Permissions uc)" and key: "sv_secretsKey sv \<noteq> []"
    and row: "st_Get (us_Uuid req) (db_storages (dbase s)) = Some row" "sr_Kind row \<noteq> StorageKindLocal"
    and name: "TrimSpace (us_Name req) \<noteq> []"
      "\<forall>r \<in> set (db_storages (dbase s)). sr_Name r = TrimSpace (us_Name req) \<longrightarrow> sr_Uuid r = us_Uuid req"
    and cfg: "Decode (sv_crypto sv) (sv_secretsKey sv) (sr_ConfigEnc row) = Ok stored"
      "mergeConfig (sr_Kind row) stored (us_Config req) = Ok merged"
      "Encode (sv_crypto sv) nonce (sv_secretsKey sv) merged = Ok blob"
    and up: "faults s = []"
  shows "\<exists>s'. StorageService_Update sv uCtx nonce req s = (Ok (), s') \<and>
    dbase s' = (dbase s)\<lparr>db_storages := edited_rows (us_Uuid req) (TrimSpace (us_Name req)) blob (db_storages (dbase s))\<rparr> \<and>
    faults s' = [] \<and> w_cache (mem s') = AList.delete (us_Uuid req) (w_cache (mem s))"
proof -
  have u: "sr_Uuid row = us_Uuid req" using st_Get_Some[OF row(1)] by simp
  have st: "st_Update (us_Uuid req) (TrimSpace (us_Name req)) blob (db_storages (dbase s)) =
      (Ok (), edited_rows (us_Uuid req) (TrimSpace (us_Name req)) blob (db_storages (dbase s)))"
    using name(2) by (auto simp: st_Update_def edited_rows_def)
  show ?thesis
    using admin key row name(1) cfg up u
    by (simp add: StorageService_Update_def administrator_def authenticated_def requireSecretsKey_def getRow_def ST_Get_def
        ST_Update_def on_storages_def st Registry_Invalidate_def)
qed

text \<open>An edit of a Google Drive storage that names another client drops the refresh token.\<close>

lemma merge_other_client:
  assumes "cfg_GoogleDrive stored = Some old" "gd_ClientId new \<noteq> gd_ClientId old" "gd_ClientId new \<noteq> []" "gd_ClientSecret new \<noteq> []"
  shows "mergeConfig StorageKindGoogleDrive stored (no_config\<lparr>cfg_GoogleDrive := Some new\<rparr>) =
    Ok (no_config\<lparr>cfg_GoogleDrive := Some (new\<lparr>gd_RefreshToken := []\<rparr>)\<rparr>)"
  using assms
  by (simp add: mergeConfig_def kindOfConfig_def validateConfig_def complete_config_def no_config_def merge_drive_def Let_def)

text \<open>C28: Editing a storage.  When an administrator sends back the configuration the list showed, with a name no other storage
  has, the edit succeeds and changes nothing but the name: the stored configuration decodes to what it was, secrets included.  But when
  the storage is a connected Google Drive, and the default one, an edit that names another OAuth client succeeds too and leaves the
  default storage disconnected - a state that \<open>SetDefault\<close> refuses to make.\<close>
theorem Update_effect:
  assumes laws: "aead_laws (sv_crypto sv)" "length nonce = nonceSize" and inv: "storage_inv sv s" and up: "faults s = []"
    and admin: "uCtx = Some uc" "perm_IsAdministrator (uc_Permissions uc)" and key: "sv_secretsKey sv \<noteq> []"
    and row: "st_Get i (db_storages (dbase s)) = Some row" "sr_Kind row \<noteq> StorageKindLocal"
    and cfg: "Decode (sv_crypto sv) (sv_secretsKey sv) (sr_ConfigEnc row) = Ok cfg"
    and name: "TrimSpace name \<noteq> []" "\<forall>r \<in> set (db_storages (dbase s)). sr_Name r = TrimSpace name \<longrightarrow> sr_Uuid r = i"
  shows "(\<exists>blob s'. StorageService_Update sv uCtx nonce
        \<lparr>us_Uuid = i, us_Name = name, us_Config = si_Config (toStorageInfo sv row)\<rparr> s = (Ok (), s') \<and>
      Decode (sv_crypto sv) (sv_secretsKey sv) blob = Ok (valid_config cfg) \<and>
      dbase s' = (dbase s)\<lparr>db_storages := edited_rows i (TrimSpace name) blob (db_storages (dbase s))\<rparr>) \<and>
    (\<forall>old new. cfg_GoogleDrive cfg = Some old \<longrightarrow> sr_IsDefault row \<longrightarrow> gd_ClientId new \<noteq> gd_ClientId old \<longrightarrow>
      gd_ClientId new \<noteq> [] \<longrightarrow> gd_ClientSecret new \<noteq> [] \<longrightarrow>
      (\<exists>s' row'. StorageService_Update sv uCtx nonce
          \<lparr>us_Uuid = i, us_Name = name, us_Config = no_config\<lparr>cfg_GoogleDrive := Some new\<rparr>\<rparr> s = (Ok (), s') \<and>
        st_GetDefault (db_storages (dbase s')) = Ok row' \<and> sr_Uuid row' = i \<and> isConnected sv row' = Ok False \<and>
        fst (StorageService_SetDefault sv uCtx i s') = Err ErrStorageInvalidConfig))"
proof (intro conjI allI impI)
  have typed: "validateConfig cfg = Ok (sr_Kind row)"
    using inv row st_Get_Some[OF row(1)] cfg by (auto simp: storage_inv_def config_typed_def)
  have shown: "si_Config (toStorageInfo sv row) = redactSecrets cfg" using row(2) cfg by (simp add: toStorageInfo_def Let_def)
  obtain blob where blob: "Encode (sv_crypto sv) nonce (sv_secretsKey sv) cfg = Ok blob" using Encode_total[OF key] by blast
  let ?req = "\<lparr>us_Uuid = i, us_Name = name, us_Config = si_Config (toStorageInfo sv row)\<rparr>"
  have "mergeConfig (sr_Kind row) cfg (us_Config ?req) = Ok cfg" using mergeConfig_redacted[OF typed] shown by simp
  from Update_success[OF admin key, of ?req, simplified, OF row name cfg this[simplified] blob up]
  show "\<exists>blob s'. StorageService_Update sv uCtx nonce ?req s = (Ok (), s') \<and>
      Decode (sv_crypto sv) (sv_secretsKey sv) blob = Ok (valid_config cfg) \<and>
      dbase s' = (dbase s)\<lparr>db_storages := edited_rows i (TrimSpace name) blob (db_storages (dbase s))\<rparr>"
    using Decode_Encode[OF laws blob] by blast
next
  fix old new :: GoogleDriveConfig
  assume old: "cfg_GoogleDrive cfg = Some old" and def: "sr_IsDefault row" and new: "gd_ClientId new \<noteq> gd_ClientId old"
    "gd_ClientId new \<noteq> []" "gd_ClientSecret new \<noteq> []"
  let ?req = "\<lparr>us_Uuid = i, us_Name = name, us_Config = no_config\<lparr>cfg_GoogleDrive := Some new\<rparr>\<rparr>"
  let ?merged = "no_config\<lparr>cfg_GoogleDrive := Some (new\<lparr>gd_RefreshToken := []\<rparr>)\<rparr>"
  have "validateConfig cfg = Ok (sr_Kind row)"
    using inv row st_Get_Some[OF row(1)] cfg by (auto simp: storage_inv_def config_typed_def)
  then have kind: "sr_Kind row = StorageKindGoogleDrive"
    using old row(2) by (cases "sr_Kind row") (auto simp: validateConfig_Ok kindOfConfig_eq)
  obtain blob where blob: "Encode (sv_crypto sv) nonce (sv_secretsKey sv) ?merged = Ok blob" using Encode_total[OF key] by blast
  have merged: "mergeConfig (sr_Kind row) cfg (us_Config ?req) = Ok ?merged" using merge_other_client[OF old new] kind by simp
  let ?t = "db_storages (dbase s)"
  let ?row' = "row\<lparr>sr_Name := TrimSpace name, sr_ConfigEnc := blob\<rparr>"
  obtain s' where s': "StorageService_Update sv uCtx nonce ?req s = (Ok (), s')" "faults s' = []"
      "dbase s' = (dbase s)\<lparr>db_storages := edited_rows i (TrimSpace name) blob ?t\<rparr>"
    using Update_success[OF admin key, of ?req, simplified, OF row name cfg merged[simplified] blob up] by blast
  have inv': "storage_inv sv s'" by (rule Update_inv[OF s'(1) inv laws])
  have u: "sr_Uuid row = i" "row \<in> set ?t" using st_Get_Some[OF row(1)] by simp_all
  then have in': "?row' \<in> set (db_storages (dbase s'))" unfolding s'(3) by (force simp: edited_rows_def)
  have ok': "storages_ok (db_storages (dbase s'))" "one_default (db_storages (dbase s'))"
    using inv' by (simp_all add: storage_inv_def db_inv_def)
  obtain d where d: "d \<in> set (db_storages (dbase s'))" "st_GetDefault (db_storages (dbase s')) = Ok d" "sr_IsDefault d"
    using one_default_GetDefault[OF ok'(2)] by blast
  have "d = ?row'"
  proof -
    obtain x where "List.filter sr_IsDefault (db_storages (dbase s')) = [x]"
      using ok'(2) by (auto simp: one_default_def length_Suc_conv)
    then have only: "{r \<in> set (db_storages (dbase s')). sr_IsDefault r} = {x}" by (metis list.set(1) list.simps(15) set_filter)
    have "d \<in> {x}" "?row' \<in> {x}" unfolding only[symmetric] using d in' def by simp_all
    then show ?thesis by simp
  qed
  moreover have conn: "isConnected sv ?row' = Ok False"
    using Decode_Encode[OF laws blob] kind
    by (simp add: isConnected_def isConfigConnected_def valid_config_def valid_drive_def)
  moreover have "st_Get i (db_storages (dbase s')) = Some ?row'"
    using st_Get_eq[OF ok'(1) in'] u(1) by simp
  then have "fst (StorageService_SetDefault sv uCtx i s') = Err ErrStorageInvalidConfig"
    using admin s'(2) conn
    by (simp add: StorageService_SetDefault_def administrator_def authenticated_def getRow_def ST_Get_def prog_simps)
  ultimately show "\<exists>s' row'. StorageService_Update sv uCtx nonce ?req s = (Ok (), s') \<and>
      st_GetDefault (db_storages (dbase s')) = Ok row' \<and> sr_Uuid row' = i \<and> isConnected sv row' = Ok False \<and>
      fst (StorageService_SetDefault sv uCtx i s') = Err ErrStorageInvalidConfig"
    using s'(1) d(2) u(1) by auto
qed

text \<open>A lookup that read the row before an edit and enters its provider after the edit's invalidation makes the cache
  stale: from then on lookups give the provider of the old configuration.\<close>

theorem lookup_races_with_update:
  assumes row: "st_Get i (db_storages (dbase s)) = Some old" "i \<noteq> LocalStorageUuid" and built: "built_from (sv_store sv) old = Ok p"
    and update: "StorageService_Update sv uCtx nonce req s = (Ok (), s1)" "us_Uuid req = i"
    and other: "provider_of (sv_store sv) (dbase s1) i \<noteq> Ok p"
    and late: "Registry_build (sv_store sv) old s1 = (r, s2)"
  shows "Registry_Get (sv_store sv) i s2 = (Ok p, s2) \<and> \<not> cache_ok (sv_store sv) s2"
proof -
  have "kept s1 = ((dbase s)\<lparr>db_storages := snd (st_Update i (TrimSpace (us_Name req)) blob (db_storages (dbase s)))\<rparr>,
      AList.delete i (w_cache (mem s)))" if "replaced (us_Uuid req) (TrimSpace (us_Name req)) blob s s1" for blob
    using that update(2) by (simp add: replaced_def)
  then have "w_cache (mem s1) = AList.delete i (w_cache (mem s))"
    using Update_run[OF update(1)] by (auto simp: kept_def)
  then have free: "map_of (w_cache (mem s1)) i = None" by (simp add: delete_conv')
  obtain cfg where "Decode (sv_crypto sv) (sv_secretsKey sv) (sr_ConfigEnc old) = Ok cfg"
      "Registry_construct (sv_store sv) (sr_Kind old) cfg = Ok p"
    using built by (auto simp: built_from_def bindO_eq_Ok)
  then have s2: "s2 = s1\<lparr>mem := (mem s1)\<lparr>w_cache := AList.update i p (w_cache (mem s1))\<rparr>\<rparr>"
    using late free st_Get_Some[OF row(1)] by (simp add: Registry_build_def)
  then show ?thesis using row(2) other by (auto simp: Registry_Get_def cache_ok_def update_conv')
qed

section \<open>Example\<close>

definition ex_sv :: "((string \<times> string) list, string) storage_service" where
  "ex_sv = \<lparr>sv_store = ex_store_env, sv_publicBaseUrl = ''https://z/'', sv_oauth = ex_oauth,
     sv_authCodeUrl = (\<lambda>cfg url state. url @ state), sv_exchange = (\<lambda>cfg url c x. (Ok c, x))\<rparr>"

definition ex_admin :: UserContext where
  "ex_admin = \<lparr>uc_UserId = 1, uc_Permissions = zero_permissions\<lparr>perm_IsAdministrator := True\<rparr>\<rparr>"

definition ex_nonce :: string where
  "ex_nonce = replicate nonceSize (CHR ''n'')"

definition ex_blob :: "string \<Rightarrow> string" where
  "ex_blob token = (case Encode ex_crypto ex_nonce ''key'' (no_config\<lparr>cfg_GoogleDrive := Some (ex_drive\<lparr>gd_RefreshToken := token\<rparr>)\<rparr>) of
     Ok blob \<Rightarrow> blob)"

definition ex_drive_row :: "string \<Rightarrow> StorageRow" where
  "ex_drive_row token = \<lparr>sr_Uuid = 7, sr_Name = ''drive'', sr_Kind = StorageKindGoogleDrive, sr_ConfigEnc = ex_blob token,
     sr_IsDefault = True, sr_OwnerUserId = None, sr_QuotaBytes = None, sr_UsedBytes = 0\<rparr>"

definition ex_storages :: "string \<Rightarrow> (database, (string \<times> string) list storemem) st" where
  "ex_storages token = \<lparr>faults = [], dbase = empty_database\<lparr>db_storages :=
       [local_storage_row\<lparr>sr_IsDefault := False\<rparr>, ex_drive_row token]\<rparr>,
     mem = \<lparr>w_disk = [], w_remote = [], w_cache = []\<rparr>\<rparr>"

lemma ex_nonce_size: "length ex_nonce = nonceSize"
  by (simp add: ex_nonce_def)

lemma ex_sv_laws: "aead_laws (sv_crypto ex_sv)" "sv_secretsKey ex_sv = ''key''" "sv_crypto ex_sv = ex_crypto"
  by (simp_all add: ex_sv_def ex_store_env_def ex_crypto_laws)

lemma ex_decoded:
  assumes "list_all (\<lambda>c. code c < 128) token"
  shows "Decode ex_crypto ''key'' (ex_blob token) = Ok (no_config\<lparr>cfg_GoogleDrive := Some (ex_drive\<lparr>gd_RefreshToken := token\<rparr>)\<rparr>)"
proof -
  let ?cfg = "no_config\<lparr>cfg_GoogleDrive := Some (ex_drive\<lparr>gd_RefreshToken := token\<rparr>)\<rparr>"
  obtain blob where "Encode ex_crypto ex_nonce ''key'' ?cfg = Ok blob"
    using Encode_total[of "''key''" ex_crypto ex_nonce ?cfg] by auto
  moreover from this have "ex_blob token = blob" by (simp add: ex_blob_def)
  moreover have "valid_config ?cfg = ?cfg"
    using assms by (simp add: valid_config_def no_config_def valid_drive_def ex_drive_def to_valid_ascii)
  ultimately show ?thesis using Decode_Encode[OF ex_crypto_laws ex_nonce_size] by simp
qed

lemma ex_storages_inv: "storage_inv ex_sv (ex_storages ''tok'')"
  using db_inv_empty ex_decoded[of "''tok''"]
  by (simp add: storage_inv_def db_inv_def ex_storages_def empty_database_def storages_ok_def files_placed_def
      local_storage_row_def ex_drive_row_def cache_ok_def one_default_def config_typed_def ex_sv_laws LocalStorageUuid_def
      validateConfig_def kindOfConfig_def complete_config_def no_config_def ex_drive_def empty_table_def)

theorem storage_calls_keep_invariant_witness:
  "\<exists>row. st_GetDefault (db_storages (dbase (fold (run_call ex_sv)
     [SetDefaultCall (Some ex_admin) LocalStorageUuid, LookupCall 7, DeleteCall (Some ex_admin) 7] (ex_storages ''tok'')))) = Ok row"
  using storage_calls_keep_invariant[OF ex_sv_laws(1) _ ex_storages_inv refl,
      of "[SetDefaultCall (Some ex_admin) LocalStorageUuid, LookupCall 7, DeleteCall (Some ex_admin) 7]"]
  by auto

theorem storage_secrets_hidden_witness:
  "fst (StorageService_List ex_sv (Some ex_admin) (ex_storages ''tok'')) =
   fst (StorageService_List ex_sv (Some ex_admin) (ex_storages ''tik''))"
proof -
  have "same_but_secrets ex_sv (ex_drive_row ''tok'') (ex_drive_row ''tik'')"
    using ex_decoded[of "''tok''"] ex_decoded[of "''tik''"]
    by (simp add: same_but_secrets_def ex_sv_laws ex_drive_row_def redactSecrets_def isConfigConnected_def no_config_def)
  moreover have "same_but_secrets ex_sv (local_storage_row\<lparr>sr_IsDefault := False\<rparr>) (local_storage_row\<lparr>sr_IsDefault := False\<rparr>)"
    by (simp add: same_but_secrets_def local_storage_row_def Decode_def)
  ultimately have "list_all2 (same_but_secrets ex_sv) (db_storages (dbase (ex_storages ''tok''))) (db_storages (dbase (ex_storages ''tik'')))"
    by (simp add: ex_storages_def)
  then show ?thesis
    using storage_secrets_hidden[of ex_sv "ex_storages ''tok''" "ex_storages ''tik''" "Some ex_admin"]
    by (simp add: ex_storages_def next_fault_def)
qed

theorem Update_effect_witness:
  "\<exists>s' row'. StorageService_Update ex_sv (Some ex_admin) ex_nonce
       \<lparr>us_Uuid = 7, us_Name = ''drive'', us_Config = no_config\<lparr>cfg_GoogleDrive := Some (ex_drive\<lparr>gd_ClientId := ''other''\<rparr>)\<rparr>\<rparr>
       (ex_storages ''tok'') = (Ok (), s') \<and>
     st_GetDefault (db_storages (dbase s')) = Ok row' \<and> isConnected ex_sv row' = Ok False"
proof -
  have nm: "TrimSpace ''drive'' = ''drive''" by code_simp
  have name: "TrimSpace ''drive'' \<noteq> []"
      "\<forall>r \<in> set (db_storages (dbase (ex_storages ''tok''))). sr_Name r = TrimSpace ''drive'' \<longrightarrow> sr_Uuid r = 7"
    unfolding nm by (simp_all add: ex_storages_def local_storage_row_def ex_drive_row_def)
  have row: "st_Get 7 (db_storages (dbase (ex_storages ''tok''))) = Some (ex_drive_row ''tok'')"
      "sr_Kind (ex_drive_row ''tok'') \<noteq> StorageKindLocal"
    by (simp_all add: st_Get_def ex_storages_def local_storage_row_def ex_drive_row_def LocalStorageUuid_def)
  have cfg: "Decode (sv_crypto ex_sv) (sv_secretsKey ex_sv) (sr_ConfigEnc (ex_drive_row ''tok'')) =
      Ok (no_config\<lparr>cfg_GoogleDrive := Some (ex_drive\<lparr>gd_RefreshToken := ''tok''\<rparr>)\<rparr>)"
    using ex_decoded[of "''tok''"] by (simp add: ex_sv_laws ex_drive_row_def)
  have up: "faults (ex_storages ''tok'') = []" by (simp add: ex_storages_def)
  have admin: "Some ex_admin = Some ex_admin" "perm_IsAdministrator (uc_Permissions ex_admin)" "sv_secretsKey ex_sv \<noteq> []"
    by (simp_all add: ex_admin_def ex_sv_laws)
  note applied = Update_effect[OF ex_sv_laws(1) ex_nonce_size ex_storages_inv up admin row cfg name, THEN conjunct2, rule_format,
    of "ex_drive\<lparr>gd_RefreshToken := ''tok''\<rparr>" "ex_drive\<lparr>gd_ClientId := ''other''\<rparr>"]
  show ?thesis
    using applied by (auto simp: no_config_def ex_drive_row_def ex_drive_def)
qed

end
