(* ===== verification/FileService.thy ===== *)
theory FileService
  imports UploadPipeline
begin

text \<open>
  The file service (internal/service/v1/file_service.go) and the upload endpoint in front of it
  (internal/transport/wapi/upload.go).  A multipart body is the list of events its reader gives: parts, or the error that ends
  it.  \<open>GetFile\<close> is in FilePlacement, with the storages it reads from.

  Fact: uploads and deletions of one user touch no row and no file of another, nor any that a song uses.
\<close>

section \<open>Uploading\<close>

definition SaveFile ::
  "pipeline_env \<Rightarrow> string \<Rightarrow> UserContext option \<Rightarrow> string \<Rightarrow> string \<Rightarrow> string \<Rightarrow> ('z, int) diskprog" where
  "SaveFile env token uCtx fileNameWithExt folderName content =
     uploader uCtx (\<lambda>uc.
     if \<not> isSupportedUpload fileNameWithExt then throwM ErrUnsupportedUploadFormat
     else
       bindM (liftO (sanitizedFolder folderName)) (\<lambda>folderRelDir.
       bindM (ListFiles (pe_root env) (uc_UserId uc)) (\<lambda>files.
       if int (length files) \<ge> perm_MaxPendingTracks (uc_Permissions uc) then throwM ErrPendingTrackLimitReached
       else
         let uploadReq = \<lparr>ur_UserId = uc_UserId uc, ur_FileNameWithExt = fileNameWithExt, ur_FolderRelDir = folderRelDir,
               ur_Content = content, ur_MaxSongSizeBytes = perm_MaxSongSizeBytes (uc_Permissions uc),
               ur_MaxTotalUploadBytes = perm_MaxTotalUploadBytes (uc_Permissions uc)\<rparr> in
         bindM (store env token uploadReq) (\<lambda>(i, _). returnM i))))"

text \<open>A part of a multipart body: the name of its form field, the file name its header gives (empty when it gives none),
  its content, and whether reading the content fails.\<close>

record part =
  pt_FormName :: string
  pt_FileNameParam :: string
  pt_Content :: string
  pt_ReadFails :: bool

datatype part_event = NextPart part | PartError

text \<open>\<open>Part.FileName\<close>: the last element of the path the client sent.\<close>

definition part_FileName :: "part \<Rightarrow> string" where
  "part_FileName p = (if pt_FileNameParam p = [] then [] else path_Base (pt_FileNameParam p))"

fun parts_loop :: "string \<Rightarrow> part_event list \<Rightarrow> (string \<times> string \<times> string) outcome" where
  "parts_loop folderName [] = Err ErrInvalidRequest"
| "parts_loop folderName (PartError # events) = Err ErrMalformed"
| "parts_loop folderName (NextPart p # events) =
     (if pt_FormName p = ''folder''
      then (if pt_ReadFails p then Err ErrMalformed else parts_loop (TrimSpace (pt_Content p)) events)
      else if pt_FormName p \<noteq> ''file'' then parts_loop folderName events
      else Ok (part_FileName p, folderName, pt_Content p))"

text \<open>Whether the content type parses is given.\<close>

definition extractUploadParts :: "bool \<Rightarrow> part_event list \<Rightarrow> (string \<times> string \<times> string) outcome" where
  "extractUploadParts mediaTypeOk events = (if \<not> mediaTypeOk then Err ErrMalformed else parts_loop [] events)"

datatype upload_reply = MethodNotAllowed | BadRequest err | UploadFailed err | UploadedFile int

definition Upload ::
  "pipeline_env \<Rightarrow> string \<Rightarrow> UserContext option \<Rightarrow> bool \<Rightarrow> bool \<Rightarrow> part_event list \<Rightarrow> ('z, upload_reply) diskprog" where
  "Upload env token uCtx isPost mediaTypeOk events =
     (if \<not> isPost then returnM MethodNotAllowed
      else (case extractUploadParts mediaTypeOk events of
          Ok (filename, folderName, content) \<Rightarrow>
            bindM (tryM (SaveFile env token uCtx filename folderName content)) (\<lambda>r. case r of
              Inl e \<Rightarrow> returnM (UploadFailed e)
            | Inr i \<Rightarrow> returnM (UploadedFile i))
        | Err e \<Rightarrow> returnM (BadRequest e)
        | Panic \<Rightarrow> panicM))"

section \<open>Reading\<close>

record SongFile =
  sf_Id :: int
  sf_Path :: string

primrec with_rows :: "string list \<Rightarrow> ('z, SongFile list) diskprog" where
  "with_rows [] = returnM []"
| "with_rows (f # files) =
     bindM (tryM (FM_GetByPath f)) (\<lambda>r.
     bindM (with_rows files) (\<lambda>res.
     returnM (case r of Inl _ \<Rightarrow> res | Inr meta \<Rightarrow> \<lparr>sf_Id = fm_Id meta, sf_Path = f\<rparr> # res)))"

definition ListUploadedFiles :: "pipeline_env \<Rightarrow> UserContext option \<Rightarrow> ('z, SongFile list) diskprog" where
  "ListUploadedFiles env uCtx =
     authenticated uCtx (\<lambda>uc. bindM (ListFiles (pe_root env) (uc_UserId uc)) with_rows)"

record FoundFileByHash =
  ff_Hash :: string
  ff_FileId :: int
  ff_SongId :: "int option"

record FoundSongByFileId =
  fs_FileId :: int
  fs_SongId :: int

primrec check_hashes :: "int \<Rightarrow> string list \<Rightarrow> ('z, FoundFileByHash list) diskprog" where
  "check_hashes userId [] = returnM []"
| "check_hashes userId (hash # hashes) =
     bindM (tryM (FM_GetByHash hash userId)) (\<lambda>r. case r of
       Inl e \<Rightarrow> if e = ErrNotFound then check_hashes userId hashes else throwM e
     | Inr file \<Rightarrow>
         bindM (tryM (SONG_GetByFileId (fm_Id file))) (\<lambda>q.
         bindM (case q of Inl e \<Rightarrow> if e = ErrNotFound then returnM None else throwM e
                        | Inr song \<Rightarrow> returnM (Some (song_Id song))) (\<lambda>songId.
         bindM (check_hashes userId hashes) (\<lambda>res.
         returnM (\<lparr>ff_Hash = hash, ff_FileId = fm_Id file, ff_SongId = songId\<rparr> # res)))))"

definition CheckFilesByHashes :: "UserContext option \<Rightarrow> string list \<Rightarrow> ('z, FoundFileByHash list) diskprog" where
  "CheckFilesByHashes uCtx hashes = authenticated uCtx (\<lambda>uc. check_hashes (uc_UserId uc) hashes)"

primrec check_songs :: "int list \<Rightarrow> ('z, FoundSongByFileId list) diskprog" where
  "check_songs [] = returnM []"
| "check_songs (fileId # fileIds) =
     bindM (tryM (SONG_GetByFileId fileId)) (\<lambda>r. case r of
       Inl e \<Rightarrow> if e = ErrNotFound then check_songs fileIds else throwM e
     | Inr song \<Rightarrow>
         bindM (check_songs fileIds) (\<lambda>res.
         returnM (\<lparr>fs_FileId = fileId, fs_SongId = song_Id song\<rparr> # res)))"

definition CheckSongsByFileIds :: "UserContext option \<Rightarrow> int list \<Rightarrow> ('z, FoundSongByFileId list) diskprog" where
  "CheckSongsByFileIds uCtx fileIds = authenticated uCtx (\<lambda>_. check_songs fileIds)"

section \<open>Deleting\<close>

definition deleteUploadedFile :: "pipeline_env \<Rightarrow> UserContext option \<Rightarrow> int \<Rightarrow> ('z, unit) diskprog" where
  "deleteUploadedFile env uCtx fileId =
     authenticated uCtx (\<lambda>uc.
     bindM (FM_Get fileId) (\<lambda>file.
     if fm_AddedById file \<noteq> uc_UserId uc then throwM ErrPermissionDenied
     else
       bindM (tryM (SONG_GetByFileId fileId)) (\<lambda>r. case r of
         Inr _ \<Rightarrow> throwM ErrFileAlreadyUsed
       | Inl e \<Rightarrow>
           if e \<noteq> ErrNotFound then throwM e
           else
             bindM (FM_Delete fileId) (\<lambda>_.
             DeleteTempFile (pe_root env) (f_FilePath (fm_File file))))))"

definition DeleteUploadedFile :: "pipeline_env \<Rightarrow> UserContext option \<Rightarrow> int \<Rightarrow> ('z, unit) diskprog" where
  "DeleteUploadedFile env uCtx fileId = deleteUploadedFile env uCtx fileId"

definition DeleteUploadedFiles :: "pipeline_env \<Rightarrow> UserContext option \<Rightarrow> int list \<Rightarrow> ('z, unit) diskprog" where
  "DeleteUploadedFiles env uCtx fileIds = forM (deleteUploadedFile env uCtx) fileIds"

section \<open>Requests are well formed\<close>

lemma supported_name_safe:
  assumes "isSupportedUpload name" "slash \<notin> set name"
  shows "safe_segment name"
proof -
  have "name \<noteq> [] \<and> name \<noteq> ''.'' \<and> name \<noteq> ''..''"
  proof (intro conjI notI)
    have e: "path_Ext [] = []" "path_Ext ''.'' = ''.''" "path_Ext ''..'' = ''.''" by code_simp+
    have l: "ascii_lower [] = []" "ascii_lower ''.'' = ''.''" by code_simp+
    note d = isSupportedUpload_def IsSupported_def supportedExtensions_def coverImageExtensions_def Let_def
    show "name = [] \<Longrightarrow> False" "name = ''.'' \<Longrightarrow> False" "name = ''..'' \<Longrightarrow> False"
      using assms(1) e l by (auto simp: d split: if_splits)
  qed
  then show ?thesis using assms(2) by (simp add: safe_segment_def)
qed

lemma sanitizedFolder_ok:
  assumes "sanitizedFolder folderName = Ok dir"
  shows "\<exists>fsegs. safe_segments fsegs \<and> dir = join_with [slash] fsegs"
proof (cases "folderName = []")
  case False
  then have "safe_segment dir" using assms SanitizeFolderName_safe by (simp add: sanitizedFolder_def)
  then show ?thesis by (intro exI[of _ "[dir]"]) simp
qed (use assms in \<open>auto simp: sanitizedFolder_def intro: exI[of _ "[]"]\<close>)

section \<open>What an upload does to the rest of the database\<close>

lemma keeps_conj: "keeps I m \<Longrightarrow> keeps J m \<Longrightarrow> keeps (\<lambda>s. I s \<and> J s) m"
  by (simp add: keeps_def)

text \<open>What a new file row and a new job keep, an upload keeps.\<close>

abbreviation dataI :: "(database \<Rightarrow> bool) \<Rightarrow> (database, 'm) st \<Rightarrow> bool" where
  "dataI J \<equiv> on_data (\<lambda>d m. J d \<and> True)"

lemma keeps_dataI_disk:
  "keeps (dataI J) (os_open p)" "keeps (dataI J) (os_copy p q)" "keeps (dataI J) (os_remove p)"
  "keeps (dataI J) (os_remove_if_exists p)" "keeps (dataI J) (os_write p c)" "keeps (dataI J) (ListFiles root u)"
  unfolding os_open_def os_copy_def os_remove_def os_remove_if_exists_def os_write_def ListFiles_def
  by (rule keeps_on_disk; simp)+

lemma keeps_dataI_reads:
  "keeps (dataI J) (FM_GetByPath p)" "keeps (dataI J) (FM_GetByHash h u)" "keeps (dataI J) (FM_GetTotalSizeByUser u)"
  "keeps (dataI J) (SONG_GetByFileId i)"
  unfolding FM_GetByPath_def FM_GetByHash_def FM_GetTotalSizeByUser_def SONG_GetByFileId_def
  by (rule keeps_dbcall; simp)+

lemma keeps_dataI_store:
  assumes req: "request_ok req" "slash \<notin> set token" "\<And>c. slash \<notin> set (pe_sha256 env c)"
    and add: "\<And>row. plain_row row \<Longrightarrow> keeps (dataI J :: (database, 'z diskmem_scheme) st \<Rightarrow> bool) (FM_Add row)"
    and job: "\<And>i p. keeps (dataI J :: (database, 'z diskmem_scheme) st \<Rightarrow> bool) (JOB_EnqueueAudioParseJob i p)"
  shows "keeps (dataI J :: (database, 'z diskmem_scheme) st \<Rightarrow> bool) (store env token req)"
proof -
  let ?I = "dataI J :: (database, 'z diskmem_scheme) st \<Rightarrow> bool" and ?tmp = "staging_path token req"
  have "keeps ?I (try_disambiguated dir name h lens)" for dir name h lens
  proof (induction lens)
    case Nil
    show ?case unfolding try_disambiguated.simps by (rule keeps_throw)
  next
    case (Cons n lens)
    then show ?case unfolding try_disambiguated.simps by (intro keeps_intros keeps_dataI_reads)
  qed
  then have "keeps ?I (resolveTargetPath dir name h)" for dir name h
    unfolding resolveTargetPath_def by (intro keeps_intros keeps_dataI_reads)
  then have target: "hoare ?I (resolveTargetPath (path_Dir ?tmp) (ur_FileNameWithExt req) (pe_sha256 env c))
      (\<lambda>r s. ?I s \<and> (\<forall>p. r = Ok p \<longrightarrow> rel_path p))" for c
    using resolveTargetPath_rel[OF req] by (auto intro!: hoareI dest: keepsD_eq)
  have discard: "keeps ?I (discard_and_fail root p e)" for root p e
    unfolding discard_and_fail_def DeleteTempFile_def by (intro keeps_intros keeps_dataI_disk)
  have cover: "keeps ?I (check_cover env name tmp)" for name tmp
    unfolding check_cover_def or_discard_def GetFile_def
    by (intro keeps_intros keeps_dataI_disk discard; split outcome.split; intro conjI allI impI keeps_intros discard)
  have tail: "keeps ?I (or_discard (pe_root env) ?tmp
      (resolveTargetPath (path_Dir ?tmp) (ur_FileNameWithExt req) (pe_sha256 env c)) (\<lambda>targetPath.
      or_discard (pe_root env) ?tmp (Move (pe_root env) ?tmp targetPath) (\<lambda>_. register_upload env req targetPath n h v)))" for c n h v
    by (rule keeps_or_discard_post[OF discard target])
      (unfold or_discard_def register_upload_def Move_def copy_atomically_def,
        intro keeps_intros keeps_dataI_disk keeps_dataI_reads discard job add, simp)
  have staged: "hoare ?I (SaveToTempFolder root (ur_UserId req)
      (path_Join [ur_FolderRelDir req, newStagingFileName token (path_Ext (ur_FileNameWithExt req))]) content)
      (\<lambda>r s. ?I s \<and> (\<forall>q. r = Ok q \<longrightarrow> q = ?tmp))" for root content
  proof -
    have "keeps ?I (SaveToTempFolder root u q content)" for u q
      unfolding SaveToTempFolder_def Let_def by (intro keeps_intros keeps_dataI_disk)
    then show ?thesis using SaveToTempFolder_path unfolding staging_path_def by (auto intro!: hoareI dest: keepsD_eq)
  qed
  show ?thesis
    unfolding store_def Let_def DeleteTempFile_def
  proof (rule keeps_bind_post[OF staged], goal_cases)
    case (1 q)
    show ?case unfolding 1 by (intro keeps_intros discard cover keeps_dataI_disk keeps_dataI_reads tail)
  qed
qed

section \<open>Isolation\<close>

definition used_by_song :: "database \<Rightarrow> FileMeta \<Rightarrow> bool" where
  "used_by_song d row \<longleftrightarrow> (\<exists>song \<in> set (rows (db_songs d)). song_FileId song = fm_Id row)"

text \<open>The files that no song uses are at plain paths, as uploads put them; only creating a song gives other paths.\<close>

definition unused_plain :: "database \<Rightarrow> bool" where
  "unused_plain d \<longleftrightarrow> (\<forall>row \<in> set (rows (db_files d)). used_by_song d row \<or> plain_row row)"

text \<open>The rows \<open>R\<close> are there with their content; those of \<open>A\<close> are used by songs.\<close>

definition safe_files ::
  "string \<Rightarrow> FileMeta set \<Rightarrow> FileMeta set \<Rightarrow> (string \<Rightarrow> string option) \<Rightarrow> (database, 'z diskmem_scheme) st \<Rightarrow> bool" where
  "safe_files root A R D s \<longleftrightarrow> protected root R D s \<and> dataI (\<lambda>d. (db_inv d \<and> unused_plain d) \<and> (\<forall>row \<in> A. used_by_song d row)) s"

abbreviation safe_data :: "FileMeta set \<Rightarrow> database \<Rightarrow> bool" where
  "safe_data A d \<equiv> (db_inv d \<and> unused_plain d) \<and> (\<forall>row \<in> A. used_by_song d row)"

lemma unused_plain_add: "plain_row req \<Longrightarrow> unused_plain d \<Longrightarrow> unused_plain (snd (db_add_file req d))"
  by (auto simp: unused_plain_def used_by_song_def db_add_file_def fm_Add_def Let_def split: prod.split outcome.split)

lemma safe_data_add:
  "plain_row req \<Longrightarrow> keeps (dataI (safe_data A)) (FM_Add req)"
  "keeps (dataI (safe_data A)) (JOB_EnqueueAudioParseJob i p)"
proof -
  have songs: "db_songs (snd (db_add_file req d)) = db_songs d" for d
    by (simp add: db_add_file_def Let_def split: prod.split outcome.split)
  show "keeps (dataI (safe_data A)) (FM_Add req)" if "plain_row req"
    unfolding FM_Add_def by (rule keeps_dbcall) (simp add: db_inv_add_file unused_plain_add[OF that], simp add: used_by_song_def songs)
  show "keeps (dataI (safe_data A)) (JOB_EnqueueAudioParseJob i p)"
    unfolding JOB_EnqueueAudioParseJob_def on_jobs_def
    by (rule keeps_dbcall)
      (simp add: db_inv_def unused_plain_def used_by_song_def job_EnqueueAudioParseJob_def job_inv_Enqueue)
qed

lemma keeps_safe_store:
  assumes "request_ok req" "slash \<notin> set token" "\<And>c. slash \<notin> set (pe_sha256 env c)"
    and "\<forall>row \<in> R. f_FilePath (fm_File row) \<noteq> staging_path token req"
  shows "keeps (safe_files (pe_root env) A R D) (store env token req)"
  unfolding safe_files_def
  by (intro keeps_conj store_keeps_protected[OF assms] keeps_dataI_store[OF assms(1-3)] safe_data_add)

text \<open>A random token is part of no path that is already stored.\<close>

definition fresh_token :: "string \<Rightarrow> FileMeta \<Rightarrow> bool" where
  "fresh_token token row \<longleftrightarrow> slash \<notin> set token \<and> (\<forall>a b. f_FilePath (fm_File row) \<noteq> a @ stagingNamePrefix @ token @ b)"

lemma join_with_snoc: "\<exists>a. join_with sep (xs @ [x]) = a @ x"
proof (induction xs)
  case Nil
  show ?case by (intro exI[of _ "[]"]) simp
next
  case (Cons y ys)
  then obtain a where a: "join_with sep (ys @ [x]) = a @ x" by blast
  obtain z zs where "ys @ [x] = z # zs" by (cases "ys @ [x]") auto
  then show ?case using a by (intro exI[of _ "y @ sep @ a"]) simp
qed

lemma fresh_staging_path:
  assumes "request_ok req" "fresh_token token row"
  shows "f_FilePath (fm_File row) \<noteq> staging_path token req"
proof -
  have no_slash: "slash \<notin> set token" using assms(2) by (simp add: fresh_token_def)
  obtain fsegs where s: "staging_path token req = join_with [slash] ((tmpFolder # FormatInt (ur_UserId req) # fsegs) @
        [newStagingFileName token (path_Ext (ur_FileNameWithExt req))])"
    using staging_path_segments[OF assms(1) no_slash] by metis
  obtain a where "staging_path token req = a @ stagingNamePrefix @ token @ path_Ext (ur_FileNameWithExt req)"
    using join_with_snoc unfolding s newStagingFileName_def by metis
  then show ?thesis using assms(2) by (auto simp: fresh_token_def)
qed

lemma keeps_safe_SaveFile:
  assumes "slash \<notin> set fileNameWithExt \<or> fileNameWithExt = [slash]" "\<And>c. slash \<notin> set (pe_sha256 env c)"
    and "slash \<notin> set token" "\<forall>row \<in> R. fresh_token token row"
  shows "keeps (safe_files (pe_root env) A R D) (SaveFile env token uCtx fileNameWithExt folderName content)"
proof (cases "isSupportedUpload fileNameWithExt")
  case True
  moreover have "\<not> isSupportedUpload [slash]" by code_simp
  ultimately have plain: "slash \<notin> set fileNameWithExt" using assms(1) by auto
  have list: "keeps (safe_files (pe_root env) A R D) (ListFiles root u)" for root u
    unfolding safe_files_def
    by (intro keeps_conj keeps_dataI_disk) (rule keeps_protected_disk[OF only_touches_storage(6)], simp)
  show ?thesis
    unfolding SaveFile_def Let_def
  proof (intro keeps_checks keeps_if keeps_throw, rule keeps_bind_post)
    show "hoare (safe_files (pe_root env) A R D) (liftO (sanitizedFolder folderName))
        (\<lambda>r s. safe_files (pe_root env) A R D s \<and> (\<forall>dir. r = Ok dir \<longrightarrow> sanitizedFolder folderName = Ok dir))"
      by (simp add: hoare_def)
  next
    fix uc dir
    assume "sanitizedFolder folderName = Ok dir"
    then have ok: "request_ok \<lparr>ur_UserId = uc_UserId uc, ur_FileNameWithExt = fileNameWithExt, ur_FolderRelDir = dir,
        ur_Content = content, ur_MaxSongSizeBytes = perm_MaxSongSizeBytes (uc_Permissions uc),
        ur_MaxTotalUploadBytes = perm_MaxTotalUploadBytes (uc_Permissions uc)\<rparr>"
      using sanitizedFolder_ok supported_name_safe[OF True plain] by (simp add: request_ok_def)
    show "keeps (safe_files (pe_root env) A R D) (bindM (ListFiles (pe_root env) (uc_UserId uc)) (\<lambda>files.
        if int (length files) \<ge> perm_MaxPendingTracks (uc_Permissions uc) then throwM ErrPendingTrackLimitReached
        else bindM (store env token \<lparr>ur_UserId = uc_UserId uc, ur_FileNameWithExt = fileNameWithExt, ur_FolderRelDir = dir,
          ur_Content = content, ur_MaxSongSizeBytes = perm_MaxSongSizeBytes (uc_Permissions uc),
          ur_MaxTotalUploadBytes = perm_MaxTotalUploadBytes (uc_Permissions uc)\<rparr>) (\<lambda>(i, _). returnM i)))"
      using fresh_staging_path[OF ok] assms(2-4)
      by (intro keeps_bind list keeps_if keeps_throw keeps_safe_store[OF ok] keeps_case_prod keeps_return) auto
  qed
qed (simp add: SaveFile_def keeps_checks keeps_throw)

lemma part_FileName_plain: "slash \<notin> set (part_FileName p) \<or> part_FileName p = [slash]"
  by (auto simp: part_FileName_def path_Base_def path_Split_def Let_def dest: set_takeWhileD)

lemma parts_loop_name: "parts_loop folderName events = Ok (name, folder, c) \<Longrightarrow> \<exists>p. name = part_FileName p"
  by (induction folderName events rule: parts_loop.induct) (auto split: if_splits)

lemma keeps_safe_Upload:
  assumes "\<And>c. slash \<notin> set (pe_sha256 env c)"
    and "slash \<notin> set token" "\<forall>row \<in> R. fresh_token token row"
  shows "keeps (safe_files (pe_root env) A R D) (Upload env token uCtx isPost mediaTypeOk events)"
proof (cases "extractUploadParts mediaTypeOk events")
  case (Ok parts)
  obtain name folder c where parts: "parts = (name, folder, c)" by (cases parts)
  then have "\<exists>p. name = part_FileName p"
    using Ok parts_loop_name by (auto simp: extractUploadParts_def split: if_splits)
  then have "slash \<notin> set name \<or> name = [slash]" using part_FileName_plain by blast
  from keeps_safe_SaveFile[OF this assms] show ?thesis
    unfolding Upload_def Ok parts by (simp, intro conjI impI keeps_intros)
qed (simp_all add: Upload_def keeps_return keeps_panic)

text \<open>Deleting, step by step.\<close>

lemma SONG_GetByFileId_run:
  assumes "SONG_GetByFileId i s = (q, s')"
  shows "dbase s' = dbase s \<and> mem s' = mem s \<and>
    (q = Err ErrStorageFailure \<or> (\<exists>song. q = Ok song) \<or>
     q = Err ErrNotFound \<and> tbl_find (\<lambda>song. song_FileId song = i) (db_songs (dbase s)) = None)"
  using assms
  by (cases "tbl_find (\<lambda>song. song_FileId song = i) (db_songs (dbase s))") (auto simp: SONG_GetByFileId_def dbcall_cases)

lemma FM_Get_run:
  assumes "FM_Get i s = (q, s')"
  shows "dbase s' = dbase s \<and> mem s' = mem s \<and> (q = Err ErrStorageFailure \<or> q = fm_Get i (db_files (dbase s)))"
  using assms by (auto simp: FM_Get_def dbcall_cases)

lemma delete_run:
  assumes run: "deleteUploadedFile env uCtx i s = (r, s')"
  shows "(dbase s' = dbase s \<and> mem s' = mem s \<and> r \<noteq> Ok ()) \<or>
    (\<exists>uc meta s1. uCtx = Some uc \<and> fm_Get i (db_files (dbase s)) = Ok meta \<and> fm_AddedById meta = uc_UserId uc \<and>
       tbl_find (\<lambda>song. song_FileId song = i) (db_songs (dbase s)) = None \<and> dbase s1 = db_delete_file i (dbase s) \<and>
       mem s1 = mem s \<and> DeleteTempFile (pe_root env) (f_FilePath (fm_File meta)) s1 = (r, s'))"
proof (cases uCtx)
  case (Some uc)
  obtain q s1 where get: "FM_Get i s = (q, s1)" by fastforce
  obtain p s2 where song: "SONG_GetByFileId i s1 = (p, s2)" by fastforce
  obtain d s3 where del: "FM_Delete i s2 = (d, s3)" by fastforce
  note g = FM_Get_run[OF get] and h = SONG_GetByFileId_run[OF song]
  have d: "(d = Err ErrStorageFailure \<and> dbase s3 = dbase s2 \<and> mem s3 = mem s2) \<or>
      (d = Ok () \<and> dbase s3 = db_delete_file i (dbase s2) \<and> mem s3 = mem s2)"
    using del by (auto simp: FM_Delete_def exec_cases)
  show ?thesis
  proof (cases "\<exists>meta. q = Ok meta \<and> fm_AddedById meta = uc_UserId uc \<and> p = Err ErrNotFound \<and> d = Ok ()")
    case False
    then show ?thesis
      using run Some get song del g h d
      by (cases q; cases p) (auto simp: deleteUploadedFile_def authenticated_def bindM_def tryM_def split: if_splits)
  next
    case True
    then obtain meta where meta: "q = Ok meta" "fm_AddedById meta = uc_UserId uc" "p = Err ErrNotFound" "d = Ok ()" by blast
    then have "DeleteTempFile (pe_root env) (f_FilePath (fm_File meta)) s3 = (r, s')"
      using run Some get song del by (simp add: deleteUploadedFile_def authenticated_def)
    then show ?thesis using Some meta g h d by auto
  qed
qed (use run in \<open>auto simp: deleteUploadedFile_def authenticated_def\<close>)

lemma keeps_safe_delete:
  assumes "A \<subseteq> R"
    and mine: "\<And>uc row. uCtx = Some uc \<Longrightarrow> row \<in> R \<Longrightarrow> fm_AddedById row = uc_UserId uc \<Longrightarrow> row \<in> A"
  shows "keeps (safe_files (pe_root env) A R D) (deleteUploadedFile env uCtx i)"
proof (rule keepsI)
  fix s r s'
  assume safe: "safe_files (pe_root env) A R D s" and run: "deleteUploadedFile env uCtx i s = (r, s')"
  from delete_run[OF run] show "safe_files (pe_root env) A R D s'"
  proof (elim disjE exE conjE)
    assume "dbase s' = dbase s" "mem s' = mem s"
    then show ?thesis using safe by (simp add: safe_files_def protected_def on_data_def)
  next
    fix uc meta s1
    let ?t = "db_files (dbase s)"
    assume u: "uCtx = Some uc" "fm_AddedById meta = uc_UserId uc" and meta: "fm_Get i ?t = Ok meta"
      and free: "tbl_find (\<lambda>song. song_FileId song = i) (db_songs (dbase s)) = None"
      and s1: "dbase s1 = db_delete_file i (dbase s)" "mem s1 = mem s"
      and del: "DeleteTempFile (pe_root env) (f_FilePath (fm_File meta)) s1 = (r, s')"
    have inv: "fm_inv ?t" "db_inv (dbase s)" "R \<subseteq> set (rows ?t)" "unused_plain (dbase s)"
      using safe by (auto simp: safe_files_def protected_def on_data_def db_inv_def)
    have f: "meta \<in> set (rows ?t)" "fm_Id meta = i" using fm_Get_Ok[OF meta] by auto
    have no_song: "\<not> used_by_song (dbase s) meta"
      using free f(2) unfolding tbl_find_def find_None_iff used_by_song_def by simp
    then have "meta \<notin> R" using safe mine[OF u(1)] u(2) by (auto simp: safe_files_def on_data_def)
    have other: "fm_Id row \<noteq> i \<and> f_FilePath (fm_File row) \<noteq> f_FilePath (fm_File meta)" if "row \<in> R" for row
    proof -
      have "row \<in> set (rows ?t)" "row \<noteq> meta" using that inv(3) \<open>meta \<notin> R\<close> by auto
      then show ?thesis
        using inv(1) f by (auto simp: fm_inv_def table_wf_def inj_on_def distinct_map)
    qed
    have "not_of (pe_root env) R (f_FilePath (fm_File meta))"
      using other inv(4) no_song f(1) path_Join_root_inj[of _ "f_FilePath (fm_File meta)" "pe_root env"]
      by (auto simp: not_of_def row_disk_path_def unused_plain_def)
    note keep = keeps_protected_storage(1)[OF this]
    have safe1: "safe_files (pe_root env) A R D s1"
    proof -
      have "db_inv (db_delete_file i (dbase s))"
        using inv(2) by (auto simp: db_inv_def db_delete_file_def files_placed_def fm_Delete_def
            intro: fm_inv_Delete [unfolded fm_Delete_def] table_wf_delete)
      moreover have used: "used_by_song (db_delete_file i (dbase s)) row" if u: "used_by_song (dbase s) row" "fm_Id row \<noteq> i" for row
      proof -
        obtain song where "song \<in> set (rows (db_songs (dbase s)))" "song_FileId song = fm_Id row" "fm_Id row \<noteq> i"
          using u by (auto simp: used_by_song_def)
        then show ?thesis by (auto simp: used_by_song_def db_delete_file_def tbl_delete_def intro!: bexI[of _ song])
      qed
      moreover have "unused_plain (db_delete_file i (dbase s))"
        using inv(4) used by (auto simp: unused_plain_def db_delete_file_def fm_Delete_def tbl_delete_def)
      moreover have "used_by_song (dbase s) row" "fm_Id row \<noteq> i" if "row \<in> A" for row
        using safe that other assms(1) by (auto simp: safe_files_def on_data_def)
      moreover have "R \<subseteq> set (rows (db_files (db_delete_file i (dbase s))))"
        using inv(3) other by (auto simp: db_delete_file_def fm_Delete_def tbl_delete_def)
      ultimately show ?thesis using safe s1 by (simp add: safe_files_def protected_def on_data_def)
    qed
    show ?thesis
      by (rule keepsD_eq[where I = "safe_files (pe_root env) A R D" and m = "DeleteTempFile (pe_root env) (f_FilePath (fm_File meta))",
            OF _ del safe1], unfold safe_files_def DeleteTempFile_def)
        (intro keeps_conj keeps_dataI_disk keep[unfolded DeleteTempFile_def])
  qed
qed

section \<open>Sequences of calls\<close>

datatype file_call =
    UploadCall "UserContext option" string bool bool "part_event list"
  | DeleteFilesCall "UserContext option" "int list"
  | ListUploadedCall "UserContext option"
  | CheckHashesCall "UserContext option" "string list"
  | CheckSongsCall "UserContext option" "int list"

fun run_file_call :: "pipeline_env \<Rightarrow> file_call \<Rightarrow> (database, 'z diskmem_scheme) st \<Rightarrow> (database, 'z diskmem_scheme) st" where
  "run_file_call env (UploadCall u token isPost mediaTypeOk events) s = snd (Upload env token u isPost mediaTypeOk events s)"
| "run_file_call env (DeleteFilesCall u ids) s = snd (DeleteUploadedFiles env u ids s)"
| "run_file_call env (ListUploadedCall u) s = snd (ListUploadedFiles env u s)"
| "run_file_call env (CheckHashesCall u hashes) s = snd (CheckFilesByHashes u hashes s)"
| "run_file_call env (CheckSongsCall u ids) s = snd (CheckSongsByFileIds u ids s)"

text \<open>The call does not delete on behalf of the row's owner, and its upload token is fresh for the row.\<close>

fun foreign_call :: "FileMeta \<Rightarrow> file_call \<Rightarrow> bool" where
  "foreign_call row (DeleteFilesCall (Some uc) ids) = (fm_AddedById row \<noteq> uc_UserId uc)"
| "foreign_call row _ = True"

fun fresh_call :: "FileMeta \<Rightarrow> file_call \<Rightarrow> bool" where
  "fresh_call row (UploadCall u token isPost mediaTypeOk events) = fresh_token token row"
| "fresh_call row _ = True"

lemma keeps_safe_reads:
  "keeps (safe_files root A R D) (FM_GetByPath p)" "keeps (safe_files root A R D) (FM_GetByHash h u)"
  "keeps (safe_files root A R D) (SONG_GetByFileId i)" "keeps (safe_files root A R D) (ListFiles root' u)"
proof -
  have song: "keeps (protected root R D) (SONG_GetByFileId i)"
    unfolding SONG_GetByFileId_def by (rule keeps_protected_dbcall) simp
  have list: "keeps (protected root R D) (ListFiles root' u)"
    by (rule keeps_protected_disk[OF only_touches_storage(6)]) simp
  show "keeps (safe_files root A R D) (FM_GetByPath p)" "keeps (safe_files root A R D) (FM_GetByHash h u)"
    "keeps (safe_files root A R D) (SONG_GetByFileId i)" "keeps (safe_files root A R D) (ListFiles root' u)"
    unfolding safe_files_def
    by (intro keeps_conj keeps_dataI_reads keeps_protected_reads song list keeps_dataI_disk)+
qed

lemma keeps_safe_queries:
  "keeps (safe_files root A R D) (with_rows files)" "keeps (safe_files root A R D) (check_hashes u hashes)"
  "keeps (safe_files root A R D) (check_songs ids)"
proof -
  show "keeps (safe_files root A R D) (with_rows files)"
    by (induction files; unfold with_rows.simps; intro keeps_intros keeps_safe_reads; assumption?)
  show "keeps (safe_files root A R D) (check_hashes u hashes)"
    by (induction hashes; unfold check_hashes.simps; intro keeps_intros keeps_safe_reads; assumption?)
  show "keeps (safe_files root A R D) (check_songs ids)"
    by (induction ids; unfold check_songs.simps; intro keeps_intros keeps_safe_reads; assumption?)
qed

lemma run_file_call_safe:
  assumes "\<And>c. slash \<notin> set (pe_sha256 env c)"
    and "A \<subseteq> {row}" "A = {row} \<or> foreign_call row c" "fresh_call row c" "safe_files (pe_root env) A {row} D s"
  shows "safe_files (pe_root env) A {row} D (run_file_call env c s)"
proof (cases c)
  case (UploadCall u token isPost mediaTypeOk events)
  show ?thesis
    unfolding UploadCall run_file_call.simps
    by (rule keepsD[where I = "safe_files (pe_root env) A {row} D", OF _ assms(5)], intro keeps_safe_Upload)
      (use assms UploadCall in \<open>simp_all add: fresh_token_def\<close>)
next
  case (DeleteFilesCall u ids)
  show ?thesis
    unfolding DeleteFilesCall run_file_call.simps DeleteUploadedFiles_def
    by (rule keepsD[where I = "safe_files (pe_root env) A {row} D", OF _ assms(5)], intro keeps_forM keeps_safe_delete) (use assms DeleteFilesCall in auto)
next
  case (ListUploadedCall u)
  show ?thesis
    unfolding ListUploadedCall run_file_call.simps ListUploadedFiles_def
    by (rule keepsD[where I = "safe_files (pe_root env) A {row} D", OF _ assms(5)], intro keeps_checks keeps_bind keeps_safe_reads keeps_safe_queries)
next
  case (CheckHashesCall u hashes)
  show ?thesis
    unfolding CheckHashesCall run_file_call.simps CheckFilesByHashes_def
    by (rule keepsD[where I = "safe_files (pe_root env) A {row} D", OF _ assms(5)], intro keeps_checks keeps_safe_queries)
next
  case (CheckSongsCall u ids)
  show ?thesis
    unfolding CheckSongsCall run_file_call.simps CheckSongsByFileIds_def
    by (rule keepsD[where I = "safe_files (pe_root env) A {row} D", OF _ assms(5)], intro keeps_checks keeps_safe_queries)
qed

text \<open>C29: Users' files are safe from each other.  Whatever uploads (any multipart body), deletions, listings and
  checks anybody sends, in any order and whatever calls fail: a file that is used by a song, or whose owner sends no deletion, keeps its
  row unchanged and stays used, and keeps its content when its path is a plain one, as the paths of uploads are.  The premises: the tables are
  consistent, the files that no song uses are at plain paths (only creating a song gives other paths: names of artists and titles that hold
  slashes or dots; the file of a song with such a path may be overwritten by an upload), and the random tokens of staging names are not part of the path.\<close>
theorem file_calls_isolated:
  assumes hash: "\<And>c. slash \<notin> set (pe_sha256 env c)" and inv: "db_inv (dbase s)" "unused_plain (dbase s)"
    and row: "row \<in> set (rows (db_files (dbase s)))"
    and mine: "used_by_song (dbase s) row \<or> list_all (foreign_call row) calls" and fresh: "list_all (fresh_call row) calls"
    and s': "s' = fold (run_file_call env) calls s"
  shows "row \<in> set (rows (db_files (dbase s'))) \<and>
    (rel_path (f_FilePath (fm_File row)) \<longrightarrow>
      map_of (w_disk (mem s')) (row_disk_path (pe_root env) row) = map_of (w_disk (mem s)) (row_disk_path (pe_root env) row)) \<and>
    (used_by_song (dbase s) row \<longrightarrow> used_by_song (dbase s') row)"
proof -
  let ?A = "if used_by_song (dbase s) row then {row} else {}" and ?D = "map_of (w_disk (mem s))"
  have start: "safe_files (pe_root env) ?A {row} ?D s"
    using inv row by (simp add: safe_files_def protected_def on_data_def)
  have "safe_files (pe_root env) ?A {row} ?D (fold (run_file_call env) calls s)"
    using start mine fresh
  proof (induction calls rule: rev_induct)
    case (snoc c calls)
    then show ?case using run_file_call_safe[OF hash, where A = ?A and row = row and c = c and D = ?D] by (auto split: if_splits)
  qed simp
  then show ?thesis
    using s' by (auto simp: safe_files_def protected_def on_data_def split: if_splits)
qed

definition ex_user :: UserContext where
  "ex_user = \<lparr>uc_UserId = 7, uc_Permissions = zero_permissions\<lparr>perm_CanUpload := True, perm_MaxPendingTracks := 9,
     perm_MaxSongSizeBytes := 100, perm_MaxTotalUploadBytes := 1000\<rparr>\<rparr>"

definition ex_calls :: "file_call list" where
  "ex_calls = [UploadCall (Some ex_user) ''t'' True True [NextPart \<lparr>pt_FormName = ''file'', pt_FileNameParam = ''x/a.mp3'',
       pt_Content = ''abcdef'', pt_ReadFails = False\<rparr>], DeleteFilesCall (Some (ex_user\<lparr>uc_UserId := 8\<rparr>)) [1]]"

lemma ex_file_inv: "db_inv (dbase ex_state)"
  using db_inv_empty
  by (simp add: ex_state_def db_inv_def fm_inv_def table_wf_def files_placed_def ex_row_def empty_database_def
      local_storage_row_def LocalStorageUuid_def)

lemma ex_unused_plain: "unused_plain (dbase ex_state)"
  using ex_rel by (simp add: unused_plain_def ex_state_def)

lemma ex_fresh_token: "fresh_token ''t'' ex_row"
  unfolding fresh_token_def
proof (intro conjI allI notI)
  fix a b
  assume eq: "f_FilePath (fm_File ex_row) = a @ stagingNamePrefix @ ''t'' @ b"
  have "CHR ''-'' \<in> set (f_FilePath (fm_File ex_row))" unfolding eq by (simp add: stagingNamePrefix_def)
  then show False by (simp add: ex_row_def)
qed simp

theorem file_calls_isolated_witness:
  "map_of (w_disk (mem (fold (run_file_call ex_env) ex_calls ex_state))) (row_disk_path ''/d'' ex_row) = Some ''xyz''"
proof -
  have "list_all (foreign_call ex_row) ex_calls" by (simp add: ex_calls_def ex_user_def ex_row_def)
  moreover have "list_all (fresh_call ex_row) ex_calls" by (simp add: ex_calls_def ex_fresh_token)
  moreover have "ex_row \<in> set (rows (db_files (dbase ex_state)))" by (simp add: ex_state_def)
  moreover have "map_of (w_disk (mem ex_state)) (row_disk_path ''/d'' ex_row) = Some ''xyz''" by code_simp
  moreover have "pe_root ex_env = ''/d''" by (simp add: ex_env_def)
  ultimately show ?thesis
    using file_calls_isolated[OF ex_hash_safe ex_file_inv ex_unused_plain, of ex_row ex_calls] ex_rel by simp
qed

end
