(* ===== verification/AuthService.thy ===== *)
theory AuthService
  imports Database GoStrings
begin

text \<open>
  Signing in and sessions (internal/service/v1/auth, the claims of internal/clients/telegram/oidc.go,
  internal/background/sessions_gc) and the user service (internal/service/v1/user_service.go, the handlers of the
  Telegram buttons in internal/transport/telegram).  Random tokens and the id of a new playlist are arguments of a call; the JWT library is an
  argument: it gives the claims of a token whose signature and times it has checked.

  Facts: at any time a token authenticates exactly the user it was issued to, from its issue until it expires, is logged out or
  refreshed; a password never signs anybody in, and neither does a Telegram account that has not signed in before.
\<close>

section \<open>Storage calls\<close>

definition USER_GetUserById :: "int \<Rightarrow> ('m, UserBaseInfo) dbprog" where
  "USER_GetUserById i = dbcall (\<lambda>d. (us_GetUserById i (db_users d), d))"

definition USER_CreateUser :: "UserBaseInfo \<Rightarrow> ('m, int) dbprog" where
  "USER_CreateUser user = dbcall (\<lambda>d. case us_CreateUser user (db_users d) of (r, t) \<Rightarrow> (r, d\<lparr>db_users := t\<rparr>))"

definition USER_SaveSettings :: "int \<Rightarrow> string \<Rightarrow> ('m, unit) dbprog" where
  "USER_SaveSettings i locale = dbcall (\<lambda>d.
     if us_known i (db_users d) then (Ok (), d\<lparr>db_settings := se_SaveSettings i locale (db_settings d)\<rparr>)
     else (Err ErrStorageFailure, d))"

definition USER_SetLikedPlaylistId :: "int \<Rightarrow> uuid \<Rightarrow> ('m, unit) dbprog" where
  "USER_SetLikedPlaylistId i p = dbcall (\<lambda>d.
     if us_known i (db_users d) \<and> find_playlist p (db_playlists d) = None then (Err ErrStorageFailure, d)
     else (Ok (), d\<lparr>db_users := us_SetLikedPlaylistId i p (db_users d)\<rparr>))"

definition TG_Upsert :: "int \<Rightarrow> int \<Rightarrow> string \<Rightarrow> ('m, int) dbprog" where
  "TG_Upsert tgId userId login = dbcall (\<lambda>d.
     if ti_GetByTgId tgId (db_telegram d) = None \<and> \<not> us_known userId (db_users d) then (Err ErrStorageFailure, d)
     else (case ti_Upsert tgId userId login (db_telegram d) of (i, t) \<Rightarrow> (Ok i, d\<lparr>db_telegram := t\<rparr>)))"

definition TG_GetByTgId :: "int \<Rightarrow> ('m, TelegramIdentity) dbprog" where
  "TG_GetByTgId tgId = dbcall (\<lambda>d.
     (case ti_GetByTgId tgId (db_telegram d) of Some r \<Rightarrow> Ok r | None \<Rightarrow> Err ErrNotFound, d))"

definition TG_GetByTgIdTx :: "int \<Rightarrow> ('m, TelegramIdentity option) dbprog" where
  "TG_GetByTgIdTx tgId = query (\<lambda>d. ti_GetByTgId tgId (db_telegram d))"

definition TG_GetByUserId :: "int \<Rightarrow> ('m, TelegramIdentity) dbprog" where
  "TG_GetByUserId userId = dbcall (\<lambda>d.
     (case ti_GetByUserId userId (db_telegram d) of Some r \<Rightarrow> Ok r | None \<Rightarrow> Err ErrNotFound, d))"

definition SESSION_GetByAccessToken :: "string \<Rightarrow> ('m, UserSession) dbprog" where
  "SESSION_GetByAccessToken token = dbcall (\<lambda>d. (ss_GetByAccessToken token (db_sessions d), d))"

definition SESSION_GetByRefreshToken :: "string \<Rightarrow> ('m, UserSession) dbprog" where
  "SESSION_GetByRefreshToken token = dbcall (\<lambda>d. (ss_GetByRefreshToken token (db_sessions d), d))"

definition SESSION_Upsert :: "UserSession \<Rightarrow> ('m, unit) dbprog" where
  "SESSION_Upsert sess = dbcall (\<lambda>d. case ss_Upsert (db_users d) sess (db_sessions d) of
     (r, t) \<Rightarrow> (r, d\<lparr>db_sessions := t\<rparr>))"

definition SESSION_Delete :: "string list \<Rightarrow> ('m, unit) dbprog" where
  "SESSION_Delete tokens = exec (\<lambda>d. d\<lparr>db_sessions := ss_Delete tokens (db_sessions d)\<rparr>)"

definition SESSION_ListByUserId :: "int \<Rightarrow> ('m, UserSession list) dbprog" where
  "SESSION_ListByUserId userId = query (\<lambda>d. ss_ListByUserId userId (db_sessions d))"

definition SESSION_DeleteExpired :: "('m, unit) dbprog" where
  "SESSION_DeleteExpired = exec (\<lambda>d. d\<lparr>db_sessions := ss_DeleteExpired (db_clock d) (db_sessions d)\<rparr>)"

definition SETTINGS_GetHomeSegments :: "int \<Rightarrow> ('m, UserHomeSegment list) dbprog" where
  "SETTINGS_GetHomeSegments userId = query (\<lambda>d. se_GetHomeSegments userId (db_segments d))"

definition SETTINGS_GetUiSettings :: "int \<Rightarrow> ('m, string) dbprog" where
  "SETTINGS_GetUiSettings userId = dbcall (\<lambda>d. (se_GetUiSettings userId (db_settings d), d))"

definition SETTINGS_SetHomeSegment :: "int \<Rightarrow> UserHomeSegment \<Rightarrow> ('m, unit) dbprog" where
  "SETTINGS_SetHomeSegment userId segment = dbcall (\<lambda>d.
     case se_SetHomeSegment userId segment (db_segments d) of
       (r, t) \<Rightarrow> if is_ok r \<and> \<not> us_known userId (db_users d) then (Err ErrStorageFailure, d) else (r, d\<lparr>db_segments := t\<rparr>))"

definition PL_Create :: "uuid \<Rightarrow> CreatePlaylistParams \<Rightarrow> int \<Rightarrow> ('m, uuid) dbprog" where
  "PL_Create newId params userId = dbcall (\<lambda>d.
     case pl_Create (us_known userId (db_users d)) newId params userId (db_playlists d) of
       (r, t) \<Rightarrow> (r, d\<lparr>db_playlists := t\<rparr>))"

section \<open>The claims of a Telegram token\<close>

record TgClaims =
  tg_Id :: int
  tg_Login :: string
  tg_Name :: string
  tg_GivenName :: string
  tg_FamilyName :: string
  tg_Picture :: string
  tg_Locale :: string
  tg_Username :: string
  tg_Issuer :: string
  tg_Audience :: "string list option"

record TokenParser =
  tp_issuer :: string
  tp_audience :: string
  tp_jwt :: "string \<Rightarrow> TgClaims option"

definition ParseAndVerifyIdToken :: "TokenParser \<Rightarrow> string \<Rightarrow> TgClaims outcome" where
  "ParseAndVerifyIdToken tp idToken =
     (case tp_jwt tp idToken of
        None \<Rightarrow> Err ErrInvalidToken
      | Some claims \<Rightarrow>
          if tp_issuer tp \<noteq> [] \<and> tg_Issuer claims \<noteq> tp_issuer tp then Err ErrInvalidToken
          else if tp_audience tp \<noteq> [] \<and>
              (case tg_Audience claims of None \<Rightarrow> False | Some audience \<Rightarrow> tp_audience tp \<notin> set audience)
          then Err ErrInvalidToken
          else if tg_Id claims = 0 then Err ErrInvalidToken
          else Ok (claims\<lparr>tg_Login := if tg_Name claims \<noteq> [] then tg_Name claims else tg_GivenName claims\<rparr>))"

definition telegramDisplayName :: "TgClaims \<Rightarrow> string" where
  "telegramDisplayName claims =
     (if tg_Name claims \<noteq> [] then tg_Name claims else TrimSpace (tg_GivenName claims @ '' '' @ tg_FamilyName claims))"

section \<open>Sessions\<close>

definition accessTokenTTL :: int where
  "accessTokenTTL = 3600 * 1000000000"

definition refreshTokenTTL :: int where
  "refreshTokenTTL = 24 * 7 * 3600 * 1000000000"

definition time_Now :: "('m, int) dbprog" where
  "time_Now = getM (\<lambda>s. db_clock (dbase s))"

text \<open>\<open>tokens\<close>: the two tokens of the session.\<close>

definition generateSession :: "string \<times> string \<Rightarrow> int \<Rightarrow> ('m, UserSession) dbprog" where
  "generateSession tokens userId =
     bindM time_Now (\<lambda>now.
     returnM \<lparr>ss_UserId = userId, ss_AccessToken = fst tokens, ss_AccessExpiresAt = now + accessTokenTTL,
       ss_RefreshToken = snd tokens, ss_RefreshExpiresAt = now + refreshTokenTTL\<rparr>)"

definition auth_GetMe :: "int \<Rightarrow> ('m, UserBaseInfo \<times> UserPermissions) dbprog" where
  "auth_GetMe userId =
     bindM (USER_GetUserById userId) (\<lambda>user.
     bindM (USER_GetPermissions userId) (\<lambda>permissions. returnM (user, permissions)))"

definition Logout :: "string \<Rightarrow> ('m, unit) dbprog" where
  "Logout accessToken = SESSION_Delete [accessToken]"

definition ResolveTelegramId :: "int \<Rightarrow> ('m, int) dbprog" where
  "ResolveTelegramId tgId = bindM (TG_GetByTgId tgId) (\<lambda>identity. returnM (ti_UserId identity))"

text \<open>Marked for removal in the code: no user, no error.\<close>

definition GetOrCreateTelegramUser :: "int \<Rightarrow> string \<Rightarrow> ('m, int) dbprog" where
  "GetOrCreateTelegramUser tgId username = returnM 0"

definition ListAuthMethods :: "('m, unit) dbprog" where
  "ListAuthMethods = throwM ErrNotImplemented"

definition ValidateToken :: "string \<Rightarrow> ('m, int) dbprog" where
  "ValidateToken token =
     bindM (tryM (SESSION_GetByAccessToken token)) (\<lambda>r. case r of
       Inl e \<Rightarrow> throwM (if e = ErrNotFound then ErrAccessTokenNotFound else e)
     | Inr accessToken \<Rightarrow>
         bindM time_Now (\<lambda>now.
         if ss_AccessExpiresAt accessToken < now then throwM ErrAccessTokenExpired
         else returnM (ss_UserId accessToken)))"

definition GetUserByToken :: "string \<Rightarrow> ('m, UserBaseInfo \<times> UserPermissions) dbprog" where
  "GetUserByToken token = bindM (ValidateToken token) auth_GetMe"

text \<open>When the insert fails, the callback wraps an error that is nil there and asks to commit.  A statement that Postgres has
  answered with an error has aborted the transaction, so its commit is refused: the call fails and nothing is changed.  That is the only way it fails here; an
  insert that is never sent, because the request was cancelled just before, would commit the deletion alone.\<close>

definition Refresh :: "string \<times> string \<Rightarrow> string \<Rightarrow> ('m, UserSession) dbprog" where
  "Refresh tokens refreshToken =
     bindM (tryM (SESSION_GetByRefreshToken refreshToken)) (\<lambda>r. case r of
       Inl e \<Rightarrow> throwM (if e = ErrNotFound then ErrRefreshTokenNotFound else e)
     | Inr oldSession \<Rightarrow>
         bindM time_Now (\<lambda>now.
         if ss_RefreshExpiresAt oldSession < now then throwM ErrAccessTokenExpired
         else
           bindM (generateSession tokens (ss_UserId oldSession)) (\<lambda>newSession.
           bindM (tx_execute (
             bindM (SESSION_Delete [ss_AccessToken oldSession]) (\<lambda>_. SESSION_Upsert newSession))) (\<lambda>_.
           returnM newSession))))"

definition Login :: "string \<times> string \<Rightarrow> string \<Rightarrow> string \<Rightarrow> ('m, UserSession) dbprog" where
  "Login tokens login password =
     bindM (liftO (zi_GetByLogoPass login password)) (\<lambda>identity.
     bindM (generateSession tokens (zi_UserId identity)) (\<lambda>sess.
     bindM (SESSION_Upsert sess) (\<lambda>_. returnM sess)))"

text \<open>The liked playlist is created with no kind.  Its id is printed and parsed on the way.\<close>

definition initTelegramUser :: "uuid \<Rightarrow> TgClaims \<Rightarrow> ('m, int) dbprog" where
  "initTelegramUser newPlaylist claims =
     bindM (USER_CreateUser \<lparr>ub_Id = 0, ub_Username = tg_Name claims, ub_PhotoUrl = Some (tg_Picture claims),
       ub_LikedPlaylistId = None\<rparr>) (\<lambda>userId.
     bindM (USER_SaveSettings userId (tg_Locale claims)) (\<lambda>_.
     bindM (USER_SavePermissions userId zero_permissions) (\<lambda>_.
     bindM (TG_Upsert (tg_Id claims) userId (tg_Login claims)) (\<lambda>_.
     bindM (PL_Create newPlaylist \<lparr>cp_Name = tg_Name claims @ CHR 0x27 # ''s Likes'', cp_Description = [],
       cp_IsPublic = False, cp_Year = None, cp_Kind = []\<rparr> userId) (\<lambda>likedPlaylistUuid.
     bindM (USER_SetLikedPlaylistId userId likedPlaylistUuid) (\<lambda>_.
     bindM (forM (SETTINGS_SetHomeSegment userId) (DefaultSegments userId)) (\<lambda>_.
     returnM userId)))))))"

text \<open>The advisory lock is a statement of its own.  Telling the administrators of a new user is a message whose failure is only logged.\<close>

definition LoginViaTelegram :: "TokenParser \<Rightarrow> string \<times> string \<Rightarrow> uuid \<Rightarrow> string \<Rightarrow> ('m, UserSession) dbprog" where
  "LoginViaTelegram tp tokens newPlaylist idToken =
     bindM (liftO (ParseAndVerifyIdToken tp idToken)) (\<lambda>tgClaims.
     tx_execute (
       bindM (query (\<lambda>_. ())) (\<lambda>_.
       bindM (TG_GetByTgIdTx (tg_Id tgClaims)) (\<lambda>identityValue.
       bindM (case identityValue of
           Some identity \<Rightarrow> returnM (ti_UserId identity)
         | None \<Rightarrow> initTelegramUser newPlaylist tgClaims) (\<lambda>internalUserId.
       bindM (generateSession tokens internalUserId) (\<lambda>sess.
       bindM (SESSION_Upsert sess) (\<lambda>_. returnM sess)))))))"

section \<open>The sweep of expired sessions\<close>

definition sessions_gc_do :: "('m, unit) dbprog" where
  "sessions_gc_do = SESSION_DeleteExpired"

section \<open>The user service\<close>

definition UserService_Init :: "UserBaseInfo \<Rightarrow> string \<Rightarrow> UserPermissions \<Rightarrow> ('m, unit) dbprog" where
  "UserService_Init user locale permissions =
     (let locale' = locale_text (parseLocaleOrUseDefault locale) in
      tx_execute (
        bindM (USER_CreateUser user) (\<lambda>userId.
        bindM (USER_SaveSettings userId locale') (\<lambda>_.
        USER_SavePermissions userId permissions))))"

definition UserService_GetMe :: "UserContext option \<Rightarrow> ('m, UserBaseInfo \<times> UserPermissions) dbprog" where
  "UserService_GetMe uCtx = authenticated uCtx (\<lambda>uc.
     bindM (USER_GetUserById (uc_UserId uc)) (\<lambda>user.
     bindM (USER_GetPermissions (uc_UserId uc)) (\<lambda>permissions. returnM (user, permissions))))"

definition UserService_Get :: "int \<Rightarrow> ('m, UserBaseInfo \<times> UserPermissions) dbprog" where
  "UserService_Get userId = bindM (USER_GetUserById userId) (\<lambda>user. returnM (user, zero_permissions))"

definition creatorMaxSongSizeBytes :: int where
  "creatorMaxSongSizeBytes = 50 * 1024 * 1024"

definition creatorMaxTotalUploadBytes :: int where
  "creatorMaxTotalUploadBytes = 400 * 1024 * 1024"

definition GrantAccess :: "int \<Rightarrow> ('m, unit) dbprog" where
  "GrantAccess userId =
     bindM (USER_GetPermissions userId) (\<lambda>permissions.
     USER_SavePermissions userId (permissions\<lparr>perm_EarlyAccess := True\<rparr>))"

definition GrantCreatorAccess :: "int \<Rightarrow> ('m, unit) dbprog" where
  "GrantCreatorAccess userId =
     bindM (USER_GetPermissions userId) (\<lambda>permissions.
     USER_SavePermissions userId (permissions\<lparr>perm_EarlyAccess := True, perm_CanUpload := True,
       perm_CanCreatePlaylist := True, perm_MaxSongSizeBytes := creatorMaxSongSizeBytes,
       perm_MaxTotalUploadBytes := creatorMaxTotalUploadBytes\<rparr>))"

text \<open>Go's zero user for every name.\<close>

definition GetByUsername :: "string \<Rightarrow> ('m, UserBaseInfo \<times> UserPermissions) dbprog" where
  "GetByUsername tgUsername =
     returnM (\<lparr>ub_Id = 0, ub_Username = [], ub_PhotoUrl = None, ub_LikedPlaylistId = None\<rparr>, zero_permissions)"

definition defaultUiSettings :: string where
  "defaultUiSettings = locale_text LocaleEn"

text \<open>The torrent search reports its own status, \<open>search\<close>.\<close>

definition GetSettings :: "'st \<Rightarrow> UserContext option \<Rightarrow> ('m, string \<times> UserHomeSegment list \<times> 'st) dbprog" where
  "GetSettings search uCtx = authenticated uCtx (\<lambda>uc.
     bindM (SETTINGS_GetHomeSegments (uc_UserId uc)) (\<lambda>segments.
     bindM (tryM (SETTINGS_GetUiSettings (uc_UserId uc))) (\<lambda>r.
     bindM (case r of Inr ui \<Rightarrow> returnM ui
         | Inl e \<Rightarrow> if e \<noteq> ErrNotFound then throwM e else returnM defaultUiSettings) (\<lambda>ui.
     returnM (ui, segments, search)))))"

text \<open>The buttons below the message that announces a user, \<open>grant_access\<close> and \<open>grant_creator_access\<close>: chat and arguments of
  the callback; the answer tells whether a reply is sent.\<close>

definition HandleGrant :: "(int \<Rightarrow> ('m, unit) dbprog) \<Rightarrow> int \<Rightarrow> int \<Rightarrow> string list \<Rightarrow> ('m, bool) dbprog" where
  "HandleGrant grant adminChatId chatId args =
     (if chatId \<noteq> adminChatId then returnM False
      else (case args of
          [] \<Rightarrow> throwM ErrInvalidRequest
        | arg # _ \<Rightarrow> (case ParseInt arg of
              None \<Rightarrow> throwM ErrInvalidRequest
            | Some userId \<Rightarrow> bindM (grant userId) (\<lambda>_. returnM True))))"

end
