(* ===== verification/AuthRefinement.thy ===== *)
theory AuthRefinement
  imports AuthService FileService TorrentUploads
begin

text \<open>
  What the sessions promise.  The abstract state is what clients can conclude from the answers they got: which session each
  access token stands for.  The theorems show that the tables implement it, that a password and a new Telegram account are always refused,
  and what the permissions an administrator grants are good for.
\<close>

section \<open>What each call does to the database\<close>

abbreviation acc_inv :: "database \<Rightarrow> bool" where
  "acc_inv d \<equiv> accounts_wf (db_users d) (db_telegram d) (db_sessions d)"

definition minted :: "string \<times> string \<Rightarrow> int \<Rightarrow> int \<Rightarrow> UserSession" where
  "minted tokens userId now = \<lparr>ss_UserId = userId, ss_AccessToken = fst tokens, ss_AccessExpiresAt = now + accessTokenTTL,
     ss_RefreshToken = snd tokens, ss_RefreshExpiresAt = now + refreshTokenTTL\<rparr>"

lemma minted_simps [simp]:
  "ss_UserId (minted tokens userId now) = userId" "ss_AccessToken (minted tokens userId now) = fst tokens"
  "ss_RefreshToken (minted tokens userId now) = snd tokens" "ss_AccessExpiresAt (minted tokens userId now) = now + accessTokenTTL"
  "ss_RefreshExpiresAt (minted tokens userId now) = now + refreshTokenTTL"
  by (simp_all add: minted_def)

lemma generateSession_run [simp]:
  "generateSession tokens userId s = (Ok (minted tokens userId (db_clock (dbase s))), s)"
  by (simp add: generateSession_def time_Now_def minted_def bindM_def)

text \<open>The answer to a call that issues a session: the session, entered in the table, or an error and no change.\<close>

definition issues :: "database \<Rightarrow> session_table \<Rightarrow> UserSession \<Rightarrow> database \<Rightarrow> bool" where
  "issues d kept sess d' \<longleftrightarrow> fst (ss_Upsert (db_users d) sess kept) = Ok () \<and> d' = d\<lparr>db_sessions := kept @ [sess]\<rparr>"

lemma SESSION_Upsert_cases:
  "SESSION_Upsert sess s = (r, s') \<Longrightarrow>
     (\<exists>e. r = Err e \<and> dbase s' = dbase s) \<or> (r = Ok () \<and> issues (dbase s) (db_sessions (dbase s)) sess (dbase s'))"
  by (auto simp: SESSION_Upsert_def dbcall_cases ss_Upsert_def issues_def split: if_splits)

lemma Login_run:
  assumes "Login tokens login password s = (r, s')"
  shows "(\<exists>e. r = Err e \<and> dbase s' = dbase s) \<or>
    (\<exists>sess. r = Ok sess \<and> sess = minted tokens 0 (db_clock (dbase s)) \<and>
       issues (dbase s) (db_sessions (dbase s)) sess (dbase s'))"
  using assms SESSION_Upsert_cases
  by (fastforce simp: Login_def zi_GetByLogoPass_def bindM_cases)

text \<open>A program that only returns errors.\<close>

definition fails :: "('s, 'a) prog \<Rightarrow> bool" where
  "fails m \<longleftrightarrow> (\<forall>s. \<exists>e. fst (m s) = Err e)"

lemma fails_bind:
  assumes "\<And>s. fst (m s) \<noteq> Panic" "\<And>a. fails (f a)"
  shows "fails (bindM m f)"
  unfolding fails_def
proof
  fix s
  show "\<exists>e. fst (bindM m f s) = Err e"
    using assms(1)[of s] assms(2) by (cases "m s"; cases "fst (m s)") (auto simp: fails_def bindM_def)
qed

lemma fails_bind1: "fails m \<Longrightarrow> fails (bindM m f)"
  unfolding fails_def
proof
  fix s
  assume "\<forall>s. \<exists>e. fst (m s) = Err e"
  then obtain e where "fst (m s) = Err e" by blast
  then show "\<exists>e. fst (bindM m f s) = Err e" by (cases "m s") (simp add: bindM_def)
qed

lemma fails_PL_Create: "cp_Kind params = [] \<Longrightarrow> fails (PL_Create p params userId)"
  by (simp add: fails_def PL_Create_def dbcall_def pl_Create_def playlist_kind_of_def Let_def)

lemma calm_account_calls:
  "fst (USER_CreateUser u s) \<noteq> Panic" "fst (USER_SaveSettings i l s) \<noteq> Panic" "fst (USER_SavePermissions i p s) \<noteq> Panic"
  "fst (TG_Upsert t i login s) \<noteq> Panic"
  by (auto simp: USER_CreateUser_def USER_SaveSettings_def USER_SavePermissions_def TG_Upsert_def us_CreateUser_def dbcall_def
      Let_def split: prod.split)

lemma initTelegramUser_fails: "fails (initTelegramUser newPlaylist claims)"
  unfolding initTelegramUser_def
  by (intro fails_bind calm_account_calls fails_bind1[OF fails_PL_Create]) simp

lemma Upsert_calm: "fst (SESSION_Upsert sess s) \<noteq> Panic"
  by (auto simp: SESSION_Upsert_def ss_Upsert_def dbcall_def Let_def split: prod.split)

text \<open>The transaction of a sign-in with Telegram, on an account with and without an identity.\<close>

definition telegram_tx :: "string \<times> string \<Rightarrow> uuid \<Rightarrow> TgClaims \<Rightarrow> ('m, UserSession) dbprog" where
  "telegram_tx tokens newPlaylist tgClaims =
     bindM (query (\<lambda>_. ())) (\<lambda>_.
     bindM (TG_GetByTgIdTx (tg_Id tgClaims)) (\<lambda>identityValue.
     bindM (case identityValue of
         Some identity \<Rightarrow> returnM (ti_UserId identity)
       | None \<Rightarrow> initTelegramUser newPlaylist tgClaims) (\<lambda>internalUserId.
     bindM (generateSession tokens internalUserId) (\<lambda>sess.
     bindM (SESSION_Upsert sess) (\<lambda>_. returnM sess)))))"

lemma telegram_tx_run:
  assumes "telegram_tx tokens newPlaylist tgClaims s = (r, s')"
  shows "(\<exists>e. r = Err e) \<or>
    (\<exists>identity sess. ti_GetByTgId (tg_Id tgClaims) (db_telegram (dbase s)) = Some identity \<and> r = Ok sess \<and>
       sess = minted tokens (ti_UserId identity) (db_clock (dbase s)) \<and>
       issues (dbase s) (db_sessions (dbase s)) sess (dbase s'))"
proof (cases "ti_GetByTgId (tg_Id tgClaims) (db_telegram (dbase s))")
  case None
  let ?F = "bindM (initTelegramUser newPlaylist tgClaims) (\<lambda>internalUserId.
     bindM (generateSession tokens internalUserId) (\<lambda>sess. bindM (SESSION_Upsert sess) (\<lambda>_. returnM sess)))"
  let ?s1 = "s\<lparr>faults := tl (faults s)\<rparr>" and ?s2 = "s\<lparr>faults := tl (tl (faults s))\<rparr>"
  have F: "\<exists>e. fst (?F ?s2) = Err e"
    using fails_bind1[OF initTelegramUser_fails] unfolding fails_def by blast
  have q: "query (\<lambda>_. ()) s = (if next_fault s then Err ErrStorageFailure else Ok (), ?s1)"
    "TG_GetByTgIdTx (tg_Id tgClaims) ?s1 = (if next_fault ?s1 then Err ErrStorageFailure else Ok None, ?s2)"
    using None by (auto simp: TG_GetByTgIdTx_def query_def dbcall_def Let_def)
  have "telegram_tx tokens newPlaylist tgClaims s =
      (if next_fault s then (Err ErrStorageFailure, ?s1) else if next_fault ?s1 then (Err ErrStorageFailure, ?s2) else ?F ?s2)"
    unfolding telegram_tx_def using q by (simp add: bindM_def)
  then have "\<exists>e. fst (telegram_tx tokens newPlaylist tgClaims s) = Err e" using F by simp
  then have "\<exists>e. r = Err e" using assms by simp
  then show ?thesis by blast
next
  case (Some identity)
  let ?m = "minted tokens (ti_UserId identity) (db_clock (dbase s))"
  let ?s1 = "s\<lparr>faults := tl (faults s)\<rparr>" and ?s2 = "s\<lparr>faults := tl (tl (faults s))\<rparr>"
  have q: "query (\<lambda>_. ()) s = (if next_fault s then Err ErrStorageFailure else Ok (), ?s1)"
    "TG_GetByTgIdTx (tg_Id tgClaims) ?s1 = (if next_fault ?s1 then Err ErrStorageFailure else Ok (Some identity), ?s2)"
    using Some by (auto simp: TG_GetByTgIdTx_def query_def dbcall_def Let_def)
  have eq: "telegram_tx tokens newPlaylist tgClaims s =
      (if next_fault s then (Err ErrStorageFailure, ?s1) else if next_fault ?s1 then (Err ErrStorageFailure, ?s2)
       else bindM (SESSION_Upsert ?m) (\<lambda>_. returnM ?m) ?s2)"
    unfolding telegram_tx_def using q by (cases "next_fault s"; cases "next_fault ?s1"; simp)
  show ?thesis
  proof (cases "SESSION_Upsert ?m ?s2")
    case (Pair q s3)
    then show ?thesis
      using assms eq Some SESSION_Upsert_cases[OF Pair] by (auto simp: bindM_def split: if_splits)
  qed
qed

lemma LoginViaTelegram_run:
  assumes "LoginViaTelegram tp tokens newPlaylist idToken s = (r, s')"
  shows "(\<exists>e. r = Err e \<and> dbase s' = dbase s) \<or>
    (\<exists>tgClaims identity sess. ParseAndVerifyIdToken tp idToken = Ok tgClaims \<and>
       ti_GetByTgId (tg_Id tgClaims) (db_telegram (dbase s)) = Some identity \<and> r = Ok sess \<and>
       sess = minted tokens (ti_UserId identity) (db_clock (dbase s)) \<and>
       issues (dbase s) (db_sessions (dbase s)) sess (dbase s'))"
proof (cases "ParseAndVerifyIdToken tp idToken")
  case (Ok tgClaims)
  then have run: "tx_execute (telegram_tx tokens newPlaylist tgClaims) s = (r, s')"
    using assms by (simp add: LoginViaTelegram_def telegram_tx_def bindM_def)
  show ?thesis
  proof (cases r)
    case (Ok sess)
    then obtain s2 where s2: "telegram_tx tokens newPlaylist tgClaims (s\<lparr>faults := tl (faults s)\<rparr>) = (Ok sess, s2)"
        "s' = s2\<lparr>faults := tl (faults s2)\<rparr>"
      using run by (auto simp: tx_execute_Ok)
    then show ?thesis using telegram_tx_run[OF s2(1)] \<open>ParseAndVerifyIdToken tp idToken = Ok tgClaims\<close> Ok by auto
  next
    case (Err e)
    then show ?thesis using tx_execute_atomic[OF run] by simp
  next
    case Panic
    then show ?thesis
      using run telegram_tx_run[of tokens newPlaylist tgClaims "s\<lparr>faults := tl (faults s)\<rparr>"]
      by (auto simp: tx_execute_def Let_def split: prod.splits outcome.splits if_splits) 
  qed
next
  case (Err e)
  then show ?thesis using assms by (auto simp: LoginViaTelegram_def bindM_def)
next
  case Panic
  then show ?thesis
    by (auto simp: ParseAndVerifyIdToken_def split: option.splits if_splits)
qed

lemma Refresh_run:
  assumes "Refresh tokens refreshToken s = (r, s')"
  shows "(\<exists>e. r = Err e \<and> dbase s' = dbase s) \<or>
    (\<exists>old sess. ss_GetByRefreshToken refreshToken (db_sessions (dbase s)) = Ok old \<and>
       \<not> ss_RefreshExpiresAt old < db_clock (dbase s) \<and> r = Ok sess \<and>
       sess = minted tokens (ss_UserId old) (db_clock (dbase s)) \<and>
       issues (dbase s) (ss_Delete [ss_AccessToken old] (db_sessions (dbase s))) sess (dbase s'))"
proof -
  have no_panic: "ss_GetByRefreshToken token t \<noteq> Panic" for token t
    by (simp add: ss_GetByRefreshToken_def split: option.split)
  consider e where "r = Err e" "dbase s' = dbase s"
    | old s1 where "SESSION_GetByRefreshToken refreshToken s = (Ok old, s1)" "dbase s1 = dbase s"
        "ss_GetByRefreshToken refreshToken (db_sessions (dbase s)) = Ok old" "\<not> ss_RefreshExpiresAt old < db_clock (dbase s)"
        "bindM (tx_execute (bindM (SESSION_Delete [ss_AccessToken old])
          (\<lambda>_. SESSION_Upsert (minted tokens (ss_UserId old) (db_clock (dbase s))))))
          (\<lambda>_. returnM (minted tokens (ss_UserId old) (db_clock (dbase s)))) s1 = (r, s')"
  proof (cases "ss_GetByRefreshToken refreshToken (db_sessions (dbase s))")
    case (Ok old)
    show ?thesis
    proof (cases "next_fault s")
      case False
      let ?s1 = "s\<lparr>faults := tl (faults s)\<rparr>"
      have get: "SESSION_GetByRefreshToken refreshToken s = (Ok old, ?s1)"
        using Ok False by (simp add: SESSION_GetByRefreshToken_def dbcall_def Let_def)
      show ?thesis
      proof (cases "ss_RefreshExpiresAt old < db_clock (dbase s)")
        case True
        then show ?thesis using assms that(1) get by (auto simp: Refresh_def time_Now_def bindM_def)
      next
        case False
        then have "bindM (tx_execute (bindM (SESSION_Delete [ss_AccessToken old])
          (\<lambda>_. SESSION_Upsert (minted tokens (ss_UserId old) (db_clock (dbase s))))))
          (\<lambda>_. returnM (minted tokens (ss_UserId old) (db_clock (dbase s)))) ?s1 = (r, s')"
          using assms get by (simp add: Refresh_def time_Now_def)
        then show ?thesis using that(2)[OF get _ Ok False] by simp
      qed
    qed (use assms that(1) in \<open>auto simp: Refresh_def SESSION_GetByRefreshToken_def dbcall_def Let_def bindM_def tryM_def\<close>)
  next
    case (Err e)
    then have "\<exists>e. fst (Refresh tokens refreshToken s) = Err e \<and> dbase (snd (Refresh tokens refreshToken s)) = dbase s"
      by (auto simp: Refresh_def SESSION_GetByRefreshToken_def dbcall_def Let_def bindM_def tryM_def)
    then have "\<exists>e. r = Err e \<and> dbase s' = dbase s" using assms by simp
    then show ?thesis using that(1) by blast
  qed (simp add: no_panic)
  then show ?thesis
  proof cases
    case 2
    let ?m = "bindM (SESSION_Delete [ss_AccessToken old])
          (\<lambda>_. SESSION_Upsert (minted tokens (ss_UserId old) (db_clock (dbase s))))"
    have calm: "fst (?m s2) \<noteq> Panic" for s2
      using Upsert_calm by (auto simp: SESSION_Delete_def bindM_def exec_def dbcall_def Let_def)
    from 2(5) consider e where "tx_execute ?m s1 = (Err e, s')" "r = Err e" | "tx_execute ?m s1 = (Panic, s')"
      | s3 where "tx_execute ?m s1 = (Ok (), s3)" "s' = s3" "r = Ok (minted tokens (ss_UserId old) (db_clock (dbase s)))"
      by (auto simp: bindM_cases)
    then show ?thesis
    proof cases
      case 1
      then show ?thesis using tx_execute_atomic[OF 1(1)] 2(2) by simp
    next
      case p: 2
      then show ?thesis
        using calm[of "s1\<lparr>faults := tl (faults s1)\<rparr>"]
        by (auto simp: tx_execute_def Let_def split: prod.splits outcome.splits if_splits)
    next
      case ok: 3
      then show ?thesis
        using 2 SESSION_Upsert_cases[of "minted tokens (ss_UserId old) (db_clock (dbase s))"]
        by (fastforce simp: tx_execute_Ok bindM_eq_Ok SESSION_Delete_def exec_cases issues_def)
    qed
  qed blast
qed

section \<open>Calls and what clients can conclude from them\<close>

datatype auth_call =
    LoginCall "string \<times> string" string string
  | TelegramCall "string \<times> string" uuid string
  | RefreshCall "string \<times> string" string
  | LogoutCall string
  | GrantCall int
  | GrantCreatorCall int
  | SweepCall
  | WaitCall int

datatype auth_reply = Issued UserSession | Done | Refused

definition issue_reply :: "UserSession outcome \<Rightarrow> auth_reply" where
  "issue_reply r = (case r of Ok sess \<Rightarrow> Issued sess | Err e \<Rightarrow> Refused | Panic \<Rightarrow> Refused)"

definition done_reply :: "unit outcome \<Rightarrow> auth_reply" where
  "done_reply r = (if is_ok r then Done else Refused)"

fun auth_run :: "TokenParser \<Rightarrow> auth_call \<Rightarrow> (database, 'm) st \<Rightarrow> auth_reply \<times> (database, 'm) st" where
  "auth_run tp (LoginCall tokens login password) s = map_prod issue_reply id (Login tokens login password s)"
| "auth_run tp (TelegramCall tokens newPlaylist idToken) s =
     map_prod issue_reply id (LoginViaTelegram tp tokens newPlaylist idToken s)"
| "auth_run tp (RefreshCall tokens refreshToken) s = map_prod issue_reply id (Refresh tokens refreshToken s)"
| "auth_run tp (LogoutCall accessToken) s = map_prod done_reply id (Logout accessToken s)"
| "auth_run tp (GrantCall userId) s = map_prod done_reply id (GrantAccess userId s)"
| "auth_run tp (GrantCreatorCall userId) s = map_prod done_reply id (GrantCreatorAccess userId s)"
| "auth_run tp SweepCall s = map_prod done_reply id (sessions_gc_do s)"
| "auth_run tp (WaitCall n) s = (Done, s\<lparr>dbase := (dbase s)\<lparr>db_clock := db_clock (dbase s) + max 0 n\<rparr>\<rparr>)"

fun auth_history ::
  "TokenParser \<Rightarrow> auth_call list \<Rightarrow> (database, 'm) st \<Rightarrow> (auth_call \<times> auth_reply) list \<times> (database, 'm) st" where
  "auth_history tp [] s = ([], s)"
| "auth_history tp (c # calls) s =
     (let (r, s1) = auth_run tp c s; (h, s2) = auth_history tp calls s1 in ((c, r) # h, s2))"

text \<open>The specification: which session an access token stands for, from the calls and their answers alone.\<close>

fun grant_step :: "auth_call \<times> auth_reply \<Rightarrow> (string \<Rightarrow> UserSession option) \<Rightarrow> string \<Rightarrow> UserSession option" where
  "grant_step (RefreshCall tokens refreshToken, Issued sess) g =
     (\<lambda>token. case g token of Some x \<Rightarrow> if ss_RefreshToken x = refreshToken then None else Some x | None \<Rightarrow> None)
     (ss_AccessToken sess \<mapsto> sess)"
| "grant_step (_, Issued sess) g = g(ss_AccessToken sess \<mapsto> sess)"
| "grant_step (LogoutCall accessToken, Done) g = g(accessToken := None)"
| "grant_step _ g = g"

definition granted :: "(auth_call \<times> auth_reply) list \<Rightarrow> string \<Rightarrow> UserSession option" where
  "granted h = fold grant_step h (\<lambda>_. None)"

section \<open>The simulation\<close>

text \<open>The table holds what was granted, except for sessions that can no longer be used for anything.\<close>

definition dead :: "int \<Rightarrow> UserSession \<Rightarrow> bool" where
  "dead now x \<longleftrightarrow> ss_RefreshExpiresAt x < now \<and> ss_AccessExpiresAt x < now"

definition holds_grants :: "database \<Rightarrow> (string \<Rightarrow> UserSession option) \<Rightarrow> bool" where
  "holds_grants d g \<longleftrightarrow> acc_inv d \<and>
     (\<forall>x \<in> set (db_sessions d). g (ss_AccessToken x) = Some x \<and> ss_AccessExpiresAt x \<le> ss_RefreshExpiresAt x) \<and>
     (\<forall>token x. g token = Some x \<longrightarrow>
        ss_AccessToken x = token \<and> (x \<in> set (db_sessions d) \<or> dead (db_clock d) x))"

lemma holds_issue:
  assumes sim: "holds_grants d g" and issue: "issues d (db_sessions d) sess d'" "ss_AccessExpiresAt sess \<le> ss_RefreshExpiresAt sess"
  shows "holds_grants d' (g(ss_AccessToken sess \<mapsto> sess))"
proof -
  have new: "fst (ss_Upsert (db_users d) sess (db_sessions d)) = Ok ()" "d' = d\<lparr>db_sessions := db_sessions d @ [sess]\<rparr>"
    using issue(1) by (simp_all add: issues_def)
  have "snd (ss_Upsert (db_users d) sess (db_sessions d)) = db_sessions d @ [sess]"
    "\<forall>x \<in> set (db_sessions d). ss_AccessToken x \<noteq> ss_AccessToken sess"
    using new(1) by (auto simp: ss_Upsert_def split: if_splits)
  then show ?thesis
    using sim new(2) issue(2) accounts_wf_Upsert[of "db_users d" "db_telegram d" "db_sessions d" sess]
    by (auto simp: holds_grants_def)
qed

lemma holds_refresh:
  assumes sim: "holds_grants d g" and old: "ss_GetByRefreshToken refreshToken (db_sessions d) = Ok old"
    and issue: "issues d (ss_Delete [ss_AccessToken old] (db_sessions d)) sess d'"
      "ss_AccessExpiresAt sess \<le> ss_RefreshExpiresAt sess"
  shows "holds_grants d' ((\<lambda>token. case g token of Some x \<Rightarrow> if ss_RefreshToken x = refreshToken then None else Some x
    | None \<Rightarrow> None)(ss_AccessToken sess \<mapsto> sess))"
proof -
  let ?kept = "ss_Delete [ss_AccessToken old] (db_sessions d)" and ?d1 = "d\<lparr>db_sessions := ss_Delete [ss_AccessToken old] (db_sessions d)\<rparr>"
  let ?g = "\<lambda>token. case g token of Some x \<Rightarrow> if ss_RefreshToken x = refreshToken then None else Some x | None \<Rightarrow> None"
  have wf: "sessions_wf (db_sessions d)" "acc_inv d" using sim by (auto simp: holds_grants_def accounts_wf_def)
  have o: "old \<in> set (db_sessions d)" "ss_RefreshToken old = refreshToken" using ss_GetByRefreshToken_Ok[OF wf(1)] old by auto
  have only: "x = old" if "x \<in> set (db_sessions d)" "ss_AccessToken x = ss_AccessToken old \<or> ss_RefreshToken x = refreshToken" for x
    using wf(1) that o by (auto simp: sessions_wf_def distinct_map inj_on_def)
  have kept: "x \<in> set ?kept \<longleftrightarrow> x \<in> set (db_sessions d) \<and> x \<noteq> old" for x
    using only o by (auto simp: ss_Delete_def)
  have "holds_grants ?d1 ?g"
    unfolding holds_grants_def
  proof (intro conjI ballI allI impI)
    show "acc_inv ?d1" using accounts_wf_deletes(1)[OF wf(2)] by simp
  next
    fix x
    assume "x \<in> set (db_sessions ?d1)"
    then have x: "x \<in> set (db_sessions d)" "x \<noteq> old" using kept by auto
    then have "g (ss_AccessToken x) = Some x" "ss_RefreshToken x \<noteq> refreshToken" using sim only by (auto simp: holds_grants_def)
    then show "?g (ss_AccessToken x) = Some x" by simp
    show "ss_AccessExpiresAt x \<le> ss_RefreshExpiresAt x" using sim x by (simp add: holds_grants_def)
  next
    fix token x
    assume "?g token = Some x"
    then have x: "g token = Some x" "ss_RefreshToken x \<noteq> refreshToken" by (auto split: option.splits if_splits)
    then show "ss_AccessToken x = token" using sim by (simp add: holds_grants_def)
    have "x \<noteq> old" using x(2) o(2) by blast
    then show "x \<in> set (db_sessions ?d1) \<or> dead (db_clock ?d1) x" using sim x(1) kept by (auto simp: holds_grants_def)
  qed
  moreover have "issues ?d1 (db_sessions ?d1) sess d'" using issue(1) by (simp add: issues_def)
  ultimately show ?thesis using holds_issue[of ?d1 ?g sess d'] issue(2) by simp
qed

lemma holds_logout:
  assumes "holds_grants d g"
  shows "holds_grants (d\<lparr>db_sessions := ss_Delete [token] (db_sessions d)\<rparr>) (g(token := None))"
  using assms accounts_wf_deletes(1)[of "db_users d" "db_telegram d" "db_sessions d" "[token]"]
  by (auto simp: holds_grants_def ss_Delete_def)

lemma holds_sweep:
  assumes "holds_grants d g"
  shows "holds_grants (d\<lparr>db_sessions := ss_DeleteExpired (db_clock d) (db_sessions d)\<rparr>) g"
  using assms accounts_wf_deletes(2)[of "db_users d" "db_telegram d" "db_sessions d" "db_clock d"]
  by (fastforce simp: holds_grants_def ss_DeleteExpired_def dead_def)

lemma holds_wait: "holds_grants d g \<Longrightarrow> holds_grants (d\<lparr>db_clock := db_clock d + max 0 n\<rparr>) g"
  by (fastforce simp: holds_grants_def dead_def)

lemma grant_step_refused [simp]: "grant_step (c, Refused) g = g"
  by (cases c) simp_all

lemma minted_order: "ss_AccessExpiresAt (minted tokens userId now) \<le> ss_RefreshExpiresAt (minted tokens userId now)"
  by (simp add: accessTokenTTL_def refreshTokenTTL_def)

lemma holds_minted:
  "holds_grants d g \<Longrightarrow> issues d (db_sessions d) (minted tokens userId now) d' \<Longrightarrow>
   holds_grants d' (g(fst tokens \<mapsto> minted tokens userId now))"
  using holds_issue[OF _ _ minted_order] by fastforce

definition same_accounts :: "database \<Rightarrow> database \<Rightarrow> bool" where
  "same_accounts d d' \<longleftrightarrow> db_users d' = db_users d \<and> db_telegram d' = db_telegram d \<and> db_sessions d' = db_sessions d \<and>
     db_clock d' = db_clock d"

lemma holds_frame: "holds_grants d g \<Longrightarrow> same_accounts d d' \<Longrightarrow> holds_grants d' g"
  by (simp add: holds_grants_def same_accounts_def)

lemma grants_frame:
  "GrantAccess userId s = (r, s') \<Longrightarrow> same_accounts (dbase s) (dbase s')"
  "GrantCreatorAccess userId s = (r, s') \<Longrightarrow> same_accounts (dbase s) (dbase s')"
  by (auto simp: GrantAccess_def GrantCreatorAccess_def bindM_cases USER_GetPermissions_def USER_SavePermissions_def
      query_cases dbcall_cases same_accounts_def split: if_splits)

lemma holds_step:
  assumes sim: "holds_grants (dbase s) g" and run: "auth_run tp c s = (a, s')"
  shows "holds_grants (dbase s') (grant_step (c, a) g)"
proof (cases c)
  case (LoginCall tokens login password)
  then obtain r where "Login tokens login password s = (r, s')" "a = issue_reply r"
    using run by (cases "Login tokens login password s") auto
  then show ?thesis
    using Login_run[of tokens login password s r s'] sim LoginCall
    by (auto simp: issue_reply_def intro: holds_minted)
next
  case (TelegramCall tokens newPlaylist idToken)
  then obtain r where "LoginViaTelegram tp tokens newPlaylist idToken s = (r, s')" "a = issue_reply r"
    using run by (cases "LoginViaTelegram tp tokens newPlaylist idToken s") auto
  then show ?thesis
    using LoginViaTelegram_run[of tp tokens newPlaylist idToken s r s'] sim TelegramCall
    by (auto simp: issue_reply_def intro: holds_minted)
next
  case (RefreshCall tokens refreshToken)
  then obtain r where r: "Refresh tokens refreshToken s = (r, s')" "a = issue_reply r"
    using run by (cases "Refresh tokens refreshToken s") auto
  from Refresh_run[OF r(1)] show ?thesis
  proof (elim disjE exE conjE)
    fix e
    assume "r = Err e" "dbase s' = dbase s"
    then show ?thesis using sim r(2) by (simp add: issue_reply_def)
  next
    fix old sess
    assume ok: "ss_GetByRefreshToken refreshToken (db_sessions (dbase s)) = Ok old" "r = Ok sess"
      "sess = minted tokens (ss_UserId old) (db_clock (dbase s))"
      "issues (dbase s) (ss_Delete [ss_AccessToken old] (db_sessions (dbase s))) sess (dbase s')"
    have "ss_AccessExpiresAt sess \<le> ss_RefreshExpiresAt sess" using minted_order ok(3) by blast
    then show ?thesis
      using holds_refresh[OF sim ok(1) ok(4)] ok(2) r(2) RefreshCall by (simp add: issue_reply_def)
  qed
next
  case (LogoutCall accessToken)
  then show ?thesis
    using run holds_logout[OF sim, of accessToken] sim
    by (auto simp: Logout_def SESSION_Delete_def exec_def dbcall_def Let_def done_reply_def split: if_splits)
next
  case (GrantCall userId)
  then show ?thesis
    using run sim grants_frame(1)[of userId s] holds_frame
    by (cases "GrantAccess userId s") (fastforce simp: done_reply_def)
next
  case (GrantCreatorCall userId)
  then show ?thesis
    using run sim grants_frame(2)[of userId s] holds_frame
    by (cases "GrantCreatorAccess userId s") (fastforce simp: done_reply_def)
next
  case SweepCall
  then show ?thesis
    using run holds_sweep[OF sim] sim
    by (auto simp: sessions_gc_do_def SESSION_DeleteExpired_def exec_def dbcall_def Let_def done_reply_def split: if_splits)
next
  case (WaitCall n)
  then show ?thesis using run holds_wait[OF sim] by auto
qed

lemma holds_history:
  "holds_grants (dbase s) g \<Longrightarrow> auth_history tp calls s = (h, s') \<Longrightarrow> holds_grants (dbase s') (fold grant_step h g)"
proof (induction calls arbitrary: s g h)
  case (Cons c calls)
  obtain a s1 where a: "auth_run tp c s = (a, s1)" by fastforce
  obtain h1 where "auth_history tp calls s1 = (h1, s')" "h = (c, a) # h1"
    using Cons.prems(2) a by (auto split: prod.splits)
  then show ?case using Cons.IH[OF holds_step[OF Cons.prems(1) a]] by simp
qed simp

lemma ValidateToken_calm:
  assumes "\<not> next_fault s"
  shows "fst (ValidateToken token s) = (case ss_GetByAccessToken token (db_sessions (dbase s)) of
     Ok x \<Rightarrow> if ss_AccessExpiresAt x < db_clock (dbase s) then Err ErrAccessTokenExpired else Ok (ss_UserId x)
   | Err e \<Rightarrow> Err ErrAccessTokenNotFound | Panic \<Rightarrow> Panic)"
  using assms
  by (auto simp: ValidateToken_def SESSION_GetByAccessToken_def dbcall_def Let_def bindM_def tryM_def time_Now_def
      ss_GetByAccessToken_def split: option.split)

lemma holds_valid:
  assumes sim: "holds_grants (dbase s) g" and calm: "\<not> next_fault s"
  shows "(fst (ValidateToken token s) = Ok userId) =
    (\<exists>sess. g token = Some sess \<and> ss_UserId sess = userId \<and> db_clock (dbase s) \<le> ss_AccessExpiresAt sess)"
proof -
  have wf: "sessions_wf (db_sessions (dbase s))" using sim by (simp add: holds_grants_def accounts_wf_def)
  have "(fst (ValidateToken token s) = Ok userId) \<longleftrightarrow> (\<exists>sess \<in> set (db_sessions (dbase s)). ss_AccessToken sess = token \<and>
      ss_UserId sess = userId \<and> db_clock (dbase s) \<le> ss_AccessExpiresAt sess)"
  proof (cases "ss_GetByAccessToken token (db_sessions (dbase s))")
    case (Ok x)
    then have x: "x \<in> set (db_sessions (dbase s))" "ss_AccessToken x = token" using ss_GetByAccessToken_Ok[OF wf] by auto
    have only: "y = x" if "y \<in> set (db_sessions (dbase s))" "ss_AccessToken y = token" for y
      using iffD2[OF ss_GetByAccessToken_Ok[OF wf] conjI[OF that]] Ok by simp
    have "(fst (ValidateToken token s) = Ok userId) \<longleftrightarrow> ss_UserId x = userId \<and> db_clock (dbase s) \<le> ss_AccessExpiresAt x"
      by (simp add: ValidateToken_calm[OF calm] Ok)
    then show ?thesis using x only by blast
  next
    case (Err e)
    then have "ss_AccessToken y \<noteq> token" if "y \<in> set (db_sessions (dbase s))" for y
      using that ss_GetByAccessToken_Ok[OF wf, of token y] by auto
    then show ?thesis unfolding ValidateToken_calm[OF calm] Err by auto
  next
    case Panic
    then show ?thesis by (simp add: ss_GetByAccessToken_def split: option.splits)
  qed
  also have "\<dots> \<longleftrightarrow> (\<exists>sess. g token = Some sess \<and> ss_UserId sess = userId \<and> db_clock (dbase s) \<le> ss_AccessExpiresAt sess)"
  proof
    assume "\<exists>sess \<in> set (db_sessions (dbase s)). ss_AccessToken sess = token \<and>
      ss_UserId sess = userId \<and> db_clock (dbase s) \<le> ss_AccessExpiresAt sess"
    then show "\<exists>sess. g token = Some sess \<and> ss_UserId sess = userId \<and> db_clock (dbase s) \<le> ss_AccessExpiresAt sess"
      using sim unfolding holds_grants_def by metis
  next
    assume "\<exists>sess. g token = Some sess \<and> ss_UserId sess = userId \<and> db_clock (dbase s) \<le> ss_AccessExpiresAt sess"
    then obtain sess where sess: "g token = Some sess" "ss_UserId sess = userId" "db_clock (dbase s) \<le> ss_AccessExpiresAt sess"
      by blast
    have "\<not> dead (db_clock (dbase s)) sess" using sess(3) by (simp add: dead_def)
    then have "sess \<in> set (db_sessions (dbase s))" "ss_AccessToken sess = token"
      using sim sess(1) unfolding holds_grants_def by blast+
    then show "\<exists>sess \<in> set (db_sessions (dbase s)). ss_AccessToken sess = token \<and>
      ss_UserId sess = userId \<and> db_clock (dbase s) \<le> ss_AccessExpiresAt sess" using sess by blast
  qed
  finally show ?thesis .
qed

text \<open>C30: Sessions keep their promise.  After any sequence of sign-ins, refreshes, logouts, grants, sweeps and waits, whatever
  calls fail, an access token authenticates as a user exactly when, by the answers clients got, it was issued to
  him, has not expired, was not logged out and its session was not refreshed; and a refresh token buys a new session only for the user
  of an issued session that was neither logged out nor refreshed before.\<close>
theorem sessions_refine_grants:
  assumes inv: "acc_inv (dbase s)" "db_sessions (dbase s) = []" and run: "auth_history tp calls s = (h, s')"
    and calm: "\<not> next_fault s'"
  shows "(fst (ValidateToken token s') = Ok userId) =
      (\<exists>sess. granted h token = Some sess \<and> ss_UserId sess = userId \<and> db_clock (dbase s') \<le> ss_AccessExpiresAt sess) \<and>
    (\<forall>new s''. Refresh tokens refreshToken s' = (Ok new, s'') \<longrightarrow>
      (\<exists>t sess. granted h t = Some sess \<and> ss_RefreshToken sess = refreshToken \<and> ss_UserId new = ss_UserId sess \<and>
         db_clock (dbase s') \<le> ss_RefreshExpiresAt sess))"
proof -
  have "holds_grants (dbase s) (\<lambda>_. None)" using inv by (simp add: holds_grants_def)
  then have sim: "holds_grants (dbase s') (granted h)" using holds_history[OF _ run] by (simp add: granted_def)
  then have wf: "sessions_wf (db_sessions (dbase s'))" by (simp add: holds_grants_def accounts_wf_def)
  note access = holds_valid[OF sim calm, of token userId]
  have "\<exists>t sess. granted h t = Some sess \<and> ss_RefreshToken sess = refreshToken \<and> ss_UserId new = ss_UserId sess \<and>
      db_clock (dbase s') \<le> ss_RefreshExpiresAt sess" if refresh: "Refresh tokens refreshToken s' = (Ok new, s'')" for new s''
  proof -
    obtain old where "ss_GetByRefreshToken refreshToken (db_sessions (dbase s')) = Ok old"
        "\<not> ss_RefreshExpiresAt old < db_clock (dbase s')" "ss_UserId new = ss_UserId old"
      using Refresh_run[OF refresh] by auto
    moreover from this have "old \<in> set (db_sessions (dbase s'))" "ss_RefreshToken old = refreshToken"
      using ss_GetByRefreshToken_Ok[OF wf] by auto
    ultimately show ?thesis using sim by (intro exI[of _ "ss_AccessToken old"] exI[of _ old]) (auto simp: holds_grants_def)
  qed
  then show ?thesis using access by blast
qed

section \<open>Who can sign in\<close>

text \<open>C32: Only Telegram accounts that have signed in before can sign in.  No login and password is ever accepted, only because no user has
  the number 0 that every password stands for; a Telegram account without an identity is refused, because its liked
  playlist is created without a kind; both leave the database as it is.  With an identity, no failure and new tokens the sign-in
  gives a session of the identity's user.\<close>
theorem only_known_accounts_sign_in:
  assumes inv: "acc_inv (dbase s)" and parse: "ParseAndVerifyIdToken tp idToken = Ok claims"
  shows "(\<exists>e. fst (Login tokens login password s) = Err e) \<and> dbase (snd (Login tokens login password s)) = dbase s \<and>
    (case ti_GetByTgId (tg_Id claims) (db_telegram (dbase s)) of
       None \<Rightarrow> (\<exists>e. fst (LoginViaTelegram tp tokens newPlaylist idToken s) = Err e) \<and>
         dbase (snd (LoginViaTelegram tp tokens newPlaylist idToken s)) = dbase s
     | Some identity \<Rightarrow>
         faults s = [] \<and> (\<forall>x \<in> set (db_sessions (dbase s)). ss_AccessToken x \<noteq> fst tokens \<and> ss_RefreshToken x \<noteq> snd tokens) \<longrightarrow>
         fst (LoginViaTelegram tp tokens newPlaylist idToken s) =
           Ok (minted tokens (ti_UserId identity) (db_clock (dbase s))))"
proof (intro conjI)
  have no_zero: "\<not> us_known 0 (db_users (dbase s))" using inv by (fastforce simp: accounts_wf_def us_known_def)
  obtain r s1 where run: "Login tokens login password s = (r, s1)" by fastforce
  then have "\<exists>e. r = Err e \<and> dbase s1 = dbase s"
    using Login_run[OF run] no_zero by (auto simp: issues_def ss_Upsert_def)
  then show "\<exists>e. fst (Login tokens login password s) = Err e" "dbase (snd (Login tokens login password s)) = dbase s"
    using run by auto
  obtain r' s2 where tg: "LoginViaTelegram tp tokens newPlaylist idToken s = (r', s2)" by fastforce
  show "case ti_GetByTgId (tg_Id claims) (db_telegram (dbase s)) of
       None \<Rightarrow> (\<exists>e. fst (LoginViaTelegram tp tokens newPlaylist idToken s) = Err e) \<and>
         dbase (snd (LoginViaTelegram tp tokens newPlaylist idToken s)) = dbase s
     | Some identity \<Rightarrow>
         faults s = [] \<and> (\<forall>x \<in> set (db_sessions (dbase s)). ss_AccessToken x \<noteq> fst tokens \<and> ss_RefreshToken x \<noteq> snd tokens) \<longrightarrow>
         fst (LoginViaTelegram tp tokens newPlaylist idToken s) =
           Ok (minted tokens (ti_UserId identity) (db_clock (dbase s)))"
  proof (cases "ti_GetByTgId (tg_Id claims) (db_telegram (dbase s))")
    case None
    then show ?thesis using LoginViaTelegram_run[OF tg] parse tg by auto
  next
    case (Some identity)
    have known: "us_known (ti_UserId identity) (db_users (dbase s))"
      using inv Some find_Some_mem[of "\<lambda>r. ti_TelegramId r = tg_Id claims" "db_telegram (dbase s)" identity]
      by (simp add: accounts_wf_def ti_GetByTgId_def)
    have "fst (LoginViaTelegram tp tokens newPlaylist idToken s) = Ok (minted tokens (ti_UserId identity) (db_clock (dbase s)))"
      if "faults s = []" "\<forall>x \<in> set (db_sessions (dbase s)). ss_AccessToken x \<noteq> fst tokens \<and> ss_RefreshToken x \<noteq> snd tokens"
    proof -
      let ?s1 = "s\<lparr>faults := []\<rparr>" and ?m = "minted tokens (ti_UserId identity) (db_clock (dbase s))"
      have "SESSION_Upsert ?m ?s1 = (Ok (), ?s1\<lparr>dbase := (dbase s)\<lparr>db_sessions := db_sessions (dbase s) @ [?m]\<rparr>\<rparr>)"
        using that known by (auto simp: SESSION_Upsert_def ss_Upsert_def)
      then have "telegram_tx tokens newPlaylist claims ?s1 =
          (Ok ?m, ?s1\<lparr>dbase := (dbase s)\<lparr>db_sessions := db_sessions (dbase s) @ [?m]\<rparr>\<rparr>)"
        using that(1) Some by (simp add: telegram_tx_def TG_GetByTgIdTx_def bindM_def)
      then show ?thesis
        using that(1) parse by (simp add: LoginViaTelegram_def telegram_tx_def[symmetric] tx_execute_def Let_def next_fault_def)
    qed
    then show ?thesis using Some by simp
  qed
qed

section \<open>What granted permissions are good for\<close>

text \<open>A program that does not return.\<close>

definition never :: "('s, 'a) prog \<Rightarrow> bool" where
  "never m \<longleftrightarrow> (\<forall>s a s'. m s \<noteq> (Ok a, s'))"

lemma never_bind: "(\<And>a. never (f a)) \<Longrightarrow> never (bindM m f)"
  and never_bind1: "never m \<Longrightarrow> never (bindM m f)"
  and never_throw: "never (throwM e)"
  and never_panic: "never panicM"
  and never_if: "never m \<Longrightarrow> never n \<Longrightarrow> never (if b then m else n)"
  and never_uploader: "(uCtx = Some uc \<Longrightarrow> never (h uc)) \<Longrightarrow> uCtx = Some uc \<Longrightarrow> never (uploader uCtx h)"
  by (auto simp: never_def bindM_eq_Ok uploader_def authenticated_def)

definition nobody_may_stage :: "database \<Rightarrow> bool" where
  "nobody_may_stage d \<longleftrightarrow> (\<forall>i. perm_MaxPendingTracks (up_GetPermissions i (db_permissions d)) \<le> 0)"

lemma Get_after_Save:
  "perm_MaxPendingTracks (up_GetPermissions i (up_SavePermissions j p t)) =
     (if i = j then perm_MaxPendingTracks p else perm_MaxPendingTracks (up_GetPermissions i t))"
  "perm_CanUpload (up_GetPermissions j (up_SavePermissions j p t)) = perm_CanUpload p"
  by (simp_all add: up_GetPermissions_def up_SavePermissions_def split: option.split)

lemma grants_keep_limit:
  "GrantAccess userId s = (r, s') \<Longrightarrow> nobody_may_stage (dbase s) \<Longrightarrow> nobody_may_stage (dbase s')"
  "GrantCreatorAccess userId s = (r, s') \<Longrightarrow> nobody_may_stage (dbase s) \<Longrightarrow> nobody_may_stage (dbase s')"
  by (auto simp: GrantAccess_def GrantCreatorAccess_def bindM_cases USER_GetPermissions_def USER_SavePermissions_def
      query_cases dbcall_cases nobody_may_stage_def Get_after_Save split: if_splits)

lemma issues_permissions: "issues d kept sess d' \<Longrightarrow> db_permissions d' = db_permissions d"
  by (simp add: issues_def)

lemma run_keeps_limit:
  assumes "auth_run tp c s = (a, s')" "nobody_may_stage (dbase s)"
  shows "nobody_may_stage (dbase s')"
proof -
  have frame: "nobody_may_stage (dbase s')" if "db_permissions (dbase s') = db_permissions (dbase s)"
    using that assms(2) by (simp add: nobody_may_stage_def)
  show ?thesis
  proof (cases c)
    case (LoginCall tokens login password)
    then show ?thesis
      using assms(1) frame by (cases "Login tokens login password s") (auto dest!: Login_run issues_permissions)
  next
    case (TelegramCall tokens newPlaylist idToken)
    then show ?thesis
      using assms(1) frame
      by (cases "LoginViaTelegram tp tokens newPlaylist idToken s") (auto dest!: LoginViaTelegram_run issues_permissions)
  next
    case (RefreshCall tokens refreshToken)
    then show ?thesis
      using assms(1) frame by (cases "Refresh tokens refreshToken s") (auto dest!: Refresh_run issues_permissions)
  next
    case (GrantCall userId)
    then show ?thesis using assms grants_keep_limit(1) by (cases "GrantAccess userId s") auto
  next
    case (GrantCreatorCall userId)
    then show ?thesis using assms grants_keep_limit(2) by (cases "GrantCreatorAccess userId s") auto
  qed (use assms(1) frame in \<open>auto simp: Logout_def SESSION_Delete_def sessions_gc_do_def SESSION_DeleteExpired_def exec_def
         dbcall_def Let_def split: if_splits\<close>)
qed

lemma history_keeps_limit: "auth_history tp calls s = (h, s') \<Longrightarrow> nobody_may_stage (dbase s) \<Longrightarrow> nobody_may_stage (dbase s')"
proof (induction calls arbitrary: s h)
  case (Cons c calls)
  obtain a s1 where a: "auth_run tp c s = (a, s1)" by fastforce
  obtain h1 where "auth_history tp calls s1 = (h1, s')" using Cons.prems(1) a by (auto split: prod.splits)
  then show ?case using Cons.IH[OF _ run_keeps_limit[OF a Cons.prems(2)]] by simp
qed simp

lemma ValidateToken_dbase: "dbase (snd (ValidateToken token s)) = dbase s"
  by (cases "ss_GetByAccessToken token (db_sessions (dbase s))")
    (simp_all add: ValidateToken_def SESSION_GetByAccessToken_def dbcall_def Let_def bindM_def tryM_def time_Now_def)

lemma GetUserByToken_Ok:
  assumes "GetUserByToken token s = (Ok (user, permissions), s')"
  shows "permissions = up_GetPermissions (ub_Id user) (db_permissions (dbase s))"
proof -
  obtain i s1 where "ValidateToken token s = (Ok i, s1)" "auth_GetMe i s1 = (Ok (user, permissions), s')"
    using assms by (auto simp: GetUserByToken_def bindM_eq_Ok)
  then have "dbase s1 = dbase s" "auth_GetMe i s1 = (Ok (user, permissions), s')" using ValidateToken_dbase[of token s] by simp_all
  then show ?thesis
    by (auto simp: auth_GetMe_def bindM_eq_Ok USER_GetUserById_def USER_GetPermissions_def query_cases dbcall_cases
        us_GetUserById_def split: if_splits option.splits dest!: tbl_find_Some)
qed

lemma SaveFile_no_quota:
  assumes "perm_MaxPendingTracks (uc_Permissions uc) \<le> 0"
  shows "never (SaveFile env token (Some uc) name folder content)"
  unfolding SaveFile_def
  by (rule never_uploader) (use assms in \<open>auto intro!: never_if never_bind never_throw\<close>)

lemma never_or_drop1: "never m \<Longrightarrow> never (or_drop env pending m f)"
  and never_or_drop: "(\<And>a. never (f a)) \<Longrightarrow> never (or_drop env pending m f)"
  by (auto simp: never_def or_drop_def bindM_eq_Ok tryM_eq_Ok split: sum.splits)

lemma checkSubmitQuota_no_quota: "limit \<le> 0 \<Longrightarrow> never (checkSubmitQuota env userId limit)"
  unfolding checkSubmitQuota_def by (auto intro!: never_bind never_throw)

lemma SubmitTorrentFile_no_quota:
  assumes "perm_MaxPendingTracks (uc_Permissions uc) \<le> 0"
  shows "never (SubmitTorrentFile env canceled (Some uc) i folder paths)"
  unfolding SubmitTorrentFile_def
  by (intro never_uploader[OF _ refl] never_bind never_if never_throw never_or_drop)
    (auto intro!: never_bind never_or_drop1 never_throw checkSubmitQuota_no_quota[OF assms] split: option.split)

lemma SubmitTorrent_no_quota:
  assumes "perm_MaxPendingTracks (uc_Permissions uc) \<le> 0"
  shows "never (SubmitTorrent env canceled (Some uc) bytes folder)"
proof -
  have quota: "never (case existing of Some row \<Rightarrow> throwM (e row)
      | None \<Rightarrow> bindM (checkSubmitQuota env (uc_UserId uc) (perm_MaxPendingTracks (uc_Permissions uc))) f)" for existing e f
    by (cases existing) (simp_all add: never_throw never_bind1 checkSubmitQuota_no_quota[OF assms])
  show ?thesis
    unfolding SubmitTorrent_def Let_def
    by (intro never_uploader[OF _ refl] never_bind never_if never_throw) (auto intro!: never_bind quota)
qed

text \<open>C33: An administrator cannot make anybody a creator.  Where no row lets a user stage a file (the rows of sign-ups do not), no
  sequence of sign-ins, refreshes and grants changes that: granted creator access gives a user the permission to
  upload, and yet with the permissions the next request finds no file of his is ever stored and no torrent accepted as a
  job: \<open>SaveFile\<close> and both ways of submitting a torrent (\<open>SubmitTorrent\<close>, and \<open>SubmitTorrentFile\<close> for one
  that he cached before) succeed in no state.  Caching a torrent or a magnet is not refused to him and not claimed here.\<close>
theorem granted_creators_cannot_upload:
  assumes none: "nobody_may_stage (dbase s0)" and run: "auth_history tp calls s0 = (h, s)"
    and grant: "GrantCreatorAccess userId s = (Ok (), s1)"
    and token: "GetUserByToken token s1 = (Ok (user, permissions), s2)" "ub_Id user = userId"
    and uc: "uc = \<lparr>uc_UserId = userId, uc_Permissions = permissions\<rparr>"
  shows "perm_CanUpload permissions \<and>
    SaveFile env upload (Some uc) name folder content s3 \<noteq> (Ok i, s4) \<and>
    SubmitTorrentFile tenv canceled (Some uc) handle folder paths s5 \<noteq> (Ok j, s6) \<and>
    SubmitTorrent tenv canceled (Some uc) bytes folder s5 \<noteq> (Ok j, s6)"
proof -
  have "nobody_may_stage (dbase s1)" using history_keeps_limit[OF run none] grants_keep_limit(2)[OF grant] by simp
  moreover have perms: "permissions = up_GetPermissions userId (db_permissions (dbase s1))"
    using GetUserByToken_Ok[OF token(1)] token(2) by simp
  ultimately have "perm_MaxPendingTracks permissions \<le> 0" by (simp add: nobody_may_stage_def)
  then have "never (SaveFile env upload (Some uc) name folder content)"
    "never (SubmitTorrentFile tenv canceled (Some uc) handle folder paths)" "never (SubmitTorrent tenv canceled (Some uc) bytes folder)"
    using SaveFile_no_quota[of uc] SubmitTorrentFile_no_quota[of uc] SubmitTorrent_no_quota[of uc] uc by simp_all
  moreover have "perm_CanUpload permissions"
    using grant perms
    by (auto simp: GrantCreatorAccess_def bindM_eq_Ok USER_GetPermissions_def USER_SavePermissions_def query_cases dbcall_cases
        Get_after_Save split: if_splits)
  ultimately show ?thesis by (auto simp: never_def)
qed

section \<open>Examples\<close>

definition ex_claims :: TgClaims where
  "ex_claims = \<lparr>tg_Id = 700, tg_Login = [], tg_Name = ''anna'', tg_GivenName = [], tg_FamilyName = [], tg_Picture = [],
     tg_Locale = ''en'', tg_Username = [], tg_Issuer = ''iss'', tg_Audience = Some [''app'']\<rparr>"

definition ex_tp :: TokenParser where
  "ex_tp = \<lparr>tp_issuer = ''iss'', tp_audience = ''app'', tp_jwt = (\<lambda>t. if t = ''ok'' then Some ex_claims else None)\<rparr>"

definition ex_accounts :: "(database, unit) st" where
  "ex_accounts = \<lparr>faults = [], dbase = empty_database\<lparr>
     db_users := \<lparr>rows = [\<lparr>ub_Id = 2, ub_Username = ''anna'', ub_PhotoUrl = None, ub_LikedPlaylistId = None\<rparr>], next_id = 3\<rparr>,
     db_telegram := [\<lparr>ti_UserId = 2, ti_TelegramId = 700, ti_Login = ''anna''\<rparr>],
     db_permissions := [(2, zero_permissions)]\<rparr>, mem = ()\<rparr>"

definition ex_sign_ins :: "auth_call list" where
  "ex_sign_ins = [TelegramCall (''a1'', ''r1'') 5 ''ok'', WaitCall 4000000000000, RefreshCall (''a2'', ''r2'') ''r1'', SweepCall]"

lemma ex_accounts_wf: "acc_inv (dbase ex_accounts)"
  by (simp add: ex_accounts_def accounts_wf_def table_wf_def us_known_def sessions_wf_def empty_database_def)

theorem sessions_refine_grants_witness:
  "fst (ValidateToken ''a2'' (snd (auth_history ex_tp ex_sign_ins ex_accounts))) = Ok 2 \<and>
   fst (ValidateToken ''a1'' (snd (auth_history ex_tp ex_sign_ins ex_accounts))) \<noteq> Ok 2"
proof -
  let ?h = "fst (auth_history ex_tp ex_sign_ins ex_accounts)" and ?s = "snd (auth_history ex_tp ex_sign_ins ex_accounts)"
  have "db_sessions (dbase ex_accounts) = []" by (simp add: ex_accounts_def empty_database_def)
  moreover have "\<not> next_fault ?s" by code_simp
  moreover have "granted ?h ''a2'' = Some (minted (''a2'', ''r2'') 2 4000000000000)" "granted ?h ''a1'' = None"
    "db_clock (dbase ?s) = 4000000000000" by code_simp+
  ultimately show ?thesis
    using sessions_refine_grants[OF ex_accounts_wf, of ex_tp ex_sign_ins ?h ?s "''a2''" 2]
      sessions_refine_grants[OF ex_accounts_wf, of ex_tp ex_sign_ins ?h ?s "''a1''" 2]
    by (simp add: accessTokenTTL_def)
qed

theorem only_known_accounts_sign_in_witness:
  "fst (LoginViaTelegram ex_tp (''a1'', ''r1'') 5 ''ok'' ex_accounts) = Ok (minted (''a1'', ''r1'') 2 0)"
proof -
  have "ParseAndVerifyIdToken ex_tp ''ok'' = Ok (ex_claims\<lparr>tg_Login := ''anna''\<rparr>)" by code_simp
  moreover have "ti_GetByTgId 700 (db_telegram (dbase ex_accounts)) = Some \<lparr>ti_UserId = 2, ti_TelegramId = 700, ti_Login = ''anna''\<rparr>"
    "faults ex_accounts = []" "db_sessions (dbase ex_accounts) = []" "db_clock (dbase ex_accounts) = 0"
    by (simp_all add: ex_accounts_def ti_GetByTgId_def empty_database_def)
  moreover have "tg_Id (ex_claims\<lparr>tg_Login := ''anna''\<rparr>) = 700" by (simp add: ex_claims_def)
  ultimately show ?thesis
    using only_known_accounts_sign_in[OF ex_accounts_wf, of ex_tp "''ok''" "ex_claims\<lparr>tg_Login := ''anna''\<rparr>" "(''a1'', ''r1'')" "[]" "[]" 5]
    by simp
qed

definition ex_granted :: "(database, unit) st" where
  "ex_granted = snd (GrantCreatorAccess 2 (snd (auth_history ex_tp [TelegramCall (''a1'', ''r1'') 5 ''ok''] ex_accounts)))"

definition ex_creator :: UserPermissions where
  "ex_creator = zero_permissions\<lparr>perm_EarlyAccess := True, perm_CanUpload := True, perm_CanCreatePlaylist := True,
     perm_MaxSongSizeBytes := creatorMaxSongSizeBytes, perm_MaxTotalUploadBytes := creatorMaxTotalUploadBytes\<rparr>"

theorem granted_creators_cannot_upload_witness:
  "SaveFile ex_env ''t'' (Some \<lparr>uc_UserId = 2, uc_Permissions = ex_creator\<rparr>) ''a.mp3'' [] ''x'' ex_state \<noteq> (Ok 2, ex_state)"
proof -
  let ?calls = "[TelegramCall (''a1'', ''r1'') 5 ''ok'']"
  let ?r = "auth_history ex_tp ?calls ex_accounts" and ?u = "GetUserByToken ''a1'' ex_granted"
  have none: "nobody_may_stage (dbase ex_accounts)"
    by (simp add: nobody_may_stage_def ex_accounts_def up_GetPermissions_def zero_permissions_def)
  have run: "auth_history ex_tp ?calls ex_accounts = (fst ?r, snd ?r)" by (rule prod.collapse[symmetric])
  have "fst (GrantCreatorAccess 2 (snd ?r)) = Ok ()" by code_simp
  then have grant: "GrantCreatorAccess 2 (snd ?r) = (Ok (), ex_granted)" unfolding ex_granted_def by (metis prod.collapse)
  have "fst ?u = Ok (\<lparr>ub_Id = 2, ub_Username = ''anna'', ub_PhotoUrl = None, ub_LikedPlaylistId = None\<rparr>, ex_creator)" by code_simp
  then have user: "?u = (Ok (\<lparr>ub_Id = 2, ub_Username = ''anna'', ub_PhotoUrl = None, ub_LikedPlaylistId = None\<rparr>, ex_creator), snd ?u)"
    by (metis prod.collapse)
  show ?thesis
    by (rule granted_creators_cannot_upload[OF none run grant user _ refl, THEN conjunct2, THEN conjunct1]) simp
qed

end
