(* ===== verification/AuthMiddleware.thy ===== *)
theory AuthMiddleware
  imports AuthRefinement
begin

text \<open>
  The authentication in front of every service (internal/middleware/auth_interceptor.go, for gRPC and for plain HTTP).
  Metadata are header names in lower case with their values; a handler is a program that gets the user context the middleware
  found, none on a path that is left alone.

  Fact: unless debugging is on, a request runs as the user its access token was granted to, with his permissions of the moment, or does
  not run.
\<close>

type_synonym metadata = "(string \<times> string list) list"

definition md_Get :: "string \<Rightarrow> metadata \<Rightarrow> string list" where
  "md_Get k md = (case map_of md (ascii_lower k) of Some vs \<Rightarrow> vs | None \<Rightarrow> [])"

definition md_Set :: "string \<Rightarrow> string list \<Rightarrow> metadata \<Rightarrow> metadata" where
  "md_Set k vs md = (if vs = [] then md else AList.update (ascii_lower k) vs md)"

definition authHeader :: string where
  "authHeader = ''authorization''"

definition tgIdDebugHeader :: string where
  "tgIdDebugHeader = ''Z-Tg-Id''"

definition tgUsernameDebugHeader :: string where
  "tgUsernameDebugHeader = ''Z-Tg-Username''"

record authMiddleware =
  am_ignoredPaths :: "string list"
  am_ignoredPrefixes :: "string list"
  am_isDebugEnabled :: bool

definition isIgnored :: "authMiddleware \<Rightarrow> string \<Rightarrow> bool" where
  "isIgnored ac path \<longleftrightarrow> path \<in> set (am_ignoredPaths ac) \<or> list_ex (has_prefix path) (am_ignoredPrefixes ac)"

definition authWithSession :: "metadata \<Rightarrow> ('m, UserContext) dbprog" where
  "authWithSession md =
     (case md_Get authHeader md of
        [] \<Rightarrow> throwM ErrAuthHeaderMissing
      | token # _ \<Rightarrow>
          bindM (GetUserByToken token) (\<lambda>(user, permissions).
          if \<not> perm_EarlyAccess permissions then throwM ErrEarlyAccessOnly
          else returnM \<lparr>uc_UserId = ub_Id user, uc_Permissions = permissions\<rparr>))"

definition debugPermissions :: UserPermissions where
  "debugPermissions = zero_permissions\<lparr>perm_CanUpload := True, perm_EarlyAccess := True, perm_CanEditArtists := True\<rparr>"

definition authWithDebugHeaders :: "metadata \<Rightarrow> ('m, UserContext) dbprog" where
  "authWithDebugHeaders md =
     (case md_Get tgIdDebugHeader md of
        tgIdStr # _ \<Rightarrow> (case ParseInt tgIdStr of
            None \<Rightarrow> throwM ErrInvalidRequest
          | Some tgId \<Rightarrow> bindM (ResolveTelegramId tgId) (\<lambda>internalUserId.
              returnM \<lparr>uc_UserId = internalUserId, uc_Permissions = debugPermissions\<rparr>))
      | [] \<Rightarrow> (case md_Get tgUsernameDebugHeader md of
            tgUserName # _ \<Rightarrow> bindM (GetByUsername tgUserName) (\<lambda>(user, _).
              returnM \<lparr>uc_UserId = ub_Id user, uc_Permissions = zero_permissions\<rparr>)
          | [] \<Rightarrow> throwM ErrNoDebugAuth))"

text \<open>What both middlewares do with a request that is not left alone: the session counts first, then the debug headers; if both fail,
  the error is the session's.\<close>

definition authorise :: "authMiddleware \<Rightarrow> metadata \<Rightarrow> (UserContext option \<Rightarrow> ('m, 'a) dbprog) \<Rightarrow> ('m, 'a) dbprog" where
  "authorise ac md handler =
     bindM (tryM (authWithSession md)) (\<lambda>r. case r of
       Inr uc \<Rightarrow> handler (Some uc)
     | Inl err \<Rightarrow>
         if am_isDebugEnabled ac
         then bindM (tryM (authWithDebugHeaders md)) (\<lambda>q. case q of
             Inr uc \<Rightarrow> handler (Some uc)
           | Inl _ \<Rightarrow> throwM err)
         else throwM err)"

definition GrpcAuthInterceptor ::
  "authMiddleware \<Rightarrow> string \<Rightarrow> metadata option \<Rightarrow> (UserContext option \<Rightarrow> ('m, 'a) dbprog) \<Rightarrow> ('m, 'a) dbprog" where
  "GrpcAuthInterceptor ac fullMethod md handler =
     (if isIgnored ac fullMethod then handler None
      else (case md of None \<Rightarrow> throwM ErrMetadataMissing | Some md \<Rightarrow> authorise ac md handler))"

definition TrimPrefix :: "string \<Rightarrow> string \<Rightarrow> string" where
  "TrimPrefix s p = (if has_prefix s p then drop (length p) s else s)"

text \<open>The headers of an HTTP request in the order the map gives them.\<close>

definition http_metadata :: "(string \<times> string list) list \<Rightarrow> metadata" where
  "http_metadata headers = fold (\<lambda>(k, v). md_Set (TrimPrefix k ''Grpc-Metadata-'') v) headers []"

definition HttpAuthMiddleware ::
  "authMiddleware \<Rightarrow> string \<Rightarrow> (string \<times> string list) list \<Rightarrow> (UserContext option \<Rightarrow> ('m, 'a) dbprog) \<Rightarrow> ('m, 'a) dbprog" where
  "HttpAuthMiddleware ac path headers handler =
     (if isIgnored ac path then handler None else authorise ac (http_metadata headers) handler)"

section \<open>Who a request runs as\<close>

lemma db_reads_keep:
  "mem (snd (ValidateToken token s)) = mem s" "dbase (snd (auth_GetMe i s)) = dbase s" "mem (snd (auth_GetMe i s)) = mem s"
proof -
  show "mem (snd (ValidateToken token s)) = mem s"
    by (cases "ss_GetByAccessToken token (db_sessions (dbase s))")
      (simp_all add: ValidateToken_def SESSION_GetByAccessToken_def dbcall_def Let_def bindM_def tryM_def time_Now_def)
  show "dbase (snd (auth_GetMe i s)) = dbase s" "mem (snd (auth_GetMe i s)) = mem s"
    by (auto simp: auth_GetMe_def USER_GetUserById_def USER_GetPermissions_def query_def dbcall_def Let_def bindM_def
        split: outcome.split)
qed

lemma GetUserByToken_keeps:
  assumes "GetUserByToken token s = (r, s')"
  shows "dbase s' = dbase s \<and> mem s' = mem s"
proof -
  obtain q s1 where q: "ValidateToken token s = (q, s1)" by fastforce
  have d: "dbase s1 = dbase s" "mem s1 = mem s"
    using ValidateToken_dbase[of token s] db_reads_keep(1)[of token s] q by simp_all
  show ?thesis
  proof (cases q)
    case (Ok i)
    then have "snd (auth_GetMe i s1) = s'" using assms q by (simp add: GetUserByToken_def)
    then show ?thesis using db_reads_keep(2,3)[of i s1] d by simp
  qed (use assms q d in \<open>auto simp: GetUserByToken_def\<close>)
qed

lemma GetUserByToken_valid:
  assumes "GetUserByToken token s = (Ok (user, permissions), s')"
  shows "fst (ValidateToken token s) = Ok (ub_Id user) \<and> permissions = up_GetPermissions (ub_Id user) (db_permissions (dbase s))"
proof -
  obtain i s1 where "ValidateToken token s = (Ok i, s1)" "auth_GetMe i s1 = (Ok (user, permissions), s')"
    using assms by (auto simp: GetUserByToken_def bindM_eq_Ok)
  moreover from this have "ub_Id user = i"
    by (auto simp: auth_GetMe_def bindM_eq_Ok USER_GetUserById_def dbcall_cases us_GetUserById_def
        split: option.splits dest!: tbl_find_Some)
  ultimately show ?thesis using GetUserByToken_Ok[OF assms] by simp
qed

lemma authWithSession_run:
  assumes "authWithSession md s = (r, s')"
  shows "dbase s' = dbase s \<and> mem s' = mem s \<and> (\<forall>uc. r = Ok uc \<longrightarrow>
    (\<exists>token vs. md_Get authHeader md = token # vs \<and> fst (ValidateToken token s) = Ok (uc_UserId uc) \<and>
       uc_Permissions uc = up_GetPermissions (uc_UserId uc) (db_permissions (dbase s)) \<and> perm_EarlyAccess (uc_Permissions uc)))"
proof (cases "md_Get authHeader md")
  case Nil
  then show ?thesis using assms by (auto simp: authWithSession_def)
next
  case (Cons token vs)
  obtain q s1 where q: "GetUserByToken token s = (q, s1)" by fastforce
  note keeps = GetUserByToken_keeps[OF q]
  show ?thesis
  proof (cases q)
    case (Ok x)
    obtain user permissions where x: "x = (user, permissions)" by (cases x)
    show ?thesis
      using assms Cons q keeps GetUserByToken_valid[of token s user permissions s1] unfolding Ok x
      by (auto simp: authWithSession_def split: if_splits)
  qed (use assms Cons q keeps in \<open>auto simp: authWithSession_def\<close>)
qed

lemma ValidateToken_no_fault: "fst (ValidateToken token s) = Ok i \<Longrightarrow> \<not> next_fault s"
  by (auto simp: ValidateToken_def SESSION_GetByAccessToken_def dbcall_def Let_def bindM_def tryM_def)

text \<open>C31: Requests run only as who they are.  With debugging off and on a path that is not left alone, after any sequence of
  sign-ins, refreshes, logouts, grants, sweeps and waits: a request reaches its handler only with an access token that was granted, has not
  expired, been logged out or refreshed, as the user it was granted to, with the permissions of his row, early access among
  them; or it is answered with an error and nothing happens.\<close>
theorem requests_run_as_granted_users:
  assumes inv: "acc_inv (dbase s0)" "db_sessions (dbase s0) = []" and run: "auth_history tp calls s0 = (h, s)"
    and guarded: "\<not> isIgnored ac fullMethod" "\<not> am_isDebugEnabled ac"
    and request: "GrpcAuthInterceptor ac fullMethod (Some md) handler s = (r, s')"
  shows "(\<exists>token vs sess uc s1. md_Get authHeader md = token # vs \<and> granted h token = Some sess \<and>
      db_clock (dbase s) \<le> ss_AccessExpiresAt sess \<and> uc_UserId uc = ss_UserId sess \<and>
      uc_Permissions uc = up_GetPermissions (ss_UserId sess) (db_permissions (dbase s)) \<and> perm_EarlyAccess (uc_Permissions uc) \<and>
      dbase s1 = dbase s \<and> mem s1 = mem s \<and> handler (Some uc) s1 = (r, s')) \<or>
    (\<not> is_ok r \<and> dbase s' = dbase s \<and> mem s' = mem s)"
proof -
  have "holds_grants (dbase s0) (\<lambda>_. None)" using inv by (simp add: holds_grants_def)
  then have sim: "holds_grants (dbase s) (granted h)" using holds_history[OF _ run] by (simp add: granted_def)
  obtain q s1 where q: "authWithSession md s = (q, s1)" by fastforce
  note auth = authWithSession_run[OF q]
  have req: "authorise ac md handler s = (r, s')" using request guarded by (simp add: GrpcAuthInterceptor_def)
  show ?thesis
  proof (cases q)
    case (Ok uc)
    then obtain token vs where t: "md_Get authHeader md = token # vs" "fst (ValidateToken token s) = Ok (uc_UserId uc)"
        "uc_Permissions uc = up_GetPermissions (uc_UserId uc) (db_permissions (dbase s))" "perm_EarlyAccess (uc_Permissions uc)"
      using auth by blast
    then obtain sess where "granted h token = Some sess" "ss_UserId sess = uc_UserId uc" "db_clock (dbase s) \<le> ss_AccessExpiresAt sess"
      using holds_valid[OF sim ValidateToken_no_fault[OF t(2)]] by blast
    moreover have "handler (Some uc) s1 = (r, s')" using req q Ok by (simp add: authorise_def)
    ultimately show ?thesis using t auth by auto
  qed (use req q auth guarded in \<open>auto simp: authorise_def\<close>)
qed

definition ex_guard :: authMiddleware where
  "ex_guard = \<lparr>am_ignoredPaths = [''/Auth''], am_ignoredPrefixes = [], am_isDebugEnabled = False\<rparr>"

definition ex_requests :: "auth_call list" where
  "ex_requests = [GrantCall 2, TelegramCall (''a1'', ''r1'') 5 ''ok'']"

theorem requests_run_as_granted_users_witness:
  "fst (GrpcAuthInterceptor ex_guard ''/Me'' (Some [(''authorization'', [''a1''])]) UserService_GetMe
      (snd (auth_history ex_tp ex_requests ex_accounts))) \<noteq> Err ErrAuthHeaderMissing \<and>
   granted (fst (auth_history ex_tp ex_requests ex_accounts)) ''a1'' \<noteq> None"
proof -
  let ?h = "auth_history ex_tp ex_requests ex_accounts" and ?md = "[(''authorization'', [''a1''])]"
  let ?run = "GrpcAuthInterceptor ex_guard ''/Me'' (Some ?md) UserService_GetMe (snd ?h)"
  have wf: "db_sessions (dbase ex_accounts) = []" by (simp add: ex_accounts_def empty_database_def)
  have run: "auth_history ex_tp ex_requests ex_accounts = (fst ?h, snd ?h)" by (rule prod.collapse[symmetric])
  have guard: "\<not> isIgnored ex_guard ''/Me''" "\<not> am_isDebugEnabled ex_guard" by code_simp+
  have req: "?run = (fst ?run, snd ?run)" by (rule prod.collapse[symmetric])
  have ok: "is_ok (fst ?run)" by code_simp
  have "md_Get authHeader ?md = [''a1'']" by code_simp
  then have "granted (fst ?h) ''a1'' \<noteq> None"
    using requests_run_as_granted_users[OF ex_accounts_wf wf run guard req] ok by auto
  then show ?thesis using ok by (cases "fst ?run") auto
qed

end
