(* ===== verification/PlaylistService.thy ===== *)
theory PlaylistService
  imports FilePlacement AuthService
begin

text \<open>
  Playlists (internal/service/v1/playlist_service.go over internal/storage/pg/playlist.go and user.go).  Ids of playlists and artists come
  as text and are parsed by every storage call, as in the code.  Covers are placed in the default storage (FilePlacement).  The
  full-text search is not modelled.
\<close>

section \<open>Storage calls\<close>

definition on_playlists :: "(playlist_tables \<Rightarrow> 'a outcome \<times> playlist_tables) \<Rightarrow> ('m, 'a) dbprog" where
  "on_playlists f = dbcall (\<lambda>d. case f (db_playlists d) of (r, t) \<Rightarrow> (r, d\<lparr>db_playlists := t\<rparr>))"

definition parsed :: "('r, 'l) store_env \<Rightarrow> string \<Rightarrow> (uuid \<Rightarrow> ('r, 'a) storeprog) \<Rightarrow> ('r, 'a) storeprog" where
  "parsed env s f = (case se_uuid_Parse env s of None \<Rightarrow> throwM ErrMalformed | Some p \<Rightarrow> f p)"

text \<open>A playlist as the service sees it: its row, the path of its cover, the name of its owner, and its artists.\<close>

record Playlist =
  p_Row :: PlaylistRow
  p_CoverFilePath :: string
  p_OwnerUsername :: string
  p_Artists :: "ArtistsBase list"
  p_Tags :: "AlbumTagRow list"
  p_Permissions :: "PlaylistPermissions option"

definition cover_path_of :: "database \<Rightarrow> PlaylistRow \<Rightarrow> string" where
  "cover_path_of d r = (case pl_CoverFileId r of None \<Rightarrow> []
     | Some f \<Rightarrow> (case fm_Get f (db_files d) of Ok meta \<Rightarrow> f_FilePath (fm_File meta) | _ \<Rightarrow> []))"

definition PL_GetPlaylistArtists :: "('r, 'l) store_env \<Rightarrow> string \<Rightarrow> ('r, ArtistsBase list) storeprog" where
  "PL_GetPlaylistArtists env playlistUuid = parsed env playlistUuid (\<lambda>p.
     query (\<lambda>d. pl_GetPlaylistArtists p (db_playlists d)))"

definition PL_Get :: "('r, 'l) store_env \<Rightarrow> int \<Rightarrow> string \<Rightarrow> ('r, Playlist) storeprog" where
  "PL_Get env userId playlistUuid = parsed env playlistUuid (\<lambda>p.
     bindM (dbcall (\<lambda>d. (case pl_Get userId p (db_playlists d) of
         Ok r \<Rightarrow> Ok \<lparr>p_Row = r, p_CoverFilePath = cover_path_of d r,
           p_OwnerUsername = (case us_GetUserById (pl_OwnerId r) (db_users d) of Ok u \<Rightarrow> ub_Username u | _ \<Rightarrow> []),
           p_Artists = [], p_Tags = [], p_Permissions = None\<rparr>
       | Err e \<Rightarrow> Err e | Panic \<Rightarrow> Panic, d))) (\<lambda>playlist.
     bindM (PL_GetPlaylistArtists env playlistUuid) (\<lambda>artists.
     returnM (playlist\<lparr>p_Artists := artists\<rparr>))))"

definition PL_Update :: "('r, 'l) store_env \<Rightarrow> string \<Rightarrow> playlist_update \<Rightarrow> ('r, unit) storeprog" where
  "PL_Update env playlistUuid req = parsed env playlistUuid (\<lambda>p. on_playlists (\<lambda>t. (Ok (), pl_Update p req t)))"

definition PL_AddPlaylistArtist :: "('r, 'l) store_env \<Rightarrow> string \<Rightarrow> string \<Rightarrow> int \<Rightarrow> ('r, unit) storeprog" where
  "PL_AddPlaylistArtist env playlistUuid artistUuid orderId =
     parsed env playlistUuid (\<lambda>p. parsed env artistUuid (\<lambda>a. on_playlists (pl_AddPlaylistArtist p a orderId)))"

definition PL_ClearPlaylistArtists :: "('r, 'l) store_env \<Rightarrow> string \<Rightarrow> ('r, unit) storeprog" where
  "PL_ClearPlaylistArtists env playlistUuid = parsed env playlistUuid (\<lambda>p.
     on_playlists (\<lambda>t. (Ok (), pl_ClearPlaylistArtists p t)))"

definition PL_GetAlbumTags :: "('r, 'l) store_env \<Rightarrow> string \<Rightarrow> ('r, AlbumTagRow list) storeprog" where
  "PL_GetAlbumTags env playlistUuid = parsed env playlistUuid (\<lambda>p. query (\<lambda>d. pl_GetAlbumTags p (db_playlists d)))"

record AlbumTag =
  tag_Kind :: AlbumTagKind
  tag_Value :: string
  tag_VersionKind :: "AlbumVersionKind option"
  tag_ParentPlaylistUuid :: "string option"

definition PL_InsertAlbumTag :: "('r, 'l) store_env \<Rightarrow> string \<Rightarrow> AlbumTag \<Rightarrow> int \<Rightarrow> ('r, unit) storeprog" where
  "PL_InsertAlbumTag env playlistUuid tag orderId = parsed env playlistUuid (\<lambda>p.
     let row = \<lparr>at_PlaylistUuid = p, at_Kind = tag_Kind tag, at_Value = tag_Value tag, at_VersionKind = tag_VersionKind tag,
                at_ParentPlaylistUuid = None, at_OrderId = orderId\<rparr> in
     (case tag_ParentPlaylistUuid tag of
        None \<Rightarrow> on_playlists (pl_InsertAlbumTag row)
      | Some parent \<Rightarrow> parsed env parent (\<lambda>q. on_playlists (pl_InsertAlbumTag (row\<lparr>at_ParentPlaylistUuid := Some q\<rparr>)))))"

definition PL_ClearAlbumTags :: "('r, 'l) store_env \<Rightarrow> string \<Rightarrow> ('r, unit) storeprog" where
  "PL_ClearAlbumTags env playlistUuid = parsed env playlistUuid (\<lambda>p. on_playlists (\<lambda>t. (Ok (), pl_ClearAlbumTags p t)))"

definition PL_UpdateCoverFileId :: "('r, 'l) store_env \<Rightarrow> string \<Rightarrow> int \<Rightarrow> ('r, unit) storeprog" where
  "PL_UpdateCoverFileId env playlistUuid fileId = parsed env playlistUuid (\<lambda>p. dbcall (\<lambda>d.
     case pl_UpdateCoverFileId (is_ok (fm_Get fileId (db_files d))) p fileId (db_playlists d) of
       (r, t) \<Rightarrow> (r, d\<lparr>db_playlists := t\<rparr>)))"

definition song_known :: "int \<Rightarrow> database \<Rightarrow> bool" where
  "song_known songId d \<longleftrightarrow> (\<exists>s \<in> set (rows (db_songs d)). song_Id s = songId)"

definition PL_AddSong :: "('r, 'l) store_env \<Rightarrow> string \<Rightarrow> int \<Rightarrow> ('r, unit) storeprog" where
  "PL_AddSong env playlistUuid songId = parsed env playlistUuid (\<lambda>p. dbcall (\<lambda>d.
     case pl_AddSong (song_known songId d) p songId (db_playlists d) of (r, t) \<Rightarrow> (r, d\<lparr>db_playlists := t\<rparr>)))"

definition PL_RemoveSong :: "('r, 'l) store_env \<Rightarrow> string \<Rightarrow> int \<Rightarrow> ('r, unit) storeprog" where
  "PL_RemoveSong env playlistUuid songId = parsed env playlistUuid (\<lambda>p.
     on_playlists (\<lambda>t. (Ok (), pl_RemoveSong p songId t)))"

definition PL_GetOwnerAndVisibility :: "('r, 'l) store_env \<Rightarrow> string \<Rightarrow> ('r, int \<times> bool) storeprog" where
  "PL_GetOwnerAndVisibility env playlistUuid = parsed env playlistUuid (\<lambda>p.
     dbcall (\<lambda>d. (pl_GetOwnerAndVisibility p (db_playlists d), d)))"

definition PL_SetSongOrder :: "('r, 'l) store_env \<Rightarrow> string \<Rightarrow> int \<Rightarrow> int \<Rightarrow> ('r, unit) storeprog" where
  "PL_SetSongOrder env playlistUuid songId orderNum = parsed env playlistUuid (\<lambda>p.
     on_playlists (\<lambda>t. (Ok (), pl_SetSongOrder p songId orderNum t)))"

definition USER_GetPermissionsOnPlaylist ::
  "('r, 'l) store_env \<Rightarrow> int \<Rightarrow> string \<Rightarrow> ('r, PlaylistPermissions) storeprog" where
  "USER_GetPermissionsOnPlaylist env userId playlistUuid = parsed env playlistUuid (\<lambda>p.
     query (\<lambda>d. us_GetPermissionsOnPlaylist userId p (db_playlists d)))"

definition USER_FollowPlaylist :: "('r, 'l) store_env \<Rightarrow> int \<Rightarrow> string \<Rightarrow> ('r, unit) storeprog" where
  "USER_FollowPlaylist env userId playlistUuid = parsed env playlistUuid (\<lambda>p. dbcall (\<lambda>d.
     case us_FollowPlaylist (us_known userId (db_users d)) userId p (db_playlists d) of (r, t) \<Rightarrow> (r, d\<lparr>db_playlists := t\<rparr>)))"

definition USER_UnfollowPlaylist :: "('r, 'l) store_env \<Rightarrow> int \<Rightarrow> string \<Rightarrow> ('r, unit) storeprog" where
  "USER_UnfollowPlaylist env userId playlistUuid = parsed env playlistUuid (\<lambda>p.
     on_playlists (\<lambda>t. (Ok (), us_UnfollowPlaylist userId p t)))"

text \<open>The error of a song without a row is none of the named ones.\<close>

definition FM_GetBySongId :: "int \<Rightarrow> ('r, FileMeta) storeprog" where
  "FM_GetBySongId songId = dbcall (\<lambda>d.
     (case tbl_find (\<lambda>s. song_Id s = songId) (db_songs d) of
        None \<Rightarrow> Err ErrStorageFailure
      | Some s \<Rightarrow> (case fm_Get (song_FileId s) (db_files d) of Ok meta \<Rightarrow> Ok meta | _ \<Rightarrow> Err ErrStorageFailure), d))"

section \<open>Listing songs\<close>

record PlaylistSong =
  psg_Id :: int
  psg_Title :: string
  psg_Duration :: int
  psg_FilePath :: string
  psg_FileId :: int
  psg_Artists :: "ArtistsBase list"

text \<open>The view joins a song with its file and its artists: a song without artists is not in it.\<close>

definition playlist_song :: "database \<Rightarrow> PlaylistSongRow \<Rightarrow> PlaylistSong option" where
  "playlist_song d r =
     (case tbl_find (\<lambda>s. song_Id s = ps_SongId r) (db_songs d) of
        None \<Rightarrow> None
      | Some s \<Rightarrow> (case fm_Get (song_FileId s) (db_files d) of
            Ok meta \<Rightarrow>
              let artists = artists_of_song (song_Id s) (db_playlists d) in
              if artists = [] then None
              else Some \<lparr>psg_Id = song_Id s, psg_Title = song_Title s, psg_Duration = f_Duration (fm_File meta),
                psg_FilePath = f_FilePath (fm_File meta), psg_FileId = song_FileId s, psg_Artists = artists\<rparr>
          | _ \<Rightarrow> None))"

text \<open>What \<open>ListSongs\<close> asks for.  The id of the playlist goes to Postgres as text; \<open>sql_uuid\<close> is its reader of UUIDs.  A seed makes
  the order random: \<open>shuffle\<close> is the order it gives, none when Postgres refuses the seed.\<close>

record ListSongs =
  ls_PlaylistUuid :: string
  ls_UserId :: int
  ls_Limit :: nat
  ls_Offset :: nat
  ls_Desc :: bool
  ls_RandomHash :: "nat option"

record sql_env =
  sql_uuid :: "string \<Rightarrow> uuid option"
  shuffle :: "nat \<Rightarrow> PlaylistSongRow list \<Rightarrow> PlaylistSongRow list option"

definition GlobalPlaylistUuidText :: string where
  "GlobalPlaylistUuidText = ''00000000-0000-0000-0000-000000000000''"

text \<open>The songs of the global queue are everybody's.\<close>

definition songs_visible :: "ListSongs \<Rightarrow> uuid \<Rightarrow> playlist_tables \<Rightarrow> bool" where
  "songs_visible req p t \<longleftrightarrow> ls_PlaylistUuid req = GlobalPlaylistUuidText \<or>
     (\<exists>r \<in> set (pt_Playlists t). pl_Uuid r = p \<and> can_see (ls_UserId req) t r)"

definition viewed_rows :: "ListSongs \<Rightarrow> uuid \<Rightarrow> database \<Rightarrow> PlaylistSongRow list" where
  "viewed_rows req p d =
     (if songs_visible req p (db_playlists d)
      then List.filter (\<lambda>r. playlist_song d r \<noteq> None) (songs_of p (db_playlists d)) else [])"

definition order_rows :: "sql_env \<Rightarrow> ListSongs \<Rightarrow> PlaylistSongRow list \<Rightarrow> PlaylistSongRow list option" where
  "order_rows sq req rs =
     map_option (\<lambda>ordered. if ls_Desc req then rev ordered else ordered)
       (case ls_RandomHash req of Some h \<Rightarrow> shuffle sq h rs | None \<Rightarrow> Some (sort_key ps_OrderNumber rs))"

text \<open>LIMIT and OFFSET are read as bigint.\<close>

definition page_ok :: "nat \<Rightarrow> nat \<Rightarrow> bool" where
  "page_ok limit offset \<longleftrightarrow> int limit < 9223372036854775808 \<and> int offset < 9223372036854775808"

definition PL_ListSongs :: "sql_env \<Rightarrow> ListSongs \<Rightarrow> ('m, PlaylistSong list) dbprog" where
  "PL_ListSongs sq req = dbcall (\<lambda>d.
     (case sql_uuid sq (ls_PlaylistUuid req) of
        None \<Rightarrow> Err ErrStorageFailure
      | Some p \<Rightarrow> (case order_rows sq req (viewed_rows req p d) of
            None \<Rightarrow> Err ErrStorageFailure
          | Some rs \<Rightarrow> if \<not> page_ok (ls_Limit req) (ls_Offset req) then Err ErrStorageFailure
              else Ok (List.map_filter (playlist_song d) (take (ls_Limit req) (drop (ls_Offset req) rs)))), d))"

text \<open>The count is read into a uint16.\<close>

definition PL_CountSongs :: "sql_env \<Rightarrow> ListSongs \<Rightarrow> ('m, int) dbprog" where
  "PL_CountSongs sq req = dbcall (\<lambda>d.
     (case sql_uuid sq (ls_PlaylistUuid req) of
        None \<Rightarrow> Err ErrStorageFailure
      | Some p \<Rightarrow> let n = int (length (viewed_rows req p d)) in if n < 65536 then Ok n else Err ErrStorageFailure, d))"

definition PlaylistService_ListSongs ::
  "sql_env \<Rightarrow> UserContext option \<Rightarrow> ListSongs \<Rightarrow> ('m, PlaylistSong list \<times> int) dbprog" where
  "PlaylistService_ListSongs sq uCtx req =
     (let req1 = if ls_Limit req = 0 then req\<lparr>ls_Limit := 10\<rparr> else req in
      authenticated uCtx (\<lambda>uc.
      let req2 = req1\<lparr>ls_UserId := uc_UserId uc\<rparr>;
          req3 = if ls_PlaylistUuid req2 = [] then req2\<lparr>ls_PlaylistUuid := GlobalPlaylistUuidText\<rparr> else req2 in
      bindM (PL_ListSongs sq req3) (\<lambda>songs.
      bindM (PL_CountSongs sq req3) (\<lambda>total. returnM (songs, total)))))"

section \<open>Listing playlists\<close>

record ListPlaylists =
  lp_Limit :: nat
  lp_Offset :: nat
  lp_ByAuthedUser :: bool
  lp_ArtistUuid :: "string option"
  lp_Kind :: "PlaylistKind option"
  lp_UserId :: "int option"

text \<open>\<open>applyFilters\<close>: the primary artist, the kind, and what the user may see; \<open>artist\<close> is the artist's id as Postgres reads it.\<close>

definition playlist_listed :: "ListPlaylists \<Rightarrow> uuid option \<Rightarrow> playlist_tables \<Rightarrow> PlaylistRow \<Rightarrow> bool" where
  "playlist_listed req artist t r \<longleftrightarrow>
     (case artist of None \<Rightarrow> True
      | Some a \<Rightarrow> \<exists>x \<in> set (pt_PlaylistArtists t). pa_PlaylistUuid x = pl_Uuid r \<and> pa_ArtistUuid x = a \<and> pa_OrderId x = 0) \<and>
     (case lp_Kind req of None \<Rightarrow> True | Some k \<Rightarrow> pl_Kind r = k) \<and>
     (case lp_UserId req of
        None \<Rightarrow> pl_IsPublic r
      | Some i \<Rightarrow> if lp_ByAuthedUser req then find_user_playlist i (pl_Uuid r) t \<noteq> None else can_see i t r)"

text \<open>\<open>applySorting\<close>: one's own playlists newest first; Postgres compares UUIDs as their numbers.\<close>

definition sort_playlists :: "ListPlaylists \<Rightarrow> playlist_tables \<Rightarrow> PlaylistRow list \<Rightarrow> PlaylistRow list" where
  "sort_playlists req t rs =
     (if lp_ByAuthedUser req
      then rev (sort_key (\<lambda>r. case lp_UserId req of
             Some i \<Rightarrow> (case find_user_playlist i (pl_Uuid r) t of Some x \<Rightarrow> up_OrderId x | None \<Rightarrow> 0) | None \<Rightarrow> 0) rs)
      else sort_key pl_Uuid rs)"

definition matched_playlists :: "sql_env \<Rightarrow> ListPlaylists \<Rightarrow> playlist_tables \<Rightarrow> PlaylistRow list outcome" where
  "matched_playlists sq req t =
     (case lp_ArtistUuid req of
        None \<Rightarrow> Ok (List.filter (playlist_listed req None t) (pt_Playlists t))
      | Some text \<Rightarrow> (case sql_uuid sq text of
            None \<Rightarrow> Err ErrStorageFailure
          | Some a \<Rightarrow> Ok (List.filter (playlist_listed req (Some a) t) (pt_Playlists t))))"

definition plain_playlist :: "database \<Rightarrow> PlaylistRow \<Rightarrow> Playlist" where
  "plain_playlist d r = \<lparr>p_Row = r, p_CoverFilePath = cover_path_of d r, p_OwnerUsername = [], p_Artists = [], p_Tags = [],
     p_Permissions = None\<rparr>"

definition PL_List :: "('r, 'l) store_env \<Rightarrow> sql_env \<Rightarrow> ListPlaylists \<Rightarrow> ('r, Playlist list) storeprog" where
  "PL_List env sq req =
     bindM (dbcall (\<lambda>d. (case matched_playlists sq req (db_playlists d) of
         Ok rs \<Rightarrow> if \<not> page_ok (lp_Limit req) (lp_Offset req) then Err ErrStorageFailure
           else Ok (List.map (plain_playlist d)
           (take (lp_Limit req) (drop (lp_Offset req) (sort_playlists req (db_playlists d) rs))))
       | Err e \<Rightarrow> Err e | Panic \<Rightarrow> Panic, d)))
     (mapM (\<lambda>playlist.
        bindM (PL_GetPlaylistArtists env (se_uuid_String env (pl_Uuid (p_Row playlist)))) (\<lambda>artists.
        returnM (playlist\<lparr>p_Artists := artists\<rparr>))))"

definition PL_CountPlaylists :: "sql_env \<Rightarrow> ListPlaylists \<Rightarrow> ('m, int) dbprog" where
  "PL_CountPlaylists sq req = dbcall (\<lambda>d. (case matched_playlists sq req (db_playlists d) of
       Ok rs \<Rightarrow> Ok (int (length rs)) | Err e \<Rightarrow> Err e | Panic \<Rightarrow> Panic, d))"

section \<open>Covers\<close>

text \<open>Part of the hash of the content is appended, so that clients fetch a new cover.\<close>

definition buildVersionedCoverPath :: "string \<Rightarrow> string \<Rightarrow> string" where
  "buildVersionedCoverPath filePath contentHash =
     (if contentHash = [] then filePath
      else filePath @ ''?v='' @ take (if length contentHash < 12 then length contentHash else 12) contentHash)"

definition resolveCoverPath :: "Playlist \<Rightarrow> ('m, Playlist) dbprog" where
  "resolveCoverPath pl =
     (case pl_CoverFileId (p_Row pl) of
        None \<Rightarrow> returnM pl
      | Some coverFileId \<Rightarrow> bindM (tryM (FM_Get coverFileId)) (\<lambda>r. case r of
          Inl _ \<Rightarrow> returnM pl
        | Inr meta \<Rightarrow> returnM (pl\<lparr>p_CoverFilePath :=
            buildVersionedCoverPath (f_FilePath (fm_File meta)) (f_ContentHash (fm_File meta))\<rparr>)))"

definition coverPath :: "string list \<Rightarrow> int \<Rightarrow> string \<Rightarrow> string \<Rightarrow> string" where
  "coverPath artistUuids userId playlistUuid ext =
     (if artistUuids \<noteq> [] then hd artistUuids @ ''/'' @ playlistUuid @ ''/cover'' @ ext
      else FormatInt userId @ ''/'' @ playlistUuid @ ''/cover'' @ ext)"

definition moveCoverFile ::
  "('r, 'l) store_env \<Rightarrow> string \<Rightarrow> int \<Rightarrow> string list \<Rightarrow> int \<Rightarrow> ('r, string) storeprog" where
  "moveCoverFile env playlistUuid coverFileId artistUuids userId =
     bindM (FM_Get coverFileId) (\<lambda>coverMeta.
     if \<not> f_Verified (fm_File coverMeta) then throwM ErrFileNotVerified
     else
       let newPath = coverPath artistUuids userId playlistUuid (path_Ext (f_FilePath (fm_File coverMeta))) in
       bindM (placeFileInDefaultStorage env coverMeta newPath) (\<lambda>_.
       bindM (PL_UpdateCoverFileId env playlistUuid coverFileId) (\<lambda>_.
       returnM (buildVersionedCoverPath newPath (f_ContentHash (fm_File coverMeta))))))"

section \<open>Operations\<close>

definition validateAlbumTags :: "('r, 'l) store_env \<Rightarrow> AlbumTag list \<Rightarrow> ('r, unit) storeprog" where
  "validateAlbumTags env = forM (\<lambda>tag.
     if tag_Kind tag \<noteq> AlbumTagKindAlbumVersion then returnM ()
     else (case (tag_VersionKind tag, tag_ParentPlaylistUuid tag) of
         (Some _, Some parent) \<Rightarrow>
           if parent = [] then throwM ErrInvalidAlbumVersion
           else
             bindM (PL_GetPlaylistArtists env parent) (\<lambda>parentArtists.
             if parentArtists = [] then throwM ErrInvalidAlbumVersion
             else
               bindM (PL_GetAlbumTags env parent) (\<lambda>parentTags.
               if \<exists>parentTag \<in> set parentTags. at_Kind parentTag = AlbumTagKindAlbumVersion
               then throwM ErrInvalidAlbumVersion else returnM ()))
       | _ \<Rightarrow> throwM ErrInvalidAlbumVersion))"

record CreatePlaylist = CreatePlaylistParams +
  cp_ArtistUuids :: "string list"
  cp_CoverFileId :: "int option"
  cp_Tags :: "AlbumTag list"

definition addArtists :: "('r, 'l) store_env \<Rightarrow> string \<Rightarrow> string list \<Rightarrow> ('r, unit) storeprog" where
  "addArtists env playlistUuid artistUuids =
     forM (\<lambda>(i, artistUuid). PL_AddPlaylistArtist env playlistUuid artistUuid (int i)) (enumerate 0 artistUuids)"

definition addTags :: "('r, 'l) store_env \<Rightarrow> string \<Rightarrow> AlbumTag list \<Rightarrow> ('r, unit) storeprog" where
  "addTags env playlistUuid tags =
     forM (\<lambda>(i, tag). PL_InsertAlbumTag env playlistUuid tag (int i)) (enumerate 0 tags)"

definition PlaylistService_Create ::
  "('r, 'l) store_env \<Rightarrow> uuid \<Rightarrow> UserContext option \<Rightarrow> CreatePlaylist \<Rightarrow> ('r, string) storeprog" where
  "PlaylistService_Create env newId uCtx req = authenticated uCtx (\<lambda>uc.
     if \<not> perm_CanCreatePlaylist (uc_Permissions uc) then throwM ErrUnauthorized
     else
       bindM (validateAlbumTags env (cp_Tags req)) (\<lambda>_.
       let kind = (if cp_Kind req = [] then ''PLAYLIST'' else cp_Kind req) in
       tx_execute (
         bindM (PL_Create newId (CreatePlaylistParams.truncate (req\<lparr>cp_Kind := kind\<rparr>)) (uc_UserId uc)) (\<lambda>p.
         let playlistUuid = se_uuid_String env p in
         bindM (addArtists env playlistUuid (cp_ArtistUuids req)) (\<lambda>_.
         bindM (addTags env playlistUuid (cp_Tags req)) (\<lambda>_.
         bindM (case cp_CoverFileId req of
             None \<Rightarrow> returnM ()
           | Some coverFileId \<Rightarrow>
               bindM (moveCoverFile env playlistUuid coverFileId (cp_ArtistUuids req) (uc_UserId uc)) (\<lambda>_. returnM ())) (\<lambda>_.
         returnM playlistUuid)))))))"

definition PlaylistService_Get ::
  "('r, 'l) store_env \<Rightarrow> UserContext option \<Rightarrow> string \<Rightarrow> ('r, Playlist) storeprog" where
  "PlaylistService_Get env uCtx playlistUuid = authenticated uCtx (\<lambda>uc.
     bindM (PL_Get env (uc_UserId uc) playlistUuid) (\<lambda>playlist.
     bindM (resolveCoverPath playlist) (\<lambda>playlist.
     bindM (PL_GetAlbumTags env playlistUuid) (\<lambda>tags.
     bindM (USER_GetPermissionsOnPlaylist env (uc_UserId uc) playlistUuid) (\<lambda>permissions.
     returnM (playlist\<lparr>p_Tags := tags, p_Permissions := Some permissions\<rparr>))))))"

text \<open>\<open>allowed\<close>: the permission of the caller on the playlist the operation asks for.\<close>

definition on_playlist ::
  "('r, 'l) store_env \<Rightarrow> (PlaylistPermissions \<Rightarrow> bool) \<Rightarrow> UserContext option \<Rightarrow> string \<Rightarrow>
     (UserContext \<Rightarrow> ('r, 'a) storeprog) \<Rightarrow> ('r, 'a) storeprog" where
  "on_playlist env allowed uCtx playlistUuid f = authenticated uCtx (\<lambda>uc.
     bindM (USER_GetPermissionsOnPlaylist env (uc_UserId uc) playlistUuid) (\<lambda>permissions.
     if \<not> allowed permissions then throwM ErrUnauthorized else f uc))"

record UpdatePlaylistParams = playlist_update +
  pu_Uuid :: string
  pu_ArtistUuids :: "string list option"
  pu_CoverFileId :: "int option"
  pu_Tags :: "AlbumTag list option"

text \<open>The artists whose folder the cover goes to: those of the request, or those the playlist has.\<close>

definition coverArtists :: "('r, 'l) store_env \<Rightarrow> UpdatePlaylistParams \<Rightarrow> ('r, string list) storeprog" where
  "coverArtists env req =
     (case pu_ArtistUuids req of
        Some artistUuids \<Rightarrow> returnM artistUuids
      | None \<Rightarrow> bindM (PL_GetPlaylistArtists env (pu_Uuid req)) (\<lambda>artists.
          returnM (List.map (\<lambda>a. se_uuid_String env (ar_Uuid a)) artists)))"

definition PlaylistService_Update ::
  "('r, 'l) store_env \<Rightarrow> UserContext option \<Rightarrow> UpdatePlaylistParams \<Rightarrow> ('r, string option) storeprog" where
  "PlaylistService_Update env uCtx req = on_playlist env pp_CanDeleteSongs uCtx (pu_Uuid req) (\<lambda>uc.
     bindM (validateAlbumTags env (case pu_Tags req of Some tags \<Rightarrow> tags | None \<Rightarrow> [])) (\<lambda>_.
       tx_execute (
         bindM (if pu_Name req \<noteq> [] \<or> pu_Description req \<noteq> [] \<or> pu_IsPublic req \<noteq> None
                then PL_Update env (pu_Uuid req) (playlist_update.truncate req) else returnM ()) (\<lambda>_.
         bindM (case pu_ArtistUuids req of
             None \<Rightarrow> returnM ()
           | Some artistUuids \<Rightarrow>
               bindM (PL_ClearPlaylistArtists env (pu_Uuid req)) (\<lambda>_. addArtists env (pu_Uuid req) artistUuids)) (\<lambda>_.
         bindM (case pu_Tags req of
             None \<Rightarrow> returnM ()
           | Some tags \<Rightarrow> bindM (PL_ClearAlbumTags env (pu_Uuid req)) (\<lambda>_. addTags env (pu_Uuid req) tags)) (\<lambda>_.
         case pu_CoverFileId req of
           None \<Rightarrow> returnM None
         | Some coverFileId \<Rightarrow>
             bindM (coverArtists env req) (\<lambda>artistUuids.
             bindM (moveCoverFile env (pu_Uuid req) coverFileId artistUuids (uc_UserId uc)) (\<lambda>coverFilePath.
             returnM (Some coverFilePath)))))))))"

definition ensureSongsFitPlaylistKind :: "('r, 'l) store_env \<Rightarrow> int \<Rightarrow> string \<Rightarrow> int \<Rightarrow> ('r, unit) storeprog" where
  "ensureSongsFitPlaylistKind env userId playlistUuid newSongs =
     bindM (PL_Get env userId playlistUuid) (\<lambda>playlist.
     if pl_Kind (p_Row playlist) \<noteq> PlaylistKindSINGLE then returnM ()
     else if pl_SongCount (p_Row playlist) + newSongs > 1 then throwM ErrSingleHoldsOneSong
     else returnM ())"

definition requireVerifiedSong :: "int \<Rightarrow> ('r, unit) storeprog" where
  "requireVerifiedSong songId =
     bindM (FM_GetBySongId songId) (\<lambda>songFile.
     if \<not> f_Verified (fm_File songFile) then throwM ErrFileNotVerified else returnM ())"

definition addSongRow :: "('r, 'l) store_env \<Rightarrow> string \<Rightarrow> int \<Rightarrow> ('r, unit) storeprog" where
  "addSongRow env playlistUuid songId =
     bindM (tryM (PL_AddSong env playlistUuid songId)) (\<lambda>r. case r of
       Inr _ \<Rightarrow> returnM ()
     | Inl e \<Rightarrow> throwM (if e = ErrAlreadyExists then ErrSongAlreadyInPlaylist else e))"

definition PlaylistService_AddSong ::
  "('r, 'l) store_env \<Rightarrow> UserContext option \<Rightarrow> string \<Rightarrow> int \<Rightarrow> ('r, unit) storeprog" where
  "PlaylistService_AddSong env uCtx playlistUuid songId =
     on_playlist env pp_CanAddSongs uCtx playlistUuid (\<lambda>uc.
     bindM (ensureSongsFitPlaylistKind env (uc_UserId uc) playlistUuid 1) (\<lambda>_.
     bindM (requireVerifiedSong songId) (\<lambda>_.
     addSongRow env playlistUuid songId)))"

definition PlaylistService_AddSongs ::
  "('r, 'l) store_env \<Rightarrow> UserContext option \<Rightarrow> string \<Rightarrow> int list \<Rightarrow> ('r, unit) storeprog" where
  "PlaylistService_AddSongs env uCtx playlistUuid songIds =
     on_playlist env pp_CanAddSongs uCtx playlistUuid (\<lambda>uc.
     bindM (ensureSongsFitPlaylistKind env (uc_UserId uc) playlistUuid (int (length songIds))) (\<lambda>_.
     bindM (forM requireVerifiedSong songIds) (\<lambda>_.
     tx_execute (forM (addSongRow env playlistUuid) songIds))))"

definition PlaylistService_DeleteSong ::
  "('r, 'l) store_env \<Rightarrow> UserContext option \<Rightarrow> string \<Rightarrow> int \<Rightarrow> ('r, unit) storeprog" where
  "PlaylistService_DeleteSong env uCtx playlistUuid songId =
     on_playlist env pp_CanDeleteSongs uCtx playlistUuid (\<lambda>uc. PL_RemoveSong env playlistUuid songId)"

definition ChangeSongsOrder ::
  "('r, 'l) store_env \<Rightarrow> UserContext option \<Rightarrow> string \<Rightarrow> int list \<Rightarrow> ('r, unit) storeprog" where
  "ChangeSongsOrder env uCtx playlistUuid songIds =
     on_playlist env pp_CanEdit uCtx playlistUuid (\<lambda>uc.
     tx_execute (forM (\<lambda>(i, songId). PL_SetSongOrder env playlistUuid songId (int i)) (enumerate 0 songIds)))"

definition Follow :: "('r, 'l) store_env \<Rightarrow> UserContext option \<Rightarrow> string \<Rightarrow> ('r, unit) storeprog" where
  "Follow env uCtx playlistUuid = authenticated uCtx (\<lambda>uc.
     bindM (PL_GetOwnerAndVisibility env playlistUuid) (\<lambda>(ownerId, isPublic).
     if ownerId = uc_UserId uc then throwM ErrUnauthorized
     else if \<not> isPublic then throwM ErrUnauthorized
     else USER_FollowPlaylist env (uc_UserId uc) playlistUuid))"

definition Unfollow :: "('r, 'l) store_env \<Rightarrow> UserContext option \<Rightarrow> string \<Rightarrow> ('r, unit) storeprog" where
  "Unfollow env uCtx playlistUuid = authenticated uCtx (\<lambda>uc.
     USER_UnfollowPlaylist env (uc_UserId uc) playlistUuid)"

definition PlaylistService_List ::
  "('r, 'l) store_env \<Rightarrow> sql_env \<Rightarrow> UserContext option \<Rightarrow> ListPlaylists \<Rightarrow> ('r, Playlist list \<times> int) storeprog" where
  "PlaylistService_List env sq uCtx req = authenticated uCtx (\<lambda>uc.
     let req1 = req\<lparr>lp_UserId := Some (uc_UserId uc)\<rparr> in
     bindM (PL_List env sq req1) (\<lambda>playlists.
     bindM (PL_CountPlaylists sq req1) (\<lambda>total.
     bindM (mapM resolveCoverPath playlists) (\<lambda>resolved. returnM (resolved, total)))))"

end
