(* ===== verification/PlaylistInvariants.thy ===== *)
theory PlaylistInvariants
  imports PlaylistService
begin

text \<open>
  Sequences of calls of the playlist service.  The locale \<open>playlist_invariant\<close> states what a property of the tables must satisfy for every
  table operation the service uses, given which playlists the callers may write; its lemmas carry the property through every
  call.  It is interpreted on the well-formedness of the tables and on the content of one playlist.

  Facts: the tables stay well formed; a playlist is changed only by users who hold a permission on it; a private playlist stays out of reach
  of users without a row for it, its owner included.
\<close>

section \<open>What the playlist service reads and writes\<close>

text \<open>The playlist tables, the ids of the songs and the ids of the files.\<close>

type_synonym catalogue = "playlist_tables \<times> int set \<times> int set"

definition catalogue :: "database \<Rightarrow> catalogue" where
  "catalogue d = (db_playlists d, song_Id ` set (rows (db_songs d)), fm_Id ` set (rows (db_files d)))"

definition onc :: "(catalogue \<Rightarrow> bool) \<Rightarrow> (database, 'm) st \<Rightarrow> bool" where
  "onc J = on_data (\<lambda>d m. J (catalogue d))"

lemma onc_iff: "onc J s \<longleftrightarrow> J (catalogue (dbase s))"
  by (simp add: onc_def on_data_def)

lemma catalogue_playlists [simp]:
  "catalogue (d\<lparr>db_playlists := t\<rparr>) = (t, song_Id ` set (rows (db_songs d)), fm_Id ` set (rows (db_files d)))"
  "catalogue (d\<lparr>db_jobs := js\<rparr>) = catalogue d" "catalogue (d\<lparr>db_storages := ss\<rparr>) = catalogue d"
  by (simp_all add: catalogue_def)

lemma keeps_onc_query [keeps_intros]: "keeps (onc J) (query f)"
  unfolding onc_def by (rule keeps_query)

lemma keeps_onc_dbcall: "(\<And>d. J (catalogue d) \<Longrightarrow> J (catalogue (snd (f d)))) \<Longrightarrow> keeps (onc J) (dbcall f)"
  unfolding onc_def by (rule keeps_dbcall) simp

lemma keeps_on_playlists:
  "(\<And>t S F. J (t, S, F) \<Longrightarrow> J (snd (f t), S, F)) \<Longrightarrow> keeps (onc J) (on_playlists f)"
  unfolding on_playlists_def by (rule keeps_onc_dbcall) (auto simp: catalogue_def split: prod.splits, metis snd_conv)

lemma keeps_onc_mem: "(\<And>s. dbase (snd (m s)) = dbase s) \<Longrightarrow> keeps (onc J) m"
  by (rule keepsI) (auto simp: onc_iff dest: arg_cong[where f = dbase] , metis snd_conv)

lemma keeps_onc_tx: "keeps (onc J) m \<Longrightarrow> keeps (onc J) (tx_execute m)"
  unfolding onc_def using keeps_tx_execute[where J = "\<lambda>d. J (catalogue d)" and K = "\<lambda>_. True"] by simp

lemma keeps_parsed [keeps_intros]: "(\<And>p. se_uuid_Parse env s = Some p \<Longrightarrow> keeps I (f p)) \<Longrightarrow> keeps I (parsed env s f)"
  unfolding parsed_def by (cases "se_uuid_Parse env s") (auto intro: keeps_throw)

lemma keeps_onc_FM_Get [keeps_intros]: "keeps (onc J) (FM_Get i)"
  unfolding FM_Get_def on_files_def by (rule keeps_onc_dbcall) (simp add: catalogue_def)

lemma iocall_dbase: "dbase (snd (iocall f s)) = dbase s"
  by (simp add: iocall_def Let_def split: prod.split)

lemma keeps_onc_iocall [keeps_intros]: "keeps (onc J) (iocall f)"
  by (rule keeps_onc_mem) (rule iocall_dbase)

lemma keys_tbl_update:
  assumes "\<And>r. key (f r) = key r"
  shows "key ` set (rows (tbl_update P f t)) = key ` set (rows t)"
proof -
  have "List.map key (rows (tbl_update P f t)) = List.map key (rows t)" by (simp add: assms)
  then show ?thesis by (metis list.set_map)
qed

lemma location_catalogue: "catalogue (snd (db_update_location i sid p d)) = catalogue d"
proof -
  have "fm_Id ` set (rows (snd (fm_UpdateLocation i sid p (db_files d)))) = fm_Id ` set (rows (db_files d))"
    unfolding fm_UpdateLocation_def by (simp add: keys_tbl_update del: rows_tbl_update)
  then show ?thesis
    by (cases "fm_UpdateLocation i sid p (db_files d)"; cases "fst (fm_UpdateLocation i sid p (db_files d))")
      (simp_all add: db_update_location_def catalogue_def)
qed

lemma keeps_onc_files [keeps_intros]:
  "keeps (onc J) (FM_UpdateLocation i sid path)" "keeps (onc J) (FM_GetBySongId songId)"
  "keeps (onc J) (JOB_EnqueueGarbageFile us sid path)" "keeps (onc J) ST_GetDefault" "keeps (onc J) (ST_Get sid)"
  unfolding FM_UpdateLocation_def FM_GetBySongId_def JOB_EnqueueGarbageFile_def on_jobs_def ST_GetDefault_def ST_Get_def
  by (rule keeps_onc_dbcall keeps_onc_query; simp add: location_catalogue split: prod.split)+

lemma keeps_onc_registry [keeps_intros]: "keeps (onc J) (Registry_Get env sid)"
  unfolding Registry_Get_def Registry_build_def cached_provider_def get_mem_def put_mem_def
  by (intro keeps_intros keeps_put) (simp_all add: onc_iff)

lemma keeps_onc_contents [keeps_intros]:
  "keeps (onc J) (cs_Put env pr path content)" "keeps (onc J) (cs_Get env pr path)"
  "keeps (onc J) (cs_Copy env pr path path')"
  unfolding cs_Put_def cs_Get_def cs_Copy_def on_remote_def local_Put_def local_Get_def local_Copy_def os_write_def os_open_def
    copy_atomically_def os_copy_def on_disk_def
  by (intro keeps_intros)+

lemma keeps_onc_place [keeps_intros]: "keeps (onc J) (placeFileInDefaultStorage env meta newPath)"
  unfolding placeFileInDefaultStorage_def Registry_Default_def Registry_Transfer_def
  by (intro keeps_intros)

text \<open>The calls that read playlists.\<close>

lemma keeps_onc_reads [keeps_intros]:
  "keeps (onc J) (PL_GetPlaylistArtists env text)" "keeps (onc J) (PL_GetAlbumTags env text)"
  "keeps (onc J) (PL_Get env i text)" "keeps (onc J) (USER_GetPermissionsOnPlaylist env i text)"
  "keeps (onc J) (validateAlbumTags env tags)" "keeps (onc J) (ensureSongsFitPlaylistKind env i text n)"
  "keeps (onc J) (requireVerifiedSong songId)" "keeps (onc J) (resolveCoverPath pl)" "keeps (onc J) (coverArtists env req)"
  unfolding PL_GetPlaylistArtists_def PL_GetAlbumTags_def PL_Get_def USER_GetPermissionsOnPlaylist_def validateAlbumTags_def
    ensureSongsFitPlaylistKind_def requireVerifiedSong_def resolveCoverPath_def coverArtists_def
  by (intro keeps_intros keeps_onc_dbcall; simp split: prod.split outcome.split)+

section \<open>Calls\<close>

datatype playlist_call =
    CreateCall uuid CreatePlaylist
  | UpdateCall UpdatePlaylistParams
  | AddSongCall string int
  | AddSongsCall string "int list"
  | DeleteSongCall string int
  | OrderCall string "int list"
  | FollowCall string
  | UnfollowCall string

fun playlist_run ::
  "('r, 'l) store_env \<Rightarrow> UserContext option \<times> playlist_call \<Rightarrow> (database, 'r storemem) st \<Rightarrow> (database, 'r storemem) st" where
  "playlist_run env (uCtx, CreateCall newId req) s = snd (PlaylistService_Create env newId uCtx req s)"
| "playlist_run env (uCtx, UpdateCall req) s = snd (PlaylistService_Update env uCtx req s)"
| "playlist_run env (uCtx, AddSongCall playlistUuid songId) s = snd (PlaylistService_AddSong env uCtx playlistUuid songId s)"
| "playlist_run env (uCtx, AddSongsCall playlistUuid songIds) s = snd (PlaylistService_AddSongs env uCtx playlistUuid songIds s)"
| "playlist_run env (uCtx, DeleteSongCall playlistUuid songId) s = snd (PlaylistService_DeleteSong env uCtx playlistUuid songId s)"
| "playlist_run env (uCtx, OrderCall playlistUuid songIds) s = snd (ChangeSongsOrder env uCtx playlistUuid songIds s)"
| "playlist_run env (uCtx, FollowCall playlistUuid) s = snd (Follow env uCtx playlistUuid s)"
| "playlist_run env (uCtx, UnfollowCall playlistUuid) s = snd (Unfollow env uCtx playlistUuid s)"

fun playlist_runs ::
  "('r, 'l) store_env \<Rightarrow> (UserContext option \<times> playlist_call) list \<Rightarrow> (database, 'r storemem) st \<Rightarrow> (database, 'r storemem) st" where
  "playlist_runs env [] s = s"
| "playlist_runs env (c # cs) s = playlist_runs env cs (playlist_run env c s)"

definition called_by :: "(int \<Rightarrow> bool) \<Rightarrow> (UserContext option \<times> playlist_call) list \<Rightarrow> bool" where
  "called_by caller calls \<longleftrightarrow> (\<forall>c \<in> set calls. case fst c of None \<Rightarrow> True | Some uc \<Rightarrow> caller (uc_UserId uc))"

text \<open>A permission that lets a user change a playlist.\<close>

definition can_change :: "PlaylistPermissions \<Rightarrow> bool" where
  "can_change q \<longleftrightarrow> pp_CanDeleteSongs q \<or> pp_CanAddSongs q \<or> pp_CanEdit q"

definition names :: "('r, 'l) store_env \<Rightarrow> (uuid \<Rightarrow> bool) \<Rightarrow> string \<Rightarrow> bool" where
  "names env P text \<longleftrightarrow> (\<forall>p. se_uuid_Parse env text = Some p \<longrightarrow> P p)"

lemma names_Parse: "names env P text \<Longrightarrow> se_uuid_Parse env text = Some p \<Longrightarrow> P p"
  by (simp add: names_def)

lemma pl_Create_fails: "\<not> is_ok (fst (pl_Create k n params u t)) \<Longrightarrow> snd (pl_Create k n params u t) = t"
  by (auto simp: pl_Create_def split: option.splits if_splits)

section \<open>What every table operation keeps\<close>

locale playlist_invariant =
  fixes J :: "catalogue \<Rightarrow> bool" and writable :: "uuid \<Rightarrow> bool" and caller :: "int \<Rightarrow> bool"
  assumes create: "J (t, S, F) \<Longrightarrow> caller u \<Longrightarrow> pl_Create k new params u t = (Ok q, t') \<Longrightarrow> J (t', S, F) \<and> writable q"
    and update: "J (t, S, F) \<Longrightarrow> writable q \<Longrightarrow> J (pl_Update q req t, S, F)"
    and cover: "J (t, S, F) \<Longrightarrow> writable q \<Longrightarrow> J (snd (pl_UpdateCoverFileId (i \<in> F) q i t), S, F)"
    and add_song: "J (t, S, F) \<Longrightarrow> writable q \<Longrightarrow> J (snd (pl_AddSong (i \<in> S) q i t), S, F)"
    and remove_song: "J (t, S, F) \<Longrightarrow> writable q \<Longrightarrow> J (pl_RemoveSong q i t, S, F)"
    and set_order: "J (t, S, F) \<Longrightarrow> writable q \<Longrightarrow> J (pl_SetSongOrder q i n t, S, F)"
    and add_artist: "J (t, S, F) \<Longrightarrow> writable q \<Longrightarrow> J (snd (pl_AddPlaylistArtist q a n t), S, F)"
    and clear_artists: "J (t, S, F) \<Longrightarrow> writable q \<Longrightarrow> J (pl_ClearPlaylistArtists q t, S, F)"
    and insert_tag: "J (t, S, F) \<Longrightarrow> writable (at_PlaylistUuid row) \<Longrightarrow> J (snd (pl_InsertAlbumTag row t), S, F)"
    and clear_tags: "J (t, S, F) \<Longrightarrow> writable q \<Longrightarrow> J (pl_ClearAlbumTags q t, S, F)"
    and follow: "J (t, S, F) \<Longrightarrow> caller u \<Longrightarrow> find_playlist q t = Some r \<Longrightarrow> pl_IsPublic r \<Longrightarrow>
      J (snd (us_FollowPlaylist k u q t), S, F)"
    and unfollow: "J (t, S, F) \<Longrightarrow> caller u \<Longrightarrow> J (us_UnfollowPlaylist u q t, S, F)"
    and permission: "J (t, S, F) \<Longrightarrow> caller u \<Longrightarrow> \<not> writable q \<Longrightarrow> \<not> can_change (us_GetPermissionsOnPlaylist u q t)"
begin

lemma keeps_writes:
  assumes "names env writable text"
  shows "keeps (onc J) (PL_Update env text req)" "keeps (onc J) (PL_UpdateCoverFileId env text i)"
    "keeps (onc J) (PL_AddSong env text i)" "keeps (onc J) (PL_RemoveSong env text i)" "keeps (onc J) (PL_SetSongOrder env text i n)"
    "keeps (onc J) (PL_AddPlaylistArtist env text a n)" "keeps (onc J) (PL_ClearPlaylistArtists env text)"
    "keeps (onc J) (PL_InsertAlbumTag env text tag n)" "keeps (onc J) (PL_ClearAlbumTags env text)"
proof -
  note w = names_Parse[OF assms]
  have meta: "is_ok (fm_Get f (db_files d)) \<longleftrightarrow> f \<in> fm_Id ` set (rows (db_files d))" for f d
    by (auto simp: fm_Get_def tbl_find_None image_iff split: option.splits dest: tbl_find_Some)
  have song: "song_known x d \<longleftrightarrow> x \<in> song_Id ` set (rows (db_songs d))" for x d
    by (auto simp: song_known_def)
  show "keeps (onc J) (PL_UpdateCoverFileId env text i)" "keeps (onc J) (PL_AddSong env text i)"
    unfolding PL_UpdateCoverFileId_def PL_AddSong_def
    by (intro keeps_parsed keeps_onc_dbcall, drule w, simp add: catalogue_def meta song cover add_song split: prod.split,
        metis cover add_song snd_conv)+
  show "keeps (onc J) (PL_Update env text req)" "keeps (onc J) (PL_RemoveSong env text i)" "keeps (onc J) (PL_SetSongOrder env text i n)"
      "keeps (onc J) (PL_ClearPlaylistArtists env text)" "keeps (onc J) (PL_ClearAlbumTags env text)"
      "keeps (onc J) (PL_AddPlaylistArtist env text a n)"
    unfolding PL_Update_def PL_RemoveSong_def PL_SetSongOrder_def PL_ClearPlaylistArtists_def PL_ClearAlbumTags_def
      PL_AddPlaylistArtist_def
    by (intro keeps_parsed keeps_on_playlists, drule w, simp add: update remove_song set_order clear_artists clear_tags add_artist)+
  show "keeps (onc J) (PL_InsertAlbumTag env text tag n)"
    unfolding PL_InsertAlbumTag_def Let_def
    by (intro keeps_intros keeps_on_playlists; drule w; simp add: insert_tag)
qed

lemma keeps_adds:
  assumes "names env writable text"
  shows "keeps (onc J) (addArtists env text artistUuids)" "keeps (onc J) (addTags env text tags)"
    "keeps (onc J) (moveCoverFile env text i artistUuids u)" "keeps (onc J) (addSongRow env text songId)"
  unfolding addArtists_def addTags_def moveCoverFile_def addSongRow_def
  by (intro keeps_intros keeps_writes assms)+

lemma permission_checked:
  assumes "caller u"
  shows "hoare (onc J) (USER_GetPermissionsOnPlaylist env u text)
    (\<lambda>r s. onc J s \<and> (\<forall>a. r = Ok a \<longrightarrow> can_change a \<longrightarrow> names env writable text))"
proof (rule hoareI)
  fix s r s'
  assume J: "onc J s" and run: "USER_GetPermissionsOnPlaylist env u text s = (r, s')"
  have "onc J s'" using keepsD_eq[OF keeps_onc_reads(4) run J] .
  moreover have "names env writable text" if r: "r = Ok a" and a: "can_change a" for a
  proof -
    obtain q where q: "se_uuid_Parse env text = Some q"
      using run r by (cases "se_uuid_Parse env text") (simp_all add: USER_GetPermissionsOnPlaylist_def parsed_def)
    then have "a = us_GetPermissionsOnPlaylist u q (db_playlists (dbase s))"
      using run r by (simp add: USER_GetPermissionsOnPlaylist_def parsed_def query_cases split: if_splits)
    note q = q this
    have "writable q"
      using permission[of "db_playlists (dbase s)" _ _ u q] J assms a q(2) by (auto simp: onc_iff catalogue_def)
    then show ?thesis using q(1) by (simp add: names_def)
  qed
  ultimately show "onc J s' \<and> (\<forall>a. r = Ok a \<longrightarrow> can_change a \<longrightarrow> names env writable text)" by blast
qed

lemma keeps_on_playlist:
  assumes "\<And>a. allowed a \<Longrightarrow> can_change a"
    and "case uCtx of None \<Rightarrow> True | Some uc \<Rightarrow> caller (uc_UserId uc)"
    and "\<And>uc. caller (uc_UserId uc) \<Longrightarrow> names env writable text \<Longrightarrow> keeps (onc J) (f uc)"
  shows "keeps (onc J) (on_playlist env allowed uCtx text f)"
proof (cases uCtx)
  case (Some uc)
  then have caller: "caller (uc_UserId uc)" using assms(2) by simp
  show ?thesis
    unfolding on_playlist_def authenticated_def Some option.case
    by (rule keeps_bind_post[OF permission_checked[OF caller]]) (auto intro!: keeps_if keeps_throw assms(3) caller dest: assms(1))
qed (simp add: on_playlist_def authenticated_def keeps_throw)

lemma keeps_Create:
  assumes uuids: "uuid_laws env" and "case uCtx of None \<Rightarrow> True | Some uc \<Rightarrow> caller (uc_UserId uc)"
  shows "keeps (onc J) (PlaylistService_Create env newId uCtx req)"
proof (cases uCtx)
  case (Some uc)
  then have caller: "caller (uc_UserId uc)" using assms(2) by simp
  have made: "hoare (onc J) (PL_Create newId params (uc_UserId uc)) (\<lambda>r s. onc J s \<and>
      (\<forall>q. r = Ok q \<longrightarrow> names env writable (se_uuid_String env q)))" for params
  proof (rule hoareI)
    fix s r s'
    assume J: "onc J s" and run: "PL_Create newId params (uc_UserId uc) s = (r, s')"
    define c where "c = pl_Create (us_known (uc_UserId uc) (db_users (dbase s))) newId params (uc_UserId uc) (db_playlists (dbase s))"
    have J0: "J (db_playlists (dbase s), song_Id ` set (rows (db_songs (dbase s))), fm_Id ` set (rows (db_files (dbase s))))"
      using J by (simp add: onc_iff catalogue_def)
    from run consider "r = Err ErrStorageFailure" "dbase s' = dbase s" |
        "r = fst c" "dbase s' = (dbase s)\<lparr>db_playlists := snd c\<rparr>"
      by (auto simp: PL_Create_def dbcall_cases c_def split: prod.splits)
    then show "onc J s' \<and> (\<forall>q. r = Ok q \<longrightarrow> names env writable (se_uuid_String env q))"
    proof cases
      case 1
      then show ?thesis using J by (simp add: onc_iff)
    next
      case 2
      show ?thesis
      proof (cases "fst c")
        case (Ok q)
        then show ?thesis
          using create[OF J0 caller, of _ newId params q "snd c"] 2 uuids
          by (simp add: onc_iff c_def names_def prod_eq_iff uuid_laws_def)
      qed (use 2 pl_Create_fails[of _ newId params "uc_UserId uc" "db_playlists (dbase s)"] J in \<open>simp_all add: onc_iff c_def\<close>)
    qed
  qed
  show ?thesis
    unfolding PlaylistService_Create_def authenticated_def Some option.case Let_def
    by (intro keeps_intros keeps_onc_tx keeps_bind_post[OF made] keeps_adds; assumption)
qed (simp add: PlaylistService_Create_def authenticated_def keeps_throw)

lemma keeps_Follow:
  assumes "case uCtx of None \<Rightarrow> True | Some uc \<Rightarrow> caller (uc_UserId uc)"
  shows "keeps (onc J) (Follow env uCtx text)" "keeps (onc J) (Unfollow env uCtx text)"
proof -
  show "keeps (onc J) (Unfollow env uCtx text)"
    unfolding Unfollow_def authenticated_def USER_UnfollowPlaylist_def using assms
    by (cases uCtx) (auto intro!: keeps_intros keeps_on_playlists simp: unfollow)
  show "keeps (onc J) (Follow env uCtx text)"
  proof (cases "uCtx = None \<or> se_uuid_Parse env text = None")
    case True
    then show ?thesis
      by (auto simp: Follow_def authenticated_def PL_GetOwnerAndVisibility_def USER_FollowPlaylist_def parsed_def
          intro!: keeps_intros split: option.split)
  next
    case False
    then obtain uc q where uc: "uCtx = Some uc" "se_uuid_Parse env text = Some q" by auto
    then have caller: "caller (uc_UserId uc)" using assms by simp
    show ?thesis
    proof (rule keepsI)
      fix s r s'
      assume J: "onc J s" and run: "Follow env uCtx text s = (r, s')"
      let ?u = "uc_UserId uc" and ?t = "db_playlists (dbase s)"
      define c where "c = us_FollowPlaylist (us_known ?u (db_users (dbase s))) ?u q ?t"
      from run uc consider "dbase s' = dbase s" |
          x where "find_playlist q ?t = Some x" "pl_IsPublic x" "dbase s' = (dbase s)\<lparr>db_playlists := snd c\<rparr>"
        by (auto simp: Follow_def authenticated_def PL_GetOwnerAndVisibility_def parsed_def bindM_cases dbcall_cases
            pl_GetOwnerAndVisibility_def USER_FollowPlaylist_def c_def split: option.splits if_splits prod.splits)
      then show "onc J s'"
      proof cases
        case 2
        then show ?thesis using follow[OF _ caller 2(1,2)] J by (auto simp: onc_iff catalogue_def c_def)
      qed (use J in \<open>simp add: onc_iff\<close>)
    qed
  qed
qed

lemma keeps_run:
  fixes env :: "('r, 'l) store_env" and s :: "(database, 'r storemem) st"
  assumes uuids: "uuid_laws env" and "case fst c of None \<Rightarrow> True | Some uc \<Rightarrow> caller (uc_UserId uc)" "onc J s"
  shows "onc J (playlist_run env c s)"
proof -
  obtain uCtx call where c: "c = (uCtx, call)" by (cases c)
  have k: "keeps (onc J) m \<Longrightarrow> onc J (snd (m s))" for m :: "((database, 'r storemem) st, 'x) prog"
    by (erule keepsD) (rule assms(3))
  have u: "case uCtx of None \<Rightarrow> True | Some uc \<Rightarrow> caller (uc_UserId uc)" using assms(2) c by simp
  have change: "\<And>a. pp_CanDeleteSongs a \<Longrightarrow> can_change a" "\<And>a. pp_CanAddSongs a \<Longrightarrow> can_change a"
      "\<And>a. pp_CanEdit a \<Longrightarrow> can_change a"
    by (simp_all add: can_change_def)
  have update: "keeps (onc J) (PlaylistService_Update env uCtx req)" for req
    unfolding PlaylistService_Update_def
    by (rule keeps_on_playlist[OF change(1) u], assumption) (intro keeps_intros keeps_onc_tx keeps_adds keeps_writes; assumption)
  have adds: "keeps (onc J) (PlaylistService_AddSong env uCtx name i)" "keeps (onc J) (PlaylistService_AddSongs env uCtx name ids)"
    for name i ids
    unfolding PlaylistService_AddSong_def PlaylistService_AddSongs_def
    by (rule keeps_on_playlist[OF change(2) u], assumption, intro keeps_intros keeps_onc_tx keeps_adds; assumption)+
  have delete: "keeps (onc J) (PlaylistService_DeleteSong env uCtx name i)" for name i
    unfolding PlaylistService_DeleteSong_def
    by (rule keeps_on_playlist[OF change(1) u], assumption) (intro keeps_writes; assumption)
  have order: "keeps (onc J) (ChangeSongsOrder env uCtx name ids)" for name ids
    unfolding ChangeSongsOrder_def
    by (rule keeps_on_playlist[OF change(3) u], assumption) (intro keeps_intros keeps_onc_tx keeps_writes; assumption)
  show ?thesis
    unfolding c
    by (cases call)
      (simp_all only: playlist_run.simps k[OF update] k[OF adds(1)] k[OF adds(2)] k[OF delete] k[OF order]
        k[OF keeps_Create[OF uuids u]] k[OF keeps_Follow(1)[OF u]] k[OF keeps_Follow(2)[OF u]])
qed

lemma keeps_runs: "uuid_laws env \<Longrightarrow> called_by caller calls \<Longrightarrow> onc J s \<Longrightarrow> onc J (playlist_runs env calls s)"
  by (induction calls arbitrary: s) (auto simp: called_by_def intro: keeps_run)

end

section \<open>The content of one playlist\<close>

text \<open>Everything that hangs on a playlist, except who follows it.\<close>

type_synonym content =
  "PlaylistRow list \<times> PlaylistSongRow list \<times> PlaylistArtistRow list \<times> AlbumTagRow list \<times> UserPlaylistRow list"

definition content_of :: "uuid \<Rightarrow> playlist_tables \<Rightarrow> content" where
  "content_of p t = (List.filter (\<lambda>r. pl_Uuid r = p) (pt_Playlists t), songs_of p t,
     List.filter (\<lambda>r. pa_PlaylistUuid r = p) (pt_PlaylistArtists t), List.filter (\<lambda>r. at_PlaylistUuid r = p) (pt_Tags t),
     List.filter (\<lambda>r. up_PlaylistId r = p \<and> can_change (up_Permissions r)) (pt_UserPlaylists t))"

text \<open>The playlist \<open>p\<close> has the content \<open>c\<close>, which none of the users \<open>U\<close> may change; those of \<open>L\<close> have no row for it, and then it is
  private.\<close>

definition untouched :: "uuid \<Rightarrow> content \<Rightarrow> int set \<Rightarrow> int set \<Rightarrow> catalogue \<Rightarrow> bool" where
  "untouched p c U L = (\<lambda>(t, S, F). content_of p t = c \<and> (\<exists>r. find_playlist p t = Some r \<and> (L \<noteq> {} \<longrightarrow> \<not> pl_IsPublic r)) \<and>
     (\<forall>r \<in> set (pt_UserPlaylists t). up_PlaylistId r = p \<and> can_change (up_Permissions r) \<longrightarrow> up_UserId r \<notin> U) \<and>
     (\<forall>u \<in> L. find_user_playlist u p t = None))"

lemma content_set_playlist:
  "q \<noteq> p \<Longrightarrow> (\<And>r. pl_Uuid (f r) = pl_Uuid r) \<Longrightarrow>
   List.filter (\<lambda>r. pl_Uuid r = p) (List.map (\<lambda>r. if pl_Uuid r = q then f r else r) rs) = List.filter (\<lambda>r. pl_Uuid r = p) rs"
  "q \<noteq> p \<Longrightarrow> (\<And>r. pl_Uuid (f r) = pl_Uuid r) \<Longrightarrow>
   List.find (\<lambda>r. pl_Uuid r = p) (List.map (\<lambda>r. if pl_Uuid r = q then f r else r) rs) = List.find (\<lambda>r. pl_Uuid r = p) rs"
  by (induction rs) auto

lemma rows_of_other:
  assumes "q \<noteq> p"
  shows "List.filter (\<lambda>r. ps_PlaylistUuid r = p) (List.map (\<lambda>r. if ps_PlaylistUuid r = q \<and> ps_SongId r = i
      then r\<lparr>ps_OrderNumber := n\<rparr> else r) songs) = List.filter (\<lambda>r. ps_PlaylistUuid r = p) songs"
    and "List.filter (\<lambda>r. pa_PlaylistUuid r = p) (List.map (\<lambda>r. if pa_PlaylistUuid r = q \<and> pa_ArtistUuid r = a
      then r\<lparr>pa_OrderId := n\<rparr> else r) artists) = List.filter (\<lambda>r. pa_PlaylistUuid r = p) artists"
    and "List.filter (\<lambda>x. (key x = q \<longrightarrow> A x) \<and> key x = p) rs = List.filter (\<lambda>x. key x = p) rs"
    and "List.filter (\<lambda>x. key x \<noteq> q \<and> key x = p) rs = List.filter (\<lambda>x. key x = p) rs"
  using assms by (induction songs, auto, induction artists, auto, induction rs, auto, induction rs, auto)

lemma untouched_cong:
  assumes "untouched p c U L (t, S, F)" "content_of p t' = content_of p t" "find_playlist p t' = find_playlist p t"
    "pt_UserPlaylists t' = pt_UserPlaylists t"
  shows "untouched p c U L (t', S, F)"
  using assms by (simp add: untouched_def find_user_playlist_def)

lemma untouched_write:
  assumes "untouched p c U L (t, S, F)" and other: "q \<noteq> p"
  shows "untouched p c U L (pl_Update q req t, S, F)" "untouched p c U L (snd (pl_UpdateCoverFileId k q i t), S, F)"
    "untouched p c U L (snd (pl_AddSong k q i t), S, F)" "untouched p c U L (pl_RemoveSong q i t, S, F)"
    "untouched p c U L (pl_SetSongOrder q i n t, S, F)" "untouched p c U L (snd (pl_AddPlaylistArtist q a n t), S, F)"
    "untouched p c U L (pl_ClearPlaylistArtists q t, S, F)" "untouched p c U L (pl_ClearAlbumTags q t, S, F)"
  by (rule untouched_cong[OF assms(1)];
      use other in \<open>simp add: content_of_def find_playlist_def songs_of_def pl_Update_def pl_UpdateCoverFileId_def pl_AddSong_def
        pl_RemoveSong_def pl_SetSongOrder_def pl_AddPlaylistArtist_def pl_ClearPlaylistArtists_def pl_ClearAlbumTags_def
        set_playlist_def content_set_playlist rows_of_other\<close>)+

lemma untouched_tag:
  assumes "untouched p c U L (t, S, F)" "at_PlaylistUuid row \<noteq> p"
  shows "untouched p c U L (snd (pl_InsertAlbumTag row t), S, F)"
  by (rule untouched_cong[OF assms(1)];
      use assms(2) in \<open>simp add: content_of_def find_playlist_def songs_of_def pl_InsertAlbumTag_def\<close>)

lemma untouched_create:
  assumes J: "untouched p c U L (t, S, F)" and made: "pl_Create k new params u t = (Ok q, t')"
  shows "untouched p c U L (t', S, F) \<and> q \<noteq> p"
proof -
  have "find_playlist q t = None" "q = new" using made by (auto simp: pl_Create_def split: option.splits if_splits)
  moreover have "find_playlist p t \<noteq> None" using J by (auto simp: untouched_def)
  ultimately have "q \<noteq> p" "new \<noteq> p" by auto
  then show ?thesis
    using J made
    by (auto simp: untouched_def content_of_def pl_Create_def find_playlist_def find_user_playlist_def songs_of_def find_snoc
        split: option.splits if_splits)
qed

lemma find_user_playlist_None:
  "find_user_playlist u p t = None \<longleftrightarrow> (\<forall>r \<in> set (pt_UserPlaylists t). \<not> (up_UserId r = u \<and> up_PlaylistId r = p))"
  by (simp add: find_user_playlist_def find_None)

lemma untouched_permission:
  assumes "untouched p c U L (t, S, F)" "u \<in> U"
  shows "\<not> can_change (us_GetPermissionsOnPlaylist u p t)"
proof (cases "find_user_playlist u p t")
  case (Some r)
  then have "r \<in> set (pt_UserPlaylists t)" "up_UserId r = u" "up_PlaylistId r = p"
    by (auto simp: find_user_playlist_def dest: find_Some_mem)
  then show ?thesis using assms Some by (auto simp: untouched_def us_GetPermissionsOnPlaylist_def)
qed (simp add: us_GetPermissionsOnPlaylist_def no_permissions_def can_change_def)

lemma filter_editors:
  assumes "\<And>r. r \<in> set rs \<Longrightarrow> up_PlaylistId r = p \<Longrightarrow> can_change (up_Permissions r) \<Longrightarrow> up_UserId r \<noteq> u" "\<not> can_change perms"
  shows "List.filter (\<lambda>r. up_PlaylistId r = p \<and> can_change (up_Permissions r))
      (List.map (\<lambda>r. if up_UserId r = u \<and> up_PlaylistId r = q then r\<lparr>up_Permissions := perms\<rparr> else r) rs) =
    List.filter (\<lambda>r. up_PlaylistId r = p \<and> can_change (up_Permissions r)) rs"
    "List.filter (\<lambda>r. up_PlaylistId r = p \<and> can_change (up_Permissions r))
      (List.filter (\<lambda>r. \<not> (up_UserId r = u \<and> up_PlaylistId r = q)) rs) =
    List.filter (\<lambda>r. up_PlaylistId r = p \<and> can_change (up_Permissions r)) rs"
  using assms by (induction rs) auto

lemma untouched_follow:
  assumes J: "untouched p c U L (t, S, F)" and u: "u \<in> U" and q: "find_playlist q t = Some x" "pl_IsPublic x"
  shows "untouched p c U L (snd (us_FollowPlaylist k u q t), S, F)"
proof -
  define perms where "perms = no_permissions\<lparr>pp_IsSaved := True\<rparr>"
  have perms: "\<not> can_change perms" by (simp add: perms_def no_permissions_def can_change_def)
  have other: "r \<in> set (pt_UserPlaylists t) \<Longrightarrow> up_PlaylistId r = p \<Longrightarrow> can_change (up_Permissions r) \<Longrightarrow> up_UserId r \<noteq> u" for r
    using J u by (auto simp: untouched_def)
  have priv: "q = p \<longrightarrow> L = {}" using J q by (auto simp: untouched_def)
  note eq = filter_editors(1)[of "pt_UserPlaylists t" p u perms q, OF other perms]
  show ?thesis
  proof (cases "find_user_playlist u q t = None")
    case True
    then show ?thesis
      using J perms priv
      by (auto simp: us_FollowPlaylist_def Let_def untouched_def content_of_def songs_of_def find_playlist_def find_user_playlist_None
          perms_def)
  next
    case False
    let ?t = "t\<lparr>pt_UserPlaylists := List.map (\<lambda>r. if up_UserId r = u \<and> up_PlaylistId r = q then r\<lparr>up_Permissions := perms\<rparr> else r)
      (pt_UserPlaylists t)\<rparr>"
    have "snd (us_FollowPlaylist k u q t) = ?t" using False by (simp add: us_FollowPlaylist_def Let_def perms_def)
    moreover have "content_of p ?t = content_of p t" using eq by (simp add: content_of_def songs_of_def)
    ultimately show ?thesis
      using J perms priv by (auto simp: untouched_def find_playlist_def find_user_playlist_None)
  qed
qed

lemma untouched_unfollow:
  assumes J: "untouched p c U L (t, S, F)" and u: "u \<in> U"
  shows "untouched p c U L (us_UnfollowPlaylist u q t, S, F)"
proof -
  have other: "r \<in> set (pt_UserPlaylists t) \<Longrightarrow> up_PlaylistId r = p \<Longrightarrow> can_change (up_Permissions r) \<Longrightarrow> up_UserId r \<noteq> u" for r
    using J u by (auto simp: untouched_def)
  have "content_of p (us_UnfollowPlaylist u q t) = content_of p t"
    unfolding content_of_def songs_of_def us_UnfollowPlaylist_def
    using filter_editors(2)[of "pt_UserPlaylists t" p u no_permissions q, OF other] by (simp add: no_permissions_def can_change_def)
  then show ?thesis
    using J by (auto simp: untouched_def find_playlist_def find_user_playlist_None us_UnfollowPlaylist_def)
qed

interpretation untouched: playlist_invariant "untouched p c U L" "\<lambda>q. q \<noteq> p" "\<lambda>u. u \<in> U"
  for p c U L
  by unfold_locales
    (use untouched_create untouched_permission in \<open>auto intro: untouched_write untouched_tag untouched_follow untouched_unfollow\<close>)

section \<open>A concrete playlist\<close>

text \<open>User 1 owns the private playlist 7, which holds song 3.\<close>

definition ex_private :: PlaylistRow where
  "ex_private = \<lparr>pl_Uuid = 7, pl_Name = ''Mine'', pl_Description = [], pl_IsPublic = False, pl_OwnerId = 1,
     pl_CoverFileId = None, pl_SongCount = 1, pl_Year = None, pl_Kind = PlaylistKindPLAYLIST\<rparr>"

definition ex_playlist_tables :: playlist_tables where
  "ex_playlist_tables = empty_playlists\<lparr>pt_Playlists := [global_queue, ex_private],
     pt_UserPlaylists := [\<lparr>up_UserId = 1, up_PlaylistId = 7, up_OrderId = 1, up_Permissions = all_permissions\<rparr>],
     pt_Songs := [\<lparr>ps_PlaylistUuid = 7, ps_SongId = 3, ps_OrderNumber = 1\<rparr>]\<rparr>"

definition ex_playlist_state :: "(database, (string \<times> string) list storemem) st" where
  "ex_playlist_state = ex_store_state\<lparr>dbase := (dbase ex_store_state)\<lparr>db_playlists := ex_playlist_tables\<rparr>\<rparr>"

definition ex_user :: "int \<Rightarrow> UserContext" where
  "ex_user i = \<lparr>uc_UserId = i, uc_Permissions = zero_permissions\<rparr>"

definition ex_sql :: sql_env where
  "ex_sql = \<lparr>sql_uuid = (\<lambda>_. Some 7), shuffle = (\<lambda>h rs. Some rs)\<rparr>"

lemma ex_playlist_found:
  "find_playlist 7 (db_playlists (dbase ex_playlist_state)) = Some ex_private" "faults ex_playlist_state = []"
  "db_playlists (dbase ex_playlist_state) = ex_playlist_tables"
  by (simp_all add: ex_playlist_state_def ex_playlist_tables_def ex_store_state_def find_playlist_def global_queue_def
      GlobalPlaylistUuid_def ex_private_def)

lemma ex_playlist_text: "se_uuid_Parse ex_store_env ''u1111111'' = Some 7"
  by (simp add: ex_store_env_def)

section \<open>Who changes a playlist\<close>

text \<open>C34: A playlist is changed only by those who hold a permission on it.  Whatever sequence of calls users without an
  editing permission on a playlist make - creating playlists, updating, filling and reordering others, following and unfollowing this one
  and any other, with whatever failures on the way - its row, songs, order, artists, tags and the permissions on it stay
  as they are, and none of these users ends up with an editing permission on it.\<close>
theorem playlist_calls_isolated:
  assumes "uuid_laws env" and there: "find_playlist p (db_playlists (dbase s)) = Some row"
    and users: "called_by (\<lambda>u. u \<in> U) calls"
      "\<forall>r \<in> set (pt_UserPlaylists (db_playlists (dbase s))).
         up_PlaylistId r = p \<and> can_change (up_Permissions r) \<longrightarrow> up_UserId r \<notin> U"
  shows "content_of p (db_playlists (dbase (playlist_runs env calls s))) = content_of p (db_playlists (dbase s)) \<and>
    (\<forall>u \<in> U. \<not> can_change (us_GetPermissionsOnPlaylist u p (db_playlists (dbase (playlist_runs env calls s)))))"
proof -
  let ?J = "untouched p (content_of p (db_playlists (dbase s))) U {}"
  have "onc ?J s" using there users(2) by (simp add: onc_iff untouched_def catalogue_def)
  then have "onc ?J (playlist_runs env calls s)"
    by (rule untouched.keeps_runs[OF assms(1) users(1)])
  then obtain S F where J: "?J (db_playlists (dbase (playlist_runs env calls s)), S, F)"
    by (auto simp: onc_iff catalogue_def)
  then show ?thesis using untouched_permission[OF J] by (simp add: untouched_def)
qed

theorem playlist_calls_isolated_witness:
  "content_of 7 (db_playlists (dbase (playlist_runs ex_store_env
     [(Some (ex_user 2), DeleteSongCall ''u1111111'' 3), (Some (ex_user 2), FollowCall ''u1111111''),
      (Some (ex_user 2), OrderCall ''u1111111'' [3]), (None, UnfollowCall ''u1111111'')] ex_playlist_state))) =
   ([ex_private], [\<lparr>ps_PlaylistUuid = 7, ps_SongId = 3, ps_OrderNumber = 1\<rparr>], [], [],
    [\<lparr>up_UserId = 1, up_PlaylistId = 7, up_OrderId = 1, up_Permissions = all_permissions\<rparr>])"
proof -
  have "content_of 7 (db_playlists (dbase ex_playlist_state)) =
      ([ex_private], [\<lparr>ps_PlaylistUuid = 7, ps_SongId = 3, ps_OrderNumber = 1\<rparr>], [], [],
       [\<lparr>up_UserId = 1, up_PlaylistId = 7, up_OrderId = 1, up_Permissions = all_permissions\<rparr>])"
    by (simp add: ex_playlist_found content_of_def songs_of_def ex_playlist_tables_def empty_playlists_def global_queue_def
        GlobalPlaylistUuid_def ex_private_def all_permissions_def can_change_def)
  then show ?thesis
    by (subst playlist_calls_isolated[OF ex_store_inv(4) ex_playlist_found(1), where U = "{2}", THEN conjunct1])
      (simp_all add: called_by_def ex_user_def ex_playlist_found ex_playlist_tables_def)
qed

text \<open>A private playlist, to a user without a row for it.\<close>

lemma hidden_Get:
  assumes hidden: "find_playlist p (db_playlists (dbase s)) = Some row" "\<not> pl_IsPublic row"
      "find_user_playlist (uc_UserId uc) p (db_playlists (dbase s)) = None"
    and named: "se_uuid_Parse env playlistUuid = Some p"
  shows "fst (PlaylistService_Get env (Some uc) playlistUuid s) \<in> {Err ErrNotFound, Err ErrStorageFailure}"
proof -
  have "pl_Uuid row = p" using hidden(1) by (auto simp: find_playlist_def dest: find_Some_mem)
  then have "pl_Get (uc_UserId uc) p (db_playlists (dbase s)) = Err ErrNotFound"
    using hidden by (simp add: pl_Get_def can_see_def)
  then show ?thesis
    by (simp add: PlaylistService_Get_def authenticated_def PL_Get_def parsed_def named bindM_def dbcall_def Let_def)
qed

text \<open>A random order is an order of the rows it is given.\<close>

definition shuffle_laws :: "sql_env \<Rightarrow> bool" where
  "shuffle_laws sq \<longleftrightarrow> (\<forall>h rs xs. shuffle sq h rs = Some xs \<longrightarrow> set xs = set rs \<and> length xs = length rs)"

lemma order_rows_Nil:
  assumes "shuffle_laws sq" "order_rows sq req [] = Some xs"
  shows "xs = []"
proof -
  have "ys = []" if "shuffle sq h [] = Some ys" for h ys
    using assms(1) that unfolding shuffle_laws_def by fastforce
  then show ?thesis using assms(2) by (auto simp: order_rows_def split: option.splits if_splits)
qed

lemma hidden_ListSongs:
  assumes hidden: "\<forall>r \<in> set (pt_Playlists (db_playlists (dbase s))). pl_Uuid r = p \<longrightarrow> \<not> pl_IsPublic r"
      "find_user_playlist (uc_UserId uc) p (db_playlists (dbase s)) = None"
    and named: "sql_uuid sq (ls_PlaylistUuid req) = Some p" "ls_PlaylistUuid req \<noteq> []" "ls_PlaylistUuid req \<noteq> GlobalPlaylistUuidText"
    and run: "PlaylistService_ListSongs sq (Some uc) req s = (Ok (songs, n), s')"
    and laws: "shuffle_laws sq"
  shows "songs = [] \<and> n = 0"
proof -
  have unseen: "viewed_rows req' p (dbase s) = []"
    if "ls_PlaylistUuid req' = ls_PlaylistUuid req" "ls_UserId req' = uc_UserId uc" for req'
    using that hidden named by (auto simp: viewed_rows_def songs_visible_def can_see_def)
  show ?thesis
    using run named unseen
    by (auto simp: PlaylistService_ListSongs_def authenticated_def Let_def bindM_eq_Ok PL_ListSongs_def PL_CountSongs_def
        dbcall_cases List.map_filter_def split: if_splits option.splits dest!: order_rows_Nil[OF laws])
qed

text \<open>C38: Giving up one's own private playlist is final.  When the owner of a private playlist unfollows it, the playlist stays, but after
  any sequence of calls of his own and of others without a row for it, every one of them is still told that there is no
  such playlist, is shown none of its songs, and has changed nothing of it: \<open>Follow\<close> is refused to the owner as his own playlist and to the
  others as private, and every change needs the row that is gone.\<close>
theorem unfollowed_private_playlist_lost:
  assumes laws: "uuid_laws env" "shuffle_laws sq" and named: "se_uuid_Parse env playlistUuid = Some p"
    and row: "find_playlist p (db_playlists (dbase s)) = Some row" "pl_OwnerId row = uc_UserId owner"
    and hidden_row: "\<forall>r \<in> set (pt_Playlists (db_playlists (dbase s))). pl_Uuid r = p \<longrightarrow> \<not> pl_IsPublic r"
    and unfollow: "Unfollow env (Some owner) playlistUuid s = (Ok (), s1)"
    and users: "called_by (\<lambda>u. u \<in> U) calls"
      "\<forall>u \<in> U. u \<noteq> uc_UserId owner \<longrightarrow> find_user_playlist u p (db_playlists (dbase s)) = None"
    and uc: "uc_UserId uc \<in> U"
  shows "fst (PlaylistService_Get env (Some uc) playlistUuid (playlist_runs env calls s1)) \<in> {Err ErrNotFound, Err ErrStorageFailure} \<and>
    (\<forall>req songs n s2. PlaylistService_ListSongs sq (Some uc) req (playlist_runs env calls s1) = (Ok (songs, n), s2) \<longrightarrow>
      sql_uuid sq (ls_PlaylistUuid req) = Some p \<longrightarrow> ls_PlaylistUuid req \<notin> {[], GlobalPlaylistUuidText} \<longrightarrow> songs = [] \<and> n = 0) \<and>
    content_of p (db_playlists (dbase (playlist_runs env calls s1))) = content_of p (db_playlists (dbase s1)) \<and>
    List.filter (\<lambda>r. pl_Uuid r = p) (pt_Playlists (db_playlists (dbase s1))) =
      List.filter (\<lambda>r. pl_Uuid r = p) (pt_Playlists (db_playlists (dbase s)))"
proof -
  let ?t = "db_playlists (dbase s)" and ?t1 = "db_playlists (dbase s1)" and ?fin = "playlist_runs env calls s1"
  have t1: "?t1 = us_UnfollowPlaylist (uc_UserId owner) p ?t"
    using unfollow named by (auto simp: Unfollow_def authenticated_def USER_UnfollowPlaylist_def parsed_def on_playlists_def dbcall_cases)
  then have same: "pt_Playlists ?t1 = pt_Playlists ?t" by (simp add: us_UnfollowPlaylist_def)
  let ?J = "untouched p (content_of p ?t1) U U"
  have none: "\<forall>u \<in> U. find_user_playlist u p ?t1 = None"
    using users(2) t1 by (auto simp: find_user_playlist_None us_UnfollowPlaylist_def)
  have "row \<in> set (pt_Playlists ?t)" "pl_Uuid row = p" using row(1) by (auto simp: find_playlist_def dest: find_Some_mem)
  then have "onc ?J s1"
    using row(1) hidden_row none same
    by (auto simp: onc_iff untouched_def catalogue_def find_playlist_def find_user_playlist_None)
  then have "onc ?J ?fin" by (rule untouched.keeps_runs[OF laws(1) users(1)])
  then obtain S F where J: "?J (db_playlists (dbase ?fin), S, F)" by (auto simp: onc_iff catalogue_def)
  then have content: "content_of p (db_playlists (dbase ?fin)) = content_of p ?t1" by (simp add: untouched_def)
  have "List.filter (\<lambda>r. pl_Uuid r = p) (pt_Playlists (db_playlists (dbase ?fin))) =
      List.filter (\<lambda>r. pl_Uuid r = p) (pt_Playlists ?t)"
    using content same by (simp add: content_of_def)
  then have hidden: "\<forall>r \<in> set (pt_Playlists (db_playlists (dbase ?fin))). pl_Uuid r = p \<longrightarrow> \<not> pl_IsPublic r"
    using hidden_row by (metis (mono_tags, lifting) mem_Collect_eq set_filter)
  have gone: "find_user_playlist (uc_UserId uc) p (db_playlists (dbase ?fin)) = None" using J uc by (simp add: untouched_def)
  have "fst (PlaylistService_Get env (Some uc) playlistUuid ?fin) \<in> {Err ErrNotFound, Err ErrStorageFailure}"
    using J uc hidden_Get[OF _ _ gone named] by (auto simp: untouched_def)
  moreover have "songs = [] \<and> n = 0" if "PlaylistService_ListSongs sq (Some uc) req ?fin = (Ok (songs, n), s2)"
    "sql_uuid sq (ls_PlaylistUuid req) = Some p" "ls_PlaylistUuid req \<notin> {[], GlobalPlaylistUuidText}" for req songs n s2
    using hidden_ListSongs[OF hidden gone that(2) _ _ that(1) laws(2)] that(3) by simp
  ultimately show ?thesis using content same by (intro conjI allI impI) simp_all
qed

theorem unfollowed_private_playlist_lost_witness:
  "\<exists>s1. Unfollow ex_store_env (Some (ex_user 1)) ''u1111111'' ex_playlist_state = (Ok (), s1) \<and>
     fst (PlaylistService_Get ex_store_env (Some (ex_user 1)) ''u1111111''
       (playlist_runs ex_store_env [(Some (ex_user 1), FollowCall ''u1111111''),
         (Some (ex_user 2), DeleteSongCall ''u1111111'' 3)] s1)) \<in> {Err ErrNotFound, Err ErrStorageFailure} \<and>
     List.filter (\<lambda>r. pl_Uuid r = 7) (pt_Playlists (db_playlists (dbase s1))) = [ex_private]"
proof -
  have "\<exists>s1. Unfollow ex_store_env (Some (ex_user 1)) ''u1111111'' ex_playlist_state = (Ok (), s1)"
    by (simp add: Unfollow_def authenticated_def USER_UnfollowPlaylist_def parsed_def ex_playlist_text on_playlists_def
        dbcall_no_fault ex_playlist_found)
  then obtain s1 where s1: "Unfollow ex_store_env (Some (ex_user 1)) ''u1111111'' ex_playlist_state = (Ok (), s1)" by blast
  have laws: "shuffle_laws ex_sql" by (simp add: shuffle_laws_def ex_sql_def)
  have rows: "List.filter (\<lambda>r. pl_Uuid r = 7) (pt_Playlists ex_playlist_tables) = [ex_private]"
    by (simp add: ex_playlist_tables_def global_queue_def GlobalPlaylistUuid_def ex_private_def)
  show ?thesis
    using unfollowed_private_playlist_lost[OF ex_store_inv(4) laws ex_playlist_text ex_playlist_found(1) _ _ s1,
        where U = "{1, 2}" and uc = "ex_user 1" and calls = "[(Some (ex_user 1), FollowCall ''u1111111''),
         (Some (ex_user 2), DeleteSongCall ''u1111111'' 3)]"] s1 rows
    by (auto simp: called_by_def ex_user_def ex_playlist_found ex_playlist_tables_def ex_private_def global_queue_def
        GlobalPlaylistUuid_def find_user_playlist_def)
qed

end
