(* ===== verification/PlaylistTypes.thy ===== *)
theory PlaylistTypes
  imports PlaylistInvariants
begin

text \<open>
  The well-formedness of the playlist tables: unique keys, references that lead somewhere, and counts that never exceed the songs there are.
  The laws of \<open>playlist_invariant\<close> hold for it whoever calls and whatever he may write.
\<close>

section \<open>Well-formed tables\<close>

definition known :: "uuid \<Rightarrow> playlist_tables \<Rightarrow> bool" where
  "known p t \<longleftrightarrow> p \<in> pl_Uuid ` set (pt_Playlists t)"

definition playlist_keys :: "playlist_tables \<Rightarrow> bool" where
  "playlist_keys t \<longleftrightarrow> distinct (List.map pl_Uuid (pt_Playlists t)) \<and>
     distinct (List.map (\<lambda>r. (up_UserId r, up_PlaylistId r)) (pt_UserPlaylists t)) \<and>
     distinct (List.map (\<lambda>r. (ps_PlaylistUuid r, ps_SongId r)) (pt_Songs t)) \<and>
     distinct (List.map (\<lambda>r. (pa_PlaylistUuid r, pa_ArtistUuid r)) (pt_PlaylistArtists t)) \<and>
     distinct (List.map (\<lambda>r. (pa_PlaylistUuid r, pa_OrderId r)) (pt_PlaylistArtists t)) \<and>
     distinct (List.map (\<lambda>r. (at_PlaylistUuid r, at_Kind r, at_Value r)) (pt_Tags t))"

definition playlist_refs :: "catalogue \<Rightarrow> bool" where
  "playlist_refs = (\<lambda>(t, S, F).
     (\<forall>r \<in> set (pt_UserPlaylists t). known (up_PlaylistId r) t) \<and>
     (\<forall>r \<in> set (pt_Songs t). known (ps_PlaylistUuid r) t \<and> ps_SongId r \<in> S) \<and>
     (\<forall>r \<in> set (pt_PlaylistArtists t). known (pa_PlaylistUuid r) t \<and> artist_of (pa_ArtistUuid r) t \<noteq> None) \<and>
     (\<forall>r \<in> set (pt_Tags t). known (at_PlaylistUuid r) t \<and> (\<forall>q. at_ParentPlaylistUuid r = Some q \<longrightarrow> known q t)) \<and>
     (\<forall>r \<in> set (pt_Playlists t). \<forall>f. pl_CoverFileId r = Some f \<longrightarrow> f \<in> F))"

definition playlist_counts :: "playlist_tables \<Rightarrow> bool" where
  "playlist_counts t \<longleftrightarrow>
     (\<forall>r \<in> set (pt_Playlists t). 0 \<le> pl_SongCount r \<and> pl_SongCount r \<le> int (length (songs_of (pl_Uuid r) t)))"

definition playlists_wf :: "catalogue \<Rightarrow> bool" where
  "playlists_wf = (\<lambda>(t, S, F). playlist_keys t \<and> playlist_refs (t, S, F) \<and> playlist_counts t)"

lemmas key_of_update =
  if_distrib[of pl_Uuid] if_distrib[of pl_SongCount] if_distrib[of pl_CoverFileId] if_distrib[of ps_PlaylistUuid]
  if_distrib[of ps_SongId] if_distrib[of up_UserId] if_distrib[of up_PlaylistId] if_distrib[of pa_PlaylistUuid]
  if_distrib[of pa_ArtistUuid]

lemma known_set [simp]: "(\<And>r. pl_Uuid (f r) = pl_Uuid r) \<Longrightarrow> known p (set_playlist q f t) = known p t"
proof -
  assume "\<And>r. pl_Uuid (f r) = pl_Uuid r"
  then have "List.map pl_Uuid (pt_Playlists (set_playlist q f t)) = List.map pl_Uuid (pt_Playlists t)"
    by (simp add: set_playlist_def)
  then show ?thesis unfolding known_def by (metis list.set_map)
qed

lemma known_fields [simp]:
  "known p (t\<lparr>pt_Songs := x\<rparr>) = known p t" "known p (t\<lparr>pt_UserPlaylists := u\<rparr>) = known p t"
  "known p (t\<lparr>pt_PlaylistArtists := y\<rparr>) = known p t" "known p (t\<lparr>pt_Tags := z\<rparr>) = known p t"
  by (simp_all add: known_def)

lemma known_find: "find_playlist p t = None \<longleftrightarrow> \<not> known p t"
  by (auto simp: find_playlist_def find_None known_def)

lemma find_known: "find_playlist p t = Some r \<Longrightarrow> known p t"
  using known_find[of p t] by simp

lemma set_playlist_fields [simp]:
  "pt_Songs (set_playlist q f t) = pt_Songs t" "pt_UserPlaylists (set_playlist q f t) = pt_UserPlaylists t"
  "pt_PlaylistArtists (set_playlist q f t) = pt_PlaylistArtists t" "pt_Tags (set_playlist q f t) = pt_Tags t"
  "pt_Artists (set_playlist q f t) = pt_Artists t"
  "pt_Playlists (set_playlist q f t) = List.map (\<lambda>r. if pl_Uuid r = q then f r else r) (pt_Playlists t)"
  by (simp_all add: set_playlist_def)

lemma artist_of_fields [simp]:
  "artist_of a (set_playlist q f t) = artist_of a t" "artist_of a (t\<lparr>pt_Songs := x\<rparr>) = artist_of a t"
  "artist_of a (t\<lparr>pt_PlaylistArtists := y\<rparr>) = artist_of a t" "artist_of a (t\<lparr>pt_Tags := z\<rparr>) = artist_of a t"
  "artist_of a (t\<lparr>pt_UserPlaylists := u\<rparr>) = artist_of a t"
  by (simp_all add: artist_of_def)

lemma distinct_by_key:
  "distinct (List.map key rs) \<Longrightarrow> (\<And>x y. x \<in> set rs \<Longrightarrow> y \<in> set rs \<Longrightarrow> g x = g y \<Longrightarrow> key x = key y) \<Longrightarrow> distinct (List.map g rs)"
  by (induction rs) (auto simp: image_iff)

lemma count_removed:
  "distinct (List.map (\<lambda>r. (ps_PlaylistUuid r, ps_SongId r)) rs) \<Longrightarrow>
   int (length (List.filter (\<lambda>r. ps_PlaylistUuid r = p) rs)) - 1 \<le>
   int (length (List.filter (\<lambda>r. \<not> (ps_PlaylistUuid r = q \<and> ps_SongId r = i) \<and> ps_PlaylistUuid r = p) rs))"
proof (induction rs)
  case (Cons x rs)
  have "List.filter (\<lambda>r. \<not> (ps_PlaylistUuid r = q \<and> ps_SongId r = i) \<and> ps_PlaylistUuid r = p) rs =
      List.filter (\<lambda>r. ps_PlaylistUuid r = p) rs" if "ps_PlaylistUuid x = q" "ps_SongId x = i"
    using Cons.prems that by (intro filter_cong) (auto simp: image_iff)
  then show ?case using Cons by auto
qed simp

lemma songs_of_fields [simp]:
  "songs_of p (set_playlist q f t) = songs_of p t" "songs_of p (t\<lparr>pt_UserPlaylists := u\<rparr>) = songs_of p t"
  "songs_of p (t\<lparr>pt_PlaylistArtists := y\<rparr>) = songs_of p t" "songs_of p (t\<lparr>pt_Tags := z\<rparr>) = songs_of p t"
  by (simp_all add: songs_of_def)

lemma playlists_wf_set_playlist:
  assumes "playlists_wf (t, S, F)" "\<And>r. pl_Uuid (f r) = pl_Uuid r" "\<And>r. pl_SongCount (f r) = pl_SongCount r"
    and "\<And>r g. pl_CoverFileId (f r) = Some g \<Longrightarrow> pl_CoverFileId r = Some g \<or> g \<in> F"
  shows "playlists_wf (set_playlist q f t, S, F)"
proof -
  have "List.map pl_Uuid (pt_Playlists (set_playlist q f t)) = List.map pl_Uuid (pt_Playlists t)" by (simp add: assms(2))
  then have "playlist_keys (set_playlist q f t)" using assms(1) by (simp add: playlists_wf_def playlist_keys_def del: map_map)
  moreover have "playlist_refs (set_playlist q f t, S, F)"
    using assms by (auto simp: playlists_wf_def playlist_refs_def dest!: assms(4))
  moreover have "playlist_counts (set_playlist q f t)"
    using assms(1) by (auto simp: playlists_wf_def playlist_counts_def assms(2,3))
  ultimately show ?thesis by (simp add: playlists_wf_def)
qed

lemma distinct_kept:
  assumes "distinct (List.map key rs)" "\<And>r. key (f r) = key r"
  shows "distinct (List.map key (List.map f rs))"
  using assms by (simp add: comp_def)

lemma playlists_wf_update: "playlists_wf (t, S, F) \<Longrightarrow> playlists_wf (pl_Update q req t, S, F)"
  unfolding pl_Update_def by (erule playlists_wf_set_playlist) simp_all

lemma set_playlist_absent: "find_playlist q t = None \<Longrightarrow> set_playlist q f t = t"
  by (auto simp: find_playlist_def find_None set_playlist_def intro!: playlist_tables.equality map_idI)

lemma playlists_wf_cover: "playlists_wf (t, S, F) \<Longrightarrow> playlists_wf (snd (pl_UpdateCoverFileId (i \<in> F) q i t), S, F)"
  by (cases "i \<in> F"; cases "find_playlist q t")
    (auto simp: pl_UpdateCoverFileId_def set_playlist_absent intro: playlists_wf_set_playlist)

text \<open>The count of one playlist moves with its songs.\<close>

lemma playlists_wf_songs:
  fixes t :: playlist_tables
  assumes wf: "playlists_wf (t, S, F)"
    and keys: "distinct (List.map (\<lambda>r. (ps_PlaylistUuid r, ps_SongId r)) songs)"
    and refs: "\<And>r. r \<in> set songs \<Longrightarrow> known (ps_PlaylistUuid r) t \<and> ps_SongId r \<in> S"
    and others: "\<And>p. p \<noteq> q \<Longrightarrow> List.filter (\<lambda>r. ps_PlaylistUuid r = p) songs = songs_of p t"
    and count: "\<And>c. 0 \<le> c \<Longrightarrow> c \<le> int (length (songs_of q t)) \<Longrightarrow>
      0 \<le> g c \<and> g c \<le> int (length (List.filter (\<lambda>r. ps_PlaylistUuid r = q) songs))"
  shows "playlists_wf (set_playlist q (\<lambda>r. r\<lparr>pl_SongCount := g (pl_SongCount r)\<rparr>) (t\<lparr>pt_Songs := songs\<rparr>), S, F)"
proof -
  let ?t = "set_playlist q (\<lambda>r. r\<lparr>pl_SongCount := g (pl_SongCount r)\<rparr>) (t\<lparr>pt_Songs := songs\<rparr>)"
  have "playlist_keys ?t" using wf keys by (simp add: playlists_wf_def playlist_keys_def key_of_update comp_def cong: if_cong)
  moreover have "playlist_refs (?t, S, F)" using wf refs by (auto simp: playlists_wf_def playlist_refs_def)
  moreover have "playlist_counts ?t"
    unfolding playlist_counts_def
  proof
    fix r assume "r \<in> set (pt_Playlists ?t)"
    then obtain x where x: "x \<in> set (pt_Playlists t)"
        "r = (if pl_Uuid x = q then x\<lparr>pl_SongCount := g (pl_SongCount x)\<rparr> else x)" by auto
    then have "0 \<le> pl_SongCount x \<and> pl_SongCount x \<le> int (length (songs_of (pl_Uuid x) t))"
      using wf by (auto simp: playlists_wf_def playlist_counts_def)
    then show "0 \<le> pl_SongCount r \<and> pl_SongCount r \<le> int (length (songs_of (pl_Uuid r) ?t))"
      using x(2) count[of "pl_SongCount x"] others[of "pl_Uuid x"] by (cases "pl_Uuid x = q") (simp_all add: songs_of_def)
  qed
  ultimately show ?thesis by (simp add: playlists_wf_def)
qed

lemma playlists_wf_add_song:
  assumes wf: "playlists_wf (t, S, F)"
  shows "playlists_wf (snd (pl_AddSong (i \<in> S) q i t), S, F)"
proof (cases "is_ok (fst (pl_AddSong (i \<in> S) q i t))")
  case True
  let ?row = "\<lparr>ps_PlaylistUuid = q, ps_SongId = i, ps_OrderNumber = next_order (List.map ps_OrderNumber (songs_of q t))\<rparr>"
  have new: "(q, i) \<notin> (\<lambda>r. (ps_PlaylistUuid r, ps_SongId r)) ` set (pt_Songs t)" and "i \<in> S" "known q t"
    and added: "snd (pl_AddSong (i \<in> S) q i t) =
      set_playlist q (\<lambda>r. r\<lparr>pl_SongCount := pl_SongCount r + 1\<rparr>) (t\<lparr>pt_Songs := pt_Songs t @ [?row]\<rparr>)"
    using True by (auto simp: pl_AddSong_def dest: find_known split: if_splits)
  show ?thesis
    unfolding added
  proof (rule playlists_wf_songs[where g = "\<lambda>c. c + 1", OF wf])
    show "distinct (List.map (\<lambda>r. (ps_PlaylistUuid r, ps_SongId r)) (pt_Songs t @ [?row]))"
      using wf new by (simp add: playlists_wf_def playlist_keys_def)
    show "known (ps_PlaylistUuid r) t \<and> ps_SongId r \<in> S" if "r \<in> set (pt_Songs t @ [?row])" for r
      using that wf \<open>i \<in> S\<close> \<open>known q t\<close> by (auto simp: playlists_wf_def playlist_refs_def)
  qed (simp_all add: songs_of_def)
qed (use wf in \<open>auto simp: pl_AddSong_def split: if_splits\<close>)

lemma playlists_wf_remove_song:
  assumes wf: "playlists_wf (t, S, F)"
  shows "playlists_wf (pl_RemoveSong q i t, S, F)"
  unfolding pl_RemoveSong_def
proof (rule playlists_wf_songs[where g = "\<lambda>c. max (c - 1) 0", OF wf])
  have keys: "distinct (List.map (\<lambda>r. (ps_PlaylistUuid r, ps_SongId r)) (pt_Songs t))"
    using wf by (simp add: playlists_wf_def playlist_keys_def)
  then show "distinct (List.map (\<lambda>r. (ps_PlaylistUuid r, ps_SongId r))
      (List.filter (\<lambda>r. \<not> (ps_PlaylistUuid r = q \<and> ps_SongId r = i)) (pt_Songs t)))"
    by (rule distinct_map_filter)
  show "0 \<le> max (c - 1) 0 \<and> max (c - 1) 0 \<le> int (length (List.filter (\<lambda>r. ps_PlaylistUuid r = q)
      (List.filter (\<lambda>r. \<not> (ps_PlaylistUuid r = q \<and> ps_SongId r = i)) (pt_Songs t))))"
    if "0 \<le> c" "c \<le> int (length (songs_of q t))" for c
    using that count_removed[OF keys, of q q i] by (simp add: songs_of_def conj_commute)
qed (use wf in \<open>auto simp: playlists_wf_def playlist_refs_def songs_of_def intro!: filter_cong\<close>)

lemma playlists_wf_set_order:
  assumes wf: "playlists_wf (t, S, F)"
  shows "playlists_wf (pl_SetSongOrder q i n t, S, F)"
proof -
  have "length (songs_of p (pl_SetSongOrder q i n t)) = length (songs_of p t)" for p
    by (auto simp: songs_of_def pl_SetSongOrder_def filter_map comp_def if_distrib[of ps_PlaylistUuid] cong: if_cong
        intro!: arg_cong[where f = length] filter_cong)
  moreover have "distinct (List.map (\<lambda>r. (ps_PlaylistUuid r, ps_SongId r)) (pt_Songs (pl_SetSongOrder q i n t)))"
    using wf by (auto simp: playlists_wf_def playlist_keys_def pl_SetSongOrder_def simp del: map_map intro!: distinct_kept)
  ultimately show ?thesis
    using wf by (auto simp: playlists_wf_def playlist_keys_def playlist_refs_def playlist_counts_def pl_SetSongOrder_def)
qed

lemma playlists_wf_artists:
  assumes wf: "playlists_wf (t, S, F)"
    and "distinct (List.map (\<lambda>r. (pa_PlaylistUuid r, pa_ArtistUuid r)) artists)"
    and "distinct (List.map (\<lambda>r. (pa_PlaylistUuid r, pa_OrderId r)) artists)"
    and "\<And>r. r \<in> set artists \<Longrightarrow> known (pa_PlaylistUuid r) t \<and> artist_of (pa_ArtistUuid r) t \<noteq> None"
  shows "playlists_wf (t\<lparr>pt_PlaylistArtists := artists\<rparr>, S, F)"
  using assms by (auto simp: playlists_wf_def playlist_keys_def playlist_refs_def playlist_counts_def)

lemma playlists_wf_clear_artists: "playlists_wf (t, S, F) \<Longrightarrow> playlists_wf (pl_ClearPlaylistArtists q t, S, F)"
  unfolding pl_ClearPlaylistArtists_def
  by (rule playlists_wf_artists, assumption) (auto simp: playlists_wf_def playlist_keys_def playlist_refs_def intro: distinct_map_filter)

lemma playlists_wf_add_artist:
  assumes wf: "playlists_wf (t, S, F)"
  shows "playlists_wf (snd (pl_AddPlaylistArtist q a n t), S, F)"
proof -
  let ?rs = "pt_PlaylistArtists t" and ?f = "\<lambda>r. if pa_PlaylistUuid r = q \<and> pa_ArtistUuid r = a then r\<lparr>pa_OrderId := n\<rparr> else r"
  let ?row = "\<lparr>pa_PlaylistUuid = q, pa_ArtistUuid = a, pa_OrderId = n\<rparr>"
  have keys: "distinct (List.map (\<lambda>r. (pa_PlaylistUuid r, pa_ArtistUuid r)) ?rs)"
      "distinct (List.map (\<lambda>r. (pa_PlaylistUuid r, pa_OrderId r)) ?rs)"
    using wf by (simp_all add: playlists_wf_def playlist_keys_def)
  have refs: "r \<in> set ?rs \<Longrightarrow> known (pa_PlaylistUuid r) t \<and> artist_of (pa_ArtistUuid r) t \<noteq> None" for r
    using wf by (auto simp: playlists_wf_def playlist_refs_def)
  show ?thesis
  proof (cases "\<exists>r \<in> set ?rs. pa_PlaylistUuid r = q \<and> pa_ArtistUuid r \<noteq> a \<and> pa_OrderId r = n")
    case True
    then have "snd (pl_AddPlaylistArtist q a n t) = t" by (simp add: pl_AddPlaylistArtist_def)
    then show ?thesis using wf by simp
  next
    case new_order: False
    show ?thesis
    proof (cases "\<exists>r \<in> set ?rs. pa_PlaylistUuid r = q \<and> pa_ArtistUuid r = a")
      case True
      have result: "snd (pl_AddPlaylistArtist q a n t) = t\<lparr>pt_PlaylistArtists := List.map ?f ?rs\<rparr>"
        unfolding pl_AddPlaylistArtist_def if_not_P[OF new_order] if_P[OF True] by simp
      show ?thesis
        unfolding result
      proof (rule playlists_wf_artists[OF wf])
        show artists: "distinct (List.map (\<lambda>r. (pa_PlaylistUuid r, pa_ArtistUuid r)) (List.map ?f ?rs))"
          by (rule distinct_kept[OF keys(1)]) simp
        show "distinct (List.map (\<lambda>r. (pa_PlaylistUuid r, pa_OrderId r)) (List.map ?f ?rs))"
        proof (rule distinct_by_key[OF artists])
          fix x y
          assume "x \<in> set (List.map ?f ?rs)" "y \<in> set (List.map ?f ?rs)"
            "(pa_PlaylistUuid x, pa_OrderId x) = (pa_PlaylistUuid y, pa_OrderId y)"
          moreover from keys(2) have "r \<in> set ?rs \<Longrightarrow> r' \<in> set ?rs \<Longrightarrow> pa_PlaylistUuid r = pa_PlaylistUuid r' \<Longrightarrow>
              pa_OrderId r = pa_OrderId r' \<Longrightarrow> r = r'" for r r'
            by (auto simp: distinct_map inj_on_def)
          ultimately show "(pa_PlaylistUuid x, pa_ArtistUuid x) = (pa_PlaylistUuid y, pa_ArtistUuid y)"
            using new_order by (auto split: if_splits)
        qed
        show "known (pa_PlaylistUuid r) t \<and> artist_of (pa_ArtistUuid r) t \<noteq> None" if "r \<in> set (List.map ?f ?rs)" for r
          using that refs by (auto split: if_splits)
      qed
    next
      case new_artist: False
      show ?thesis
      proof (cases "artist_of a t = None \<or> find_playlist q t = None")
        case False
        then have "known q t" by (auto dest: find_known)
        have result: "snd (pl_AddPlaylistArtist q a n t) = t\<lparr>pt_PlaylistArtists := ?rs @ [?row]\<rparr>"
          unfolding pl_AddPlaylistArtist_def if_not_P[OF new_order] if_not_P[OF new_artist] if_not_P[OF False] by simp
        show ?thesis
          unfolding result
          by (rule playlists_wf_artists[OF wf]) (use new_order new_artist False \<open>known q t\<close> keys refs in \<open>auto simp: image_iff\<close>)
      next
        case True
        then have "snd (pl_AddPlaylistArtist q a n t) = t"
          unfolding pl_AddPlaylistArtist_def if_not_P[OF new_order] if_not_P[OF new_artist] by simp
        then show ?thesis using wf by simp
      qed
    qed
  qed
qed

lemma playlists_wf_clear_tags: "playlists_wf (t, S, F) \<Longrightarrow> playlists_wf (pl_ClearAlbumTags q t, S, F)"
  by (auto simp: pl_ClearAlbumTags_def playlists_wf_def playlist_keys_def playlist_refs_def playlist_counts_def
      intro: distinct_map_filter)

lemma playlists_wf_insert_tag: "playlists_wf (t, S, F) \<Longrightarrow> playlists_wf (snd (pl_InsertAlbumTag row t), S, F)"
  by (auto simp: pl_InsertAlbumTag_def playlists_wf_def playlist_keys_def playlist_refs_def playlist_counts_def
      image_iff dest: find_known)

lemma playlists_wf_users:
  assumes wf: "playlists_wf (t, S, F)"
    and "distinct (List.map (\<lambda>r. (up_UserId r, up_PlaylistId r)) users)"
    and "\<And>r. r \<in> set users \<Longrightarrow> known (up_PlaylistId r) t"
  shows "playlists_wf (t\<lparr>pt_UserPlaylists := users\<rparr>, S, F)"
  using assms by (auto simp: playlists_wf_def playlist_keys_def playlist_refs_def playlist_counts_def)

lemma playlists_wf_follow:
  assumes wf: "playlists_wf (t, S, F)"
  shows "playlists_wf (snd (us_FollowPlaylist k u q t), S, F)"
proof -
  have keys: "distinct (List.map (\<lambda>r. (up_UserId r, up_PlaylistId r)) (pt_UserPlaylists t))"
    and refs: "\<And>r. r \<in> set (pt_UserPlaylists t) \<Longrightarrow> known (up_PlaylistId r) t"
    using wf by (auto simp: playlists_wf_def playlist_keys_def playlist_refs_def)
  have changed: "playlists_wf (t\<lparr>pt_UserPlaylists := List.map (\<lambda>r. if up_UserId r = u \<and> up_PlaylistId r = q
      then r\<lparr>up_Permissions := perms\<rparr> else r) (pt_UserPlaylists t)\<rparr>, S, F)" for perms
    by (rule playlists_wf_users[OF wf], rule distinct_kept[OF keys]) (auto dest: refs split: if_splits)
  show ?thesis
  proof (cases "find_user_playlist u q t = None \<and> known q t")
    case True
    then show ?thesis
      using wf keys refs
      by (auto simp: us_FollowPlaylist_def Let_def find_user_playlist_None image_iff intro!: playlists_wf_users)
  next
    case False
    then show ?thesis using wf changed by (auto simp: us_FollowPlaylist_def Let_def known_find[symmetric])
  qed
qed

lemma playlists_wf_unfollow:
  assumes wf: "playlists_wf (t, S, F)"
  shows "playlists_wf (us_UnfollowPlaylist u q t, S, F)"
  unfolding us_UnfollowPlaylist_def
  by (rule playlists_wf_users[OF wf]) (use wf in \<open>auto simp: playlists_wf_def playlist_keys_def playlist_refs_def intro: distinct_map_filter\<close>)

lemma playlists_wf_create:
  assumes wf: "playlists_wf (t, S, F)" and made: "pl_Create k new params u t = (Ok q, t')"
  shows "playlists_wf (t', S, F)"
proof -
  define row where "row = \<lparr>pl_Uuid = new, pl_Name = cp_Name params,
    pl_Description = cp_Description params, pl_IsPublic = cp_IsPublic params, pl_OwnerId = u,
    pl_CoverFileId = None, pl_SongCount = 0, pl_Year = cp_Year params, pl_Kind = the (playlist_kind_of (cp_Kind params))\<rparr>"
  let ?t = "t\<lparr>pt_Playlists := pt_Playlists t @ [row]\<rparr>"
  have fresh: "\<not> known new t"
    and t': "t' = ?t\<lparr>pt_UserPlaylists := pt_UserPlaylists t @ [\<lparr>up_UserId = u, up_PlaylistId = new,
        up_OrderId = user_order u t, up_Permissions = all_permissions\<rparr>]\<rparr>"
    using made by (auto simp: pl_Create_def row_def known_find[symmetric] split: option.splits if_splits)
  have known_more: "known p ?t \<longleftrightarrow> known p t \<or> p = new" "artist_of a ?t = artist_of a t" "songs_of p ?t = songs_of p t" for p a
    by (auto simp: known_def row_def artist_of_def songs_of_def)
  have "playlists_wf (?t, S, F)"
    using wf fresh known_more
    by (auto simp: playlists_wf_def playlist_keys_def playlist_refs_def playlist_counts_def row_def known_def)
  then show ?thesis
    unfolding t'
  proof (rule playlists_wf_users)
    show "distinct (List.map (\<lambda>r. (up_UserId r, up_PlaylistId r)) (pt_UserPlaylists t @ [\<lparr>up_UserId = u, up_PlaylistId = new,
        up_OrderId = user_order u t, up_Permissions = all_permissions\<rparr>]))"
      using wf fresh by (auto simp: playlists_wf_def playlist_keys_def playlist_refs_def)
    show "known (up_PlaylistId r) ?t" if "r \<in> set (pt_UserPlaylists t @ [\<lparr>up_UserId = u, up_PlaylistId = new,
        up_OrderId = user_order u t, up_Permissions = all_permissions\<rparr>])" for r
      using that wf known_more by (auto simp: playlists_wf_def playlist_refs_def)
  qed
qed

interpretation tables: playlist_invariant playlists_wf "\<lambda>_. True" "\<lambda>_. True"
  by unfold_locales
    (auto intro: playlists_wf_create playlists_wf_update playlists_wf_cover playlists_wf_add_song playlists_wf_remove_song playlists_wf_set_order playlists_wf_add_artist playlists_wf_clear_artists
      playlists_wf_insert_tag playlists_wf_clear_tags playlists_wf_follow playlists_wf_unfollow)

section \<open>The tables stay well formed\<close>

lemma playlists_wf_empty: "playlists_wf (empty_playlists, S, F)"
  by (simp add: playlists_wf_def playlist_keys_def playlist_refs_def playlist_counts_def empty_playlists_def global_queue_def)

lemma called_by_any: "called_by (\<lambda>_. True) calls"
  by (auto simp: called_by_def split: option.split)

text \<open>C35: The playlist tables stay well typed.  From well-formed tables (the initial ones are), any sequence of calls of any users -
signed in or not, permitted or not, with whatever failures of the database, of the storages and of the disk on the way - leads to well-formed
tables: no playlist, permission row, song, artist or tag of a playlist stands twice, the artists of a playlist have different ranks, every
row refers to a playlist, song, artist and file that exist, and the song count of a playlist is never negative and never
exceeds the number of songs it holds.\<close>
theorem playlist_calls_keep_types:
  assumes "uuid_laws env" "playlists_wf (catalogue (dbase s))"
  shows "playlists_wf (catalogue (dbase (playlist_runs env calls s)))"
  using tables.keeps_runs[OF assms(1) called_by_any, of s calls] assms(2) by (simp add: onc_iff)

theorem playlist_calls_keep_types_witness:
  "playlists_wf (catalogue (dbase (playlist_runs ex_store_env
     [(Some (ex_user 1), CreateCall 9 \<lparr>cp_Name = ''New'', cp_Description = [], cp_IsPublic = True, cp_Year = None, cp_Kind = [],
        cp_ArtistUuids = [''u11''], cp_CoverFileId = Some 1, cp_Tags = []\<rparr>),
      (Some (ex_user 1), AddSongsCall ''u1111111'' [3, 4]), (None, DeleteSongCall ''u1111111'' 3)] ex_store_state)))"
  by (rule playlist_calls_keep_types[OF ex_store_inv(4)])
    (simp add: ex_store_state_def catalogue_def empty_database_def playlists_wf_empty)

end
