(* ===== verification/PlaylistSongs.thy ===== *)
theory PlaylistSongs
  imports PlaylistTypes
begin

text \<open>
  Filling, emptying and ordering a playlist, when no call to the database fails.

  Facts: adding songs in one batch is adding them one by one, all or nothing; the order that was set is the order in which the songs are
  listed; the limit of a single to one song can be got round.
\<close>

section \<open>What an addition asks for\<close>

definition fits :: "int \<Rightarrow> int \<Rightarrow> uuid \<Rightarrow> playlist_tables \<Rightarrow> bool" where
  "fits n userId p t \<longleftrightarrow>
     (\<exists>r. pl_Get userId p t = Ok r \<and> (pl_Kind r = PlaylistKindSINGLE \<longrightarrow> pl_SongCount r + n \<le> 1))"

definition verified_song :: "int \<Rightarrow> database \<Rightarrow> bool" where
  "verified_song i d \<longleftrightarrow> (\<exists>s meta. tbl_find (\<lambda>s. song_Id s = i) (db_songs d) = Some s \<and>
     fm_Get (song_FileId s) (db_files d) = Ok meta \<and> f_Verified (fm_File meta))"

definition may_add :: "int \<Rightarrow> uuid \<Rightarrow> playlist_tables \<Rightarrow> bool" where
  "may_add userId p t \<longleftrightarrow> pp_CanAddSongs (us_GetPermissionsOnPlaylist userId p t)"

lemma requireVerifiedSong_run:
  assumes "faults s = []"
  shows "\<exists>e. requireVerifiedSong i s = (if verified_song i (dbase s) then Ok () else Err e, s)"
  using assms
  by (auto simp: requireVerifiedSong_def FM_GetBySongId_def verified_song_def bindM_def throwM_def returnM_def
      split: option.splits outcome.splits)

lemma verify_all:
  "faults s = [] \<Longrightarrow> \<exists>e. forM requireVerifiedSong ids s =
     (if \<forall>i \<in> set ids. verified_song i (dbase s) then Ok () else Err e, s)"
proof (induction ids)
  case (Cons i ids)
  obtain e where "requireVerifiedSong i s = (if verified_song i (dbase s) then Ok () else Err e, s)"
    using requireVerifiedSong_run[OF Cons.prems] by blast
  then show ?case using Cons by (auto simp: bindM_def)
qed simp

lemma pl_Get_returns: "pl_Get userId p t \<noteq> Panic"
  by (auto simp: pl_Get_def split: option.splits)

lemma ensure_run:
  assumes "faults s = []" "se_uuid_Parse env text = Some p"
  shows "\<exists>e. ensureSongsFitPlaylistKind env u text n s = (if fits n u p (db_playlists (dbase s)) then Ok () else Err e, s)"
  using assms
  by (cases "pl_Get u p (db_playlists (dbase s))")
    (auto simp: pl_Get_returns ensureSongsFitPlaylistKind_def PL_Get_def PL_GetPlaylistArtists_def parsed_def bindM_def throwM_def returnM_def fits_def
      split: outcome.splits)

lemma permissions_run:
  assumes "faults s = []" "se_uuid_Parse env text = Some p"
  shows "USER_GetPermissionsOnPlaylist env u text s = (Ok (us_GetPermissionsOnPlaylist u p (db_playlists (dbase s))), s)"
  using assms by (simp add: USER_GetPermissionsOnPlaylist_def parsed_def)

definition with_songs :: "(playlist_tables \<Rightarrow> playlist_tables) \<Rightarrow> (database, 'm) st \<Rightarrow> (database, 'm) st" where
  "with_songs f s = s\<lparr>dbase := (dbase s)\<lparr>db_playlists := f (db_playlists (dbase s))\<rparr>\<rparr>"

lemma with_songs_simps [simp]:
  "faults (with_songs f s) = faults s" "mem (with_songs f s) = mem s" "db_playlists (dbase (with_songs f s)) = f (db_playlists (dbase s))"
  "db_songs (dbase (with_songs f s)) = db_songs (dbase s)" "db_files (dbase (with_songs f s)) = db_files (dbase s)"
  by (simp_all add: with_songs_def)

lemma addSongRow_run:
  assumes "faults s = []" "se_uuid_Parse env text = Some p"
  shows "\<exists>e. addSongRow env text i s =
    (if is_ok (fst (pl_AddSong (song_known i (dbase s)) p i (db_playlists (dbase s)))) then Ok () else Err e,
     with_songs (\<lambda>t. snd (pl_AddSong (song_known i (dbase s)) p i t)) s)"
  using assms
  by (cases "pl_AddSong (song_known i (dbase s)) p i (db_playlists (dbase s))")
    (auto simp: addSongRow_def PL_AddSong_def parsed_def bindM_def tryM_def throwM_def returnM_def with_songs_def pl_AddSong_def
      split: if_splits)

lemma find_set_playlist:
  assumes "\<And>r. pl_Uuid (f r) = pl_Uuid r"
  shows "find_playlist p (set_playlist p f t) = map_option f (find_playlist p t)"
proof -
  have "List.find (\<lambda>r. pl_Uuid r = p) (List.map (\<lambda>r. if pl_Uuid r = p then f r else r) rs) =
      map_option f (List.find (\<lambda>r. pl_Uuid r = p) rs)" for rs
    using assms by (induction rs) auto
  then show ?thesis by (simp add: find_playlist_def)
qed

text \<open>After an addition the next one sees one song more, and the same permissions, songs and files.\<close>

lemma after_pl_AddSong:
  assumes "is_ok (fst (pl_AddSong k p i t))"
  shows "fits n u p (snd (pl_AddSong k p i t)) = fits (n + 1) u p t" "may_add u p (snd (pl_AddSong k p i t)) = may_add u p t"
proof -
  let ?f = "\<lambda>r. r\<lparr>pl_SongCount := pl_SongCount r + 1\<rparr>"
  obtain r where r: "find_playlist p t = Some r" using assms by (auto simp: pl_AddSong_def split: if_splits)
  then have "pl_Uuid r = p" by (auto simp: find_playlist_def dest: find_Some_mem)
  have snd: "snd (pl_AddSong k p i t) = set_playlist p ?f (t\<lparr>pt_Songs := pt_Songs (snd (pl_AddSong k p i t))\<rparr>)"
    using assms by (auto simp: pl_AddSong_def split: if_splits)
  have "find_playlist p (snd (pl_AddSong k p i t)) = Some (?f r)"
    using r by (subst snd, subst find_set_playlist) (simp_all add: find_playlist_def)
  moreover have "pt_UserPlaylists (snd (pl_AddSong k p i t)) = pt_UserPlaylists t" by (subst snd) simp
  ultimately show "fits n u p (snd (pl_AddSong k p i t)) = fits (n + 1) u p t" "may_add u p (snd (pl_AddSong k p i t)) = may_add u p t"
    using r \<open>pl_Uuid r = p\<close>
    by (auto simp: fits_def pl_Get_def can_see_def find_user_playlist_def may_add_def us_GetPermissionsOnPlaylist_def algebra_simps)
qed

section \<open>A batch is its songs one by one\<close>

lemma keeps_faultless:
  "keeps (\<lambda>s. faults s = [] \<and> mem s = m) (dbcall f)" "keeps (\<lambda>s. faults s = [] \<and> mem s = m) (query g)"
  by (auto simp: keeps_def)

definition can_add :: "int \<Rightarrow> uuid \<Rightarrow> int list \<Rightarrow> database \<Rightarrow> bool" where
  "can_add u p ids d \<longleftrightarrow> may_add u p (db_playlists d) \<and> fits (int (length ids)) u p (db_playlists d) \<and>
     (\<forall>i \<in> set ids. verified_song i d)"

lemma AddSong_run:
  assumes "faults s = []" "se_uuid_Parse env text = Some p"
  shows "PlaylistService_AddSong env (Some uc) text i s = addSongRow env text i s \<and> can_add (uc_UserId uc) p [i] (dbase s) \<or>
    (\<exists>e. PlaylistService_AddSong env (Some uc) text i s = (Err e, s)) \<and> \<not> can_add (uc_UserId uc) p [i] (dbase s)"
proof -
  obtain e e' where "ensureSongsFitPlaylistKind env (uc_UserId uc) text 1 s =
      (if fits 1 (uc_UserId uc) p (db_playlists (dbase s)) then Ok () else Err e, s)"
      "requireVerifiedSong i s = (if verified_song i (dbase s) then Ok () else Err e', s)"
    using ensure_run[OF assms] requireVerifiedSong_run[OF assms(1)] by blast
  then show ?thesis
    by (auto simp: PlaylistService_AddSong_def on_playlist_def authenticated_def bindM_def throwM_def may_add_def can_add_def
        permissions_run[OF assms])
qed

lemma AddSongs_run:
  assumes "faults s = []" "se_uuid_Parse env text = Some p"
  shows "PlaylistService_AddSongs env (Some uc) text ids s = tx_execute (forM (addSongRow env text) ids) s \<and>
      can_add (uc_UserId uc) p ids (dbase s) \<or>
    (\<exists>e. PlaylistService_AddSongs env (Some uc) text ids s = (Err e, s)) \<and> \<not> can_add (uc_UserId uc) p ids (dbase s)"
proof -
  obtain e e' where "ensureSongsFitPlaylistKind env (uc_UserId uc) text (int (length ids)) s =
      (if fits (int (length ids)) (uc_UserId uc) p (db_playlists (dbase s)) then Ok () else Err e, s)"
      "forM requireVerifiedSong ids s = (if \<forall>i \<in> set ids. verified_song i (dbase s) then Ok () else Err e', s)"
    using ensure_run[OF assms] verify_all[OF assms(1)] by blast
  then show ?thesis
    by (auto simp: PlaylistService_AddSongs_def on_playlist_def authenticated_def bindM_def throwM_def may_add_def can_add_def
        permissions_run[OF assms])
qed

lemma one_by_one:
  assumes "ids \<noteq> []" "faults s = []" "se_uuid_Parse env text = Some p"
  shows "forM (PlaylistService_AddSong env (Some uc) text) ids s = forM (addSongRow env text) ids s \<and>
      can_add (uc_UserId uc) p ids (dbase s) \<or>
    \<not> is_ok (fst (forM (PlaylistService_AddSong env (Some uc) text) ids s)) \<and>
      (\<not> can_add (uc_UserId uc) p ids (dbase s) \<or> \<not> is_ok (fst (forM (addSongRow env text) ids s)))"
  using assms
proof (induction ids arbitrary: s rule: list_nonempty_induct)
  case (single i)
  then show ?case using AddSong_run[OF single, of uc i] by (auto simp: bindM_def returnM_def)
next
  case (cons i ids)
  let ?t = "db_playlists (dbase s)" and ?k = "song_known i (dbase s)"
  let ?u = "uc_UserId uc" and ?s = "with_songs (\<lambda>t. snd (pl_AddSong ?k p i t)) s"
  obtain e where add: "addSongRow env text i s = (if is_ok (fst (pl_AddSong ?k p i ?t)) then Ok () else Err e, ?s)"
    using addSongRow_run[OF cons.prems(1,2)] by blast
  show ?case
  proof (cases "is_ok (fst (pl_AddSong ?k p i ?t)) \<and> can_add ?u p [i] (dbase s)")
    case True
    have "can_add ?u p ids (dbase ?s) \<longleftrightarrow> can_add ?u p (i # ids) (dbase s)"
      using True after_pl_AddSong[of ?k p i ?t] by (auto simp: can_add_def verified_song_def add.commute)
    then show ?thesis
      using True AddSong_run[OF cons.prems, of uc i] add cons.IH[of ?s] cons.prems by (auto simp: bindM_def)
  next
    case False
    moreover have "can_add ?u p [i] (dbase s)" if "can_add ?u p (i # ids) (dbase s)"
      using that by (auto simp: can_add_def fits_def)
    ultimately show ?thesis
      using AddSong_run[OF cons.prems, of uc i] add by (auto simp: bindM_def)
  qed
qed

lemma tx_no_fault:
  assumes "faults s = []" "keeps (\<lambda>x. faults x = [] \<and> mem x = mem s) m"
  shows "tx_execute m s = (if is_ok (fst (m s)) then m s else (fst (m s), s))"
proof -
  have s2: "faults (snd (m s)) = []" "mem (snd (m s)) = mem s" using keepsD[OF assms(2), of s] assms(1) by simp_all
  have "m (s\<lparr>faults := tl (faults s)\<rparr>) = m s" using assms(1) by (cases s) simp
  moreover obtain r x where "m s = (r, x)" by fastforce
  moreover have "x\<lparr>dbase := dbase s\<rparr> = s" "x\<lparr>faults := tl (faults x)\<rparr> = x"
    using s2 assms(1) \<open>m s = (r, x)\<close> by (cases s; cases x; simp)+
  ultimately show ?thesis
    unfolding tx_execute_def Let_def using s2(1) assms(1) by (cases r) (simp_all only: next_fault_def prod.case outcome.case
        list.case is_ok.simps fst_conv snd_conv if_True if_False)
qed

lemma keeps_faultless_rows: "keeps (\<lambda>s. faults s = [] \<and> mem s = m) (addSongRow env text i)"
  unfolding addSongRow_def PL_AddSong_def by (intro keeps_intros keeps_faultless)

text \<open>C36: A batch is its songs one by one, all or nothing.  When no database call fails, adding a list of songs to a playlist succeeds
exactly when adding the first, then the second, and so on to the last would succeed, each call with its own checks of the permission, the
kind of the playlist and the file of the song; it then leaves exactly the state these calls leave, and
otherwise the state it found.  This holds for singles, whose limit the batch checks once for the whole list, and for
lists that repeat a song or name one the playlist holds.\<close>
theorem AddSongs_one_by_one:
  fixes env :: "('r, 'l) store_env" and s :: "(database, 'r storemem) st"
  assumes "faults s = []" "ids \<noteq> []"
  shows "is_ok (fst (PlaylistService_AddSongs env uCtx playlistUuid ids s)) =
      is_ok (fst (forM (PlaylistService_AddSong env uCtx playlistUuid) ids s)) \<and>
    snd (PlaylistService_AddSongs env uCtx playlistUuid ids s) =
      (if is_ok (fst (forM (PlaylistService_AddSong env uCtx playlistUuid) ids s))
       then snd (forM (PlaylistService_AddSong env uCtx playlistUuid) ids s) else s)"
proof (cases "\<exists>uc p. uCtx = Some uc \<and> se_uuid_Parse env playlistUuid = Some p")
  case True
  then obtain uc p where uc: "uCtx = Some uc" and p: "se_uuid_Parse env playlistUuid = Some p" by blast
  let ?rows = "forM (addSongRow env playlistUuid) ids"
  have "tx_execute ?rows s = (if is_ok (fst (?rows s)) then ?rows s else (fst (?rows s), s))"
    by (rule tx_no_fault[OF assms(1)]) (intro keeps_intros keeps_faultless_rows)
  then show ?thesis
    unfolding uc using AddSongs_run[OF assms(1) p, of uc ids] one_by_one[OF assms(2,1) p, of uc] by auto
next
  case False
  obtain i is' where "ids = i # is'" using assms(2) by (cases ids) auto
  then show ?thesis
    using False assms(1)
    by (cases uCtx; cases "se_uuid_Parse env playlistUuid")
      (simp_all add: PlaylistService_AddSongs_def PlaylistService_AddSong_def on_playlist_def authenticated_def bindM_def throwM_def
        USER_GetPermissionsOnPlaylist_def parsed_def)
qed

definition ex_songs_state :: "(database, (string \<times> string) list storemem) st" where
  "ex_songs_state = ex_playlist_state\<lparr>dbase := (dbase ex_playlist_state)\<lparr>db_songs := \<lparr>rows =
     [\<lparr>song_Id = 4, song_FileId = 1, song_Title = ''a'', song_CreatedAt = 0\<rparr>,
      \<lparr>song_Id = 5, song_FileId = 1, song_Title = ''b'', song_CreatedAt = 0\<rparr>], next_id = 6\<rparr>\<rparr>\<rparr>"

lemma ex_songs_start: "faults ex_songs_state = []" "db_playlists (dbase ex_songs_state) = ex_playlist_tables"
  "tbl_find (\<lambda>s. song_Id s = 4) (db_songs (dbase ex_songs_state)) = Some \<lparr>song_Id = 4, song_FileId = 1, song_Title = ''a'', song_CreatedAt = 0\<rparr>"
  "tbl_find (\<lambda>s. song_Id s = 5) (db_songs (dbase ex_songs_state)) = Some \<lparr>song_Id = 5, song_FileId = 1, song_Title = ''b'', song_CreatedAt = 0\<rparr>"
  "fm_Get 1 (db_files (dbase ex_songs_state)) = Ok ex_staged"
  by (simp_all add: ex_songs_state_def ex_playlist_state_def ex_store_state_def tbl_find_def fm_Get_def ex_staged_def)

lemma ex_can_add: "can_add 1 7 [4, 5] (dbase ex_songs_state)"
  by (simp add: can_add_def may_add_def fits_def verified_song_def ex_songs_start us_GetPermissionsOnPlaylist_def
      find_user_playlist_def pl_Get_def can_see_def find_playlist_def ex_playlist_tables_def all_permissions_def ex_staged_def
      global_queue_def GlobalPlaylistUuid_def ex_private_def)

lemma ex_rows_added:
  "is_ok (fst (forM (addSongRow ex_store_env ''u1111111'') [4, 5] ex_songs_state))"
  "List.map ps_SongId (songs_of 7 (db_playlists (dbase (snd (forM (addSongRow ex_store_env ''u1111111'') [4, 5] ex_songs_state))))) = [3, 4, 5]"
  by (simp_all add: addSongRow_def PL_AddSong_def parsed_def ex_playlist_text bindM_def tryM_def returnM_def ex_songs_start pl_AddSong_def
      song_known_def ex_songs_state_def ex_playlist_found find_playlist_def ex_playlist_tables_def global_queue_def
      GlobalPlaylistUuid_def ex_private_def set_playlist_def songs_of_def)

theorem AddSongs_one_by_one_witness:
  "is_ok (fst (PlaylistService_AddSongs ex_store_env (Some (ex_user 1)) ''u1111111'' [4, 5] ex_songs_state)) \<and>
   List.map ps_SongId (songs_of 7 (db_playlists (dbase
     (snd (PlaylistService_AddSongs ex_store_env (Some (ex_user 1)) ''u1111111'' [4, 5] ex_songs_state))))) = [3, 4, 5]"
proof -
  have same: "forM (PlaylistService_AddSong ex_store_env (Some (ex_user 1)) ''u1111111'') [4, 5] ex_songs_state =
      forM (addSongRow ex_store_env ''u1111111'') [4, 5] ex_songs_state"
    using one_by_one[of "[4, 5]" ex_songs_state ex_store_env "''u1111111''" 7 "ex_user 1"] ex_can_add ex_rows_added(1)
    by (simp add: ex_songs_start(1) ex_playlist_text ex_user_def)
  then show ?thesis
    using AddSongs_one_by_one[of ex_songs_state "[4, 5]" ex_store_env "Some (ex_user 1)" "''u1111111''"] ex_rows_added
    by (simp add: ex_songs_start(1))
qed

section \<open>The order that was set is the order that is listed\<close>

lemma in_order:
  fixes pos :: "'a \<Rightarrow> int"
  assumes "distinct xs" "set xs \<subseteq> set ids" "List.map pos ids = List.map int [0..<length ids]" "sorted (List.map pos xs)"
  shows "xs = List.filter (\<lambda>x. x \<in> set xs) ids"
proof -
  have "distinct (List.map pos ids)" "sorted (List.map pos ids)"
    unfolding assms(3) by (simp_all add: distinct_map inj_on_def sorted_map)
  then have inj: "inj_on pos (set ids)" "distinct ids" and sorted: "sorted (List.map pos (List.filter (\<lambda>x. x \<in> set xs) ids))"
    by (simp_all add: distinct_map sorted_filter)
  have "set (List.filter (\<lambda>x. x \<in> set xs) ids) = set xs" using assms(2) by auto
  moreover have "inj_on pos (set xs)" using inj(1) assms(2) by (rule inj_on_subset)
  ultimately have "List.map pos xs = List.map pos (List.filter (\<lambda>x. x \<in> set xs) ids)"
    using assms(1,4) sorted inj(2) by (intro sorted_distinct_set_unique) (auto simp: distinct_map)
  then show ?thesis using inj(1) assms(2) by (auto dest!: map_inj_on intro: inj_on_subset)
qed

text \<open>The number the loop leaves with a song.\<close>

fun numbered :: "int list \<Rightarrow> int \<Rightarrow> int \<Rightarrow> int option" where
  "numbered [] n i = None"
| "numbered (x # xs) n i = (case numbered xs (n + 1) i of Some m \<Rightarrow> Some m | None \<Rightarrow> if x = i then Some n else None)"

definition renumber :: "uuid \<Rightarrow> (int \<Rightarrow> int option) \<Rightarrow> PlaylistSongRow \<Rightarrow> PlaylistSongRow" where
  "renumber p f r = (if ps_PlaylistUuid r = p then (case f (ps_SongId r) of Some n \<Rightarrow> r\<lparr>ps_OrderNumber := n\<rparr> | None \<Rightarrow> r) else r)"

lemma numbered_fresh: "i \<notin> set ids \<Longrightarrow> numbered ids n i = None"
  by (induction ids arbitrary: n) auto

lemma numbered_all: "distinct ids \<Longrightarrow> List.map (numbered ids n) ids = List.map (\<lambda>k. Some (n + int k)) [0..<length ids]"
proof (induction ids arbitrary: n)
  case (Cons x ids)
  have "List.map (numbered (x # ids) n) ids = List.map (numbered ids (n + 1)) ids"
    using Cons.prems by (intro map_cong) (auto split: option.split)
  moreover have "numbered (x # ids) n x = Some n" using Cons.prems by (simp add: numbered_fresh)
  moreover have "[0..<Suc (length ids)] = 0 # List.map Suc [0..<length ids]"
    by (simp add: map_Suc_upt upt_conv_Cons del: upt_Suc)
  ultimately show ?case
    using Cons.IH[of "n + 1"] Cons.prems by (simp add: comp_def add.assoc add.commute[of 1] del: upt_Suc numbered.simps map_eq_conv)
qed simp

lemma set_orders:
  assumes "se_uuid_Parse env playlistUuid = Some p"
    and "forM (\<lambda>(i, songId). PL_SetSongOrder env playlistUuid songId (int i)) (enumerate n ids) s = (Ok (), s')"
  shows "dbase s' = (dbase s)\<lparr>db_playlists := (db_playlists (dbase s))\<lparr>pt_Songs :=
    List.map (renumber p (numbered ids (int n))) (pt_Songs (db_playlists (dbase s)))\<rparr>\<rparr>"
  using assms(2)
proof (induction ids arbitrary: n s)
  case Nil
  have "renumber p (\<lambda>_. None) = id" by (auto simp: renumber_def)
  then show ?case using Nil by (simp add: returnM_def)
next
  case (Cons i ids)
  obtain s1 where s1: "PL_SetSongOrder env playlistUuid i (int n) s = (Ok (), s1)"
      "forM (\<lambda>(i, songId). PL_SetSongOrder env playlistUuid songId (int i)) (enumerate (Suc n) ids) s1 = (Ok (), s')"
    using Cons.prems by (auto simp: bindM_eq_Ok)
  have "dbase s1 = (dbase s)\<lparr>db_playlists := pl_SetSongOrder p i (int n) (db_playlists (dbase s))\<rparr>"
    using s1(1) assms(1) by (auto simp: PL_SetSongOrder_def parsed_def on_playlists_def dbcall_cases)
  moreover have "renumber p (numbered ids (int n + 1)) (if ps_PlaylistUuid r = p \<and> ps_SongId r = i then r\<lparr>ps_OrderNumber := int n\<rparr> else r) =
      renumber p (numbered (i # ids) (int n)) r" for r
    by (auto simp: renumber_def split: option.split)
  ultimately show ?case
    using Cons.IH[OF s1(2)] by (simp add: pl_SetSongOrder_def comp_def add.commute del: numbered.simps)
qed

lemma ChangeSongsOrder_Ok:
  assumes p: "se_uuid_Parse env playlistUuid = Some p" and run: "ChangeSongsOrder env uCtx playlistUuid ids s = (Ok (), s1)"
  shows "pt_Songs (db_playlists (dbase s1)) = List.map (renumber p (numbered ids 0)) (pt_Songs (db_playlists (dbase s)))"
proof -
  obtain s2 where s2: "forM (\<lambda>(i, songId). PL_SetSongOrder env playlistUuid songId (int i)) (enumerate 0 ids)
      (s\<lparr>faults := tl (tl (faults s))\<rparr>) = (Ok (), s2)" "dbase s1 = dbase s2"
    using run
    by (cases uCtx) (auto simp: ChangeSongsOrder_def on_playlist_def authenticated_def bindM_eq_Ok tx_execute_Ok
        USER_GetPermissionsOnPlaylist_def parsed_def p query_cases throwM_def split: if_splits)
  then show ?thesis using set_orders[OF p s2(1)] by simp
qed

lemma viewed_mem:
  assumes "r \<in> set (viewed_rows req p d)"
  shows "r \<in> set (songs_of p (db_playlists d)) \<and> (\<exists>x. playlist_song d r = Some x \<and> psg_Id x = ps_SongId r)"
  using assms
  by (auto simp: viewed_rows_def playlist_song_def Let_def split: if_splits option.splits outcome.splits dest: tbl_find_Some)

lemma map_filter_ids:
  "(\<And>r. r \<in> set rs \<Longrightarrow> \<exists>x. f r = Some x \<and> key x = g r) \<Longrightarrow> List.map key (List.map_filter f rs) = List.map g rs"
  by (induction rs) (fastforce simp: List.map_filter_def)+

lemma page_of_sorted:
  "sorted (List.map f xs) \<Longrightarrow> sorted (List.map f (take m (drop n xs)))"
  by (simp add: take_map[symmetric] drop_map[symmetric] sorted_wrt_take sorted_wrt_drop)

lemma list_run:
  assumes "PlaylistService_ListSongs sq uCtx req s = (Ok (songs, n), s')"
    and "sql_uuid sq (ls_PlaylistUuid req) = Some p" "ls_PlaylistUuid req \<noteq> []" "\<not> ls_Desc req" "ls_RandomHash req = None"
  shows "\<exists>req'. songs = List.map_filter (playlist_song (dbase s))
    (take (ls_Limit req') (drop (ls_Offset req') (sort_key ps_OrderNumber (viewed_rows req' p (dbase s)))))"
proof -
  obtain uc where uc: "uCtx = Some uc"
    using assms(1) by (cases uCtx) (auto simp: PlaylistService_ListSongs_def authenticated_def throwM_def)
  define req' where "req' = (if ls_Limit req = 0 then req\<lparr>ls_Limit := 10\<rparr> else req)\<lparr>ls_UserId := uc_UserId uc\<rparr>"
  have req': "ls_PlaylistUuid req' = ls_PlaylistUuid req" "ls_Desc req' = ls_Desc req" "ls_RandomHash req' = ls_RandomHash req"
    by (simp_all add: req'_def)
  have "PlaylistService_ListSongs sq uCtx req s =
      bindM (PL_ListSongs sq req') (\<lambda>songs. bindM (PL_CountSongs sq req') (\<lambda>total. returnM (songs, total))) s"
    using assms(3) by (simp add: PlaylistService_ListSongs_def authenticated_def uc Let_def req'_def)
  then have "bindM (PL_ListSongs sq req') (\<lambda>songs. bindM (PL_CountSongs sq req') (\<lambda>total. returnM (songs, total))) s =
      (Ok (songs, n), s')"
    using assms(1) by simp
  then obtain s1 where "PL_ListSongs sq req' s = (Ok songs, s1)" by (auto simp: bindM_eq_Ok returnM_def)
  then have "songs = List.map_filter (playlist_song (dbase s))
    (take (ls_Limit req') (drop (ls_Offset req') (sort_key ps_OrderNumber (viewed_rows req' p (dbase s)))))"
    using assms(2,4,5) by (auto simp: PL_ListSongs_def dbcall_cases req' order_rows_def split: if_splits)
  then show ?thesis by blast
qed

lemma distinct_page:
  assumes "distinct (List.map key (songs_of p (db_playlists d)))"
  shows "distinct (List.map key (take m (drop n (sort_key k (viewed_rows req p d)))))"
proof -
  have "distinct (List.map key (viewed_rows req p d))"
    using assms by (auto simp: viewed_rows_def intro: distinct_map_filter)
  then have "distinct (List.map key (sort_key k (viewed_rows req p d)))" by (simp add: distinct_map)
  then show ?thesis by (simp add: take_map[symmetric] drop_map[symmetric])
qed

text \<open>C37: The order that was set is the order that is listed.  After a user has set the order of a playlist, naming every song of
it, each page of its songs that anybody lists, unless he asks for a random or the reverse order, shows the songs it
shows in the order they were named in, and none of them twice.\<close>
theorem order_is_listed:
  fixes env :: "('r, 'l) store_env" and s :: "(database, 'r storemem) st"
  assumes wf: "playlists_wf (catalogue (dbase s))" and p: "se_uuid_Parse env playlistUuid = Some p"
    and ids: "distinct ids" "ps_SongId ` set (songs_of p (db_playlists (dbase s))) \<subseteq> set ids"
    and order: "ChangeSongsOrder env uCtx playlistUuid ids s = (Ok (), s1)"
    and list: "PlaylistService_ListSongs sq uCtx' req s1 = (Ok (songs, n), s2)"
    and req: "sql_uuid sq (ls_PlaylistUuid req) = Some p" "ls_PlaylistUuid req \<noteq> []" "\<not> ls_Desc req" "ls_RandomHash req = None"
  shows "List.map psg_Id songs = List.filter (\<lambda>i. i \<in> set (List.map psg_Id songs)) ids \<and> distinct (List.map psg_Id songs)"
proof -
  let ?t = "db_playlists (dbase s)" and ?f = "renumber p (numbered ids 0)" and ?t1 = "db_playlists (dbase s1)"
  have moved: "pt_Songs ?t1 = List.map ?f (pt_Songs ?t)" by (rule ChangeSongsOrder_Ok[OF p order])
  have keyed: "ps_PlaylistUuid (?f r) = ps_PlaylistUuid r" "ps_SongId (?f r) = ps_SongId r" for r
    by (auto simp: renumber_def split: option.split)
  have keys: "distinct (List.map (\<lambda>r. (ps_PlaylistUuid r, ps_SongId r)) (pt_Songs ?t1))"
    using wf unfolding moved by (intro distinct_kept) (simp_all add: keyed playlists_wf_def playlist_keys_def catalogue_def)
  have pos: "numbered ids 0 (ps_SongId r) = Some (ps_OrderNumber r) \<and> ps_SongId r \<in> set ids"
    if listed: "r \<in> set (songs_of p ?t1)" for r
  proof -
    obtain r' where "r = ?f r'" "r' \<in> set (pt_Songs ?t)" using listed by (auto simp: songs_of_def moved)
    then have r': "r = ?f r'" "r' \<in> set (songs_of p ?t)" using listed keyed(1)[of r'] by (simp_all add: songs_of_def)
    then have "ps_SongId r' \<in> set ids" using ids(2) by auto
    then obtain k where "numbered ids 0 (ps_SongId r') = Some k"
      using arg_cong[OF numbered_all[OF ids(1), of 0], of set] by force
    then show ?thesis using r' \<open>ps_SongId r' \<in> set ids\<close> by (simp add: renumber_def songs_of_def)
  qed
  obtain req' where rows: "songs = List.map_filter (playlist_song (dbase s1))
      (take (ls_Limit req') (drop (ls_Offset req') (sort_key ps_OrderNumber (viewed_rows req' p (dbase s1)))))"
    using list_run[OF list req] by blast
  define page where "page = take (ls_Limit req') (drop (ls_Offset req') (sort_key ps_OrderNumber (viewed_rows req' p (dbase s1))))"
  have sub: "set page \<subseteq> set (viewed_rows req' p (dbase s1))"
    unfolding page_def using set_take_subset set_drop_subset by (metis set_sort subset_trans)
  have listed: "List.map psg_Id songs = List.map ps_SongId page"
    unfolding rows page_def[symmetric] by (rule map_filter_ids) (use sub viewed_mem in blast)
  have "distinct (List.map ps_SongId (songs_of p ?t1))"
    unfolding songs_of_def by (rule distinct_by_key[OF distinct_map_filter[OF keys]]) auto
  then have "distinct (List.map ps_SongId page)"
    unfolding page_def by (rule distinct_page)
  moreover have "sorted (List.map (\<lambda>i. the (numbered ids 0 i)) (List.map ps_SongId page))"
  proof -
    have "List.map (\<lambda>i. the (numbered ids 0 i)) (List.map ps_SongId page) = List.map ps_OrderNumber page"
      using sub pos viewed_mem by (fastforce intro!: map_cong)
    then show ?thesis unfolding page_def by (simp add: page_of_sorted del: map_map)
  qed
  moreover have "set (List.map ps_SongId page) \<subseteq> set ids" using sub viewed_mem pos by fastforce
  moreover have "List.map (\<lambda>i. the (numbered ids 0 i)) ids = List.map int [0..<length ids]"
    using arg_cong[OF numbered_all[OF ids(1), of 0], of "List.map the"] by (simp add: comp_def)
  ultimately show ?thesis unfolding listed by (intro conjI in_order) simp_all
qed

definition ex_order_state :: "int \<Rightarrow> int \<Rightarrow> (database, (string \<times> string) list storemem) st" where
  "ex_order_state x y = ex_songs_state\<lparr>dbase := (dbase ex_songs_state)\<lparr>db_playlists := ex_playlist_tables\<lparr>
     pt_Songs := [\<lparr>ps_PlaylistUuid = 7, ps_SongId = 4, ps_OrderNumber = x\<rparr>, \<lparr>ps_PlaylistUuid = 7, ps_SongId = 5, ps_OrderNumber = y\<rparr>],
     pt_Artists := [\<lparr>ar_Uuid = 1, ar_Name = ''A'', ar_AvatarFileId = None, ar_BackgroundCoverFileId = None\<rparr>],
     pt_SongArtists := [\<lparr>sa_SongId = 4, sa_ArtistUuid = 1, sa_OrderId = 0\<rparr>, \<lparr>sa_SongId = 5, sa_ArtistUuid = 1, sa_OrderId = 0\<rparr>]\<rparr>\<rparr>\<rparr>"

definition ex_list :: ListSongs where
  "ex_list = \<lparr>ls_PlaylistUuid = ''7'', ls_UserId = 0, ls_Limit = 2, ls_Offset = 0, ls_Desc = False, ls_RandomHash = None\<rparr>"

lemma ex_order_set:
  "ChangeSongsOrder ex_store_env (Some (ex_user 1)) ''u1111111'' [5, 4] (ex_order_state 1 2) = (Ok (), ex_order_state 1 0)"
  by (simp add: ChangeSongsOrder_def on_playlist_def authenticated_def bindM_def tx_execute_def next_fault_def Let_def
      USER_GetPermissionsOnPlaylist_def parsed_def ex_playlist_text PL_SetSongOrder_def on_playlists_def pl_SetSongOrder_def
      ex_order_state_def ex_songs_state_def ex_playlist_found us_GetPermissionsOnPlaylist_def find_user_playlist_def
      ex_playlist_tables_def ex_user_def all_permissions_def enumerate_eq_zip returnM_def)

lemma ex_order_songs:
  "playlist_song (dbase (ex_order_state x y)) \<lparr>ps_PlaylistUuid = 7, ps_SongId = 4, ps_OrderNumber = k\<rparr> =
     Some \<lparr>psg_Id = 4, psg_Title = ''a'', psg_Duration = 0, psg_FilePath = ''tmp/7/a.mp3'', psg_FileId = 1,
       psg_Artists = [\<lparr>ar_Uuid = 1, ar_Name = ''A''\<rparr>]\<rparr>"
  "playlist_song (dbase (ex_order_state x y)) \<lparr>ps_PlaylistUuid = 7, ps_SongId = 5, ps_OrderNumber = k\<rparr> =
     Some \<lparr>psg_Id = 5, psg_Title = ''b'', psg_Duration = 0, psg_FilePath = ''tmp/7/a.mp3'', psg_FileId = 1,
       psg_Artists = [\<lparr>ar_Uuid = 1, ar_Name = ''A''\<rparr>]\<rparr>"
  by (simp_all add: playlist_song_def ex_order_state_def ex_songs_state_def ex_playlist_state_def ex_store_state_def
      tbl_find_def fm_Get_def ex_staged_def artists_of_song_def artist_of_def List.map_filter_def Let_def ArtistsBase.truncate_def)

lemma ex_order_start:
  "faults (ex_order_state x y) = []"
  "songs_of 7 (db_playlists (dbase (ex_order_state x y))) =
     [\<lparr>ps_PlaylistUuid = 7, ps_SongId = 4, ps_OrderNumber = x\<rparr>, \<lparr>ps_PlaylistUuid = 7, ps_SongId = 5, ps_OrderNumber = y\<rparr>]"
  "ls_UserId req = 1 \<Longrightarrow> songs_visible req 7 (db_playlists (dbase (ex_order_state x y)))"
  by (simp_all add: ex_order_state_def ex_songs_start songs_of_def songs_visible_def can_see_def find_user_playlist_def
      ex_playlist_tables_def ex_private_def)

lemma ex_order_viewed:
  "ls_UserId req = 1 \<Longrightarrow> viewed_rows req 7 (dbase (ex_order_state x y)) =
     [\<lparr>ps_PlaylistUuid = 7, ps_SongId = 4, ps_OrderNumber = x\<rparr>, \<lparr>ps_PlaylistUuid = 7, ps_SongId = 5, ps_OrderNumber = y\<rparr>]"
  by (simp add: viewed_rows_def ex_order_start ex_order_songs)

lemma ex_order_listed:
  "\<exists>songs s2. PlaylistService_ListSongs ex_sql (Some (ex_user 1)) ex_list (ex_order_state 1 0) = (Ok (songs, 2), s2) \<and>
     set (List.map psg_Id songs) = {4, 5}"
proof -
  let ?req = "ex_list\<lparr>ls_UserId := 1\<rparr>"
  have "PlaylistService_ListSongs ex_sql (Some (ex_user 1)) ex_list (ex_order_state 1 0) =
      bindM (PL_ListSongs ex_sql ?req) (\<lambda>songs. bindM (PL_CountSongs ex_sql ?req) (\<lambda>total. returnM (songs, total))) (ex_order_state 1 0)"
    by (simp add: PlaylistService_ListSongs_def authenticated_def Let_def ex_list_def ex_user_def)
  moreover have "PL_CountSongs ex_sql ?req (ex_order_state 1 0) = (Ok 2, ex_order_state 1 0)"
    by (simp add: PL_CountSongs_def ex_sql_def ex_order_viewed ex_order_start(1))
  moreover have "\<exists>songs. PL_ListSongs ex_sql ?req (ex_order_state 1 0) = (Ok songs, ex_order_state 1 0) \<and> set (List.map psg_Id songs) = {4, 5}"
    by (simp add: PL_ListSongs_def ex_sql_def order_rows_def ex_order_viewed ex_order_start(1) ex_order_songs List.map_filter_def
        page_ok_def ex_list_def insert_commute)
  ultimately show ?thesis by (auto simp: bindM_def returnM_def)
qed

theorem order_is_listed_witness:
  "\<exists>s1 songs s2. ChangeSongsOrder ex_store_env (Some (ex_user 1)) ''u1111111'' [5, 4] (ex_order_state 1 2) = (Ok (), s1) \<and>
     PlaylistService_ListSongs ex_sql (Some (ex_user 1)) ex_list s1 = (Ok (songs, 2), s2) \<and> List.map psg_Id songs = [5, 4]"
proof -
  obtain songs s2 where list: "PlaylistService_ListSongs ex_sql (Some (ex_user 1)) ex_list (ex_order_state 1 0) = (Ok (songs, 2), s2)"
      and shown: "set (List.map psg_Id songs) = {4, 5}"
    using ex_order_listed by blast
  have "playlists_wf (catalogue (dbase (ex_order_state 1 2)))"
    by (simp add: playlists_wf_def playlist_keys_def playlist_refs_def playlist_counts_def catalogue_def known_def artist_of_def
        songs_of_def ex_order_state_def ex_songs_state_def ex_playlist_tables_def empty_playlists_def ex_private_def global_queue_def
        GlobalPlaylistUuid_def)
  then have "List.map psg_Id songs = List.filter (\<lambda>i. i \<in> set (List.map psg_Id songs)) [5, 4] \<and> distinct (List.map psg_Id songs)"
    by (rule order_is_listed[OF _ ex_playlist_text _ _ ex_order_set list]) (simp_all add: ex_order_start ex_sql_def ex_list_def)
  then have "List.map psg_Id songs = [5, 4]" unfolding shown by simp
  with list have "PlaylistService_ListSongs ex_sql (Some (ex_user 1)) ex_list (ex_order_state 1 0) = (Ok (songs, 2), s2) \<and>
      List.map psg_Id songs = [5, 4]" ..
  with ex_order_set show ?thesis by (intro exI) (rule conjI)
qed

end
