(* ===== verification/SearchHistory.thy ===== *)
theory SearchHistory
  imports Database GoStrings
begin

text \<open>
  The search history of users (service/v1/search_history_service.go): a query is recorded, the item clicked after it is attached to
  it, and only the five latest entries are kept.

  Facts: whatever is called by whom and whatever fails, each user's history is the one a list of at most five entries would have
  become under his own successful calls.
\<close>

section \<open>The service\<close>

definition on_history :: "(int \<Rightarrow> history_table \<Rightarrow> 'a \<times> history_table) \<Rightarrow> ('m, 'a) dbprog" where
  "on_history f = dbcall (\<lambda>d. case f (db_clock d) (db_history d) of (r, t) \<Rightarrow> (Ok r, d\<lparr>db_history := t\<rparr>))"

definition SH_InsertQuery :: "int \<Rightarrow> string \<Rightarrow> ('m, unit) dbprog" where
  "SH_InsertQuery userId searched = on_history (\<lambda>now t. ((), sh_InsertQuery now userId searched t))"

definition SH_AttachFinding :: "int \<Rightarrow> string \<Rightarrow> SearchHistoryEntry \<Rightarrow> ('m, bool) dbprog" where
  "SH_AttachFinding userId searched finding = on_history (\<lambda>now. sh_AttachFinding userId searched finding)"

definition SH_Trim :: "int \<Rightarrow> ('m, unit) dbprog" where
  "SH_Trim userId = on_history (\<lambda>now t. ((), sh_Trim userId t))"

definition SH_List :: "int \<Rightarrow> ('m, SearchHistoryEntry list) dbprog" where
  "SH_List userId = query (\<lambda>d. sh_List userId (db_history d))"

definition recordQueryTx :: "int \<Rightarrow> string \<Rightarrow> ('m, unit) dbprog" where
  "recordQueryTx userId searched = bindM (SH_InsertQuery userId searched) (\<lambda>_. SH_Trim userId)"

definition RecordQuery :: "UserContext option \<Rightarrow> string \<Rightarrow> ('m, unit) dbprog" where
  "RecordQuery uCtx searched = authenticated uCtx (\<lambda>uc.
     let searched = TrimSpace searched in
     if searched = [] then throwM ErrEmptySearchQuery else tx_execute (recordQueryTx (uc_UserId uc) searched))"

definition recordFindingTx :: "int \<Rightarrow> string \<Rightarrow> SearchHistoryEntry \<Rightarrow> ('m, unit) dbprog" where
  "recordFindingTx userId searched finding =
     bindM (SH_AttachFinding userId searched finding) (\<lambda>matched.
     bindM (if \<not> matched
            then bindM (SH_InsertQuery userId searched) (\<lambda>_.
                 bindM (SH_AttachFinding userId searched (finding\<lparr>sh_Query := searched\<rparr>)) (\<lambda>_. returnM ()))
            else returnM ()) (\<lambda>_.
     SH_Trim userId))"

definition RecordFinding :: "UserContext option \<Rightarrow> string \<Rightarrow> SearchHistoryEntry \<Rightarrow> ('m, unit) dbprog" where
  "RecordFinding uCtx searched finding = authenticated uCtx (\<lambda>uc.
     let searched = TrimSpace searched in
     if searched = [] then throwM ErrEmptySearchQuery else tx_execute (recordFindingTx (uc_UserId uc) searched finding))"

definition SearchHistoryService_List :: "UserContext option \<Rightarrow> ('m, SearchHistoryEntry list) dbprog" where
  "SearchHistoryService_List uCtx = authenticated uCtx (\<lambda>uc. SH_List (uc_UserId uc))"

section \<open>A list of five entries\<close>

definition with_finding :: "SearchHistoryEntry \<Rightarrow> SearchHistoryEntry \<Rightarrow> SearchHistoryEntry" where
  "with_finding finding e = e\<lparr>sh_FindingType := sh_FindingType finding, sh_FindingID := sh_FindingID finding,
     sh_FindingName := sh_FindingName finding, sh_FindingCoverUrl := sh_FindingCoverUrl finding\<rparr>"

fun attached :: "string \<Rightarrow> SearchHistoryEntry \<Rightarrow> SearchHistoryEntry list \<Rightarrow> SearchHistoryEntry list option" where
  "attached searched finding [] = None"
| "attached searched finding (e # h) =
     (if sh_Query e = searched then Some (with_finding finding e # h) else map_option ((#) e) (attached searched finding h))"

datatype history_call = QueryCall string | FindingCall string SearchHistoryEntry

fun remembered :: "int \<Rightarrow> history_call \<Rightarrow> SearchHistoryEntry list \<Rightarrow> SearchHistoryEntry list" where
  "remembered now (QueryCall searched) h = take 5 (no_finding (TrimSpace searched) now # h)"
| "remembered now (FindingCall searched finding) h =
     (case attached (TrimSpace searched) finding h of
        Some h' \<Rightarrow> h'
      | None \<Rightarrow> take 5 (with_finding finding (no_finding (TrimSpace searched) now) # h))"

text \<open>A sequence of calls, each later than the one before; the log has the successful ones.\<close>

fun history_call_run :: "UserContext option \<Rightarrow> history_call \<Rightarrow> ('m, unit) dbprog" where
  "history_call_run uCtx (QueryCall searched) = RecordQuery uCtx searched"
| "history_call_run uCtx (FindingCall searched finding) = RecordFinding uCtx searched finding"

definition later :: "nat \<Rightarrow> (database, 'm) st \<Rightarrow> (database, 'm) st" where
  "later gap s = s\<lparr>dbase := (dbase s)\<lparr>db_clock := db_clock (dbase s) + 1 + int gap\<rparr>\<rparr>"

fun history_runs ::
  "(nat \<times> UserContext option \<times> history_call) list \<Rightarrow> (database, 'm) st \<Rightarrow> (int \<times> int \<times> history_call) list \<times> (database, 'm) st" where
  "history_runs [] s = ([], s)"
| "history_runs ((gap, uCtx, call) # calls) s =
     (let (r, s1) = history_call_run uCtx call (later gap s);
          (log, s2) = history_runs calls s1
      in (case (uCtx, r) of
            (Some uc, Ok _) \<Rightarrow> ((uc_UserId uc, db_clock (dbase (later gap s)), call) # log, s2)
          | _ \<Rightarrow> (log, s2)))"

section \<open>The rows of one user, newest first\<close>

definition of_user :: "int \<Rightarrow> history_table \<Rightarrow> SearchHistoryRow list" where
  "of_user u t = newest_first (List.filter (\<lambda>r. sh_UserId r = u) (rows t))"

definition history_wf :: "database \<Rightarrow> bool" where
  "history_wf d \<longleftrightarrow> table_wf sh_Id (db_history d) \<and>
     (\<forall>r \<in> set (rows (db_history d)). sh_CreatedAt (sh_Entry r) \<le> db_clock d)"

definition history_of :: "int \<Rightarrow> database \<Rightarrow> SearchHistoryEntry list" where
  "history_of u d = List.map sh_Entry (of_user u (db_history d))"

definition history_inv :: "database \<Rightarrow> bool" where
  "history_inv d \<longleftrightarrow> history_wf d \<and> (\<forall>u. length (history_of u d) \<le> 5)"

lemma sort_key_snoc: "\<forall>y \<in> set xs. f y \<le> f x \<Longrightarrow> sort_key f (xs @ [x]) = sort_key f xs @ [x]"
proof (induction xs)
  case (Cons a xs)
  have "insort_key f a (ys @ [x]) = insort_key f a ys @ [x]" if "f a \<le> f x" for ys
    using that by (induction ys) auto
  then show ?case using Cons by simp
qed simp

lemma set_newest_first [simp]: "set (newest_first rs) = set rs"
  by (simp add: newest_first_def)

lemma newest_first_filter: "newest_first (List.filter P rs) = List.filter P (newest_first rs)"
  by (simp add: newest_first_def filter_sort[symmetric] rev_filter)

lemma sort_key_map:
  assumes "\<And>x. k (f x) = k x"
  shows "sort_key k (List.map f xs) = List.map f (sort_key k xs)"
proof -
  have "insort_key k (f x) (List.map f ys) = List.map f (insort_key k x ys)" for x ys
    using assms by (induction ys) auto
  then show ?thesis by (induction xs) simp_all
qed

lemma newest_first_map:
  "(\<And>r. sh_CreatedAt (sh_Entry (f r)) = sh_CreatedAt (sh_Entry r)) \<Longrightarrow> newest_first (List.map f rs) = List.map f (newest_first rs)"
  by (simp add: newest_first_def sort_key_map rev_map)

lemma filter_in_take:
  "distinct (List.map key xs) \<Longrightarrow> List.filter (\<lambda>r. key r \<in> key ` set (take n xs)) xs = take n xs"
proof (induction xs arbitrary: n)
  case (Cons x xs)
  show ?case
  proof (cases n)
    case (Suc m)
    have "List.filter (\<lambda>r. key r \<in> key ` set (take n (x # xs))) xs = List.filter (\<lambda>r. key r \<in> key ` set (take m xs)) xs"
      using Cons.prems Suc by (intro filter_cong) (auto simp: image_iff)
    then show ?thesis using Cons Suc by simp
  qed simp
qed simp

lemma of_user_Insert:
  assumes "\<forall>r \<in> set (rows t). sh_CreatedAt (sh_Entry r) \<le> now"
  shows "of_user u (sh_InsertQuery now v searched t) =
    (if u = v then \<lparr>sh_Id = next_id t, sh_UserId = v, sh_Entry = no_finding searched now\<rparr> # of_user u t else of_user u t)"
  using assms by (simp add: of_user_def sh_InsertQuery_def newest_first_def sort_key_snoc no_finding_def)

lemma of_user_Trim:
  assumes "table_wf sh_Id t"
  shows "of_user u (sh_Trim v t) = (if u = v then take 5 (of_user u t) else of_user u t)"
proof (cases "u = v")
  case True
  have "distinct (List.map sh_Id (of_user u t))"
    using assms by (simp add: of_user_def newest_first_def table_wf_def distinct_map_filter distinct_map rev_map[symmetric] inj_on_def)
  then have "List.filter (\<lambda>r. sh_Id r \<in> sh_Id ` set (take 5 (of_user u t))) (of_user u t) = take 5 (of_user u t)"
    by (rule filter_in_take)
  moreover have "of_user u (sh_Trim u t) = List.filter (\<lambda>r. sh_Id r \<in> sh_Id ` set (take 5 (of_user u t))) (of_user u t)"
    by (simp add: of_user_def sh_Trim_def sh_latest_def newest_first_filter conj_commute cong: conj_cong)
  ultimately show ?thesis using True by simp
next
  case False
  then show ?thesis by (auto simp: of_user_def sh_Trim_def intro!: arg_cong[where f = newest_first] filter_cong)
qed

lemma matches_of_user: "sh_matches u searched t = List.filter (\<lambda>r. sh_Query (sh_Entry r) = searched) (of_user u t)"
  by (simp add: sh_matches_def of_user_def newest_first_filter conj_commute)

definition attach_row :: "int \<Rightarrow> SearchHistoryEntry \<Rightarrow> SearchHistoryRow \<Rightarrow> SearchHistoryRow" where
  "attach_row i finding r = (if sh_Id r = i then r\<lparr>sh_Entry := with_finding finding (sh_Entry r)\<rparr> else r)"

lemma attached_rows:
  assumes "distinct (List.map sh_Id rs)"
  shows "attached searched finding (List.map sh_Entry rs) =
    (case List.filter (\<lambda>r. sh_Query (sh_Entry r) = searched) rs of [] \<Rightarrow> None
     | latest # _ \<Rightarrow> Some (List.map sh_Entry (List.map (attach_row (sh_Id latest) finding) rs)))"
  using assms
proof (induction rs)
  case (Cons r rs)
  show ?case
  proof (cases "sh_Query (sh_Entry r) = searched")
    case True
    have "List.map (attach_row (sh_Id r) finding) rs = rs"
      using Cons.prems by (intro map_idI) (auto simp: attach_row_def image_iff)
    then show ?thesis using True by (simp add: attach_row_def del: map_map)
  next
    case False
    have "sh_Id r \<noteq> sh_Id l" if "List.filter (\<lambda>r. sh_Query (sh_Entry r) = searched) rs = l # ls" for l ls
    proof -
      have "l \<in> set (List.filter (\<lambda>r. sh_Query (sh_Entry r) = searched) rs)" unfolding that by simp
      then show ?thesis using Cons.prems by force
    qed
    moreover have "attach_row i finding r = r" if "sh_Id r \<noteq> i" for i using that by (simp add: attach_row_def)
    ultimately show ?thesis using Cons False by (auto split: list.split simp del: map_map)
  qed
qed simp

lemma of_user_ids: "table_wf sh_Id t \<Longrightarrow> distinct (List.map sh_Id (of_user u t))"
  by (simp add: of_user_def newest_first_def table_wf_def distinct_map_filter distinct_map rev_map[symmetric] inj_on_def)

lemma of_user_Attach:
  assumes wf: "table_wf sh_Id t"
  shows "List.map sh_Entry (of_user u (snd (sh_AttachFinding v searched finding t))) =
    (case attached searched finding (List.map sh_Entry (of_user v t)) of
       Some h \<Rightarrow> if u = v then h else List.map sh_Entry (of_user u t) | None \<Rightarrow> List.map sh_Entry (of_user u t))"
    "fst (sh_AttachFinding v searched finding t) \<longleftrightarrow> attached searched finding (List.map sh_Entry (of_user v t)) \<noteq> None"
proof -
  note rows = attached_rows[OF of_user_ids[OF wf, of v], of searched finding]
  show "fst (sh_AttachFinding v searched finding t) \<longleftrightarrow> attached searched finding (List.map sh_Entry (of_user v t)) \<noteq> None"
    unfolding rows by (simp add: sh_AttachFinding_def matches_of_user split: list.split)
  show "List.map sh_Entry (of_user u (snd (sh_AttachFinding v searched finding t))) =
    (case attached searched finding (List.map sh_Entry (of_user v t)) of
       Some h \<Rightarrow> if u = v then h else List.map sh_Entry (of_user u t) | None \<Rightarrow> List.map sh_Entry (of_user u t))"
  proof (cases "sh_matches v searched t")
    case Nil
    then show ?thesis unfolding rows by (simp add: sh_AttachFinding_def matches_of_user)
  next
    case (Cons l ls)
    then have "l \<in> set (sh_matches v searched t)" by simp
    then have l: "l \<in> set (rows t)" "sh_UserId l = v" by (auto simp: matches_of_user of_user_def)
    have upd: "(\<lambda>r. if sh_Id r = sh_Id l then r\<lparr>sh_Entry := (sh_Entry r)\<lparr>sh_FindingType := sh_FindingType finding,
        sh_FindingID := sh_FindingID finding, sh_FindingName := sh_FindingName finding, sh_FindingCoverUrl := sh_FindingCoverUrl finding\<rparr>\<rparr>
        else r) = attach_row (sh_Id l) finding"
      by (auto simp: attach_row_def with_finding_def)
    have user: "sh_UserId (attach_row i finding r) = sh_UserId r" "sh_CreatedAt (sh_Entry (attach_row i finding r)) = sh_CreatedAt (sh_Entry r)"
      for i r by (simp_all add: attach_row_def with_finding_def)
    have moved: "of_user u (snd (sh_AttachFinding v searched finding t)) = List.map (attach_row (sh_Id l) finding) (of_user u t)"
      using Cons by (simp add: sh_AttachFinding_def upd of_user_def filter_map comp_def user newest_first_map)
    have "List.map (attach_row (sh_Id l) finding) (of_user u t) = of_user u t" if "u \<noteq> v"
      using that l table_wf_key_inj[OF wf l(1)] by (intro map_idI) (fastforce simp: attach_row_def of_user_def)
    then show ?thesis unfolding rows moved using Cons by (auto simp: matches_of_user simp del: map_map)
  qed
qed

section \<open>The calls\<close>

lemma sh_List_history: "history_inv d \<Longrightarrow> sh_List u (db_history d) = history_of u d"
  by (simp add: history_inv_def sh_List_def sh_latest_def history_of_def of_user_def)

lemma on_history_Ok:
  "on_history f s = (Ok a, s') \<longleftrightarrow> \<not> next_fault s \<and> a = fst (f (db_clock (dbase s)) (db_history (dbase s))) \<and>
     s' = s\<lparr>faults := tl (faults s), dbase := (dbase s)\<lparr>db_history := snd (f (db_clock (dbase s)) (db_history (dbase s)))\<rparr>\<rparr>"
  by (cases "f (db_clock (dbase s)) (db_history (dbase s))") (auto simp: on_history_def dbcall_cases)

definition inserted :: "int \<Rightarrow> string \<Rightarrow> database \<Rightarrow> database" where
  "inserted u searched d = d\<lparr>db_history := sh_InsertQuery (db_clock d) u searched (db_history d)\<rparr>"

definition attached_to :: "int \<Rightarrow> string \<Rightarrow> SearchHistoryEntry \<Rightarrow> database \<Rightarrow> database" where
  "attached_to u searched finding d = d\<lparr>db_history := snd (sh_AttachFinding u searched finding (db_history d))\<rparr>"

definition trimmed :: "int \<Rightarrow> database \<Rightarrow> database" where
  "trimmed u d = d\<lparr>db_history := sh_Trim u (db_history d)\<rparr>"

lemma RecordQuery_run:
  assumes "RecordQuery uCtx searched s = (r, s')"
  shows "is_ok r \<and> (\<exists>uc. uCtx = Some uc \<and> TrimSpace searched \<noteq> [] \<and>
      dbase s' = trimmed (uc_UserId uc) (inserted (uc_UserId uc) (TrimSpace searched) (dbase s))) \<or>
    \<not> is_ok r \<and> dbase s' = dbase s"
proof (cases "is_ok r")
  case True
  then show ?thesis
    using assms
    by (cases uCtx; cases r) (auto simp: RecordQuery_def authenticated_def throwM_def Let_def recordQueryTx_def SH_InsertQuery_def SH_Trim_def
        tx_execute_Ok bindM_eq_Ok on_history_Ok trimmed_def inserted_def split: if_splits)
next
  case False
  then show ?thesis
    using assms tx_execute_atomic[of _ s r s']
    by (cases uCtx) (auto simp: RecordQuery_def authenticated_def throwM_def Let_def split: if_splits)
qed

lemma recordFindingTx_Ok:
  assumes "recordFindingTx u q finding s = (Ok (), s')"
  shows "dbase s' = trimmed u (if fst (sh_AttachFinding u q finding (db_history (dbase s))) then attached_to u q finding (dbase s)
    else attached_to u q (finding\<lparr>sh_Query := q\<rparr>) (inserted u q (dbase s)))"
proof -
  let ?add = "\<lambda>matched. if \<not> matched
      then bindM (SH_InsertQuery u q) (\<lambda>_. bindM (SH_AttachFinding u q (finding\<lparr>sh_Query := q\<rparr>)) (\<lambda>_. returnM ()))
      else returnM ()"
  obtain matched s1 where s1: "SH_AttachFinding u q finding s = (Ok matched, s1)"
      and rest: "bindM (?add matched) (\<lambda>_. SH_Trim u) s1 = (Ok (), s')"
    using assms unfolding recordFindingTx_def bindM_eq_Ok[of "SH_AttachFinding u q finding" _ s] by blast
  obtain s2 where s2: "?add matched s1 = (Ok (), s2)" and s3: "SH_Trim u s2 = (Ok (), s')"
    using rest unfolding bindM_eq_Ok[of "?add matched" _ s1] by auto
  have "dbase s1 = attached_to u q finding (dbase s)" "matched = fst (sh_AttachFinding u q finding (db_history (dbase s)))"
    using s1 by (auto simp: SH_AttachFinding_def on_history_Ok attached_to_def)
  moreover have "attached_to u q finding (dbase s) = dbase s" if "\<not> fst (sh_AttachFinding u q finding (db_history (dbase s)))"
    using that by (simp add: attached_to_def sh_AttachFinding_def split: list.splits)
  moreover have "dbase s2 = (if matched then dbase s1 else attached_to u q (finding\<lparr>sh_Query := q\<rparr>) (inserted u q (dbase s1)))"
    using s2 by (auto simp: SH_InsertQuery_def SH_AttachFinding_def bindM_eq_Ok on_history_Ok attached_to_def inserted_def returnM_def
        split: if_splits)
  moreover have "dbase s' = trimmed u (dbase s2)" using s3 by (simp add: SH_Trim_def on_history_Ok trimmed_def)
  ultimately show ?thesis by simp
qed

lemma RecordFinding_run:
  assumes "RecordFinding uCtx searched finding s = (r, s')"
  shows "is_ok r \<and> (\<exists>uc. uCtx = Some uc \<and> TrimSpace searched \<noteq> [] \<and> (let u = uc_UserId uc; q = TrimSpace searched in
      dbase s' = trimmed u (if fst (sh_AttachFinding u q finding (db_history (dbase s))) then attached_to u q finding (dbase s)
        else attached_to u q (finding\<lparr>sh_Query := q\<rparr>) (inserted u q (dbase s))))) \<or>
    \<not> is_ok r \<and> dbase s' = dbase s"
proof (cases "is_ok r")
  case True
  then obtain uc where uc: "uCtx = Some uc" "TrimSpace searched \<noteq> []"
      and run: "tx_execute (recordFindingTx (uc_UserId uc) (TrimSpace searched) finding) s = (Ok (), s')"
    using assms by (cases uCtx; cases r) (auto simp: RecordFinding_def authenticated_def throwM_def Let_def split: if_splits)
  from run obtain s2 where "recordFindingTx (uc_UserId uc) (TrimSpace searched) finding (s\<lparr>faults := tl (faults s)\<rparr>) = (Ok (), s2)"
      "dbase s' = dbase s2"
    by (auto simp: tx_execute_Ok)
  then show ?thesis using recordFindingTx_Ok True uc by (fastforce simp: Let_def)
next
  case False
  then show ?thesis
    using assms tx_execute_atomic[of _ s r s']
    by (cases uCtx) (auto simp: RecordFinding_def authenticated_def throwM_def Let_def split: if_splits)
qed

section \<open>The history is a list of five entries\<close>

lemma history_later [simp]:
  "history_of u (dbase (later gap s)) = history_of u (dbase s)" "history_inv (dbase s) \<Longrightarrow> history_inv (dbase (later gap s))"
  by (auto simp: history_of_def later_def history_inv_def history_wf_def)

lemma inserted_wf:
  assumes "history_wf d"
  shows "history_wf (inserted v searched d)"
    "history_of u (inserted v searched d) = (if u = v then no_finding searched (db_clock d) # history_of u d else history_of u d)"
  using assms of_user_Insert[of "db_history d" "db_clock d" u v searched]
  by (auto simp: history_wf_def inserted_def sh_InsertQuery_def history_of_def no_finding_def
      intro!: history_rows.wf_insert)

lemma attached_to_wf:
  assumes "history_wf d"
  shows "history_wf (attached_to v searched finding d)"
    "history_of u (attached_to v searched finding d) = (case attached searched finding (history_of v d) of
       Some h \<Rightarrow> if u = v then h else history_of u d | None \<Rightarrow> history_of u d)"
    "fst (sh_AttachFinding v searched finding (db_history d)) \<longleftrightarrow> attached searched finding (history_of v d) \<noteq> None"
proof -
  have "table_wf sh_Id (snd (sh_AttachFinding v searched finding (db_history d)))"
    using assms by (auto simp: history_wf_def sh_AttachFinding_def intro!: history_rows.wf_update split: list.split)
  then show "history_wf (attached_to v searched finding d)"
    using assms by (auto simp: history_wf_def attached_to_def sh_AttachFinding_def split: list.split)
  have wf: "table_wf sh_Id (db_history d)" using assms by (simp add: history_wf_def)
  show "history_of u (attached_to v searched finding d) = (case attached searched finding (history_of v d) of
       Some h \<Rightarrow> if u = v then h else history_of u d | None \<Rightarrow> history_of u d)"
    "fst (sh_AttachFinding v searched finding (db_history d)) \<longleftrightarrow> attached searched finding (history_of v d) \<noteq> None"
    unfolding history_of_def attached_to_def by (simp_all add: of_user_Attach[OF wf])
qed

lemma trimmed_wf:
  assumes "history_wf d"
  shows "history_wf (trimmed v d)" "history_of u (trimmed v d) = (if u = v then take 5 (history_of u d) else history_of u d)"
  using assms of_user_Trim[of "db_history d" u v]
  by (auto simp: history_wf_def trimmed_def sh_Trim_def history_of_def take_map intro: table_wf_delete)

lemma attached_length: "attached searched finding h = Some h' \<Longrightarrow> length h' = length h"
  by (induction h arbitrary: h') (auto split: if_splits)

lemma no_finding_query [simp]: "sh_Query (no_finding searched now) = searched"
  by (simp add: no_finding_def)

lemma attached_first: "attached searched finding (no_finding searched now # h) = Some (with_finding finding (no_finding searched now) # h)"
  by (simp add: no_finding_def)

lemma with_finding_query [simp]: "with_finding (finding\<lparr>sh_Query := q\<rparr>) e = with_finding finding e"
  "attached searched (finding\<lparr>sh_Query := q\<rparr>) h = attached searched finding h"
  by (simp add: with_finding_def, induction h) (simp_all add: with_finding_def)

lemma history_call_step:
  assumes run: "history_call_run uCtx call s = (r, s')" and inv: "history_inv (dbase s)"
  shows "history_inv (dbase s') \<and> (\<forall>u. history_of u (dbase s') =
    (case (uCtx, r) of (Some uc, Ok _) \<Rightarrow> if u = uc_UserId uc then remembered (db_clock (dbase s)) call (history_of u (dbase s))
       else history_of u (dbase s) | _ \<Rightarrow> history_of u (dbase s)))"
proof (cases "is_ok r")
  case False
  then have "dbase s' = dbase s"
    using run by (cases call) (auto dest: RecordQuery_run RecordFinding_run)
  then show ?thesis using False inv by (cases uCtx; cases r) auto
next
  case True
  have wf: "history_wf (dbase s)" and five: "length (history_of u (dbase s)) \<le> 5" for u using inv by (auto simp: history_inv_def)
  show ?thesis
  proof (cases call)
    case (QueryCall searched)
    then obtain uc where uc: "uCtx = Some uc" and s': "dbase s' = trimmed (uc_UserId uc)
        (inserted (uc_UserId uc) (TrimSpace searched) (dbase s))"
      using run True by (auto dest: RecordQuery_run)
    have "history_of u (dbase s') = (if u = uc_UserId uc then remembered (db_clock (dbase s)) call (history_of u (dbase s))
        else history_of u (dbase s))" for u
      unfolding s' QueryCall by (simp add: trimmed_wf inserted_wf wf)
    then show ?thesis using uc True five trimmed_wf(1)[OF inserted_wf(1)[OF wf]] QueryCall s' by (cases r) (auto simp: history_inv_def)
  next
    case (FindingCall searched finding)
    let ?q = "TrimSpace searched"
    obtain uc where uc: "uCtx = Some uc" and s': "dbase s' = trimmed (uc_UserId uc)
        (if fst (sh_AttachFinding (uc_UserId uc) ?q finding (db_history (dbase s))) then attached_to (uc_UserId uc) ?q finding (dbase s)
         else attached_to (uc_UserId uc) ?q (finding\<lparr>sh_Query := ?q\<rparr>) (inserted (uc_UserId uc) ?q (dbase s)))"
      using run True FindingCall by (auto simp: Let_def dest!: RecordFinding_run)
    have "history_of u (dbase s') = (if u = uc_UserId uc then remembered (db_clock (dbase s)) call (history_of u (dbase s))
        else history_of u (dbase s))" for u
      unfolding s' FindingCall using five[of u]
      by (auto simp: trimmed_wf inserted_wf attached_to_wf wf attached_first attached_length split: option.split)
    moreover have "history_wf (dbase s')"
      unfolding s' using wf by (auto intro!: trimmed_wf attached_to_wf inserted_wf)
    moreover have "length (remembered now call h) \<le> 5" if "length h \<le> 5" for now h
      using that FindingCall by (auto simp: attached_length split: option.split)
    ultimately show ?thesis using uc True five by (cases r) (auto simp: history_inv_def)
  qed
qed

text \<open>C39: The search history is a list of five entries.  After any sequence of recorded queries and findings by any users, with whatever
failures of the database on the way, each user is listed exactly what a list of at most five entries became under his own successful calls, in
their order: a query is put in front and the sixth entry dropped, a finding is attached to the latest entry
of the same query, or put in front with it where there is none.  Calls that failed, and those of others, leave no
trace in it.\<close>
theorem search_history_refines:
  assumes "history_inv (dbase s)" "history_runs calls s = (log, s')"
    and "SearchHistoryService_List (Some uc) s' = (Ok entries, s'')"
  shows "entries = foldl (\<lambda>h (u, now, call). if u = uc_UserId uc then remembered now call h else h)
      (sh_List (uc_UserId uc) (db_history (dbase s))) log \<and> length entries \<le> 5"
proof -
  have "history_inv (dbase s') \<and> history_of u (dbase s') =
      foldl (\<lambda>h (v, now, call). if v = u then remembered now call h else h) (history_of u (dbase s)) log" for u
    using assms(1,2)
  proof (induction calls arbitrary: s log s')
    case (Cons c calls)
    obtain gap uCtx call where c: "c = (gap, uCtx, call)" by (cases c)
    obtain r s1 where r: "history_call_run uCtx call (later gap s) = (r, s1)" by fastforce
    obtain log' s2 where l: "history_runs calls s1 = (log', s2)" by fastforce
    note step = history_call_step[OF r history_later(2)[OF Cons.prems(1)]]
    then have "history_inv (dbase s1)" by simp
    from Cons.IH[OF this l] step show ?case
      using Cons.prems(2) r l unfolding c by (auto split: option.splits outcome.splits)
  qed simp
  then have inv: "history_inv (dbase s')" and h: "history_of (uc_UserId uc) (dbase s') =
      foldl (\<lambda>h (v, now, call). if v = uc_UserId uc then remembered now call h else h) (history_of (uc_UserId uc) (dbase s)) log"
    by blast+
  have "entries = sh_List (uc_UserId uc) (db_history (dbase s'))"
    using assms(3) by (auto simp: SearchHistoryService_List_def authenticated_def SH_List_def query_cases split: if_splits)
  then have "entries = history_of (uc_UserId uc) (dbase s')" using sh_List_history[OF inv] by simp
  moreover have "length (history_of (uc_UserId uc) (dbase s')) \<le> 5" using inv by (simp add: history_inv_def)
  ultimately show ?thesis using h sh_List_history[OF assms(1)] by simp
qed

definition ex_caller :: "int \<Rightarrow> UserContext option" where
  "ex_caller i = Some \<lparr>uc_UserId = i, uc_Permissions = zero_permissions\<rparr>"

definition ex_empty :: "(database, unit) st" where
  "ex_empty = \<lparr>faults = [], dbase = empty_database, mem = ()\<rparr>"

lemma ex_trimmed: "TrimSpace '' a '' = ''a''" "TrimSpace ''b'' = ''b''"
  by code_simp+

lemma ex_history_run:
  "\<exists>s'. history_runs [(0, ex_caller 1, QueryCall '' a ''), (3, ex_caller 2, QueryCall ''b''), (0, None, QueryCall ''b'')] ex_empty =
     ([(1, 1, QueryCall '' a ''), (2, 5, QueryCall ''b'')], s') \<and> faults s' = []"
  by (simp add: RecordQuery_def authenticated_def ex_caller_def ex_trimmed Let_def tx_execute_def next_fault_def recordQueryTx_def
      SH_InsertQuery_def SH_Trim_def on_history_def bindM_def later_def ex_empty_def empty_database_def throwM_def
      split: prod.split)

theorem search_history_refines_witness:
  "\<exists>s' s''. history_runs [(0, ex_caller 1, QueryCall '' a ''), (3, ex_caller 2, QueryCall ''b''), (0, None, QueryCall ''b'')] ex_empty =
     ([(1, 1, QueryCall '' a ''), (2, 5, QueryCall ''b'')], s') \<and>
     SearchHistoryService_List (ex_caller 1) s' = (Ok [no_finding ''a'' 1], s'')"
proof -
  obtain s' where run: "history_runs [(0, ex_caller 1, QueryCall '' a ''), (3, ex_caller 2, QueryCall ''b''),
      (0, None, QueryCall ''b'')] ex_empty = ([(1, 1, QueryCall '' a ''), (2, 5, QueryCall ''b'')], s')" "faults s' = []"
    using ex_history_run by blast
  have inv: "history_inv (dbase ex_empty)"
    by (simp add: history_inv_def history_wf_def history_of_def of_user_def ex_empty_def empty_database_def newest_first_def)
      (simp add: empty_table_def)
  have list: "SearchHistoryService_List (ex_caller 1) s' = (Ok (sh_List 1 (db_history (dbase s'))), s')"
    using run(2) by (simp add: SearchHistoryService_List_def authenticated_def ex_caller_def SH_List_def)
  have "sh_List 1 (db_history (dbase s')) = [no_finding ''a'' 1]"
    using search_history_refines[OF inv run(1) list[unfolded ex_caller_def]]
    by (simp add: ex_trimmed sh_List_def sh_latest_def ex_empty_def empty_database_def empty_table_def newest_first_def)
  then show ?thesis using run(1) list by auto
qed

end
