(* ===== verification/Notifications.thy ===== *)
theory Notifications
  imports SearchHistory
begin

text \<open>
  Notifications (service/v1/notification_service.go): the administrators' bot sends one to everybody who has an account then, and each
  recipient reads it and consents to it for himself.

  Facts: what a user is shown is what an inbox would hold to which the broadcasts were delivered and on which only he acted.
\<close>

section \<open>The service\<close>

definition on_notifications ::
  "(int \<Rightarrow> notification_tables \<Rightarrow> 'a outcome \<times> notification_tables) \<Rightarrow> ('m, 'a) dbprog" where
  "on_notifications f = dbcall (\<lambda>d. case f (db_clock d) (db_notifications d) of (r, t) \<Rightarrow> (r, d\<lparr>db_notifications := t\<rparr>))"

definition NO_Create :: "string \<Rightarrow> string \<Rightarrow> bool \<Rightarrow> ('m, int) dbprog" where
  "NO_Create title body requiresConsent = on_notifications (\<lambda>now t.
     case no_Create now title body requiresConsent t of (i, t') \<Rightarrow> (Ok i, t'))"

definition NO_SnapshotRecipients :: "int \<Rightarrow> ('m, unit) dbprog" where
  "NO_SnapshotRecipients i = dbcall (\<lambda>d.
     case no_SnapshotRecipients (List.map ub_Id (rows (db_users d))) i (db_notifications d) of (r, t) \<Rightarrow> (r, d\<lparr>db_notifications := t\<rparr>))"

definition NO_List :: "int \<Rightarrow> nat \<Rightarrow> nat \<Rightarrow> ('m, Notification list) dbprog" where
  "NO_List userId limit offset = on_notifications (\<lambda>now t. (no_List userId limit offset t, t))"

definition NO_MarkRead :: "int \<Rightarrow> int \<Rightarrow> ('m, unit) dbprog" where
  "NO_MarkRead userId i = on_notifications (\<lambda>now t. (Ok (), no_MarkRead now userId i t))"

definition NO_Consent :: "int \<Rightarrow> int \<Rightarrow> ('m, unit) dbprog" where
  "NO_Consent userId i = on_notifications (\<lambda>now t. (Ok (), no_Consent now userId i t))"

definition GetSummary :: "UserContext option \<Rightarrow> ('m, int) dbprog" where
  "GetSummary uCtx = authenticated uCtx (\<lambda>uc. query (\<lambda>d. no_GetUnreadCount (uc_UserId uc) (db_notifications d)))"

definition NotificationService_List :: "UserContext option \<Rightarrow> nat \<Rightarrow> nat \<Rightarrow> ('m, Notification list \<times> int) dbprog" where
  "NotificationService_List uCtx limit offset = authenticated uCtx (\<lambda>uc.
     bindM (NO_List (uc_UserId uc) limit offset) (\<lambda>notifications.
     bindM (query (\<lambda>d. no_Count (uc_UserId uc) (db_notifications d))) (\<lambda>total.
     returnM (notifications, total))))"

definition NotificationService_MarkRead :: "UserContext option \<Rightarrow> int \<Rightarrow> ('m, unit) dbprog" where
  "NotificationService_MarkRead uCtx notificationID = authenticated uCtx (\<lambda>uc. NO_MarkRead (uc_UserId uc) notificationID)"

definition NotificationService_Consent :: "UserContext option \<Rightarrow> int \<Rightarrow> ('m, unit) dbprog" where
  "NotificationService_Consent uCtx notificationID = authenticated uCtx (\<lambda>uc. NO_Consent (uc_UserId uc) notificationID)"

definition createAndBroadcastTx :: "string \<Rightarrow> string \<Rightarrow> bool \<Rightarrow> ('m, unit) dbprog" where
  "createAndBroadcastTx title body requiresConsent =
     bindM (NO_Create title body requiresConsent) (\<lambda>notificationId. NO_SnapshotRecipients notificationId)"

definition CreateAndBroadcast :: "string \<Rightarrow> string \<Rightarrow> bool \<Rightarrow> ('m, unit) dbprog" where
  "CreateAndBroadcast title body requiresConsent = tx_execute (createAndBroadcastTx title body requiresConsent)"

section \<open>Inboxes\<close>

text \<open>What happened: a broadcast to those who had an account, a user's reading of a notification, his consent to one.\<close>

datatype event = Sent NotificationRow "int list" | ReadBy int int | ConsentBy int int

definition unread :: "NotificationRow \<Rightarrow> Notification" where
  "unread n = NotificationRow.extend n \<lparr>n_IsRead = False, n_Consented = False\<rparr>"

fun delivered :: "int \<Rightarrow> event \<Rightarrow> Notification list \<Rightarrow> Notification list" where
  "delivered u (Sent n users) inbox = (if u \<in> set users then unread n # inbox else inbox)"
| "delivered u (ReadBy v i) inbox =
     (if v = u then List.map (\<lambda>n. if n_Id n = i then n\<lparr>n_IsRead := True\<rparr> else n) inbox else inbox)"
| "delivered u (ConsentBy v i) inbox =
     (if v = u then List.map (\<lambda>n. if n_Id n = i then n\<lparr>n_IsRead := True, n_Consented := True\<rparr> else n) inbox else inbox)"

datatype notification_call = Broadcast string string bool | MarkReadCall "UserContext option" int | ConsentCall "UserContext option" int

fun notification_run :: "notification_call \<Rightarrow> ('m, unit) dbprog" where
  "notification_run (Broadcast title body requiresConsent) = CreateAndBroadcast title body requiresConsent"
| "notification_run (MarkReadCall uCtx i) = NotificationService_MarkRead uCtx i"
| "notification_run (ConsentCall uCtx i) = NotificationService_Consent uCtx i"

fun event_of :: "notification_call \<Rightarrow> database \<Rightarrow> event list" where
  "event_of (Broadcast title body requiresConsent) d =
     [Sent \<lparr>n_Id = next_id (nt_Notifications (db_notifications d)), n_Title = title, n_BodyMarkdown = body,
        n_RequiresConsent = requiresConsent, n_CreatedAt = db_clock d\<rparr> (List.map ub_Id (rows (db_users d)))]"
| "event_of (MarkReadCall uCtx i) d = (case uCtx of Some uc \<Rightarrow> [ReadBy (uc_UserId uc) i] | None \<Rightarrow> [])"
| "event_of (ConsentCall uCtx i) d = (case uCtx of Some uc \<Rightarrow> [ConsentBy (uc_UserId uc) i] | None \<Rightarrow> [])"

text \<open>A sequence of calls, each later than the one before, with what happened.\<close>

fun notification_runs :: "(nat \<times> notification_call) list \<Rightarrow> (database, 'm) st \<Rightarrow> event list \<times> (database, 'm) st" where
  "notification_runs [] s = ([], s)"
| "notification_runs ((gap, call) # calls) s =
     (let (r, s1) = notification_run call (later gap s);
          (events, s2) = notification_runs calls s1
      in (if is_ok r then event_of call (dbase (later gap s)) @ events else events, s2))"

definition inbox_of :: "int \<Rightarrow> database \<Rightarrow> Notification list" where
  "inbox_of u d = rev (sort_key n_CreatedAt (no_of_user u (db_notifications d)))"

definition notifications_inv :: "database \<Rightarrow> bool" where
  "notifications_inv d \<longleftrightarrow> table_wf ub_Id (db_users d) \<and> table_wf n_Id (nt_Notifications (db_notifications d)) \<and>
     (\<forall>n \<in> set (rows (nt_Notifications (db_notifications d))). n_CreatedAt n \<le> db_clock d) \<and>
     (\<forall>r \<in> set (nt_Recipients (db_notifications d)). nr_NotificationId r \<in> n_Id ` set (rows (nt_Notifications (db_notifications d)))) \<and>
     distinct (List.map (\<lambda>r. (nr_NotificationId r, nr_UserId r)) (nt_Recipients (db_notifications d)))"

section \<open>What each call does to the inboxes\<close>

lemma shown_unread: "nr_ReadAt r = None \<Longrightarrow> nr_ConsentedAt r = None \<Longrightarrow> shown n r = unread n"
  by (cases n) (simp add: shown_def unread_def NotificationRow.extend_def)

lemma filter_one: "distinct us \<Longrightarrow> List.filter (\<lambda>u. u = v) us = (if v \<in> set us then [v] else [])"
  by (induction us) auto

definition broadcast :: "NotificationRow \<Rightarrow> int list \<Rightarrow> notification_tables \<Rightarrow> notification_tables" where
  "broadcast n users t = t\<lparr>nt_Notifications := tbl_insert (\<lambda>i r. r\<lparr>n_Id := i\<rparr>) n (nt_Notifications t),
     nt_Recipients := nt_Recipients t @
       List.map (\<lambda>u. \<lparr>nr_NotificationId = next_id (nt_Notifications t), nr_UserId = u, nr_ReadAt = None, nr_ConsentedAt = None\<rparr>) users\<rparr>"

lemma no_of_user_broadcast:
  assumes ids: "\<forall>n \<in> set (rows (nt_Notifications t)). n_Id n < next_id (nt_Notifications t)"
    and refs: "\<forall>r \<in> set (nt_Recipients t). nr_NotificationId r \<in> n_Id ` set (rows (nt_Notifications t))" and users: "distinct users"
  shows "no_of_user u (broadcast n users t) = no_of_user u t @
    (if u \<in> set users then [unread (n\<lparr>n_Id := next_id (nt_Notifications t)\<rparr>)] else [])"
proof -
  let ?i = "next_id (nt_Notifications t)"
  let ?new = "List.map (\<lambda>u. \<lparr>nr_NotificationId = ?i, nr_UserId = u, nr_ReadAt = None, nr_ConsentedAt = None\<rparr>) users"
  have old: "List.filter (\<lambda>r. nr_NotificationId r = n_Id m \<and> nr_UserId r = u) (nt_Recipients t @ ?new) =
      List.filter (\<lambda>r. nr_NotificationId r = n_Id m \<and> nr_UserId r = u) (nt_Recipients t)" if "m \<in> set (rows (nt_Notifications t))" for m
    using ids that by (auto simp: filter_empty_conv)
  have none: "List.filter (\<lambda>r. nr_NotificationId r = ?i \<and> nr_UserId r = u) (nt_Recipients t) = []"
    using ids refs by (force simp: filter_empty_conv)
  have "List.map (shown (n\<lparr>n_Id := ?i\<rparr>)) (List.filter (\<lambda>r. nr_NotificationId r = ?i \<and> nr_UserId r = u) ?new) =
      (if u \<in> set users then [unread (n\<lparr>n_Id := ?i\<rparr>)] else [])"
    using users by (simp add: filter_map comp_def filter_one shown_unread)
  then show ?thesis
    using old none by (simp add: no_of_user_def broadcast_def cong: map_cong)
qed

lemma no_of_user_map:
  assumes "\<And>r. nr_NotificationId (f r) = nr_NotificationId r" "\<And>r. nr_UserId (f r) = nr_UserId r"
    and "\<And>n r. nr_NotificationId r = n_Id n \<Longrightarrow> nr_UserId r = u \<Longrightarrow> shown n (f r) = g (shown n r)"
  shows "no_of_user u (t\<lparr>nt_Recipients := List.map f (nt_Recipients t)\<rparr>) = List.map g (no_of_user u t)"
  using assms
  by (auto simp: no_of_user_def filter_map comp_def map_concat intro!: arg_cong[where f = concat] map_cong)

lemma no_of_user_MarkRead:
  "no_of_user u (no_MarkRead now v i t) =
    (if v = u then List.map (\<lambda>n. if n_Id n = i then n\<lparr>n_IsRead := True\<rparr> else n) (no_of_user u t) else no_of_user u t)"
proof (cases "v = u")
  case True
  then show ?thesis unfolding no_MarkRead_def
    by (subst no_of_user_map[where g = "\<lambda>n. if n_Id n = i then n\<lparr>n_IsRead := True\<rparr> else n"]) (auto simp: shown_def)
next
  case False
  then show ?thesis unfolding no_MarkRead_def by (subst no_of_user_map[where g = id]) auto
qed

lemma no_of_user_Consent:
  "no_of_user u (no_Consent now v i t) = (if v = u
    then List.map (\<lambda>n. if n_Id n = i then n\<lparr>n_IsRead := True, n_Consented := True\<rparr> else n) (no_of_user u t) else no_of_user u t)"
proof (cases "v = u")
  case True
  then show ?thesis unfolding no_Consent_def
    by (subst no_of_user_map[where g = "\<lambda>n. if n_Id n = i then n\<lparr>n_IsRead := True, n_Consented := True\<rparr> else n"])
      (auto simp: shown_def split: option.split)
next
  case False
  then show ?thesis unfolding no_Consent_def by (subst no_of_user_map[where g = id]) auto
qed

lemma sum_over_keys:
  assumes "distinct (List.map key ns)" "\<forall>r \<in> set rs. ref r \<in> key ` set ns"
  shows "(\<Sum>n\<leftarrow>ns. length (List.filter (\<lambda>r. ref r = key n \<and> P r) rs)) = length (List.filter P rs)"
  using assms(2)
proof (induction rs)
  case (Cons r rs)
  have one: "(\<Sum>n\<leftarrow>ns. if k = key n then 1 else 0) = (if k \<in> key ` set ns then (1::nat) else 0)" for k
    using assms(1) by (induction ns) auto
  have "length (List.filter (\<lambda>x. ref x = key n \<and> P x) (r # rs)) =
      (if P r then (if ref r = key n then 1 else 0) else 0) + length (List.filter (\<lambda>x. ref x = key n \<and> P x) rs)" for n
    by simp
  then show ?case using Cons one[of "ref r"] by (simp add: sum_list_addf)
qed simp

lemma unread_count:
  assumes "notifications_inv d"
  shows "no_GetUnreadCount u (db_notifications d) = int (length (List.filter (\<lambda>n. \<not> n_IsRead n) (inbox_of u d)))"
proof -
  let ?t = "db_notifications d"
  have "length (List.filter (\<lambda>n. \<not> n_IsRead n) (no_of_user u ?t)) =
      (\<Sum>n\<leftarrow>rows (nt_Notifications ?t). length (List.filter (\<lambda>r. nr_NotificationId r = n_Id n \<and> nr_UserId r = u \<and> nr_ReadAt r = None)
        (nt_Recipients ?t)))"
    by (simp add: no_of_user_def filter_concat length_concat comp_def filter_map shown_def conj_ac)
  also have "\<dots> = length (List.filter (\<lambda>r. nr_UserId r = u \<and> nr_ReadAt r = None) (nt_Recipients ?t))"
    using assms by (intro sum_over_keys) (auto simp: notifications_inv_def table_wf_def)
  finally show ?thesis
    by (simp add: no_GetUnreadCount_def inbox_of_def rev_filter[symmetric] filter_sort)
qed

section \<open>What users are shown\<close>

lemma on_notifications_Ok:
  "on_notifications f s = (Ok a, s') \<longleftrightarrow> \<not> next_fault s \<and> fst (f (db_clock (dbase s)) (db_notifications (dbase s))) = Ok a \<and>
     s' = s\<lparr>faults := tl (faults s), dbase := (dbase s)\<lparr>db_notifications := snd (f (db_clock (dbase s)) (db_notifications (dbase s)))\<rparr>\<rparr>"
  by (cases "f (db_clock (dbase s)) (db_notifications (dbase s))") (auto simp: on_notifications_def dbcall_cases)

text \<open>What a successful call does to the tables.\<close>

fun called :: "notification_call \<Rightarrow> database \<Rightarrow> notification_tables" where
  "called (Broadcast title body requiresConsent) d = broadcast \<lparr>n_Id = 0, n_Title = title, n_BodyMarkdown = body,
     n_RequiresConsent = requiresConsent, n_CreatedAt = db_clock d\<rparr> (List.map ub_Id (rows (db_users d))) (db_notifications d)"
| "called (MarkReadCall uCtx i) d = no_MarkRead (db_clock d) (uc_UserId (the uCtx)) i (db_notifications d)"
| "called (ConsentCall uCtx i) d = no_Consent (db_clock d) (uc_UserId (the uCtx)) i (db_notifications d)"

lemma dbcall_db:
  "dbcall f s = (r, s') \<Longrightarrow>
    r = Err ErrStorageFailure \<and> dbase s' = dbase s \<or> r = fst (f (dbase s)) \<and> dbase s' = snd (f (dbase s))"
  by (auto simp: dbcall_cases)

lemma NO_Create_Ok:
  assumes "NO_Create title body requiresConsent s = (Ok i, s')"
  shows "i = next_id (nt_Notifications (db_notifications (dbase s))) \<and> dbase s' = (dbase s)\<lparr>db_notifications :=
    (db_notifications (dbase s))\<lparr>nt_Notifications := tbl_insert (\<lambda>i r. r\<lparr>n_Id := i\<rparr>) \<lparr>n_Id = 0, n_Title = title,
      n_BodyMarkdown = body, n_RequiresConsent = requiresConsent, n_CreatedAt = db_clock (dbase s)\<rparr>
      (nt_Notifications (db_notifications (dbase s)))\<rparr>\<rparr>"
  using assms by (simp add: NO_Create_def no_Create_def on_notifications_Ok)

lemma NO_Snapshot_Ok:
  assumes "NO_SnapshotRecipients i s = (Ok (), s')"
  shows "dbase s' = (dbase s)\<lparr>db_notifications := (db_notifications (dbase s))\<lparr>nt_Recipients := nt_Recipients (db_notifications (dbase s)) @
    List.map (\<lambda>u. \<lparr>nr_NotificationId = i, nr_UserId = u, nr_ReadAt = None, nr_ConsentedAt = None\<rparr>)
      (List.map ub_Id (rows (db_users (dbase s))))\<rparr>\<rparr>"
proof -
  obtain r t where c: "no_SnapshotRecipients (List.map ub_Id (rows (db_users (dbase s)))) i (db_notifications (dbase s)) = (r, t)"
    by (rule prod.exhaust)
  have "Ok () = r \<and> dbase s' = (dbase s)\<lparr>db_notifications := t\<rparr>"
    using dbcall_db[OF assms[unfolded NO_SnapshotRecipients_def], unfolded c prod.case fst_conv snd_conv] by (metis outcome.distinct(1))
  moreover have "t = (db_notifications (dbase s))\<lparr>nt_Recipients := nt_Recipients (db_notifications (dbase s)) @
    List.map (\<lambda>u. \<lparr>nr_NotificationId = i, nr_UserId = u, nr_ReadAt = None, nr_ConsentedAt = None\<rparr>)
      (List.map ub_Id (rows (db_users (dbase s))))\<rparr>" if "r = Ok ()"
    using c that unfolding no_SnapshotRecipients_def by (metis (no_types, lifting) outcome.distinct(1) prod.inject)
  ultimately show ?thesis by metis
qed

lemma notification_run_cases:
  assumes "notification_run call s = (r, s')"
  shows "is_ok r \<and> dbase s' = (dbase s)\<lparr>db_notifications := called call (dbase s)\<rparr> \<and>
      (\<forall>uCtx i. call \<in> {MarkReadCall uCtx i, ConsentCall uCtx i} \<longrightarrow> uCtx \<noteq> None) \<or> \<not> is_ok r \<and> dbase s' = dbase s"
proof (cases call)
  case (Broadcast title body requiresConsent)
  show ?thesis
  proof (cases "is_ok r")
    case True
    then obtain s2 where s2: "createAndBroadcastTx title body requiresConsent (s\<lparr>faults := tl (faults s)\<rparr>) = (Ok (), s2)" "dbase s' = dbase s2"
      using assms Broadcast by (cases r) (auto simp: CreateAndBroadcast_def tx_execute_Ok)
    then obtain i s1 where create: "NO_Create title body requiresConsent (s\<lparr>faults := tl (faults s)\<rparr>) = (Ok i, s1)"
        and snapshot: "NO_SnapshotRecipients i s1 = (Ok (), s2)"
      by (auto simp: createAndBroadcastTx_def bindM_eq_Ok)
    have "dbase s2 = (dbase s)\<lparr>db_notifications := called call (dbase s)\<rparr>"
      using NO_Create_Ok[OF create] NO_Snapshot_Ok[OF snapshot] by (simp add: Broadcast broadcast_def)
    then show ?thesis using True s2(2) Broadcast by simp
  next
    case False
    then show ?thesis using assms Broadcast tx_execute_atomic by (auto simp: CreateAndBroadcast_def)
  qed
next
  case (MarkReadCall uCtx i)
  show ?thesis
  proof (cases uCtx)
    case (Some uc)
    then show ?thesis
      using dbcall_db[of _ s r s'] assms MarkReadCall
      by (fastforce simp: NotificationService_MarkRead_def authenticated_def NO_MarkRead_def on_notifications_def)
  qed (use assms MarkReadCall in \<open>auto simp: NotificationService_MarkRead_def authenticated_def\<close>)
next
  case (ConsentCall uCtx i)
  show ?thesis
  proof (cases uCtx)
    case (Some uc)
    then show ?thesis
      using dbcall_db[of _ s r s'] assms ConsentCall
      by (fastforce simp: NotificationService_Consent_def authenticated_def NO_Consent_def on_notifications_def)
  qed (use assms ConsentCall in \<open>auto simp: NotificationService_Consent_def authenticated_def\<close>)
qed

lemma inv_map:
  assumes "notifications_inv d" "\<And>r. nr_NotificationId (f r) = nr_NotificationId r" "\<And>r. nr_UserId (f r) = nr_UserId r"
  shows "notifications_inv (d\<lparr>db_notifications := (db_notifications d)\<lparr>nt_Recipients := List.map f (nt_Recipients (db_notifications d))\<rparr>\<rparr>)"
  using assms by (simp add: notifications_inv_def comp_def)

lemma inv_broadcast:
  assumes "notifications_inv d" "n_CreatedAt n \<le> db_clock d"
  shows "notifications_inv (d\<lparr>db_notifications := broadcast n (List.map ub_Id (rows (db_users d))) (db_notifications d)\<rparr>)"
proof -
  let ?t = "db_notifications d" and ?users = "List.map ub_Id (rows (db_users d))"
  let ?i = "next_id (nt_Notifications ?t)"
  have users: "distinct ?users" and wf: "table_wf n_Id (nt_Notifications ?t)"
    using assms(1) by (auto simp: notifications_inv_def table_wf_def)
  have refs: "nr_NotificationId r \<in> n_Id ` set (rows (nt_Notifications ?t))" if "r \<in> set (nt_Recipients ?t)" for r
    using assms(1) that by (auto simp: notifications_inv_def table_wf_def)
  have "?i \<notin> n_Id ` set (rows (nt_Notifications ?t))" using wf by (auto simp: table_wf_def)
  moreover have "distinct (List.map (\<lambda>u. (?i, u)) ?users)" using users by (simp add: distinct_map inj_on_def)
  ultimately have "distinct (List.map (\<lambda>r. (nr_NotificationId r, nr_UserId r)) (nt_Recipients (broadcast n ?users ?t)))"
    using assms(1) refs by (auto simp: broadcast_def notifications_inv_def comp_def dest!: refs)
  then show ?thesis
    using assms notification_rows.wf_insert[OF wf, of n]
    by (auto simp: notifications_inv_def broadcast_def)
qed

lemma called_inv: "notifications_inv d \<Longrightarrow> notifications_inv (d\<lparr>db_notifications := called call d\<rparr>)"
  by (cases call) (auto simp: no_MarkRead_def no_Consent_def intro!: inv_map inv_broadcast split: option.split)

lemma called_inbox:
  assumes inv: "notifications_inv d" and uc: "\<forall>uCtx i. call \<in> {MarkReadCall uCtx i, ConsentCall uCtx i} \<longrightarrow> uCtx \<noteq> None"
  shows "inbox_of u (d\<lparr>db_notifications := called call d\<rparr>) = fold (delivered u) (event_of call d) (inbox_of u d)"
proof (cases call)
  case (Broadcast title body requiresConsent)
  let ?n = "\<lparr>n_Id = 0, n_Title = title, n_BodyMarkdown = body, n_RequiresConsent = requiresConsent, n_CreatedAt = db_clock d\<rparr>"
  have "no_of_user u (called call d) = no_of_user u (db_notifications d) @ (if u \<in> set (List.map ub_Id (rows (db_users d)))
      then [unread (?n\<lparr>n_Id := next_id (nt_Notifications (db_notifications d))\<rparr>)] else [])"
    unfolding Broadcast called.simps using inv by (intro no_of_user_broadcast) (auto simp: notifications_inv_def table_wf_def)
  moreover have "n_CreatedAt x \<le> db_clock d" if "x \<in> set (no_of_user u (db_notifications d))" for x
    using that inv by (auto simp: no_of_user_def notifications_inv_def shown_def)
  ultimately show ?thesis
    using Broadcast by (auto simp: inbox_of_def sort_key_snoc unread_def NotificationRow.extend_def)
next
  case (MarkReadCall uCtx i)
  then show ?thesis using uc by (auto simp: inbox_of_def no_of_user_MarkRead sort_key_map rev_map)
next
  case (ConsentCall uCtx i)
  then show ?thesis using uc by (auto simp: inbox_of_def no_of_user_Consent sort_key_map rev_map)
qed

lemma later_inbox [simp]:
  "inbox_of u (dbase (later gap s)) = inbox_of u (dbase s)" "notifications_inv (dbase s) \<Longrightarrow> notifications_inv (dbase (later gap s))"
  by (auto simp: inbox_of_def later_def notifications_inv_def)

lemma runs_inbox:
  "notifications_inv (dbase s) \<Longrightarrow> notification_runs calls s = (events, s') \<Longrightarrow>
   notifications_inv (dbase s') \<and> inbox_of u (dbase s') = fold (delivered u) events (inbox_of u (dbase s))"
proof (induction calls arbitrary: s events s')
  case (Cons c calls)
  obtain gap call where c: "c = (gap, call)" by (cases c)
  obtain r s1 where r: "notification_run call (later gap s) = (r, s1)" by fastforce
  obtain events' s2 where l: "notification_runs calls s1 = (events', s2)" by fastforce
  have inv: "notifications_inv (dbase (later gap s))" using Cons.prems(1) by simp
  have step: "notifications_inv (dbase s1) \<and> inbox_of u (dbase s1) =
      fold (delivered u) (if is_ok r then event_of call (dbase (later gap s)) else []) (inbox_of u (dbase s))"
    using notification_run_cases[OF r] called_inv[OF inv, of call] called_inbox[OF inv, of call u] inv by auto
  have "events = (if is_ok r then event_of call (dbase (later gap s)) else []) @ events'" "s' = s2"
    using Cons.prems(2) r l unfolding c by (auto split: if_splits)
  then show ?case using Cons.IH[OF conjunct1[OF step] l] step by simp
qed simp

text \<open>C40: What a user is shown is his inbox.  After any sequence of broadcasts and of users' readings and consents, with whatever failures on the
way, a page of a user's notifications (its limit and offset narrowed to 32 bits, as the code does: a limit of \<open>2 ^ 32 + 5\<close>
shows five, and a page is only shown when neither is negative then), their total and the number of unread ones in his summary are those of an inbox that
started with his notifications and to which the successful calls happened: a broadcast is put in front, unread, when he had
an account then; his own reading marks one read; his own consent marks one read and consented.  What other users do changes nothing in it, and a
failed broadcast reaches nobody.\<close>
theorem notifications_refine_inboxes:
  assumes "notifications_inv (dbase s)" "notification_runs calls s = (events, s')"
    and list: "NotificationService_List (Some uc) limit offset s' = (Ok (page, number), s1)"
    and summary: "GetSummary (Some uc) s' = (Ok n, s2)"
  shows "let inbox = fold (delivered (uc_UserId uc)) events (inbox_of (uc_UserId uc) (dbase s)) in
    0 \<le> int32_of limit \<and> 0 \<le> int32_of offset \<and>
    page = take (nat (int32_of limit)) (drop (nat (int32_of offset)) inbox) \<and> number = int (length inbox) \<and>
    n = int (length (List.filter (\<lambda>m. \<not> n_IsRead m) inbox))"
proof -
  let ?u = "uc_UserId uc"
  have inv: "notifications_inv (dbase s')" and inbox: "inbox_of ?u (dbase s') = fold (delivered ?u) events (inbox_of ?u (dbase s))"
    using runs_inbox[OF assms(1,2)] by auto
  obtain s3 where page: "NO_List ?u limit offset s' = (Ok page, s3)"
      and counted: "bindM (query (\<lambda>d. no_Count ?u (db_notifications d))) (\<lambda>number. returnM (page, number)) s3 = (Ok (page, number), s1)"
    using list by (auto simp: NotificationService_List_def authenticated_def bindM_eq_Ok[of "NO_List ?u limit offset"] bindM_eq_Ok)
  have s3: "0 \<le> int32_of limit" "0 \<le> int32_of offset"
    "page = take (nat (int32_of limit)) (drop (nat (int32_of offset)) (inbox_of ?u (dbase s')))" "db_notifications (dbase s3) = db_notifications (dbase s')"
    using page by (auto simp: NO_List_def on_notifications_Ok no_List_def inbox_of_def split: if_splits)
  moreover have "number = int (length (inbox_of ?u (dbase s')))"
    using counted s3(4) by (auto simp: bindM_eq_Ok query_cases no_Count_def inbox_of_def split: if_splits)
  moreover have "n = int (length (List.filter (\<lambda>m. \<not> n_IsRead m) (inbox_of ?u (dbase s'))))"
    using summary unread_count[OF inv] by (auto simp: GetSummary_def authenticated_def query_cases split: if_splits)
  ultimately show ?thesis by (simp add: inbox)
qed

definition ex_two_users :: "(database, unit) st" where
  "ex_two_users = ex_empty\<lparr>dbase := empty_database\<lparr>db_users := \<lparr>rows =
     [\<lparr>ub_Id = 1, ub_Username = ''a'', ub_PhotoUrl = None, ub_LikedPlaylistId = None\<rparr>, \<lparr>ub_Id = 2, ub_Username = ''b'', ub_PhotoUrl = None, ub_LikedPlaylistId = None\<rparr>],
     next_id = 3\<rparr>\<rparr>\<rparr>"

lemma ex_notifications_run:
  "\<exists>s'. notification_runs [(0, Broadcast ''t'' ''x'' False), (1, Broadcast ''u'' ''y'' True), (0, ConsentCall (ex_caller 1) 2),
     (0, MarkReadCall (ex_caller 2) 1)] ex_two_users =
     ([Sent \<lparr>n_Id = 1, n_Title = ''t'', n_BodyMarkdown = ''x'', n_RequiresConsent = False, n_CreatedAt = 1\<rparr> [1, 2],
       Sent \<lparr>n_Id = 2, n_Title = ''u'', n_BodyMarkdown = ''y'', n_RequiresConsent = True, n_CreatedAt = 3\<rparr> [1, 2],
       ConsentBy 1 2, ReadBy 2 1], s') \<and> faults s' = []"
  by (simp add: CreateAndBroadcast_def tx_execute_def next_fault_def Let_def createAndBroadcastTx_def NO_Create_def no_Create_def
      on_notifications_def bindM_def NO_SnapshotRecipients_def no_SnapshotRecipients_def tbl_find_def later_def ex_two_users_def ex_empty_def
      empty_database_def empty_notifications_def empty_table_def NotificationService_Consent_def NotificationService_MarkRead_def
      authenticated_def ex_caller_def NO_Consent_def NO_MarkRead_def)

theorem notifications_refine_inboxes_witness:
  "\<exists>s' events page s1 s2. notification_runs [(0, Broadcast ''t'' ''x'' False), (1, Broadcast ''u'' ''y'' True), (0, ConsentCall (ex_caller 1) 2),
     (0, MarkReadCall (ex_caller 2) 1)] ex_two_users = (events, s') \<and>
   NotificationService_List (ex_caller 1) 10 0 s' = (Ok (page, 2), s1) \<and> GetSummary (ex_caller 1) s' = (Ok 1, s2) \<and>
   List.map n_Id page = [2, 1] \<and> List.map n_IsRead page = [True, False]"
proof -
  let ?uc = "\<lparr>uc_UserId = 1, uc_Permissions = zero_permissions\<rparr>"
  obtain s' where run: "notification_runs [(0, Broadcast ''t'' ''x'' False), (1, Broadcast ''u'' ''y'' True), (0, ConsentCall (ex_caller 1) 2),
     (0, MarkReadCall (ex_caller 2) 1)] ex_two_users =
     ([Sent \<lparr>n_Id = 1, n_Title = ''t'', n_BodyMarkdown = ''x'', n_RequiresConsent = False, n_CreatedAt = 1\<rparr> [1, 2],
       Sent \<lparr>n_Id = 2, n_Title = ''u'', n_BodyMarkdown = ''y'', n_RequiresConsent = True, n_CreatedAt = 3\<rparr> [1, 2],
       ConsentBy 1 2, ReadBy 2 1], s')" "faults s' = []"
    using ex_notifications_run by blast
  have inv: "notifications_inv (dbase ex_two_users)"
    by (simp add: notifications_inv_def ex_two_users_def ex_empty_def empty_database_def empty_notifications_def table_wf_def)
      (simp add: empty_table_def)
  have start: "inbox_of 1 (dbase ex_two_users) = []"
    by (simp add: inbox_of_def no_of_user_def ex_two_users_def ex_empty_def empty_database_def empty_notifications_def empty_table_def)
  obtain page number s1 n s2 where answers: "NotificationService_List (Some ?uc) 10 0 s' = (Ok (page, number), s1)"
      "GetSummary (Some ?uc) s' = (Ok n, s2)"
    using run(2) by (simp add: NotificationService_List_def GetSummary_def authenticated_def NO_List_def on_notifications_def
        no_List_def int32_of_def bindM_def case_prod_beta)
  note shown = notifications_refine_inboxes[OF inv run(1) answers]
  have "page = [\<lparr>n_Id = 2, n_Title = ''u'', n_BodyMarkdown = ''y'', n_RequiresConsent = True, n_CreatedAt = 3, n_IsRead = True, n_Consented = True\<rparr>,
      \<lparr>n_Id = 1, n_Title = ''t'', n_BodyMarkdown = ''x'', n_RequiresConsent = False, n_CreatedAt = 1, n_IsRead = False, n_Consented = False\<rparr>]"
    "number = 2" "n = 1"
    using shown by (simp_all add: start Let_def int32_of_def unread_def NotificationRow.extend_def)
  with run(1) answers show ?thesis unfolding ex_caller_def by fastforce
qed

end
