(* ===== verification/Spec2Isabelle.thy ===== *)
theory Spec2Isabelle
  imports PathSafety AudioFormat JobQueue UploadPipeline AtomicCopy TorrentLifecycle AudioParsers FilePlacement DriveContent StorageInvariants FileService AuthMiddleware PlaylistSongs Notifications
begin

text \<open>
  A verification development of the zpotify backend (Go, src/internal): a private music library whose users upload
  audio and cover files, submit torrents that are imported as files, and whose administrators attach remote storages.

  \<^bold>\<open>How the program works.\<close>  A request reaches a service (internal/service/v1) with the caller in its context
  (internal/middleware/user_context).  Services keep rows in Postgres through internal/storage/pg, and file contents on
  the local disk or in a remote storage through internal/storage/file_storage_providers.  Slow work is a row of the jobs table,
  claimed by the worker of internal/async/provider/pgqueue and handled by internal/async/handlers.  A torrent upload lives in the
  memory of the torrent service until it is submitted as a job; internal/background/torrent_sync follows the jobs, tells watchers
  through a broadcaster, and has a complete torrent imported through the same upload pipeline a direct upload takes.

  \<^bold>\<open>How it is modelled.\<close>  An operation is a function from a state to an outcome (a value, one of the program's error
  values, or a panic) and a new state (Prelude).  The state of a service has the database (which a transaction
  restores when it fails), what it keeps in memory and on disk (which a transaction does not), and a schedule of faults: one boolean for
  each database or disk call, True when that call fails.  A theorem about all states is a theorem about all
  schedules of failures.  One service operation runs without interruption by another; where the code allows an interleaving
  that matters (timers and goroutines of the magnet cache, job updates, steps of a file copy, a crash), the steps are operations of
  their own and the theorem is about sequences of them.  An int64 is an integer kept in range by i64 where the code adds or
  multiplies; uint32 and uint64 fields of media files are words.  A Go string is the list of its bytes.

  \<^bold>\<open>Theories\<close>, from the bottom:
  \<^item> Prelude: outcomes, errors (service_errors, user_errors, storage), int64 arithmetic, state-passing programs and the rules
    (keeps, hoare, triple) that carry invariants through them.
  \<^item> GoStrings, GoPath, GoJson: the functions of strings, strconv, path, path/filepath and encoding/json the code calls.
  \<^item> PathSafety (utils/path_safety.go), AudioFormat (the extension checks of audio_parsers and file_service.go),
    AudioParsers (audio_parsers/*.go, byte by byte).
  \<^item> Tables: rows with a serial key; its locale keyed_rows is interpreted for files, jobs, torrent jobs and songs.
    FileStore, JobStore, TorrentStore, StorageRows, Users: the tables behind storage/pg/*.go, each operation with the SQL of its query,
    constraints included.  Database puts them together: foreign keys, cascades, the clock, and the invariant db_inv.
  \<^item> LocalStorage (file_storage_providers/storage.go) and AtomicCopy (the steps of copyFileAtomic and of
    LocalContentStorage.Put, with a crash after any of them); ContentStore (local_content.go and the interface ContentStorage: the
    locale content_storage, interpreted on the local provider); RemoteContent (s3/s3.go and webdav/webdav.go; the S3 provider keeps the contract of the locale); DriveContent (gdrive/gdrive.go, one
    instance with its cache of file ids; behind the registry its operations stay an argument); Registry (registry.go); RelPaths (paths of safe segments).
  \<^item> UploadPipeline (upload_pipeline.go): staging, limits, deduplication by hash, naming, registration.
  \<^item> JobQueue (pgqueue/provider.go), FilePlacement (file_placement.go, the garbage collector, the audio parse handler).
  \<^item> StorageConfigs (domain/storage.go, storage_config, secretbox, the configuration rules of storage_service.go).
  \<^item> TorrentClient (torrent_client.go, torrent_magnet_uri.go over the bittorrent library), TorrentPaths, ImportLog (domain/torrent.go),
    Broadcaster (torrent_sync/broadcaster.go), TorrentState and TorrentUploads (torrent_files.go), TorrentInvariants,
    TorrentJobs (torrent_service.go), TorrentSync (torrent_sync/task.go), TorrentLosses (what cancelling,
    deleting and importing a job take from pending magnets), TorrentLifecycle (sequences of all of these).
  \<^item> OauthState (storage_oauth_state.go: base64, signing, verifying), StorageService (storage_service.go, the Google Drive callback),
    StorageInvariants (sequences of its calls, what clients see of secrets, edits).
  \<^item> FileService (file_service.go and the upload endpoint, transport/wapi/upload.go).
  \<^item> AccountStore and PlaylistStore (the rows of users, identities, sessions, settings and playlists); AuthService (service/v1/auth, the
    id token check of clients/telegram/oidc.go, user_service.go, the grant buttons of the bot), AuthRefinement (sequences of sign-ins,
    refreshes, logouts, grants and sweeps against the specification in terms of the answers clients got), AuthMiddleware
    (middleware/auth_interceptor.go).
  \<^item> PlaylistService (playlist_service.go over storage/pg/playlist.go), PlaylistInvariants (the locale playlist_invariant: what every
    table operation of the service must keep, carried through sequences of its calls; interpreted on the content of one playlist),
    PlaylistTypes (interpreted on the well-formedness of the tables), PlaylistSongs (batches and orders).  CatalogStore and
    HistoryStore: the rows of artists, songs, search histories and notifications.
  \<^item> SearchHistory (search_history_service.go) and Notifications (notification_service.go), each against a specification as a list.
  \<^bold>\<open>What is shown.\<close>  Uploads: the path chosen for a file is free, no failure on the way overwrites or removes a file that
  a row names, and what a successful upload leaves behind.  Disk: a copy is all or nothing at every crash point.  Jobs: a claim is
  exclusive, every handler outcome is recorded, the backoff is bounded.  Torrents: no path leaves its directory, selections set exactly
  the piece priorities they name, magnets stay registered with the client while they wait unless a
  job on their info hash is released, uploads are single use and owner only, a job is imported
  exactly when it is complete.  Parsers: what a well-formed stream gives, and which malformed ones panic.  Stored text: import
  logs and storage configurations are read back as written.  Placing a file moves its content and its row.  The theorems that
  state a defect (they are listed as findings beside the manifest) say so in their text.
  Storages: every sequence of administrators' calls, callbacks and lookups keeps the tables well formed, exactly one default, every configuration
  readable, and the provider cache invisible; no answer depends on a stored secret; a consent state cannot be edited.  Users' files: no
  sequence of calls of others touches a file, nor any of its owner's but a deletion.  Sign-in: an access token authenticates exactly
  while the session it was issued with is neither expired nor ended, and a request runs only as the user of its token, with his permissions.
  Playlists: calls of users without a permission on a playlist leave it as it is, the tables stay well typed, a batch of songs is its
  songs one by one, and the order that was set is the order that is listed.
  Search histories and notifications: whatever sequence of calls succeeds or fails, a user's history is the list of at most five entries, and
  what he is shown of notifications the inbox, that his own successful calls and the broadcasts make of it.
  \<^bold>\<open>Parameters and hypotheses.\<close>  Code that is not in the repository is an argument: the bittorrent client (client_laws: a torrent is
  found by the hash it was added under), the calls of the S3 client (s3_laws: what they are documented to do), the exchange of HTTP requests with WebDAV servers, AES-GCM and
  SHA-256 (aead_laws: opening what was sealed gives the plain text, and the nonce and tag sizes), UUID printing and parsing (uuid_laws), the MP3 frame
  decoder, the image decoder, random tokens.  Each hypothesis is instantiated by a concrete function in a witness.

  \<^bold>\<open>Bounds and fuel.\<close>  The JSON reader takes the length of its input as fuel; every call consumes a byte, so it is enough (GoJson).
  The MP3 decoding loop takes the list of decoder events; the theorem about it says which streams make it end.
  Everything else is structural recursion or has a termination proof.

  \<^bold>\<open>Not modelled.\<close>  Generated code (internal/api, storage/pg/generated): stubs without logic of their own; the queries it wraps
  are modelled where a service uses them.  The transports (mapping of messages), configuration, logging and tracing.  The network
  clients (Telegram, Prowlarr): protocols of others' services; the model has them as parameters.  The songs and artists services.
  Wall-clock deadlines of connections.  Two service operations at the same time, beyond the interleavings named above.
  Foreign keys to users are checked where the caller is not known to have a row.  Times are exact: Postgres rounds the nanoseconds of the code to
  microseconds.  Service and database share one clock.
\<close>

end
